(* ===== verification/Prelude.thy ===== *)
theory Prelude
  imports Main "HOL-Library.Word"
begin

text \<open>
  What every component of the model shares.

  \<^item> The machine integers of the code are words of their width (\<open>u8\<close>, \<open>u16\<close>, \<open>u32\<close>, \<open>u64\<close>).
    The service is built with \<^verbatim>\<open>cargo build --release\<close> (README.md), so arithmetic wraps and a shift
    distance is taken modulo the width, as words do here; \<open>usize\<close> values are natural numbers, and
    the places where a subtraction on them could wrap are written out.
  \<^item> \<open>outcome\<close> is what a Rust function of type \<^verbatim>\<open>anyhow::Result<T>\<close> can do: return \<^verbatim>\<open>Ok\<close>, return
    \<^verbatim>\<open>Err\<close>, or stop its thread (a panic, or a loop that never ends). \<open>andThen\<close> is the \<^verbatim>\<open>?\<close> operator.
  \<^item> \<open>index\<close>, \<open>slice\<close> and \<open>slice_from\<close> are \<^verbatim>\<open>v[i]\<close>, \<^verbatim>\<open>v[a..b]\<close> and \<^verbatim>\<open>v[a..]\<close>, with Rust's panics.
  \<^item> \<open>chunks\<close> is \<^verbatim>\<open>slice::chunks\<close>, \<open>traverse\<close> a \<^verbatim>\<open>map\<close> whose closure may fail, \<open>u16_le\<close> and
    \<open>u16_to_le\<close> are \<^verbatim>\<open>u16::from_le_bytes\<close> and \<^verbatim>\<open>to_le_bytes\<close>, and so on for \<open>u32\<close>.
  The collection \<open>run\<close> holds the equations that execute such code symbolically.
\<close>

unbundle bit_operations_syntax

named_theorems run \<open>equations that execute the fallible primitives\<close>

section \<open>Machine integers\<close>

type_synonym u8 = "8 word"
type_synonym u16 = "16 word"
type_synonym u32 = "32 word"
type_synonym u64 = "64 word"

section \<open>Outcomes of fallible code\<close>

datatype fault =
    IndexOutOfBounds
  | SliceOutOfRange
  | UnwrapOnNone
  | UnwrapOnErr
  | ExpectFailed
  | LengthMismatch
  | UnreachableCode
  | TodoCode
  | NeverReturns

datatype ('e, 'a) outcome = Ok 'a | Err 'e | Panic fault

fun andThen :: "('e, 'a) outcome \<Rightarrow> ('a \<Rightarrow> ('e, 'b) outcome) \<Rightarrow> ('e, 'b) outcome" where
  "andThen (Ok x) k = k x"
| "andThen (Err e) k = Err e"
| "andThen (Panic p) k = Panic p"

definition ensure :: "bool \<Rightarrow> 'e \<Rightarrow> ('e, unit) outcome" where
  "ensure c e = (if c then Ok () else Err e)"

text \<open>\<^verbatim>\<open>Result::unwrap\<close> and \<^verbatim>\<open>Option::unwrap\<close>.\<close>

fun unwrap :: "('e, 'a) outcome \<Rightarrow> ('e, 'a) outcome" where
  "unwrap (Ok x) = Ok x"
| "unwrap (Err e) = Panic UnwrapOnErr"
| "unwrap (Panic p) = Panic p"

fun unwrap_option :: "'a option \<Rightarrow> ('e, 'a) outcome" where
  "unwrap_option (Some x) = Ok x"
| "unwrap_option None = Panic UnwrapOnNone"

fun is_ok :: "('e, 'a) outcome \<Rightarrow> bool" where
  "is_ok (Ok x) = True"
| "is_ok (Err e) = False"
| "is_ok (Panic p) = False"

fun panics :: "('e, 'a) outcome \<Rightarrow> bool" where
  "panics (Panic p) = True"
| "panics (Ok x) = False"
| "panics (Err e) = False"

lemma andThen_eq_Ok [simp]:
  "andThen m k = Ok y \<longleftrightarrow> (\<exists>x. m = Ok x \<and> k x = Ok y)"
  by (cases m) auto

lemma andThen_Ok_right [simp]: "andThen m Ok = m"
  by (cases m) auto

lemma andThen_assoc: "andThen (andThen m f) g = andThen m (\<lambda>x. andThen (f x) g)"
  by (cases m) auto

lemma panics_andThen [simp]:
  "panics (andThen m k) \<longleftrightarrow> panics m \<or> (\<exists>x. m = Ok x \<and> panics (k x))"
  by (cases m) auto

lemma is_ok_iff: "is_ok m \<longleftrightarrow> (\<exists>x. m = Ok x)"
  by (cases m) auto

lemma is_ok_andThen [simp]: "is_ok (andThen m k) \<longleftrightarrow> (\<exists>x. m = Ok x \<and> is_ok (k x))"
  by (cases m) auto

lemma ensure_eq_Ok [simp]: "ensure c e = Ok u \<longleftrightarrow> c"
  by (simp add: ensure_def)

lemma ensure_never_panics [simp]: "\<not> panics (ensure c e)"
  by (simp add: ensure_def)

lemma ensure_run [run]: "c \<Longrightarrow> ensure c e = Ok ()" "\<not> c \<Longrightarrow> ensure c e = Err e"
  by (simp_all add: ensure_def)

lemma ensure_const [simp]: "ensure True e = Ok ()" "ensure False e = Err e"
  by (simp_all add: ensure_def)

lemma unwrap_eq_Ok [simp]: "unwrap m = Ok x \<longleftrightarrow> m = Ok x"
  by (cases m) auto

lemma panics_unwrap [simp]: "panics (unwrap m) \<longleftrightarrow> \<not> is_ok m"
  by (cases m) auto

lemma unwrap_option_eq_Ok [simp]: "unwrap_option m = Ok x \<longleftrightarrow> m = Some x"
  by (cases m) auto

lemma panics_unwrap_option [simp]: "panics (unwrap_option m) \<longleftrightarrow> m = None"
  by (cases m) auto

section \<open>Indexing and slicing\<close>

definition index :: "'a list \<Rightarrow> nat \<Rightarrow> ('e, 'a) outcome" where
  "index xs i = (if i < length xs then Ok (xs ! i) else Panic IndexOutOfBounds)"

definition slice :: "'a list \<Rightarrow> nat \<Rightarrow> nat \<Rightarrow> ('e, 'a list) outcome" where
  "slice xs a b =
     (if a \<le> b \<and> b \<le> length xs then Ok (take (b - a) (drop a xs)) else Panic SliceOutOfRange)"

definition slice_from :: "'a list \<Rightarrow> nat \<Rightarrow> ('e, 'a list) outcome" where
  "slice_from xs a = (if a \<le> length xs then Ok (drop a xs) else Panic SliceOutOfRange)"

lemma index_run [run]: "i < length xs \<Longrightarrow> index xs i = Ok (xs ! i)"
  by (simp add: index_def)

lemma slice_run [run]:
  "a \<le> b \<Longrightarrow> b \<le> length xs \<Longrightarrow> slice xs a b = Ok (take (b - a) (drop a xs))"
  by (simp add: slice_def)

lemma slice_from_run [run]: "a \<le> length xs \<Longrightarrow> slice_from xs a = Ok (drop a xs)"
  by (simp add: slice_from_def)

lemma index_eq_Ok: "index xs i = Ok x \<longleftrightarrow> i < length xs \<and> x = xs ! i"
  by (auto simp: index_def)

lemma slice_eq_Ok:
  "slice xs a b = Ok ys \<longleftrightarrow> a \<le> b \<and> b \<le> length xs \<and> ys = take (b - a) (drop a xs)"
  by (auto simp: slice_def)

lemma slice_from_eq_Ok: "slice_from xs a = Ok ys \<longleftrightarrow> a \<le> length xs \<and> ys = drop a xs"
  by (auto simp: slice_from_def)

lemmas access_eq_Ok = index_eq_Ok slice_eq_Ok slice_from_eq_Ok

lemma panics_index [simp]: "panics (index xs i) \<longleftrightarrow> \<not> i < length xs"
  by (simp add: index_def)

lemma panics_slice [simp]: "panics (slice xs a b) \<longleftrightarrow> \<not> (a \<le> b \<and> b \<le> length xs)"
  by (simp add: slice_def)

lemma panics_slice_from [simp]: "panics (slice_from xs a) \<longleftrightarrow> \<not> a \<le> length xs"
  by (simp add: slice_from_def)

section \<open>Sequences of fixed-size pieces\<close>

text \<open>\<^verbatim>\<open>slice::chunks(n)\<close>; every call of the source has a positive constant \<^verbatim>\<open>n\<close>
  (\<open>chunks 0\<close>, where Rust panics, is guarded at the one call with a computed size).\<close>

function chunks :: "nat \<Rightarrow> 'a list \<Rightarrow> 'a list list" where
  "chunks n xs = (if xs = [] \<or> n = 0 then [] else take n xs # chunks n (drop n xs))"
  by pat_completeness auto
termination
  by (relation "measure (\<lambda>(n, xs). length xs)") auto

declare chunks.simps [simp del]

lemma chunks_Nil [simp]: "chunks n [] = []"
  by (subst chunks.simps) simp

lemma chunks_step: "xs \<noteq> [] \<Longrightarrow> 0 < n \<Longrightarrow> chunks n xs = take n xs # chunks n (drop n xs)"
  by (subst chunks.simps) simp

lemma concat_chunks: "0 < n \<Longrightarrow> concat (chunks n xs) = xs"
proof (induction n xs rule: chunks.induct)
  case (1 n xs)
  then show ?case by (cases "xs = []") (simp_all add: chunks_step)
qed

lemma chunks_length_le: "0 < n \<Longrightarrow> ys \<in> set (chunks n xs) \<Longrightarrow> 0 < length ys \<and> length ys \<le> n"
proof (induction n xs rule: chunks.induct)
  case (1 n xs)
  then show ?case by (cases "xs = []") (auto simp: chunks_step)
qed

lemma chunks_append: "length xs = n \<Longrightarrow> 0 < n \<Longrightarrow> chunks n (xs @ ys) = xs # chunks n ys"
  by (subst chunks_step) auto

lemma chunks_short: "xs \<noteq> [] \<Longrightarrow> length xs \<le> n \<Longrightarrow> chunks n xs = [xs]"
  by (cases xs) (simp_all add: chunks_step)

lemma chunks_exact_length:
  "0 < n \<Longrightarrow> length xs = k * n \<Longrightarrow> ys \<in> set (chunks n xs) \<Longrightarrow> length ys = n"
proof (induction k arbitrary: xs)
  case 0
  then show ?case by simp
next
  case (Suc k)
  then have ne: "xs \<noteq> []" and len: "length (drop n xs) = k * n" by auto
  from Suc.prems ne consider "ys = take n xs" | "ys \<in> set (chunks n (drop n xs))"
    by (auto simp: chunks_step)
  then show ?case
  proof cases
    case 1
    with Suc.prems show ?thesis by simp
  next
    case 2
    with Suc.IH [OF Suc.prems(1) len] show ?thesis by simp
  qed
qed

lemma length_chunks: "0 < n \<Longrightarrow> length (chunks n xs) = (length xs + n - 1) div n"
proof (induction n xs rule: chunks.induct)
  case (1 n xs)
  show ?case
  proof (cases "xs = []")
    case False
    with 1 have "length (chunks n xs) = Suc ((length xs - n + n - 1) div n)"
      by (simp add: chunks_step)
    also have "\<dots> = (length xs + n - 1) div n"
    proof (cases "n \<le> length xs")
      case True
      then have "length xs + n - 1 = (length xs - n + n - 1) + n" using 1(2) by simp
      then show ?thesis using 1(2) by (simp only: div_add_self2)
    next
      case less: False
      then have "length xs + n - 1 = (length xs - 1) + n" using False by (cases xs) simp_all
      then show ?thesis using 1(2) less False by (simp only: div_add_self2) simp
    qed
    finally show ?thesis .
  qed (use 1(2) in simp)
qed

lemma length_chunks_exact: "0 < n \<Longrightarrow> length xs = k * n \<Longrightarrow> length (chunks n xs) = k"
proof (induction k arbitrary: xs)
  case 0
  then show ?case by simp
next
  case (Suc k)
  then have "xs \<noteq> []" and "length (drop n xs) = k * n" by auto
  with Suc show ?case by (simp add: chunks_step)
qed

fun traverse :: "('a \<Rightarrow> ('e, 'b) outcome) \<Rightarrow> 'a list \<Rightarrow> ('e, 'b list) outcome" where
  "traverse f [] = Ok []"
| "traverse f (x # xs) = andThen (f x) (\<lambda>y. andThen (traverse f xs) (\<lambda>ys. Ok (y # ys)))"

lemma traverse_Ok: "(\<And>x. x \<in> set xs \<Longrightarrow> f x = Ok (g x)) \<Longrightarrow> traverse f xs = Ok (map g xs)"
  by (induction xs) auto

lemma traverse_length: "traverse f xs = Ok ys \<Longrightarrow> length ys = length xs"
  by (induction xs arbitrary: ys) auto

lemma traverse_no_panic: "(\<And>x. x \<in> set xs \<Longrightarrow> \<not> panics (f x)) \<Longrightarrow> \<not> panics (traverse f xs)"
  by (induction xs) auto

section \<open>Little- and big-endian integers\<close>

definition u16_le :: "u8 \<Rightarrow> u8 \<Rightarrow> u16" where
  "u16_le b0 b1 = ucast b0 OR push_bit 8 (ucast b1)"

definition u16_to_le :: "u16 \<Rightarrow> u8 list" where
  "u16_to_le w = [ucast w, ucast (drop_bit 8 w)]"

definition u32_le :: "u8 \<Rightarrow> u8 \<Rightarrow> u8 \<Rightarrow> u8 \<Rightarrow> u32" where
  "u32_le b0 b1 b2 b3 =
     ucast b0 OR push_bit 8 (ucast b1) OR push_bit 16 (ucast b2) OR push_bit 24 (ucast b3)"

definition u32_to_le :: "u32 \<Rightarrow> u8 list" where
  "u32_to_le w = [ucast w, ucast (drop_bit 8 w), ucast (drop_bit 16 w), ucast (drop_bit 24 w)]"

text \<open>\<^verbatim>\<open>u16::from_le_bytes(v.try_into()?)\<close> on a slice: the conversion to an array fails unless
  the slice has exactly two bytes.\<close>

fun u16_from_le :: "'e \<Rightarrow> u8 list \<Rightarrow> ('e, u16) outcome" where
  "u16_from_le e [b0, b1] = Ok (u16_le b0 b1)"
| "u16_from_le e bs = Err e"

fun u32_from_le :: "'e \<Rightarrow> u8 list \<Rightarrow> ('e, u32) outcome" where
  "u32_from_le e [b0, b1, b2, b3] = Ok (u32_le b0 b1 b2 b3)"
| "u32_from_le e bs = Err e"

fun u32_from_be :: "'e \<Rightarrow> u8 list \<Rightarrow> ('e, u32) outcome" where
  "u32_from_be e [b0, b1, b2, b3] = Ok (u32_le b3 b2 b1 b0)"
| "u32_from_be e bs = Err e"

lemma length_u16_to_le [simp]: "length (u16_to_le w) = 2"
  by (simp add: u16_to_le_def)

lemma length_u32_to_le [simp]: "length (u32_to_le w) = 4"
  by (simp add: u32_to_le_def)

lemma u16_le_to_le [simp]: "u16_le (ucast w) (ucast (drop_bit 8 w)) = w"
  unfolding u16_le_def
  by (rule bit_word_eqI) (auto simp: bit_or_iff bit_push_bit_iff bit_ucast_iff bit_drop_bit_eq not_less)

lemma u16_to_le_of_le [simp]: "u16_to_le (u16_le b0 b1) = [b0, b1]"
proof -
  have "ucast (u16_le b0 b1) = b0"
    unfolding u16_le_def
    by (rule bit_word_eqI) (auto simp: bit_or_iff bit_push_bit_iff bit_ucast_iff)
  moreover have "ucast (drop_bit 8 (u16_le b0 b1)) = b1"
    unfolding u16_le_def
    by (rule bit_word_eqI)
       (auto simp: bit_or_iff bit_push_bit_iff bit_ucast_iff bit_drop_bit_eq dest: bit_imp_le_length)
  ultimately show ?thesis by (simp add: u16_to_le_def)
qed

lemma u32_le_to_le [simp]:
  "u32_le (ucast w) (ucast (drop_bit 8 w)) (ucast (drop_bit 16 w)) (ucast (drop_bit 24 w)) = w"
  unfolding u32_le_def
  apply (rule bit_word_eqI)
  subgoal for n
    by (cases "n < 8"; cases "n < 16"; cases "n < 24")
       (auto simp: bit_or_iff bit_push_bit_iff bit_ucast_iff bit_drop_bit_eq not_less)
  done

lemma u32_to_le_of_le [simp]: "u32_to_le (u32_le b0 b1 b2 b3) = [b0, b1, b2, b3]"
proof -
  have "ucast (u32_le b0 b1 b2 b3) = b0" "ucast (drop_bit 8 (u32_le b0 b1 b2 b3)) = b1"
    "ucast (drop_bit 16 (u32_le b0 b1 b2 b3)) = b2" "ucast (drop_bit 24 (u32_le b0 b1 b2 b3)) = b3"
    unfolding u32_le_def
    by (rule bit_word_eqI,
        auto simp: bit_or_iff bit_push_bit_iff bit_ucast_iff bit_drop_bit_eq dest: bit_imp_le_length)+
  then show ?thesis by (simp add: u32_to_le_def)
qed

lemma u16_from_le_to_le [simp]: "u16_from_le e (u16_to_le w) = Ok w"
  by (simp add: u16_to_le_def)

lemma u32_from_le_to_le [simp]: "u32_from_le e (u32_to_le w) = Ok w"
  by (simp add: u32_to_le_def)

lemma u32_from_be_to_be [simp]: "u32_from_be e (rev (u32_to_le w)) = Ok w"
  by (simp add: u32_to_le_def)

lemma u16_from_le_pair: "u16_from_le e bs = Ok w \<longleftrightarrow> bs = u16_to_le w"
proof
  assume "u16_from_le e bs = Ok w"
  then show "bs = u16_to_le w"
    by (cases "(e, bs)" rule: u16_from_le.cases) auto
qed simp

lemma u32_from_le_quad: "u32_from_le e bs = Ok w \<longleftrightarrow> bs = u32_to_le w"
proof
  assume "u32_from_le e bs = Ok w"
  then show "bs = u32_to_le w"
    by (cases "(e, bs)" rule: u32_from_le.cases) auto
qed simp

lemma u32_from_be_quad: "u32_from_be e bs = Ok w \<longleftrightarrow> bs = rev (u32_to_le w)"
proof
  assume "u32_from_be e bs = Ok w"
  then show "bs = rev (u32_to_le w)"
    by (cases "(e, bs)" rule: u32_from_be.cases) auto
qed simp

lemma u16_to_le_inject [simp]: "u16_to_le v = u16_to_le w \<longleftrightarrow> v = w"
  by (metis u16_from_le_to_le outcome.inject(1))

lemma u32_to_le_inject [simp]: "u32_to_le v = u32_to_le w \<longleftrightarrow> v = w"
  by (metis u32_from_le_to_le outcome.inject(1))

lemmas word_bytes_iff = u16_from_le_pair u32_from_le_quad u32_from_be_quad

lemma is_ok_u16_from_le: "is_ok (u16_from_le e bs) \<longleftrightarrow> length bs = 2"
  by (cases "(e, bs)" rule: u16_from_le.cases) simp_all

lemma is_ok_u32_from_le: "is_ok (u32_from_le e bs) \<longleftrightarrow> length bs = 4"
  by (cases "(e, bs)" rule: u32_from_le.cases) simp_all

lemma is_ok_u32_from_be: "is_ok (u32_from_be e bs) \<longleftrightarrow> length bs = 4"
  by (cases "(e, bs)" rule: u32_from_be.cases) simp_all

lemma unat_u8_less: "unat (x :: u8) < 256"
  using unsigned_less [of x, where 'a = nat] by simp

lemma unat_u16_less: "unat (x :: u16) < 65536"
  using unsigned_less [of x, where 'a = nat] by simp

lemma length_ge_iff:
  "Suc 0 \<le> length xs \<longleftrightarrow> (\<exists>a ys. xs = a # ys)"
  "2 \<le> length xs \<longleftrightarrow> (\<exists>a b ys. xs = a # b # ys)"
  "3 \<le> length xs \<longleftrightarrow> (\<exists>a b c ys. xs = a # b # c # ys)"
  "4 \<le> length xs \<longleftrightarrow> (\<exists>a b c d ys. xs = a # b # c # d # ys)"
  by (auto simp: numeral_eq_Suc Suc_le_length_iff)

section \<open>Words bit by bit\<close>

text \<open>Two bytes are equal when their eight bits are; \<open>bit_blast\<close> pushes \<open>bit\<close> through the bitwise
  operations, and a value below a power of two has no bit above it.\<close>

lemma nat_less_8: "n < 8 \<longleftrightarrow> n = 0 \<or> n = 1 \<or> n = 2 \<or> n = 3 \<or> n = 4 \<or> n = 5 \<or> n = 6 \<or> n = (7::nat)"
  by linarith

lemma u8_eq_bits:
  "a = b \<longleftrightarrow> bit a 0 = bit b 0 \<and> bit a 1 = bit b 1 \<and> bit a 2 = bit b 2 \<and> bit a 3 = bit b 3
     \<and> bit a 4 = bit b 4 \<and> bit a 5 = bit b 5 \<and> bit a 6 = bit b 6 \<and> bit a 7 = bit b 7" for a b :: u8
proof
  assume bits: "bit a 0 = bit b 0 \<and> bit a 1 = bit b 1 \<and> bit a 2 = bit b 2 \<and> bit a 3 = bit b 3
     \<and> bit a 4 = bit b 4 \<and> bit a 5 = bit b 5 \<and> bit a 6 = bit b 6 \<and> bit a 7 = bit b 7"
  show "a = b"
  proof (rule bit_word_eqI)
    fix n
    assume "n < LENGTH(8)"
    then have "n < 8" by simp
    with bits show "bit a n = bit b n" unfolding nat_less_8 by blast
  qed
qed simp

lemmas bit_blast = bit_or_iff bit_and_iff bit_push_bit_iff bit_drop_bit_eq comp_def possible_bit_word

lemma not_bit_above: "a < 2 ^ k \<Longrightarrow> k \<le> n \<Longrightarrow> \<not> bit a n" for a :: "'l::len word"
proof -
  assume "a < 2 ^ k" and "k \<le> n"
  then have "take_bit k a = a" by (simp add: take_bit_eq_mask less_mask_eq)
  with \<open>k \<le> n\<close> show ?thesis by (metis bit_take_bit_iff not_less)
qed

lemma not_bit_small:
  fixes a :: u8
  shows "a < 2 \<Longrightarrow> 1 \<le> n \<Longrightarrow> \<not> bit a n" and "a < 16 \<Longrightarrow> 4 \<le> n \<Longrightarrow> \<not> bit a n"
  using not_bit_above [of a 1 n] not_bit_above [of a 4 n] by simp_all

lemma less_by_bits:
  fixes a :: "'l::len word"
  assumes "\<And>n. k \<le> n \<Longrightarrow> \<not> bit a n" and "k < LENGTH('l)"
  shows "a < 2 ^ k"
proof -
  have "take_bit k a = a"
    by (rule bit_word_eqI) (use assms(1) linorder_not_le in \<open>auto simp: bit_take_bit_iff\<close>)
  with and_mask_less' [OF assms(2), of a] show ?thesis by (simp add: take_bit_eq_mask)
qed

end
