(* ===== verification/Errors.thy ===== *)
theory Errors
  imports Prelude
begin

text \<open>
  The values an \<^verbatim>\<open>anyhow::Error\<close> carries in this service: the error enums of the components
  (\<^verbatim>\<open>FrameError\<close>, \<^verbatim>\<open>AppDataError\<close> and those of the services), the message strings of \<^verbatim>\<open>ensure!\<close> and \<^verbatim>\<open>anyhow!\<close>, and the
  failures of the conversions of the libraries. The application function codes \<open>afn\<close> stand here
  because \<^verbatim>\<open>AppDataError::Afn\<close> carries one.

  The enums with \<^verbatim>\<open>#[derive(TryFromPrimitive)]\<close> are read from a byte by their table of
  discriminants (\<open>of_code\<close>) and written by \<^verbatim>\<open>as u8\<close>. The locale \<open>byte_enum\<close> is that interface:
  reading what was written gives the variant back, and a byte that is read is the one written.
\<close>

section \<open>Application function codes (src/src/protocol/app_data/mod.rs)\<close>

datatype afn =
    Answer | Init | DataForward | QueryData | PortCheck | CtrlCmd | Report | RouteGet | RouteSet
  | RouteCtrl | RouteDataForward | RouteDataRead | FileTransfer | Debug | CocurrentReadMeter | Test

section \<open>Errors\<close>

datatype frame_error =
    LengthError nat
  | HeaderError u8
  | ChecksumError u8 u8 \<comment> \<open>the checksum found, the checksum expected\<close>
  | TailError u8

datatype app_data_error =
    AfnError afn
  | FnNumError u8
  | DataLengthError nat

datatype topic_error =
    OperatorError string | InfoTypeError string | InfoTargetError string | TopicFormatError string

datatype concurrent_meter_error = AddrLimit nat | QueueLimit nat | MeterReading

datatype mqtt_response_error =
    RequestTimeout | ModelOffline | InvalidJson string | InvalidUpgradeFile | AlreadyUpgrading

datatype node_config_error = NodeNotFound string | TypeMismatch string string

datatype plc_init_error = InitTimeout | InvalidEvent

datatype uart_handler_error = UnsupportedAfn afn | UnsupportedAfnFn afn u8 | NoOriginReqKey

datatype error =
    FrameErr frame_error
  | AppDataErr app_data_error
  | TopicErr topic_error
  | ConcurrentMeterErr concurrent_meter_error
  | MqttResponseErr mqtt_response_error
  | NodeConfigErr node_config_error
  | PlcInitErr plc_init_error
  | UartHandlerErr uart_handler_error
  | InvalidPrimitive string u8 \<comment> \<open>\<^verbatim>\<open>TryFromPrimitiveError\<close>: the enum and the byte\<close>
  | ArrayLength \<comment> \<open>\<^verbatim>\<open>TryFromSliceError\<close>\<close>
  | InvalidUtf8
  | InvalidHex
  | InvalidJsonText \<comment> \<open>\<^verbatim>\<open>serde_json::Error\<close>: text that is no JSON, or JSON of another shape\<close>
  | ParseIntError
  | Message string

type_synonym 'a result = "(error, 'a) outcome"

section \<open>Enums read from a byte\<close>

definition of_code :: "string \<Rightarrow> ('a \<times> u8) list \<Rightarrow> u8 \<Rightarrow> 'a result" where
  "of_code name table b =
     (case find (\<lambda>(v, code). code = b) table of
        Some (v, code) \<Rightarrow> Ok v
      | None \<Rightarrow> Err (InvalidPrimitive name b))"

locale byte_enum =
  fixes to_byte :: "'a \<Rightarrow> u8"
    and of_byte :: "u8 \<Rightarrow> 'a result"
  assumes of_byte_to_byte: "of_byte (to_byte v) = Ok v"
    and to_byte_of_byte: "of_byte b = Ok v \<Longrightarrow> to_byte v = b"
    and of_byte_no_panic: "\<not> panics (of_byte b)"
begin

lemma to_byte_inject: "to_byte v = to_byte w \<longleftrightarrow> v = w"
  by (metis of_byte_to_byte outcome.inject(1))

lemma of_byte_Ok_iff: "of_byte b = Ok v \<longleftrightarrow> to_byte v = b"
  using of_byte_to_byte to_byte_of_byte by auto

lemma of_byte_Err_iff: "(\<exists>e. of_byte b = Err e) \<longleftrightarrow> b \<notin> range to_byte"
  by (cases "of_byte b") (use of_byte_no_panic [of b] in \<open>auto simp: of_byte_Ok_iff of_byte_to_byte\<close>)

end

fun afn_to_u8 :: "afn \<Rightarrow> u8" where
  "afn_to_u8 Answer = 0x00"
| "afn_to_u8 Init = 0x01"
| "afn_to_u8 DataForward = 0x02"
| "afn_to_u8 QueryData = 0x03"
| "afn_to_u8 PortCheck = 0x04"
| "afn_to_u8 CtrlCmd = 0x05"
| "afn_to_u8 Report = 0x06"
| "afn_to_u8 RouteGet = 0x10"
| "afn_to_u8 RouteSet = 0x11"
| "afn_to_u8 RouteCtrl = 0x12"
| "afn_to_u8 RouteDataForward = 0x13"
| "afn_to_u8 RouteDataRead = 0x14"
| "afn_to_u8 FileTransfer = 0x15"
| "afn_to_u8 Debug = 0xf0"
| "afn_to_u8 CocurrentReadMeter = 0xf1"
| "afn_to_u8 Test = 0xff"

definition with_codes :: "('a \<Rightarrow> u8) \<Rightarrow> 'a list \<Rightarrow> ('a \<times> u8) list" where
  "with_codes code vs = map (\<lambda>v. (v, code v)) vs"

definition all_afns :: "afn list" where
  "all_afns =
     [Answer, Init, DataForward, QueryData, PortCheck, CtrlCmd, Report, RouteGet, RouteSet,
      RouteCtrl, RouteDataForward, RouteDataRead, FileTransfer, Debug, CocurrentReadMeter, Test]"

definition afn_try_from :: "u8 \<Rightarrow> afn result" where
  "afn_try_from = of_code ''Afn'' (with_codes afn_to_u8 all_afns)"

lemma find_with_codes_Some:
  "find (\<lambda>(v, c). c = b) (with_codes code vs) = Some (v, c) \<Longrightarrow> code v = b \<and> v \<in> set vs"
  by (induction vs) (auto simp: with_codes_def split: if_splits)

lemma of_code_sound: "of_code n (with_codes code vs) b = Ok v \<Longrightarrow> code v = b"
  by (auto simp: of_code_def dest: find_with_codes_Some split: option.splits)

lemma of_code_no_panic: "\<not> panics (of_code n table b)"
  by (auto simp: of_code_def split: option.splits)

lemma of_code_complete:
  assumes "v \<in> set vs" and "inj_on code (set vs)"
  shows "of_code n (with_codes code vs) (code v) = Ok v"
  using assms
proof (induction vs)
  case Nil
  then show ?case by simp
next
  case (Cons w vs)
  show ?case
  proof (cases "code w = code v")
    case True
    with Cons.prems have "w = v" by (auto simp: inj_on_def)
    then show ?thesis by (simp add: of_code_def with_codes_def)
  next
    case False
    with Cons have "of_code n (with_codes code vs) (code v) = Ok v" by (auto simp: inj_on_def)
    with False show ?thesis by (simp add: of_code_def with_codes_def)
  qed
qed

interpretation afn_byte: byte_enum afn_to_u8 afn_try_from
proof
  fix v :: afn
  show "afn_try_from (afn_to_u8 v) = Ok v"
    by (cases v) (simp_all add: afn_try_from_def of_code_def with_codes_def all_afns_def)
qed (auto simp: afn_try_from_def of_code_no_panic dest: of_code_sound)

end
