(* ===== verification/App_Data.thy ===== *)
theory App_Data
  imports Errors
begin

text \<open>
  src/src/protocol/app_data/mod.rs: addresses, the data flag that encodes a function number, the
  application data unit \<open>AppData\<close> with its conversions, and the textual helpers; and the two BCD
  helpers of src/src/protocol/user_data.rs that it uses.

  \<^item> A meter address is its six bytes in display order (\<open>Address\<close>), sent low byte first.
  \<^item> The loop of \<^verbatim>\<open>DataFlag::as_fn_num\<close> looks for the lowest set bit of the mark and has no bound:
    \<open>first_set_bit\<close> is that loop, \<open>None\<close> where it never returns, and \<open>as_fn_num\<close> turns that into
    \<open>Panic NeverReturns\<close>.
  \<^item> \<^verbatim>\<open>hex::decode\<close>, \<^verbatim>\<open>hex::encode\<close> and \<^verbatim>\<open>NaiveDate::from_ymd_opt\<close> belong to other packages: they are
    arguments of the definitions that use them.
\<close>

section \<open>Addresses\<close>

definition ADDR_LEN :: nat where
  "ADDR_LEN = 6"

datatype address = Address u8 u8 u8 u8 u8 u8

fun address_array :: "address \<Rightarrow> u8 list" where
  "address_array (Address a b c d e f) = [a, b, c, d, e, f]"

definition address_default :: address where
  "address_default = Address 0 0 0 0 0 0"

definition address_to_vec :: "address \<Rightarrow> u8 list" where
  "address_to_vec a = rev (address_array a)"

fun address_of_array :: "u8 list \<Rightarrow> address result" where
  "address_of_array [a, b, c, d, e, f] = Ok (Address a b c d e f)"
| "address_of_array bs = Err ArrayLength"

definition address_try_from :: "u8 list \<Rightarrow> address result" where
  "address_try_from data =
     andThen (ensure (length data = ADDR_LEN) (Message ''address length error''))
       (\<lambda>_. unwrap (address_of_array (rev data)))"

definition address_from_str :: "(string \<Rightarrow> u8 list option) \<Rightarrow> string \<Rightarrow> address result" where
  "address_from_str hex_decode value =
     (case hex_decode value of
        None \<Rightarrow> Panic ExpectFailed
      | Some bytes \<Rightarrow>
          (case address_of_array bytes of Ok a \<Rightarrow> Ok a | _ \<Rightarrow> Panic LengthMismatch))"

definition address_to_string :: "(u8 list \<Rightarrow> string) \<Rightarrow> address \<Rightarrow> string" where
  "address_to_string hex_encode a = hex_encode (address_array a)"

lemma list6: "length bs = 6 \<longleftrightarrow> (\<exists>a b c d e f. bs = [a, b, c, d, e, f])"
  by (auto simp: numeral_eq_Suc length_Suc_conv)

lemma length_address_to_vec [simp]: "length (address_to_vec a) = 6"
  by (cases a) (simp add: address_to_vec_def)

lemma address_of_array_array [simp]: "address_of_array (address_array a) = Ok a"
  by (cases a) simp

lemma address_try_from_to_vec [simp]: "address_try_from (address_to_vec a) = Ok a"
  by (cases a) (simp add: address_try_from_def address_to_vec_def ADDR_LEN_def)

lemma address_to_vec_inject [simp]: "address_to_vec a = address_to_vec b \<longleftrightarrow> a = b"
  by (metis address_try_from_to_vec outcome.inject(1))

lemma address_try_from_Ok_iff: "address_try_from bs = Ok a \<longleftrightarrow> bs = address_to_vec a"
proof
  assume "address_try_from bs = Ok a"
  then have "length (rev bs) = 6" and arr: "address_of_array (rev bs) = Ok a"
    by (simp_all add: address_try_from_def ADDR_LEN_def)
  then have "rev bs = address_array a"
    by (subst (asm) list6) auto
  then show "bs = address_to_vec a" by (simp add: address_to_vec_def rev_swap)
qed simp

lemma address_try_from_total: "length bs = 6 \<Longrightarrow> \<exists>a. address_try_from bs = Ok a"
proof -
  assume "length bs = 6"
  then have "length (rev bs) = 6" by simp
  then obtain a b c d e f where "rev bs = [a, b, c, d, e, f]" unfolding list6 by blast
  then show ?thesis using \<open>length bs = 6\<close> by (simp add: address_try_from_def ADDR_LEN_def)
qed

lemma address_try_from_no_panic [simp]: "\<not> panics (address_try_from bs)"
proof (cases "length bs = 6")
  case True
  then show ?thesis using address_try_from_total [of bs] by auto
next
  case False
  then show ?thesis by (simp add: address_try_from_def ADDR_LEN_def)
qed

section \<open>BCD and text\<close>

definition hex_to_dec :: "u8 \<Rightarrow> u8" where
  "hex_to_dec bcd = drop_bit 4 bcd * 10 + (bcd AND 0x0f)"

definition dec_to_hex :: "u8 \<Rightarrow> u8" where
  "dec_to_hex v = ((v div 10) mod 10) * 16 + v mod 10"

text \<open>\<^verbatim>\<open>format!("{:02}", n)\<close>: the decimal digits, padded with zeros to two.\<close>

fun decimal :: "nat \<Rightarrow> string" where
  "decimal n = (if n < 10 then [char_of (48 + n)] else decimal (n div 10) @ [char_of (48 + n mod 10)])"

declare decimal.simps [simp del]

definition pad2 :: "string \<Rightarrow> string" where
  "pad2 s = replicate (2 - length s) (CHR ''0'') @ s"

definition slice_to_bcd_string :: "u8 list \<Rightarrow> string" where
  "slice_to_bcd_string bs =
     foldl (\<lambda>acc x. acc @ pad2 (decimal (unat (hex_to_dec x)))) [] (rev bs)"

definition date_transfer :: "(int \<Rightarrow> nat \<Rightarrow> nat \<Rightarrow> 'date option) \<Rightarrow> u8 \<Rightarrow> u8 \<Rightarrow> u8 \<Rightarrow> 'date result" where
  "date_transfer from_ymd_opt year month day =
     unwrap_option (from_ymd_opt (2000 + uint (hex_to_dec year)) (unat (hex_to_dec month))
       (unat (hex_to_dec day)))"

text \<open>\<^verbatim>\<open>String::from_utf8\<close>: the well-formed byte sequences of the Unicode standard (table 3-7),
  which are the ones the standard library accepts. A string is its UTF-8 bytes.\<close>

definition is_tail_byte :: "u8 \<Rightarrow> bool" where
  "is_tail_byte b \<longleftrightarrow> 0x80 \<le> b \<and> b \<le> 0xBF"

fun utf8_ok :: "u8 list \<Rightarrow> bool" where
  "utf8_ok [] = True"
| "utf8_ok (a # as) =
     (if a < 0x80 then utf8_ok as
      else case as of
        [] \<Rightarrow> False
      | b # bs \<Rightarrow>
          if 0xC2 \<le> a \<and> a \<le> 0xDF then is_tail_byte b \<and> utf8_ok bs
          else case bs of
            [] \<Rightarrow> False
          | c # cs \<Rightarrow>
              if 0xE0 \<le> a \<and> a \<le> 0xEF
              then is_tail_byte b \<and> is_tail_byte c \<and> (a = 0xE0 \<longrightarrow> 0xA0 \<le> b)
                   \<and> (a = 0xED \<longrightarrow> b \<le> 0x9F) \<and> utf8_ok cs
              else case cs of
                [] \<Rightarrow> False
              | d # ds \<Rightarrow>
                  0xF0 \<le> a \<and> a \<le> 0xF4 \<and> is_tail_byte b \<and> is_tail_byte c \<and> is_tail_byte d
                  \<and> (a = 0xF0 \<longrightarrow> 0x90 \<le> b) \<and> (a = 0xF4 \<longrightarrow> b \<le> 0x8F) \<and> utf8_ok ds)"

definition bytes_to_string :: "u8 list \<Rightarrow> string" where
  "bytes_to_string bs = map (\<lambda>b. char_of (unat b)) bs"

definition string_from_utf8 :: "u8 list \<Rightarrow> string result" where
  "string_from_utf8 bs = (if utf8_ok bs then Ok (bytes_to_string bs) else Err InvalidUtf8)"

lemma string_from_utf8_no_panic [simp]: "string_from_utf8 bs \<noteq> Panic p"
  by (simp add: string_from_utf8_def)

datatype module_id_format = Combine | Bcd | Bin | Ascii

fun module_id_format_to_u8 :: "module_id_format \<Rightarrow> u8" where
  "module_id_format_to_u8 Combine = 0"
| "module_id_format_to_u8 Bcd = 1"
| "module_id_format_to_u8 Bin = 2"
| "module_id_format_to_u8 Ascii = 3"

definition module_id_format_try_from :: "u8 \<Rightarrow> module_id_format result" where
  "module_id_format_try_from =
     of_code ''ModuleIdFormat'' (with_codes module_id_format_to_u8 [Combine, Bcd, Bin, Ascii])"

fun module_id_format_string :: "(u8 list \<Rightarrow> string) \<Rightarrow> module_id_format \<Rightarrow> u8 list \<Rightarrow> string result" where
  "module_id_format_string hex_encode Combine data = Panic TodoCode"
| "module_id_format_string hex_encode Bcd data = Ok (hex_encode data)"
| "module_id_format_string hex_encode Bin data = Ok (hex_encode data)"
| "module_id_format_string hex_encode Ascii data = Ok (bytes_to_string (filter (\<lambda>b. b < 0x80) data))"

interpretation id_format_byte: byte_enum module_id_format_to_u8 module_id_format_try_from
proof
  fix v :: module_id_format
  show "module_id_format_try_from (module_id_format_to_u8 v) = Ok v"
    by (cases v) (simp_all add: module_id_format_try_from_def of_code_def with_codes_def)
qed (auto simp: module_id_format_try_from_def of_code_no_panic dest: of_code_sound)

section \<open>Data flags\<close>

record data_flag =
  flag_type :: u8
  flag_mark :: u8

text \<open>The loop of \<^verbatim>\<open>as_fn_num\<close>; in a release build \<^verbatim>\<open>mark >> index\<close> shifts by \<^verbatim>\<open>index & 7\<close>.\<close>

partial_function (option) first_set_bit :: "u8 \<Rightarrow> u8 \<Rightarrow> u8 option" where
  "first_set_bit mark i =
     (if drop_bit (unat (i AND 7)) mark AND 1 = 0 then first_set_bit mark (i + 1) else Some i)"

definition as_fn_num :: "data_flag \<Rightarrow> u8 result" where
  "as_fn_num f =
     (case first_set_bit (flag_mark f) 0 of
        None \<Rightarrow> Panic NeverReturns
      | Some i \<Rightarrow> Ok (flag_type f * 8 + i + 1))"

definition data_flag_from_fn :: "u8 \<Rightarrow> data_flag" where
  "data_flag_from_fn fn_num =
     \<lparr>flag_type = (fn_num - 1) div 8, flag_mark = push_bit (unat ((fn_num - 1) mod 8)) 1\<rparr>"

definition data_flag_from_slice :: "u8 list \<Rightarrow> data_flag result" where
  "data_flag_from_slice bs =
     andThen (unwrap (u16_from_le ArrayLength bs))
       (\<lambda>w. Ok \<lparr>flag_type = ucast (drop_bit 8 w), flag_mark = ucast w\<rparr>)"

section \<open>Application data\<close>

definition AFN_SIZE :: nat where "AFN_SIZE = 1"
definition DATA_FLAG_SIZE :: nat where "DATA_FLAG_SIZE = 2"
definition APP_DATA_PREFIX_SIZE :: nat where "APP_DATA_PREFIX_SIZE = AFN_SIZE + DATA_FLAG_SIZE"

record app_data =
  app_afn :: afn
  app_flag :: data_flag
  data_units :: "u8 list option"

definition app_data_new :: "afn \<Rightarrow> u8 \<Rightarrow> u8 list option \<Rightarrow> app_data" where
  "app_data_new a fn_num units =
     \<lparr>app_afn = a, app_flag = data_flag_from_fn fn_num, data_units = units\<rparr>"

definition data_length :: "app_data \<Rightarrow> nat" where
  "data_length d = (case data_units d of None \<Rightarrow> 0 | Some units \<Rightarrow> length units)"

definition app_data_length :: "app_data \<Rightarrow> nat" where
  "app_data_length d = AFN_SIZE + DATA_FLAG_SIZE + data_length d"

definition get_comm_mark :: "app_data \<Rightarrow> u8" where
  "get_comm_mark d =
     (case app_afn d of
        DataForward \<Rightarrow> 1 | RouteDataForward \<Rightarrow> 1 | CocurrentReadMeter \<Rightarrow> 1 | _ \<Rightarrow> 0)"

definition fn_num :: "app_data \<Rightarrow> u8 result" where
  "fn_num d = as_fn_num (app_flag d)"

definition app_data_check :: "app_data \<Rightarrow> afn \<Rightarrow> u8 \<Rightarrow> nat \<Rightarrow> unit result" where
  "app_data_check d a f len =
     andThen (ensure (app_afn d = a) (AppDataErr (AfnError (app_afn d)))) (\<lambda>_.
     andThen (fn_num d) (\<lambda>g.
     andThen (ensure (g = f) (AppDataErr (FnNumError g))) (\<lambda>_.
     ensure (data_length d = len) (AppDataErr (DataLengthError (data_length d))))))"

definition app_data_try_from :: "u8 list \<Rightarrow> app_data result" where
  "app_data_try_from data =
     (let len = AFN_SIZE + DATA_FLAG_SIZE in
      andThen (ensure (len \<le> length data) (Message ''app data length error'')) (\<lambda>_.
      andThen (index data 0) (\<lambda>b0.
      andThen (afn_try_from b0) (\<lambda>a.
      andThen (slice data AFN_SIZE len) (\<lambda>flag_bytes.
      andThen (data_flag_from_slice flag_bytes) (\<lambda>flag.
      andThen (as_fn_num flag) (\<lambda>f.
      Ok (app_data_new a f (if len < length data then Some (drop len data) else None)))))))))"

definition app_data_to_vec :: "app_data \<Rightarrow> u8 list" where
  "app_data_to_vec d =
     [afn_to_u8 (app_afn d), flag_mark (app_flag d), flag_type (app_flag d)]
     @ (case data_units d of None \<Rightarrow> [] | Some units \<Rightarrow> units)"

section \<open>The search for the lowest set bit\<close>

lemma shift_mask_id: "k < 8 \<Longrightarrow> unat (of_nat k AND (7::u8)) = k"
proof -
  assume "k < 8"
  then consider "k = 0" | "k = 1" | "k = 2" | "k = 3" | "k = 4" | "k = 5" | "k = 6" | "k = 7"
    by linarith
  then show ?thesis by cases simp_all
qed

lemma first_set_bit_stop: "bit mark k \<Longrightarrow> k < 8 \<Longrightarrow> first_set_bit mark (of_nat k) = Some (of_nat k)"
proof -
  assume "bit mark k" and k: "k < 8"
  have "unat (of_nat k AND (7::u8)) = k" using k by (rule shift_mask_id)
  with \<open>bit mark k\<close> show ?thesis
    by (subst first_set_bit.simps) (simp add: bit_iff_odd_drop_bit and_one_eq odd_iff_mod_2_eq_one)
qed

lemma first_set_bit_continue:
  "\<not> bit mark k \<Longrightarrow> k < 8 \<Longrightarrow> first_set_bit mark (of_nat k) = first_set_bit mark (of_nat (Suc k))"
proof -
  assume nb: "\<not> bit mark k" and k: "k < 8"
  have "unat (of_nat k AND (7::u8)) = k" using k by (rule shift_mask_id)
  with nb show ?thesis
    by (subst first_set_bit.simps)
       (simp add: bit_iff_odd_drop_bit and_one_eq even_iff_mod_2_eq_zero add.commute)
qed

lemma first_set_bit_skip:
  "k < 8 \<Longrightarrow> (\<And>j. j < k \<Longrightarrow> \<not> bit mark j) \<Longrightarrow> first_set_bit mark 0 = first_set_bit mark (of_nat k)"
proof (induction k)
  case 0
  then show ?case by simp
next
  case (Suc k)
  then show ?case using first_set_bit_continue [of mark k] by simp
qed

lemma first_set_bit_least:
  assumes "bit mark k" and "\<And>j. j < k \<Longrightarrow> \<not> bit mark j"
  shows "first_set_bit mark 0 = Some (of_nat k)"
proof -
  have "k < 8" using assms(1) bit_imp_le_length by fastforce
  then show ?thesis
    using first_set_bit_skip [of k mark] first_set_bit_stop [of mark k] assms by simp
qed

lemma first_set_bit_some: "first_set_bit mark i = Some r \<Longrightarrow> mark \<noteq> 0"
  by (rule first_set_bit.raw_induct [where P = "\<lambda>mark i r. mark \<noteq> 0"]) (auto split: if_splits)

lemma first_set_bit_zero [simp]: "first_set_bit 0 i = None"
  using first_set_bit_some [of 0 i] by (cases "first_set_bit 0 i") auto

lemma first_set_bit_returns: "mark \<noteq> 0 \<Longrightarrow> \<exists>k < 8. bit mark k \<and> first_set_bit mark 0 = Some (of_nat k)"
proof -
  assume "mark \<noteq> 0"
  then have ex: "\<exists>k. bit mark k" by (auto simp: bit_eq_iff)
  define k where "k = (LEAST k. bit mark k)"
  have "bit mark k" unfolding k_def using ex by (rule LeastI_ex)
  moreover have "\<And>j. j < k \<Longrightarrow> \<not> bit mark j" unfolding k_def by (rule not_less_Least)
  moreover have "k < 8" using \<open>bit mark k\<close> bit_imp_le_length by fastforce
  ultimately show ?thesis using first_set_bit_least by blast
qed

lemma first_set_bit_None_iff: "first_set_bit mark 0 = None \<longleftrightarrow> mark = 0"
  using first_set_bit_returns [of mark] by (cases "mark = 0") auto

lemma first_set_bit_power: "k < 8 \<Longrightarrow> first_set_bit (2 ^ k) 0 = Some (of_nat k)"
  by (rule first_set_bit_least) (auto simp: bit_exp_iff)

section \<open>Function numbers and data flags\<close>

lemma data_flag_eta [simp]: "\<lparr>flag_type = flag_type f, flag_mark = flag_mark f\<rparr> = f" for f :: data_flag
  by simp

lemma as_fn_num_hangs_iff: "as_fn_num f = Panic NeverReturns \<longleftrightarrow> flag_mark f = 0"
  by (auto simp: as_fn_num_def first_set_bit_None_iff split: option.splits)

lemma as_fn_num_panics_iff [simp]: "panics (as_fn_num f) \<longleftrightarrow> flag_mark f = 0"
  by (auto simp: as_fn_num_def first_set_bit_None_iff split: option.splits)

lemma as_fn_num_Ok: "flag_mark f \<noteq> 0 \<Longrightarrow> \<exists>n. as_fn_num f = Ok n"
  using first_set_bit_returns [of "flag_mark f"] by (auto simp: as_fn_num_def)

lemma as_fn_num_from_fn [simp]: "as_fn_num (data_flag_from_fn n) = Ok n"
proof -
  let ?m = "n - 1"
  have lt: "unat (?m mod 8) < 8" by (simp add: unat_mod)
  have "?m div 8 * 8 + ?m mod 8 = ?m" by (rule div_mult_mod_eq)
  then have "?m div 8 * 8 + ?m mod 8 + 1 = n" by simp
  then show ?thesis
    by (simp add: as_fn_num_def data_flag_from_fn_def first_set_bit_power [OF lt, simplified])
qed

lemma flag_mark_from_fn [simp]: "flag_mark (data_flag_from_fn n) \<noteq> 0"
  using as_fn_num_hangs_iff [of "data_flag_from_fn n"] by simp

definition canonical_flag :: "data_flag \<Rightarrow> bool" where
  "canonical_flag f \<longleftrightarrow> f \<in> range data_flag_from_fn"

lemma canonical_flag_iff:
  assumes "as_fn_num f = Ok n"
  shows "data_flag_from_fn n = f \<longleftrightarrow> canonical_flag f"
  using assms by (auto simp: canonical_flag_def)

lemma data_flag_from_slice_pair [simp]:
  "data_flag_from_slice [b0, b1] = Ok \<lparr>flag_type = b1, flag_mark = b0\<rparr>"
  using u16_to_le_of_le [of b0 b1] by (simp add: data_flag_from_slice_def u16_to_le_def)

section \<open>Reading and writing application data\<close>

lemma app_data_try_from_short: "length data < 3 \<Longrightarrow> \<exists>e. app_data_try_from data = Err e"
  by (simp add: app_data_try_from_def AFN_SIZE_def DATA_FLAG_SIZE_def)

lemma app_data_try_from_Cons:
  "app_data_try_from (a # m # t # units) =
     andThen (afn_try_from a) (\<lambda>x. andThen (as_fn_num \<lparr>flag_type = t, flag_mark = m\<rparr>) (\<lambda>f.
       Ok (app_data_new x f (if units = [] then None else Some units))))"
  by (simp add: app_data_try_from_def AFN_SIZE_def DATA_FLAG_SIZE_def index_def slice_def
      numeral_eq_Suc)

lemma length3_cases: "length xs < 3 \<or> (\<exists>a b c rest. xs = a # b # c # rest)"
  by (cases xs; cases "tl xs"; cases "tl (tl xs)") auto

lemma app_data_try_from_hangs_iff:
  "app_data_try_from data = Panic p \<longleftrightarrow>
     p = NeverReturns \<and> 3 \<le> length data \<and> is_ok (afn_try_from (data ! 0)) \<and> data ! 1 = 0"
proof (cases "length data < 3")
  case True
  with app_data_try_from_short [OF True] show ?thesis by auto
next
  case False
  with length3_cases [of data] obtain a m t units where d: "data = a # m # t # units" by blast
  show ?thesis
    using afn_byte.of_byte_no_panic [of a] first_set_bit_None_iff [of m]
    by (cases "afn_try_from a")
       (auto simp: d app_data_try_from_Cons as_fn_num_def split: option.splits)
qed

lemma app_data_try_from_Ok_iff:
  "app_data_try_from data = Ok d \<longleftrightarrow>
     (\<exists>a m t units f. data = afn_to_u8 a # m # t # units
        \<and> as_fn_num \<lparr>flag_type = t, flag_mark = m\<rparr> = Ok f
        \<and> d = app_data_new a f (if units = [] then None else Some units))"
  (is "?lhs \<longleftrightarrow> ?rhs")
proof
  assume ?lhs
  then have "\<not> length data < 3" using app_data_try_from_short [of data] by auto
  with length3_cases [of data] obtain b m t units where d: "data = b # m # t # units" by blast
  from \<open>?lhs\<close> obtain a f where "afn_try_from b = Ok a"
    and "as_fn_num \<lparr>flag_type = t, flag_mark = m\<rparr> = Ok f"
    and "d = app_data_new a f (if units = [] then None else Some units)"
    by (auto simp: d app_data_try_from_Cons)
  then show ?rhs using afn_byte.to_byte_of_byte [of b a] d by metis
next
  assume ?rhs
  then show ?lhs by (auto simp: app_data_try_from_Cons afn_byte.of_byte_to_byte)
qed

lemma app_data_to_vec_new:
  "app_data_to_vec (app_data_new a f units) =
     afn_to_u8 a # flag_mark (data_flag_from_fn f) # flag_type (data_flag_from_fn f)
       # (case units of None \<Rightarrow> [] | Some us \<Rightarrow> us)"
  by (simp add: app_data_to_vec_def app_data_new_def)

lemma app_data_roundtrip [simp]:
  "units \<noteq> Some [] \<Longrightarrow> app_data_try_from (app_data_to_vec (app_data_new a f units))
     = Ok (app_data_new a f units)"
  by (auto simp: app_data_to_vec_new app_data_try_from_Cons afn_byte.of_byte_to_byte split: option.splits)

lemma length_app_data_to_vec: "length (app_data_to_vec d) = app_data_length d"
  by (simp add: app_data_to_vec_def app_data_length_def data_length_def AFN_SIZE_def DATA_FLAG_SIZE_def
      split: option.splits)

lemma fn_num_new [simp]: "fn_num (app_data_new a f units) = Ok f"
  by (simp add: fn_num_def app_data_new_def)

lemma app_data_new_sel [simp]:
  "app_afn (app_data_new a f units) = a" "data_units (app_data_new a f units) = units"
  by (simp_all add: app_data_new_def)

lemma app_data_check_new [run]:
  "app_data_check (app_data_new a f units) b g len =
     andThen (ensure (a = b) (AppDataErr (AfnError a))) (\<lambda>_.
     andThen (ensure (f = g) (AppDataErr (FnNumError f))) (\<lambda>_.
     ensure (data_length (app_data_new a f units) = len)
       (AppDataErr (DataLengthError (data_length (app_data_new a f units))))))"
  by (simp add: app_data_check_def)

lemma app_data_check_Ok:
  "app_data_check d a f len = Ok u \<longleftrightarrow> app_afn d = a \<and> fn_num d = Ok f \<and> data_length d = len"
  by (auto simp: app_data_check_def)

lemma app_data_check_panics:
  "panics (app_data_check d a f len) \<longleftrightarrow> app_afn d = a \<and> flag_mark (app_flag d) = 0"
  by (auto simp: app_data_check_def fn_num_def)

lemma data_length_Some: "data_units d = Some us \<Longrightarrow> data_length d = length us"
  by (simp add: data_length_def)

lemma data_length_None: "data_units d = None \<Longrightarrow> data_length d = 0"
  by (simp add: data_length_def)

lemma data_length_pos: "0 < data_length d \<Longrightarrow> \<exists>us. data_units d = Some us \<and> length us = data_length d"
  by (auto simp: data_length_def split: option.splits)

section \<open>BCD bytes\<close>

lemma unat_dec_to_hex: "v < 100 \<Longrightarrow> unat (dec_to_hex v) = unat v div 10 * 16 + unat v mod 10"
proof -
  assume "v < 100"
  then have v: "unat v < 100" by (simp add: word_less_nat_alt)
  then have "unat v div 10 mod 10 = unat v div 10" by simp
  moreover have "unat v div 10 * 16 + unat v mod 10 < 256" using v by simp
  ultimately show ?thesis
    by (simp add: dec_to_hex_def unat_plus_if' unat_word_ariths unat_div unat_mod)
qed

lemma unat_hex_to_dec:
  assumes "unat b div 16 < 10"
  shows "unat (hex_to_dec b) = unat b div 16 * 10 + unat b mod 16"
proof -
  have "b AND 0x0f = take_bit 4 b" by (simp add: take_bit_eq_mask mask_eq_exp_minus_1)
  then have "unat (b AND 0x0f) = unat b mod 16"
    by (simp add: unat_mod take_bit_eq_mod)
  moreover have "unat (drop_bit 4 b) = unat b div 16"
    by (simp add: drop_bit_eq_div unat_div)
  moreover have "unat b div 16 * 10 + unat b mod 16 < 256" using assms by linarith
  ultimately show ?thesis using assms by (simp add: hex_to_dec_def unat_word_ariths)
qed

lemma hex_to_dec_dec_to_hex: "v < 100 \<Longrightarrow> hex_to_dec (dec_to_hex v) = v"
proof -
  assume v: "v < 100"
  then have n: "unat v < 100" by (simp add: word_less_nat_alt)
  have q: "unat (dec_to_hex v) div 16 = unat v div 10" "unat (dec_to_hex v) mod 16 = unat v mod 10"
    using unat_dec_to_hex [OF v] by simp_all
  then have "unat (hex_to_dec (dec_to_hex v)) = unat v div 10 * 10 + unat v mod 10"
    using n unat_hex_to_dec [of "dec_to_hex v"] by simp
  then show ?thesis by (simp add: word_unat_eq_iff)
qed

section \<open>Properties\<close>

text \<open>C27: The data flag written for a function number is read back as that number, for every byte; and
  the loop that reads a data flag fails to return exactly when the flag has no bit in its mark.\<close>

theorem data_flag_decoding:
  "as_fn_num (data_flag_from_fn n) = Ok n \<and> (as_fn_num f = Panic NeverReturns \<longleftrightarrow> flag_mark f = 0)"
  by (simp add: as_fn_num_hangs_iff)

text \<open>Reading application data from arbitrary bytes either returns or never ends, and it never ends
  exactly for a known function code followed by a zero byte and at least one more byte.\<close>

theorem app_data_reading_hangs:
  "app_data_try_from data = Panic p \<longleftrightarrow>
     p = NeverReturns \<and> 3 \<le> length data \<and> is_ok (afn_try_from (data ! 0)) \<and> data ! 1 = 0"
  by (rule app_data_try_from_hangs_iff)

text \<open>The bytes accepted as application data are a known function code, a flag with a mark and the
  data units; what was written for an application message with a function number is accepted and
  gives that message back, unless it has an empty list of data units.\<close>

theorem app_data_written_is_read:
  assumes "units \<noteq> Some []"
  shows "app_data_try_from (app_data_to_vec (app_data_new a n units)) = Ok (app_data_new a n units)
    \<and> fn_num (app_data_new a n units) = Ok n
    \<and> length (app_data_to_vec (app_data_new a n units)) = app_data_length (app_data_new a n units)"
  using assms by (simp add: length_app_data_to_vec)

theorem app_data_written_is_read_witness:
  "app_data_try_from (app_data_to_vec (app_data_new RouteGet 112 (Some [1, 0, 10])))
     = Ok (app_data_new RouteGet 112 (Some [1, 0, 10]))"
  using app_data_written_is_read [of "Some [1, 0, 10]" RouteGet 112] by simp

text \<open>Two decimal digits survive the BCD coding of clock and date bytes, and the coded byte has no
  digit above nine.\<close>

theorem bcd_roundtrip:
  assumes "v < 100"
  shows "hex_to_dec (dec_to_hex v) = v \<and> unat (dec_to_hex v) div 16 < 10 \<and> unat (dec_to_hex v) mod 16 < 10"
proof -
  have "unat v < 100" using assms by (simp add: word_less_nat_alt)
  then show ?thesis using assms by (simp add: hex_to_dec_dec_to_hex unat_dec_to_hex)
qed

theorem bcd_roundtrip_witness: "hex_to_dec (dec_to_hex 59) = 59"
  using bcd_roundtrip [of 59] by simp

end
