(* ===== verification/Response_Codec.thy ===== *)
theory Response_Codec
  imports App_Data
begin

text \<open>
  The interface that every decoder of a response (\<^verbatim>\<open>impl TryFrom<AppData> for ...Response\<close>) has to the
  services: the function code, the function number, and the layout of the data units. \<open>layout\<close> is the
  specification of the wire format, one field after the other; \<open>valid\<close> are the values it can carry.
  A decoder meets the contract when it accepts exactly the layouts of the valid values, under its own
  function code and number; \<open>response_codec\<close> draws the consequences every response shares, and each
  decoder of the protocol is an interpretation.

  \<open>fixed_layout\<close> is the same contract for one entry of a list of fixed-size entries, which the code
  reads with \<^verbatim>\<open>chunks(n).map(...)\<close>: it lifts from one entry to the list.
\<close>

lemmas codec_total =
  access_eq_Ok data_length_Some data_length_None is_ok_u16_from_le is_ok_u32_from_le
  is_ok_u32_from_be app_data_check_Ok app_data_check_panics

section \<open>Response decoders\<close>

locale response_codec =
  fixes afn_code :: afn
    and fn_code :: u8
    and layout :: "'a \<Rightarrow> u8 list"
    and valid :: "'a \<Rightarrow> bool"
    and decode :: "app_data \<Rightarrow> 'a result"
  assumes decode_layout:
      "\<lbrakk>valid v; app_afn d = afn_code; fn_num d = Ok fn_code; data_units d = Some (layout v)\<rbrakk>
        \<Longrightarrow> decode d = Ok v"
    and decode_sound:
      "decode d = Ok v \<Longrightarrow> valid v \<and> app_afn d = afn_code \<and> fn_num d = Ok fn_code
        \<and> data_units d = Some (layout v)"
begin

lemma decode_Ok_iff:
  "decode d = Ok v \<longleftrightarrow>
     valid v \<and> app_afn d = afn_code \<and> fn_num d = Ok fn_code \<and> data_units d = Some (layout v)"
  using decode_layout decode_sound by blast

lemma decode_new: "valid v \<Longrightarrow> decode (app_data_new afn_code fn_code (Some (layout v))) = Ok v"
  by (rule decode_layout) simp_all

lemma layout_inject: "valid v \<Longrightarrow> valid w \<Longrightarrow> layout v = layout w \<Longrightarrow> v = w"
  by (metis decode_new outcome.inject(1))

lemma decode_other_fn:
  assumes "app_afn d \<noteq> afn_code \<or> fn_num d \<noteq> Ok fn_code"
  shows "\<not> is_ok (decode d)"
  using assms by (auto simp: is_ok_iff decode_Ok_iff)

text \<open>A response survives being put into the application data of a frame and read back.\<close>

lemma decode_transported:
  assumes "valid v" and "layout v \<noteq> []"
  shows "andThen (app_data_try_from (app_data_to_vec (app_data_new afn_code fn_code (Some (layout v)))))
    decode = Ok v"
  using assms by (simp add: decode_new del: andThen_eq_Ok)

end

text \<open>Decoders that cannot stop the thread: the application data of a frame always carries a flag with
  a mark (\<open>app_data_try_from\<close> made it with \<^verbatim>\<open>AppData::new\<close>), and the rest is length checks.\<close>

locale total_codec = response_codec +
  assumes decode_total: "flag_mark (app_flag d) \<noteq> 0 \<Longrightarrow> \<not> panics (decode d)"
begin

lemma decode_received_total:
  assumes "app_data_try_from bytes = Ok d"
  shows "\<not> panics (decode d)"
  using assms by (intro decode_total) (auto simp: app_data_try_from_Ok_iff app_data_new_def)

lemma decode_cases:
  assumes "app_data_try_from bytes = Ok d"
  obtains (accepted) v where "decode d = Ok v" "valid v" "app_afn d = afn_code" "fn_num d = Ok fn_code"
      "data_units d = Some (layout v)"
    | (rejected) e where "decode d = Err e"
  using decode_received_total [OF assms] decode_sound by (cases "decode d") auto

end

section \<open>Entries of fixed size\<close>

text \<open>A reader of entries that accepts every piece of the right size.\<close>

locale entry_reader =
  fixes width :: nat
    and dec :: "u8 list \<Rightarrow> 'a result"
  assumes width_pos: "0 < width"
    and dec_total: "length bs = width \<Longrightarrow> \<exists>x. dec bs = Ok x"
begin

lemma entries_total:
  "length bs = n * width \<Longrightarrow> \<exists>xs. traverse dec (chunks width bs) = Ok xs \<and> length xs = n"
proof (induction n arbitrary: bs)
  case 0
  then show ?case by simp
next
  case (Suc n)
  then have "bs \<noteq> []" and "length (take width bs) = width" and "length (drop width bs) = n * width"
    using width_pos by auto
  with Suc.IH [of "drop width bs"] dec_total [of "take width bs"] width_pos show ?case
    by (auto simp: chunks_step)
qed

lemma counted_entries: "length bs = n * width \<Longrightarrow> take n (chunks width bs) = chunks width bs"
  using length_chunks_exact [OF width_pos, of bs n] by simp

lemma counted_total:
  "length bs = n * width \<Longrightarrow> \<exists>xs. traverse dec (take n (chunks width bs)) = Ok xs \<and> length xs = n"
  using entries_total [of bs n] counted_entries [of bs n] by simp

lemma entries_no_panic: "length bs = n * width \<Longrightarrow> \<not> panics (traverse dec (chunks width bs))"
  using entries_total [of bs n] by auto

end



locale fixed_layout =
  fixes width :: nat
    and enc :: "'a \<Rightarrow> u8 list"
    and ok :: "'a \<Rightarrow> bool"
    and dec :: "u8 list \<Rightarrow> 'a result"
  assumes width_pos: "0 < width"
    and length_enc: "ok x \<Longrightarrow> length (enc x) = width"
    and dec_enc: "ok x \<Longrightarrow> dec (enc x) = Ok x"
    and dec_sound: "length bs = width \<Longrightarrow> dec bs = Ok x \<Longrightarrow> ok x \<and> enc x = bs"
begin

lemma length_concat_enc: "\<forall>x \<in> set xs. ok x \<Longrightarrow> length (concat (map enc xs)) = length xs * width"
  by (induction xs) (auto simp: length_enc)

lemma chunks_concat_enc: "\<forall>x \<in> set xs. ok x \<Longrightarrow> chunks width (concat (map enc xs)) = map enc xs"
  by (induction xs) (auto simp: chunks_append length_enc width_pos)

lemma traverse_dec_enc: "\<forall>x \<in> set xs. ok x \<Longrightarrow> traverse dec (map enc xs) = Ok xs"
  by (induction xs) (auto simp: dec_enc)

lemma decode_entries:
  "\<forall>x \<in> set xs. ok x \<Longrightarrow> traverse dec (chunks width (concat (map enc xs))) = Ok xs"
  by (simp add: chunks_concat_enc traverse_dec_enc)

lemma decode_entries_sound:
  "length bs = n * width \<Longrightarrow> traverse dec (chunks width bs) = Ok xs
     \<Longrightarrow> (\<forall>x \<in> set xs. ok x) \<and> concat (map enc xs) = bs \<and> length xs = n"
proof (induction n arbitrary: bs xs)
  case 0
  then show ?case by simp
next
  case (Suc n)
  then have "bs \<noteq> []" using width_pos by auto
  with Suc.prems(2) width_pos obtain y ys where y: "dec (take width bs) = Ok y"
    and ys: "traverse dec (chunks width (drop width bs)) = Ok ys" and xs: "xs = y # ys"
    by (auto simp: chunks_step)
  have "length (take width bs) = width" and rest: "length (drop width bs) = n * width"
    using Suc.prems(1) by simp_all
  with dec_sound [OF _ y] have "ok y" "enc y = take width bs" by auto
  with Suc.IH [OF rest ys] xs show ?case by simp
qed

end

section \<open>Counted responses\<close>

text \<open>A response that is a prefix with a count byte and that many entries of fixed size: it is accepted
  exactly when its length is the one the count announces, and then it holds that many entries.\<close>

definition counted_units :: "nat \<Rightarrow> nat \<Rightarrow> nat \<Rightarrow> u8 list \<Rightarrow> bool" where
  "counted_units prefix pos width u \<longleftrightarrow> prefix \<le> length u \<and> length u = unat (u ! pos) * width + prefix"

locale counted_response =
  fixes afn_code :: afn
    and fn_code :: u8
    and prefix pos width :: nat
    and decode :: "app_data \<Rightarrow> 'r result"
    and entries :: "'r \<Rightarrow> nat"
  assumes accepts:
      "\<lbrakk>app_afn d = afn_code; fn_num d = Ok fn_code; data_units d = Some u; counted_units prefix pos width u\<rbrakk>
        \<Longrightarrow> \<exists>r. decode d = Ok r"
    and sound:
      "decode d = Ok r \<Longrightarrow> app_afn d = afn_code \<and> fn_num d = Ok fn_code
        \<and> (\<exists>u. data_units d = Some u \<and> counted_units prefix pos width u \<and> entries r = unat (u ! pos))"
    and never_panics: "flag_mark (app_flag d) \<noteq> 0 \<Longrightarrow> \<not> panics (decode d)"
begin

lemma accepted_iff:
  "is_ok (decode d) \<longleftrightarrow> app_afn d = afn_code \<and> fn_num d = Ok fn_code
     \<and> (\<exists>u. data_units d = Some u \<and> counted_units prefix pos width u)"
  by (auto simp: is_ok_iff dest: sound intro: accepts)

lemma entries_counted: "decode d = Ok r \<Longrightarrow> data_units d = Some u \<Longrightarrow> entries r = unat (u ! pos)"
  by (auto dest: sound)

lemma entries_bound: "decode d = Ok r \<Longrightarrow> entries r < 256"
  by (auto dest!: sound simp: unat_u8_less)

lemma received_never_panics: "app_data_try_from bytes = Ok d \<Longrightarrow> \<not> panics (decode d)"
  by (intro never_panics) (auto simp: app_data_try_from_Ok_iff app_data_new_def)

end

end
