(* ===== verification/Message_Codecs.thy ===== *)
theory Message_Codecs
  imports Response_Codec
begin

text \<open>
  The application messages of fixed or length-prefixed shape:
  src/src/protocol/app_data/answer.rs, init.rs, meter_ctrl.rs, ctrl_cmd.rs, data_trans.rs,
  route_data_forward.rs, route_data_read.rs, meter_reading.rs and file_transfer.rs.
  A request type is its record and its \<^verbatim>\<open>From<..> for AppData\<close>; a response type its record and its
  \<^verbatim>\<open>TryFrom<AppData>\<close>, with the layout it reads and the interpretation of \<open>total_codec\<close> that says
  it reads exactly that layout.
\<close>

section \<open>Confirm and deny (answer.rs)\<close>

datatype answer_fn = Confirm | Deny

fun answer_fn_to_u8 :: "answer_fn \<Rightarrow> u8" where
  "answer_fn_to_u8 Confirm = 1"
| "answer_fn_to_u8 Deny = 2"

record confirm_response =
  channel_status :: u32
  wait_time :: u16

definition confirm_response_default :: confirm_response where
  "confirm_response_default = \<lparr>channel_status = 0, wait_time = 6\<rparr>"

definition confirm_response_try_from :: "app_data \<Rightarrow> confirm_response result" where
  "confirm_response_try_from d =
     andThen (app_data_check d Answer (answer_fn_to_u8 Confirm) 6) (\<lambda>_.
     andThen (unwrap_option (data_units d)) (\<lambda>units.
     andThen (slice units 0 4) (\<lambda>s.
     andThen (unwrap (u32_from_be ArrayLength s)) (\<lambda>status.
     andThen (slice units 4 6) (\<lambda>t.
     andThen (unwrap (u16_from_le ArrayLength t)) (\<lambda>time.
     Ok \<lparr>channel_status = status, wait_time = time\<rparr>))))))"

definition confirm_response_to_app_data :: "confirm_response \<Rightarrow> app_data" where
  "confirm_response_to_app_data r =
     app_data_new Answer (answer_fn_to_u8 Confirm)
       (Some (rev (u32_to_le (channel_status r)) @ u16_to_le (wait_time r)))"

datatype deny_error_code =
    TimeOut | InvalidDataUnit | DenyLengthError | DenyChecksumError | InfoClassNotExist | FormatError
  | MeterDup | MeterNotExist | AppNoResponse | MasterBusy | MasterNotSupport | SlaveNoResponse
  | SlaveOutNet | ExceedCocurrentNum | ExceedMsgNum | MeterOperating | Other

fun deny_error_code_to_u8 :: "deny_error_code \<Rightarrow> u8" where
  "deny_error_code_to_u8 TimeOut = 0"
| "deny_error_code_to_u8 InvalidDataUnit = 1"
| "deny_error_code_to_u8 DenyLengthError = 2"
| "deny_error_code_to_u8 DenyChecksumError = 3"
| "deny_error_code_to_u8 InfoClassNotExist = 4"
| "deny_error_code_to_u8 FormatError = 5"
| "deny_error_code_to_u8 MeterDup = 6"
| "deny_error_code_to_u8 MeterNotExist = 7"
| "deny_error_code_to_u8 AppNoResponse = 8"
| "deny_error_code_to_u8 MasterBusy = 9"
| "deny_error_code_to_u8 MasterNotSupport = 10"
| "deny_error_code_to_u8 SlaveNoResponse = 11"
| "deny_error_code_to_u8 SlaveOutNet = 12"
| "deny_error_code_to_u8 ExceedCocurrentNum = 109"
| "deny_error_code_to_u8 ExceedMsgNum = 110"
| "deny_error_code_to_u8 MeterOperating = 111"
| "deny_error_code_to_u8 Other = 255"

definition all_deny_error_codes :: "deny_error_code list" where
  "all_deny_error_codes =
     [TimeOut, InvalidDataUnit, DenyLengthError, DenyChecksumError, InfoClassNotExist, FormatError,
      MeterDup, MeterNotExist, AppNoResponse, MasterBusy, MasterNotSupport, SlaveNoResponse,
      SlaveOutNet, ExceedCocurrentNum, ExceedMsgNum, MeterOperating, Other]"

definition deny_error_code_try_from :: "u8 \<Rightarrow> deny_error_code result" where
  "deny_error_code_try_from =
     of_code ''DenyErrorCode'' (with_codes deny_error_code_to_u8 all_deny_error_codes)"

record deny_response =
  error_code :: deny_error_code

definition deny_response_try_from :: "app_data \<Rightarrow> deny_response result" where
  "deny_response_try_from d =
     andThen (app_data_check d Answer (answer_fn_to_u8 Deny) 1) (\<lambda>_.
     andThen (unwrap_option (data_units d)) (\<lambda>units.
     andThen (index units 0) (\<lambda>b.
     andThen (deny_error_code_try_from b) (\<lambda>c.
     Ok \<lparr>error_code = c\<rparr>))))"

definition deny_response_to_app_data :: "deny_response \<Rightarrow> app_data" where
  "deny_response_to_app_data r =
     app_data_new Answer (answer_fn_to_u8 Deny) (Some [deny_error_code_to_u8 (error_code r)])"

section \<open>Initialisation and routing control (init.rs, meter_ctrl.rs)\<close>

datatype init_operation = Hard | Params | InitData

fun init_operation_to_u8 :: "init_operation \<Rightarrow> u8" where
  "init_operation_to_u8 Hard = 1"
| "init_operation_to_u8 Params = 2"
| "init_operation_to_u8 InitData = 3"

definition init_request_to_app_data :: "init_operation \<Rightarrow> app_data" where
  "init_request_to_app_data operation = app_data_new Init (init_operation_to_u8 operation) None"

datatype meter_control = Restart | Pause | Resume

fun meter_control_to_u8 :: "meter_control \<Rightarrow> u8" where
  "meter_control_to_u8 Restart = 1"
| "meter_control_to_u8 Pause = 2"
| "meter_control_to_u8 Resume = 3"

definition pause_metering_to_app_data :: app_data where
  "pause_metering_to_app_data = app_data_new RouteCtrl (meter_control_to_u8 Pause) None"

definition resume_metering_to_app_data :: app_data where
  "resume_metering_to_app_data = app_data_new RouteCtrl (meter_control_to_u8 Resume) None"

definition restart_metering_to_app_data :: app_data where
  "restart_metering_to_app_data = app_data_new RouteCtrl (meter_control_to_u8 Restart) None"

section \<open>Control commands (ctrl_cmd.rs)\<close>

datatype ctrl_cmd = SetAddress | RefuseSlaveReport | Broadcast | IdentifyArea | HplcFrequency

fun ctrl_cmd_to_u8 :: "ctrl_cmd \<Rightarrow> u8" where
  "ctrl_cmd_to_u8 SetAddress = 1"
| "ctrl_cmd_to_u8 RefuseSlaveReport = 2"
| "ctrl_cmd_to_u8 Broadcast = 3"
| "ctrl_cmd_to_u8 IdentifyArea = 6"
| "ctrl_cmd_to_u8 HplcFrequency = 16"

record broadcast_request =
  br_protocol_type :: u8
  br_message :: "u8 list"

definition broadcast_request_to_app_data :: "broadcast_request \<Rightarrow> app_data" where
  "broadcast_request_to_app_data r =
     app_data_new CtrlCmd (ctrl_cmd_to_u8 Broadcast)
       (Some ([br_protocol_type r, of_nat (length (br_message r))] @ br_message r))"

definition address_set_request_to_app_data :: "address \<Rightarrow> app_data" where
  "address_set_request_to_app_data address =
     app_data_new CtrlCmd (ctrl_cmd_to_u8 SetAddress) (Some (address_to_vec address))"

definition identify_area_set_request_to_app_data :: "u8 \<Rightarrow> app_data" where
  "identify_area_set_request_to_app_data enable_flag =
     app_data_new CtrlCmd (ctrl_cmd_to_u8 IdentifyArea) (Some [enable_flag])"

definition hplc_frequency_set_request_to_app_data :: "u8 \<Rightarrow> app_data" where
  "hplc_frequency_set_request_to_app_data frequency =
     app_data_new CtrlCmd (ctrl_cmd_to_u8 HplcFrequency) (Some [frequency])"

definition slave_report_request_to_app_data :: "u8 \<Rightarrow> app_data" where
  "slave_report_request_to_app_data enable =
     app_data_new CtrlCmd (ctrl_cmd_to_u8 RefuseSlaveReport) (Some [enable])"

section \<open>Transparent transfer (data_trans.rs)\<close>

definition TRANSFER_FRAME :: u8 where "TRANSFER_FRAME = 1"
definition TRANS_PREFIX_LEN :: nat where "TRANS_PREFIX_LEN = 2"

record transfer_frame_request =
  tfq_protocol_type :: u8
  tfq_message :: "u8 list"

definition transfer_frame_request_to_app_data :: "transfer_frame_request \<Rightarrow> app_data" where
  "transfer_frame_request_to_app_data r =
     app_data_new DataForward TRANSFER_FRAME
       (Some ([tfq_protocol_type r, of_nat (length (tfq_message r))] @ tfq_message r))"

record transfer_frame_response =
  tfr_protocol_type :: u8
  tfr_message_len :: u8
  tfr_message :: "u8 list"

definition transfer_frame_response_try_from :: "app_data \<Rightarrow> transfer_frame_response result" where
  "transfer_frame_response_try_from d =
     andThen (ensure (TRANS_PREFIX_LEN \<le> data_length d) (AppDataErr (DataLengthError (data_length d)))) (\<lambda>_.
     andThen (unwrap_option (data_units d)) (\<lambda>units0.
     andThen (index units0 1) (\<lambda>message_len.
     andThen (app_data_check d DataForward TRANSFER_FRAME (TRANS_PREFIX_LEN + unat message_len)) (\<lambda>_.
     andThen (unwrap_option (data_units d)) (\<lambda>units.
     andThen (index units 0) (\<lambda>protocol_type.
     andThen (slice_from units TRANS_PREFIX_LEN) (\<lambda>message.
     Ok \<lparr>tfr_protocol_type = protocol_type, tfr_message_len = message_len, tfr_message = message\<rparr>)))))))"

section \<open>Monitoring a node (route_data_forward.rs)\<close>

definition MONITOR_NODE :: u8 where "MONITOR_NODE = 1"
definition MONITOR_PREFIX_LEN :: nat where "MONITOR_PREFIX_LEN = 4"

record monitor_node_request =
  mnq_protocol_type :: u8
  mnq_comm_delay_flag :: u8
  mnq_node_addrs :: "address list"
  mnq_message :: "u8 list"

definition monitor_node_request_to_app_data :: "monitor_node_request \<Rightarrow> app_data" where
  "monitor_node_request_to_app_data r =
     app_data_new RouteDataForward MONITOR_NODE
       (Some ([mnq_protocol_type r, mnq_comm_delay_flag r, of_nat (length (mnq_node_addrs r))]
         @ concat (map address_to_vec (mnq_node_addrs r))
         @ [of_nat (length (mnq_message r))] @ mnq_message r))"

record monitor_node_response =
  mnr_up_time :: u16
  mnr_protocol_type :: u8
  mnr_message_len :: u8
  mnr_message :: "u8 list"

definition monitor_node_response_try_from :: "app_data \<Rightarrow> monitor_node_response result" where
  "monitor_node_response_try_from d =
     andThen (ensure (MONITOR_PREFIX_LEN \<le> data_length d) (AppDataErr (DataLengthError (data_length d)))) (\<lambda>_.
     andThen (unwrap_option (data_units d)) (\<lambda>units0.
     andThen (index units0 3) (\<lambda>message_len.
     andThen (app_data_check d RouteDataForward MONITOR_NODE (MONITOR_PREFIX_LEN + unat message_len)) (\<lambda>_.
     andThen (unwrap_option (data_units d)) (\<lambda>units.
     andThen (slice units 0 2) (\<lambda>t.
     andThen (unwrap (u16_from_le ArrayLength t)) (\<lambda>up_time.
     andThen (index units 2) (\<lambda>protocol_type.
     andThen (slice_from units MONITOR_PREFIX_LEN) (\<lambda>message.
     Ok \<lparr>mnr_up_time = up_time, mnr_protocol_type = protocol_type, mnr_message_len = message_len,
         mnr_message = message\<rparr>)))))))))"

section \<open>Requests of the router (route_data_read.rs)\<close>

definition ROUTE_READ_CLOCK :: u8 where "ROUTE_READ_CLOCK = 2"
definition ROUTE_READ_COMM_DELAY :: u8 where "ROUTE_READ_COMM_DELAY = 3"
definition COMM_DELAY_PREFIX_LEN :: nat where "COMM_DELAY_PREFIX_LEN = 9"

text \<open>The local time \<^verbatim>\<open>Local::now()\<close> returns is an argument.\<close>

record clock =
  clk_second :: nat
  clk_minute :: nat
  clk_hour :: nat
  clk_day :: nat
  clk_month :: nat
  clk_year :: int

definition rust_rem :: "int \<Rightarrow> int \<Rightarrow> int" where
  "rust_rem a b = (if a < 0 then - (- a mod b) else a mod b)"

definition clock_data_response_to_app_data :: "clock \<Rightarrow> app_data" where
  "clock_data_response_to_app_data now =
     app_data_new RouteDataRead ROUTE_READ_CLOCK
       (Some [dec_to_hex (of_nat (clk_second now)), dec_to_hex (of_nat (clk_minute now)),
              dec_to_hex (of_nat (clk_hour now)), dec_to_hex (of_nat (clk_day now)),
              dec_to_hex (of_nat (clk_month now)), dec_to_hex (of_int (rust_rem (clk_year now) 100))])"

record comm_delay_request =
  cdq_node_addr :: address
  cdq_delay :: u16
  cdq_message_len :: u8
  cdq_message :: "u8 list"

definition comm_delay_request_try_from :: "app_data \<Rightarrow> comm_delay_request result" where
  "comm_delay_request_try_from d =
     andThen (ensure (COMM_DELAY_PREFIX_LEN \<le> data_length d) (AppDataErr (DataLengthError (data_length d)))) (\<lambda>_.
     andThen (unwrap_option (data_units d)) (\<lambda>units0.
     andThen (index units0 8) (\<lambda>message_len.
     andThen (app_data_check d RouteDataRead ROUTE_READ_COMM_DELAY
                (COMM_DELAY_PREFIX_LEN + unat message_len)) (\<lambda>_.
     andThen (unwrap_option (data_units d)) (\<lambda>units.
     andThen (slice units 0 6) (\<lambda>a.
     andThen (address_try_from a) (\<lambda>node_addr.
     andThen (index units 6) (\<lambda>lo.
     andThen (index units 7) (\<lambda>hi.
     andThen (slice_from units COMM_DELAY_PREFIX_LEN) (\<lambda>message.
     Ok \<lparr>cdq_node_addr = node_addr, cdq_delay = u16_le lo hi, cdq_message_len = message_len,
         cdq_message = message\<rparr>))))))))))"

record comm_delay_response =
  cdr_message_len :: u8
  cdr_message :: "u8 list"

definition comm_delay_response_new :: "u8 list \<Rightarrow> comm_delay_response" where
  "comm_delay_response_new message =
     \<lparr>cdr_message_len = of_nat (length message), cdr_message = message\<rparr>"

definition comm_delay_response_to_app_data :: "comm_delay_response \<Rightarrow> app_data" where
  "comm_delay_response_to_app_data r =
     app_data_new RouteDataRead ROUTE_READ_COMM_DELAY (Some (cdr_message_len r # cdr_message r))"

section \<open>Concurrent meter reading (meter_reading.rs)\<close>

definition ACTIVE_READ_METER :: u8 where "ACTIVE_READ_METER = 1"
definition READ_RES_PREFIX_LEN :: nat where "READ_RES_PREFIX_LEN = 3"

record concurrent_read_meter_request =
  crq_protocol_type :: u8
  crq_reserve :: u8
  crq_message :: "u8 list"

definition concurrent_read_meter_request_new :: "u8 \<Rightarrow> u8 list \<Rightarrow> concurrent_read_meter_request" where
  "concurrent_read_meter_request_new protocol_type message =
     \<lparr>crq_protocol_type = protocol_type, crq_reserve = 0, crq_message = message\<rparr>"

definition concurrent_read_meter_request_to_app_data :: "concurrent_read_meter_request \<Rightarrow> app_data" where
  "concurrent_read_meter_request_to_app_data r =
     app_data_new CocurrentReadMeter ACTIVE_READ_METER
       (Some ([crq_protocol_type r, crq_reserve r] @ u16_to_le (of_nat (length (crq_message r)))
         @ crq_message r))"

record concurrent_read_meter_response =
  crr_protocol_type :: u8
  crr_message_len :: u16
  crr_message :: "u8 list"

definition concurrent_read_meter_response_try_from ::
    "app_data \<Rightarrow> concurrent_read_meter_response result" where
  "concurrent_read_meter_response_try_from d =
     andThen (ensure (READ_RES_PREFIX_LEN \<le> data_length d) (AppDataErr (DataLengthError (data_length d)))) (\<lambda>_.
     andThen (unwrap_option (data_units d)) (\<lambda>units0.
     andThen (slice units0 1 3) (\<lambda>l.
     andThen (unwrap (u16_from_le ArrayLength l)) (\<lambda>message_len.
     andThen (app_data_check d CocurrentReadMeter ACTIVE_READ_METER
                (READ_RES_PREFIX_LEN + unat message_len)) (\<lambda>_.
     andThen (unwrap_option (data_units d)) (\<lambda>units.
     andThen (index units 0) (\<lambda>protocol_type.
     andThen (slice_from units READ_RES_PREFIX_LEN) (\<lambda>message.
     Ok \<lparr>crr_protocol_type = protocol_type, crr_message_len = message_len, crr_message = message\<rparr>))))))))"

section \<open>File transfer (file_transfer.rs)\<close>

definition FILE_TRANSFER_METHOD :: u8 where "FILE_TRANSFER_METHOD = 1"
definition FILE_TRANSFER_PREFIX_LEN :: nat where "FILE_TRANSFER_PREFIX_LEN = 11"
definition FILE_CHECK_ERROR :: u32 where "FILE_CHECK_ERROR = 0xffffffff"

datatype file_flag = Clear | Module | MasterAndSlave | SlaveFile

fun file_flag_to_u8 :: "file_flag \<Rightarrow> u8" where
  "file_flag_to_u8 Clear = 0"
| "file_flag_to_u8 Module = 3"
| "file_flag_to_u8 MasterAndSlave = 7"
| "file_flag_to_u8 SlaveFile = 8"

definition file_flag_try_from :: "u8 \<Rightarrow> file_flag result" where
  "file_flag_try_from =
     of_code ''FileFlag'' (with_codes file_flag_to_u8 [Clear, Module, MasterAndSlave, SlaveFile])"

record file_transfer_request =
  ftq_file_flag :: file_flag
  ftq_file_attr :: u8
  ftq_file_command :: u8
  ftq_segment_num :: u16
  ftq_segment_offset :: u32
  ftq_segment_len :: u16
  ftq_file_data :: "u8 list"

definition file_transfer_request_new :: "file_flag \<Rightarrow> u16 \<Rightarrow> u32 \<Rightarrow> u8 list \<Rightarrow> file_transfer_request" where
  "file_transfer_request_new flag segment_num segment_offset data =
     \<lparr>ftq_file_flag = flag,
      ftq_file_attr = (if segment_offset = ucast segment_num - 1 then 1 else 0),
      ftq_file_command = 0,
      ftq_segment_num = segment_num,
      ftq_segment_offset = segment_offset,
      ftq_segment_len = of_nat (length data),
      ftq_file_data = data\<rparr>"

definition file_transfer_request_to_app_data :: "file_transfer_request \<Rightarrow> app_data" where
  "file_transfer_request_to_app_data r =
     app_data_new FileTransfer FILE_TRANSFER_METHOD
       (Some ([file_flag_to_u8 (ftq_file_flag r), ftq_file_attr r, ftq_file_command r]
         @ u16_to_le (ftq_segment_num r) @ u32_to_le (ftq_segment_offset r)
         @ u16_to_le (ftq_segment_len r) @ ftq_file_data r))"

record file_transfer_response =
  segment_flag :: u32

definition file_transfer_response_try_from :: "app_data \<Rightarrow> file_transfer_response result" where
  "file_transfer_response_try_from d =
     andThen (app_data_check d FileTransfer FILE_TRANSFER_METHOD 4) (\<lambda>_.
     andThen (unwrap_option (data_units d)) (\<lambda>units.
     andThen (slice units 0 4) (\<lambda>s.
     andThen (unwrap (u32_from_le ArrayLength s)) (\<lambda>flag.
     Ok \<lparr>segment_flag = flag\<rparr>))))"

section \<open>The layouts of the responses\<close>

lemma u16_le_iff: "u16_le b0 b1 = w \<longleftrightarrow> [b0, b1] = u16_to_le w"
  using u16_to_le_of_le [of b0 b1] by (metis u16_from_le.simps(1) u16_from_le_to_le outcome.inject(1))

lemmas prefix_lengths =
  TRANS_PREFIX_LEN_def MONITOR_PREFIX_LEN_def COMM_DELAY_PREFIX_LEN_def READ_RES_PREFIX_LEN_def

interpretation confirm: total_codec Answer 1
  "\<lambda>r. rev (u32_to_le (channel_status r)) @ u16_to_le (wait_time r)" "\<lambda>r. True"
  confirm_response_try_from
proof
  fix v :: confirm_response and d
  assume "app_afn d = Answer" "fn_num d = Ok 1"
    "data_units d = Some (rev (u32_to_le (channel_status v)) @ u16_to_le (wait_time v))"
  then show "confirm_response_try_from d = Ok v"
    by (simp add: confirm_response_try_from_def app_data_check_Ok data_length_Some access_eq_Ok
        word_bytes_iff)
next
  fix d v
  assume "confirm_response_try_from d = Ok v"
  then show "True \<and> app_afn d = Answer \<and> fn_num d = Ok 1
      \<and> data_units d = Some (rev (u32_to_le (channel_status v)) @ u16_to_le (wait_time v))"
    by (auto simp: confirm_response_try_from_def app_data_check_Ok data_length_Some access_eq_Ok
        word_bytes_iff) (metis append_take_drop_id)
next
  fix d :: app_data
  assume "flag_mark (app_flag d) \<noteq> 0"
  then show "\<not> panics (confirm_response_try_from d)"
    by (cases "data_units d")
       (auto simp: confirm_response_try_from_def codec_total prefix_lengths)
qed

interpretation deny_code: byte_enum deny_error_code_to_u8 deny_error_code_try_from
proof
  fix v
  show "deny_error_code_try_from (deny_error_code_to_u8 v) = Ok v"
    by (cases v) (simp_all add: deny_error_code_try_from_def of_code_def with_codes_def
        all_deny_error_codes_def)
qed (auto simp: deny_error_code_try_from_def of_code_no_panic dest: of_code_sound)

interpretation deny: total_codec Answer 2
  "\<lambda>r. [deny_error_code_to_u8 (error_code r)]" "\<lambda>r. True" deny_response_try_from
proof
  fix v :: deny_response and d
  assume "app_afn d = Answer" "fn_num d = Ok 2"
    "data_units d = Some [deny_error_code_to_u8 (error_code v)]"
  then show "deny_response_try_from d = Ok v"
    by (simp add: deny_response_try_from_def app_data_check_Ok data_length_Some access_eq_Ok
        deny_code.of_byte_to_byte)
next
  fix d v
  assume "deny_response_try_from d = Ok v"
  then show "True \<and> app_afn d = Answer \<and> fn_num d = Ok 2
      \<and> data_units d = Some [deny_error_code_to_u8 (error_code v)]"
    by (auto simp: deny_response_try_from_def app_data_check_Ok data_length_Some access_eq_Ok
        deny_code.of_byte_Ok_iff length_Suc_conv)
next
  fix d :: app_data
  assume "flag_mark (app_flag d) \<noteq> 0"
  then show "\<not> panics (deny_response_try_from d)"
    by (cases "data_units d")
       (auto simp: deny_response_try_from_def codec_total prefix_lengths
         deny_code.of_byte_no_panic)
qed

interpretation transfer_frame: total_codec DataForward TRANSFER_FRAME
  "\<lambda>r. [tfr_protocol_type r, tfr_message_len r] @ tfr_message r"
  "\<lambda>r. length (tfr_message r) = unat (tfr_message_len r)" transfer_frame_response_try_from
proof
  fix v :: transfer_frame_response and d
  assume "length (tfr_message v) = unat (tfr_message_len v)"
    "app_afn d = DataForward" "fn_num d = Ok TRANSFER_FRAME"
    "data_units d = Some ([tfr_protocol_type v, tfr_message_len v] @ tfr_message v)"
  then show "transfer_frame_response_try_from d = Ok v"
    by (simp add: transfer_frame_response_try_from_def app_data_check_Ok data_length_Some access_eq_Ok
        TRANS_PREFIX_LEN_def)
next
  fix d v
  assume "transfer_frame_response_try_from d = Ok v"
  then show "length (tfr_message v) = unat (tfr_message_len v) \<and> app_afn d = DataForward
      \<and> fn_num d = Ok TRANSFER_FRAME
      \<and> data_units d = Some ([tfr_protocol_type v, tfr_message_len v] @ tfr_message v)"
    by (auto simp: transfer_frame_response_try_from_def app_data_check_Ok data_length_Some access_eq_Ok
        TRANS_PREFIX_LEN_def length_ge_iff)
next
  fix d :: app_data
  assume "flag_mark (app_flag d) \<noteq> 0"
  then show "\<not> panics (transfer_frame_response_try_from d)"
    by (cases "data_units d")
       (auto simp: transfer_frame_response_try_from_def codec_total prefix_lengths)
qed

interpretation monitor_node: total_codec RouteDataForward MONITOR_NODE
  "\<lambda>r. u16_to_le (mnr_up_time r) @ [mnr_protocol_type r, mnr_message_len r] @ mnr_message r"
  "\<lambda>r. length (mnr_message r) = unat (mnr_message_len r)" monitor_node_response_try_from
proof
  fix v :: monitor_node_response and d
  assume "length (mnr_message v) = unat (mnr_message_len v)"
    "app_afn d = RouteDataForward" "fn_num d = Ok MONITOR_NODE"
    "data_units d = Some (u16_to_le (mnr_up_time v) @ [mnr_protocol_type v, mnr_message_len v]
       @ mnr_message v)"
  then show "monitor_node_response_try_from d = Ok v"
    by (simp add: monitor_node_response_try_from_def app_data_check_Ok data_length_Some access_eq_Ok
        word_bytes_iff MONITOR_PREFIX_LEN_def nth_append)
next
  fix d v
  assume "monitor_node_response_try_from d = Ok v"
  then show "length (mnr_message v) = unat (mnr_message_len v) \<and> app_afn d = RouteDataForward
      \<and> fn_num d = Ok MONITOR_NODE
      \<and> data_units d = Some (u16_to_le (mnr_up_time v) @ [mnr_protocol_type v, mnr_message_len v]
          @ mnr_message v)"
    by (auto simp: monitor_node_response_try_from_def app_data_check_Ok data_length_Some access_eq_Ok
        word_bytes_iff MONITOR_PREFIX_LEN_def length_ge_iff)
next
  fix d :: app_data
  assume "flag_mark (app_flag d) \<noteq> 0"
  then show "\<not> panics (monitor_node_response_try_from d)"
    by (cases "data_units d")
       (auto simp: monitor_node_response_try_from_def codec_total prefix_lengths)
qed

interpretation comm_delay: total_codec RouteDataRead ROUTE_READ_COMM_DELAY
  "\<lambda>r. address_to_vec (cdq_node_addr r) @ u16_to_le (cdq_delay r) @ [cdq_message_len r] @ cdq_message r"
  "\<lambda>r. length (cdq_message r) = unat (cdq_message_len r)" comm_delay_request_try_from
proof
  fix v :: comm_delay_request and d
  assume "length (cdq_message v) = unat (cdq_message_len v)"
    "app_afn d = RouteDataRead" "fn_num d = Ok ROUTE_READ_COMM_DELAY"
    "data_units d = Some (address_to_vec (cdq_node_addr v) @ u16_to_le (cdq_delay v)
       @ [cdq_message_len v] @ cdq_message v)"
  then show "comm_delay_request_try_from d = Ok v"
    by (simp add: comm_delay_request_try_from_def app_data_check_Ok data_length_Some access_eq_Ok
        address_try_from_Ok_iff COMM_DELAY_PREFIX_LEN_def nth_append u16_le_iff u16_to_le_def)
next
  fix d v
  assume "comm_delay_request_try_from d = Ok v"
  then show "length (cdq_message v) = unat (cdq_message_len v) \<and> app_afn d = RouteDataRead
      \<and> fn_num d = Ok ROUTE_READ_COMM_DELAY
      \<and> data_units d = Some (address_to_vec (cdq_node_addr v) @ u16_to_le (cdq_delay v)
          @ [cdq_message_len v] @ cdq_message v)"
    by (auto simp: comm_delay_request_try_from_def app_data_check_Ok data_length_Some access_eq_Ok
        address_try_from_Ok_iff COMM_DELAY_PREFIX_LEN_def numeral_eq_Suc Suc_le_length_iff)
next
  fix d :: app_data
  assume "flag_mark (app_flag d) \<noteq> 0"
  then show "\<not> panics (comm_delay_request_try_from d)"
    by (cases "data_units d")
       (auto simp: comm_delay_request_try_from_def codec_total prefix_lengths)
qed

interpretation concurrent_read: total_codec CocurrentReadMeter ACTIVE_READ_METER
  "\<lambda>r. [crr_protocol_type r] @ u16_to_le (crr_message_len r) @ crr_message r"
  "\<lambda>r. length (crr_message r) = unat (crr_message_len r)" concurrent_read_meter_response_try_from
proof
  fix v :: concurrent_read_meter_response and d
  assume "length (crr_message v) = unat (crr_message_len v)"
    "app_afn d = CocurrentReadMeter" "fn_num d = Ok ACTIVE_READ_METER"
    "data_units d = Some ([crr_protocol_type v] @ u16_to_le (crr_message_len v) @ crr_message v)"
  then show "concurrent_read_meter_response_try_from d = Ok v"
    by (simp add: concurrent_read_meter_response_try_from_def app_data_check_Ok data_length_Some
        access_eq_Ok word_bytes_iff READ_RES_PREFIX_LEN_def nth_append)
next
  fix d v
  assume "concurrent_read_meter_response_try_from d = Ok v"
  then show "length (crr_message v) = unat (crr_message_len v) \<and> app_afn d = CocurrentReadMeter
      \<and> fn_num d = Ok ACTIVE_READ_METER
      \<and> data_units d = Some ([crr_protocol_type v] @ u16_to_le (crr_message_len v) @ crr_message v)"
    by (auto simp: concurrent_read_meter_response_try_from_def app_data_check_Ok data_length_Some
        access_eq_Ok word_bytes_iff READ_RES_PREFIX_LEN_def length_ge_iff)
next
  fix d :: app_data
  assume "flag_mark (app_flag d) \<noteq> 0"
  then show "\<not> panics (concurrent_read_meter_response_try_from d)"
    by (cases "data_units d")
       (auto simp: concurrent_read_meter_response_try_from_def codec_total prefix_lengths)
qed

interpretation file_transfer: total_codec FileTransfer FILE_TRANSFER_METHOD
  "\<lambda>r. u32_to_le (segment_flag r)" "\<lambda>r. True" file_transfer_response_try_from
proof
  fix v :: file_transfer_response and d
  assume "app_afn d = FileTransfer" "fn_num d = Ok FILE_TRANSFER_METHOD"
    "data_units d = Some (u32_to_le (segment_flag v))"
  then show "file_transfer_response_try_from d = Ok v"
    by (simp add: file_transfer_response_try_from_def app_data_check_Ok data_length_Some access_eq_Ok
        word_bytes_iff)
next
  fix d v
  assume "file_transfer_response_try_from d = Ok v"
  then show "True \<and> app_afn d = FileTransfer \<and> fn_num d = Ok FILE_TRANSFER_METHOD
      \<and> data_units d = Some (u32_to_le (segment_flag v))"
    by (auto simp: file_transfer_response_try_from_def app_data_check_Ok data_length_Some access_eq_Ok
        word_bytes_iff)
next
  fix d :: app_data
  assume "flag_mark (app_flag d) \<noteq> 0"
  then show "\<not> panics (file_transfer_response_try_from d)"
    by (cases "data_units d")
       (auto simp: file_transfer_response_try_from_def codec_total prefix_lengths)
qed

section \<open>Properties\<close>

text \<open>A meter-reading response is accepted exactly when the application data has the function code
  and number of concurrent reading and the data units are the protocol byte, the little-endian length
  and a message of that length; nothing else is accepted and reading received data never stops the
  thread.\<close>

theorem concurrent_read_response_exact:
  assumes "app_data_try_from bytes = Ok d"
  shows "\<not> panics (concurrent_read_meter_response_try_from d)
    \<and> (concurrent_read_meter_response_try_from d = Ok r \<longleftrightarrow>
         app_afn d = CocurrentReadMeter \<and> fn_num d = Ok ACTIVE_READ_METER
         \<and> length (crr_message r) = unat (crr_message_len r)
         \<and> data_units d = Some ([crr_protocol_type r] @ u16_to_le (crr_message_len r) @ crr_message r))"
  using concurrent_read.decode_received_total [OF assms] concurrent_read.decode_Ok_iff [of d r] by auto

theorem concurrent_read_response_exact_witness:
  "concurrent_read_meter_response_try_from (app_data_new CocurrentReadMeter 1 (Some [2, 2, 0, 0x68, 0x16]))
     = Ok \<lparr>crr_protocol_type = 2, crr_message_len = 2, crr_message = [0x68, 0x16]\<rparr>"
  using concurrent_read_response_exact
      [OF app_data_roundtrip [of "Some [2, 2, 0, 0x68, 0x16]" CocurrentReadMeter 1],
       of "\<lparr>crr_protocol_type = 2, crr_message_len = 2, crr_message = [0x68, 0x16]\<rparr>"]
  by (simp add: ACTIVE_READ_METER_def u16_to_le_def)

text \<open>Confirmations and denials are read back from the messages the same types are written to; a
  denial has one of the seventeen codes, and any other code byte is refused.\<close>

theorem confirm_deny_roundtrip:
  "confirm_response_try_from (confirm_response_to_app_data c) = Ok c
   \<and> deny_response_try_from (deny_response_to_app_data r) = Ok r
   \<and> (is_ok (deny_response_try_from (app_data_new Answer 2 (Some [b])))
        \<longleftrightarrow> b \<in> deny_error_code_to_u8 ` set all_deny_error_codes)"
proof -
  have "UNIV = set all_deny_error_codes"
    by (rule set_eqI, simp add: all_deny_error_codes_def, rule deny_error_code.exhaust) auto
  then have "range deny_error_code_to_u8 = deny_error_code_to_u8 ` set all_deny_error_codes" by simp
  moreover have "is_ok (deny_response_try_from (app_data_new Answer 2 (Some [b])))
      \<longleftrightarrow> b \<in> range deny_error_code_to_u8"
  proof
    assume "is_ok (deny_response_try_from (app_data_new Answer 2 (Some [b])))"
    then show "b \<in> range deny_error_code_to_u8" by (auto simp: is_ok_iff deny.decode_Ok_iff)
  next
    assume "b \<in> range deny_error_code_to_u8"
    then obtain v where "b = deny_error_code_to_u8 v" by auto
    then show "is_ok (deny_response_try_from (app_data_new Answer 2 (Some [b])))"
      using deny.decode_new [of "\<lparr>error_code = v\<rparr>"] by simp
  qed
  ultimately show ?thesis
    using confirm.decode_new [of c] deny.decode_new [of r]
    by (simp add: confirm_response_to_app_data_def deny_response_to_app_data_def)
qed

end
