(* ===== verification/Active_Report.thy ===== *)
theory Active_Report
  imports Response_Codec
begin

text \<open>
  src/src/protocol/app_data/active_report.rs and route_set.rs: the reports the concentrator module
  sends on its own (AFN 06H), lists of fixed-size entries behind a count, and the requests that edit
  its node table (AFN 11H).
\<close>

section \<open>Reports (active_report.rs)\<close>

datatype active_report = ReportNode | WorkStatus | NodeInfoAndDeviceType | SlaveNodeEvt

fun active_report_to_u8 :: "active_report \<Rightarrow> u8" where
  "active_report_to_u8 ReportNode = 1"
| "active_report_to_u8 WorkStatus = 3"
| "active_report_to_u8 NodeInfoAndDeviceType = 4"
| "active_report_to_u8 SlaveNodeEvt = 5"

definition active_report_try_from :: "u8 \<Rightarrow> active_report result" where
  "active_report_try_from =
     of_code ''ActiveReport''
       (with_codes active_report_to_u8 [ReportNode, WorkStatus, NodeInfoAndDeviceType, SlaveNodeEvt])"

definition NODE_INFO_SIZE :: nat where "NODE_INFO_SIZE = 9"

record report_node_info_detail =
  rnd_address :: address
  rnd_protocol_type :: u8
  rnd_seq_num :: u16

definition report_node_info_detail_from :: "u8 list \<Rightarrow> report_node_info_detail result" where
  "report_node_info_detail_from data =
     andThen (slice data 0 6) (\<lambda>a.
     andThen (unwrap (address_try_from a)) (\<lambda>address.
     andThen (index data 6) (\<lambda>protocol_type.
     andThen (slice data 7 9) (\<lambda>s.
     andThen (unwrap (u16_from_le ArrayLength s)) (\<lambda>seq_num.
     Ok \<lparr>rnd_address = address, rnd_protocol_type = protocol_type, rnd_seq_num = seq_num\<rparr>)))))"

record report_node_info =
  rni_node_number :: u8
  rni_node_info_details :: "report_node_info_detail list"

definition report_node_info_try_from :: "app_data \<Rightarrow> report_node_info result" where
  "report_node_info_try_from d =
     andThen (ensure (1 \<le> data_length d) (AppDataErr (DataLengthError (data_length d)))) (\<lambda>_.
     andThen (unwrap_option (data_units d)) (\<lambda>units0.
     andThen (index units0 0) (\<lambda>node_number.
     andThen (app_data_check d Report (active_report_to_u8 ReportNode)
                (1 + unat node_number * NODE_INFO_SIZE)) (\<lambda>_.
     andThen (unwrap_option (data_units d)) (\<lambda>units.
     andThen (slice_from units 1) (\<lambda>rest.
     andThen (traverse report_node_info_detail_from
                (take (unat node_number) (chunks NODE_INFO_SIZE rest))) (\<lambda>details.
     Ok \<lparr>rni_node_number = node_number, rni_node_info_details = details\<rparr>)))))))"

datatype work_status_type = Meter | Search | IdentifyAreaStatus | OtherStatus

fun work_status_type_to_u8 :: "work_status_type \<Rightarrow> u8" where
  "work_status_type_to_u8 Meter = 1"
| "work_status_type_to_u8 Search = 2"
| "work_status_type_to_u8 IdentifyAreaStatus = 3"
| "work_status_type_to_u8 OtherStatus = 4"

definition work_status_type_try_from :: "u8 \<Rightarrow> work_status_type result" where
  "work_status_type_try_from =
     of_code ''WorkStatusType''
       (with_codes work_status_type_to_u8 [Meter, Search, IdentifyAreaStatus, OtherStatus])"

record report_work_status =
  rws_work_status_type :: work_status_type

definition report_work_status_try_from :: "app_data \<Rightarrow> report_work_status result" where
  "report_work_status_try_from d =
     andThen (app_data_check d Report (active_report_to_u8 WorkStatus) 1) (\<lambda>_.
     andThen (unwrap_option (data_units d)) (\<lambda>units.
     andThen (index units 0) (\<lambda>b.
     andThen (work_status_type_try_from b) (\<lambda>t.
     Ok \<lparr>rws_work_status_type = t\<rparr>))))"

definition SLAVE_NODE_INFO_SIZE :: nat where "SLAVE_NODE_INFO_SIZE = 7"

record slave_node_comm_info =
  snc_address :: address
  snc_protocol_type :: u8

definition slave_node_comm_info_from :: "u8 list \<Rightarrow> slave_node_comm_info result" where
  "slave_node_comm_info_from data =
     andThen (slice data 0 6) (\<lambda>a.
     andThen (unwrap (address_try_from a)) (\<lambda>address.
     andThen (index data 6) (\<lambda>protocol_type.
     Ok \<lparr>snc_address = address, snc_protocol_type = protocol_type\<rparr>)))"

record report_node_info_and_device_type =
  rnt_node_number :: u8
  rnt_node_info :: report_node_info_detail
  rnt_device_type :: u8
  rnt_slave_node_count :: u8
  rnt_slave_node_number :: u8
  rnt_slave_node_comm_infos :: "slave_node_comm_info list"

definition report_node_info_and_device_type_try_from ::
    "app_data \<Rightarrow> report_node_info_and_device_type result" where
  "report_node_info_and_device_type_try_from d =
     andThen (ensure (13 \<le> data_length d) (AppDataErr (DataLengthError (data_length d)))) (\<lambda>_.
     andThen (unwrap_option (data_units d)) (\<lambda>units0.
     andThen (index units0 12) (\<lambda>slave_node_number.
     andThen (app_data_check d Report (active_report_to_u8 NodeInfoAndDeviceType)
                (13 + unat slave_node_number * SLAVE_NODE_INFO_SIZE)) (\<lambda>_.
     andThen (unwrap_option (data_units d)) (\<lambda>units.
     andThen (slice_from units 13) (\<lambda>rest.
     andThen (traverse slave_node_comm_info_from
                (take (unat slave_node_number) (chunks SLAVE_NODE_INFO_SIZE rest))) (\<lambda>infos.
     andThen (index units 0) (\<lambda>node_number.
     andThen (slice units 1 10) (\<lambda>n.
     andThen (report_node_info_detail_from n) (\<lambda>node_info.
     andThen (index units 10) (\<lambda>device_type.
     andThen (index units 11) (\<lambda>slave_node_count.
     Ok \<lparr>rnt_node_number = node_number, rnt_node_info = node_info, rnt_device_type = device_type,
         rnt_slave_node_count = slave_node_count, rnt_slave_node_number = slave_node_number,
         rnt_slave_node_comm_infos = infos\<rparr>))))))))))))"

record slave_node_event =
  sne_device_type :: u8
  sne_protocol_type :: u8
  sne_data_length :: u8
  sne_data :: "u8 list"

definition slave_node_event_try_from :: "app_data \<Rightarrow> slave_node_event result" where
  "slave_node_event_try_from d =
     andThen (ensure (3 \<le> data_length d) (AppDataErr (DataLengthError (data_length d)))) (\<lambda>_.
     andThen (unwrap_option (data_units d)) (\<lambda>units0.
     andThen (index units0 2) (\<lambda>len.
     andThen (app_data_check d Report (active_report_to_u8 SlaveNodeEvt) (3 + unat len)) (\<lambda>_.
     andThen (unwrap_option (data_units d)) (\<lambda>units.
     andThen (index units 0) (\<lambda>device_type.
     andThen (index units 1) (\<lambda>protocol_type.
     andThen (slice units 3 (3 + unat len)) (\<lambda>data.
     Ok \<lparr>sne_device_type = device_type, sne_protocol_type = protocol_type, sne_data_length = len,
         sne_data = data\<rparr>))))))))"

section \<open>The node table (route_set.rs)\<close>

datatype route_set = AddNode | DelNode | ActiveNodeRegister | StopNodeRegister

fun route_set_to_u8 :: "route_set \<Rightarrow> u8" where
  "route_set_to_u8 AddNode = 1"
| "route_set_to_u8 DelNode = 2"
| "route_set_to_u8 ActiveNodeRegister = 5"
| "route_set_to_u8 StopNodeRegister = 6"

record node_info =
  ni_src_addr :: address
  ni_protocol_type :: u8

definition node_info_to_vec :: "node_info \<Rightarrow> u8 list" where
  "node_info_to_vec n = address_to_vec (ni_src_addr n) @ [ni_protocol_type n]"

definition add_node_request_to_app_data :: "node_info list \<Rightarrow> app_data" where
  "add_node_request_to_app_data node_infos =
     app_data_new RouteSet (route_set_to_u8 AddNode)
       (Some (of_nat (length node_infos) # concat (map node_info_to_vec node_infos)))"

definition del_node_request_to_app_data :: "address list \<Rightarrow> app_data" where
  "del_node_request_to_app_data node_addrs =
     app_data_new RouteSet (route_set_to_u8 DelNode)
       (Some (of_nat (length node_addrs) # concat (map address_to_vec node_addrs)))"

text \<open>The start time is a \<^verbatim>\<open>chrono::NaiveDateTime\<close>, here its six fields.\<close>

record naive_date_time =
  dt_second :: nat
  dt_minute :: nat
  dt_hour :: nat
  dt_day :: nat
  dt_month :: nat
  dt_year :: nat

record active_node_register_request =
  anr_start_time :: naive_date_time
  anr_duration :: u16
  anr_retry_count :: u8
  anr_random_wait_count :: u8

definition active_node_register_request_to_app_data :: "active_node_register_request \<Rightarrow> app_data" where
  "active_node_register_request_to_app_data r =
     (let t = anr_start_time r in
      app_data_new RouteSet (route_set_to_u8 ActiveNodeRegister)
        (Some ([dec_to_hex (of_nat (dt_second t)), dec_to_hex (of_nat (dt_minute t)),
                dec_to_hex (of_nat (dt_hour t)), dec_to_hex (of_nat (dt_day t)),
                dec_to_hex (of_nat (dt_month t)), dec_to_hex (of_nat (dt_year t mod 100))]
          @ u16_to_le (anr_duration r) @ [anr_retry_count r, anr_random_wait_count r])))"

definition stop_node_register_request_to_app_data :: app_data where
  "stop_node_register_request_to_app_data = app_data_new RouteSet (route_set_to_u8 StopNodeRegister) None"

section \<open>Entries\<close>

definition report_node_info_detail_layout :: "report_node_info_detail \<Rightarrow> u8 list" where
  "report_node_info_detail_layout n =
     address_to_vec (rnd_address n) @ [rnd_protocol_type n] @ u16_to_le (rnd_seq_num n)"

definition slave_node_comm_info_layout :: "slave_node_comm_info \<Rightarrow> u8 list" where
  "slave_node_comm_info_layout n = address_to_vec (snc_address n) @ [snc_protocol_type n]"

text \<open>An address at the front of an entry, split off once for all entries.\<close>

lemma address_front:
  assumes "6 \<le> length bs"
  shows "\<exists>a rest. bs = address_to_vec a @ rest \<and> length rest = length bs - 6"
proof -
  obtain a where "address_try_from (take 6 bs) = Ok a"
    using address_try_from_total [of "take 6 bs"] assms by auto
  then have "take 6 bs = address_to_vec a" by (simp add: address_try_from_Ok_iff)
  then have "bs = address_to_vec a @ drop 6 bs" by (metis append_take_drop_id)
  then show ?thesis by (metis length_drop)
qed

lemma report_node_info_detail_from_parts:
  "report_node_info_detail_from (address_to_vec a @ [p, s0, s1]) =
     Ok \<lparr>rnd_address = a, rnd_protocol_type = p, rnd_seq_num = u16_le s0 s1\<rparr>"
  by (simp add: report_node_info_detail_from_def codec_total nth_append)

lemma slave_node_comm_info_from_parts:
  "slave_node_comm_info_from (address_to_vec a @ [p]) = Ok \<lparr>snc_address = a, snc_protocol_type = p\<rparr>"
  by (simp add: slave_node_comm_info_from_def codec_total nth_append)

interpretation node_detail: fixed_layout 9 report_node_info_detail_layout "\<lambda>_. True"
  report_node_info_detail_from
proof
  fix x :: report_node_info_detail
  show "length (report_node_info_detail_layout x) = 9" by (simp add: report_node_info_detail_layout_def)
  show "report_node_info_detail_from (report_node_info_detail_layout x) = Ok x"
    by (simp add: report_node_info_detail_layout_def report_node_info_detail_from_parts u16_to_le_def)
next
  fix bs x
  assume len: "length bs = 9" and dec: "report_node_info_detail_from bs = Ok x"
  obtain a rest where bs: "bs = address_to_vec a @ rest" and "length rest = 3"
    using address_front [of bs] len by auto
  then obtain p s0 s1 where "rest = [p, s0, s1]" by (auto simp: numeral_eq_Suc length_Suc_conv)
  with dec bs show "True \<and> report_node_info_detail_layout x = bs"
    by (auto simp: report_node_info_detail_from_parts report_node_info_detail_layout_def)
qed simp

interpretation slave_info: fixed_layout 7 slave_node_comm_info_layout "\<lambda>_. True"
  slave_node_comm_info_from
proof
  fix x :: slave_node_comm_info
  show "length (slave_node_comm_info_layout x) = 7" by (simp add: slave_node_comm_info_layout_def)
  show "slave_node_comm_info_from (slave_node_comm_info_layout x) = Ok x"
    by (simp add: slave_node_comm_info_layout_def slave_node_comm_info_from_parts)
next
  fix bs x
  assume len: "length bs = 7" and dec: "slave_node_comm_info_from bs = Ok x"
  obtain a rest where bs: "bs = address_to_vec a @ rest" and "length rest = 1"
    using address_front [of bs] len by auto
  then obtain p where "rest = [p]" by (auto simp: length_Suc_conv)
  with dec bs show "True \<and> slave_node_comm_info_layout x = bs"
    by (auto simp: slave_node_comm_info_from_parts slave_node_comm_info_layout_def)
qed simp

lemma take_all_chunks: "0 < n \<Longrightarrow> length bs = k * n \<Longrightarrow> take k (chunks n bs) = chunks n bs"
  by (simp add: length_chunks_exact)

text \<open>An entry of the right size is never refused, so the counted lists are total.\<close>

lemma report_node_info_detail_from_total: "length bs = 9 \<Longrightarrow> \<exists>x. report_node_info_detail_from bs = Ok x"
proof -
  assume "length bs = 9"
  then obtain a rest where bs: "bs = address_to_vec a @ rest" and "length rest = 3"
    using address_front [of bs] by auto
  then obtain p s0 s1 where "rest = [p, s0, s1]" by (auto simp: numeral_eq_Suc length_Suc_conv)
  with bs show ?thesis by (simp add: report_node_info_detail_from_parts)
qed

lemma slave_node_comm_info_from_total: "length bs = 7 \<Longrightarrow> \<exists>x. slave_node_comm_info_from bs = Ok x"
proof -
  assume "length bs = 7"
  then obtain a rest where bs: "bs = address_to_vec a @ rest" and "length rest = 1"
    using address_front [of bs] by auto
  then obtain p where "rest = [p]" by (auto simp: length_Suc_conv)
  with bs show ?thesis by (simp add: slave_node_comm_info_from_parts)
qed

lemma traverse_chunks_no_panic:
  assumes "0 < n" "length bs = k * n" and "\<And>x. length x = n \<Longrightarrow> \<not> panics (f x)"
  shows "\<not> panics (traverse f (take k (chunks n bs)))"
  by (rule traverse_no_panic)
     (use assms chunks_exact_length [OF assms(1,2)] in \<open>auto simp: take_all_chunks\<close>)

section \<open>Whole reports\<close>

interpretation node_report: total_codec Report 1
  "\<lambda>r. rni_node_number r # concat (map report_node_info_detail_layout (rni_node_info_details r))"
  "\<lambda>r. length (rni_node_info_details r) = unat (rni_node_number r)" report_node_info_try_from
proof
  fix v :: report_node_info and d
  assume "length (rni_node_info_details v) = unat (rni_node_number v)" "app_afn d = Report" "fn_num d = Ok 1"
    "data_units d = Some (rni_node_number v # concat (map report_node_info_detail_layout (rni_node_info_details v)))"
  then show "report_node_info_try_from d = Ok v"
    using node_detail.length_concat_enc [of "rni_node_info_details v"]
      node_detail.decode_entries [of "rni_node_info_details v"]
    by (simp add: report_node_info_try_from_def codec_total NODE_INFO_SIZE_def take_all_chunks)
next
  fix d v
  assume dec: "report_node_info_try_from d = Ok v"
  then obtain n rest where u: "data_units d = Some (n # rest)" and len: "length rest = unat n * 9"
    and ent: "traverse report_node_info_detail_from (chunks 9 rest) = Ok (rni_node_info_details v)"
    and n: "rni_node_number v = n" and code: "app_afn d = Report" "fn_num d = Ok 1"
    by (auto simp: report_node_info_try_from_def codec_total NODE_INFO_SIZE_def take_all_chunks
        length_ge_iff)
  with node_detail.decode_entries_sound [OF len ent]
  show "length (rni_node_info_details v) = unat (rni_node_number v) \<and> app_afn d = Report \<and> fn_num d = Ok 1
    \<and> data_units d = Some (rni_node_number v # concat (map report_node_info_detail_layout (rni_node_info_details v)))"
    by simp
next
  fix d :: app_data
  assume "flag_mark (app_flag d) \<noteq> 0"
  moreover have "\<not> panics (report_node_info_detail_from x)" if "length x = 9" for x
    using report_node_info_detail_from_total [OF that] by auto
  ultimately show "\<not> panics (report_node_info_try_from d)"
    by (cases "data_units d")
       (auto simp: report_node_info_try_from_def codec_total NODE_INFO_SIZE_def traverse_chunks_no_panic)
qed

interpretation work_status_byte: byte_enum work_status_type_to_u8 work_status_type_try_from
proof
  fix v
  show "work_status_type_try_from (work_status_type_to_u8 v) = Ok v"
    by (cases v) (simp_all add: work_status_type_try_from_def of_code_def with_codes_def)
qed (auto simp: work_status_type_try_from_def of_code_no_panic dest: of_code_sound)

interpretation work_status: total_codec Report 3
  "\<lambda>r. [work_status_type_to_u8 (rws_work_status_type r)]" "\<lambda>_. True" report_work_status_try_from
proof
  fix v :: report_work_status and d
  assume "app_afn d = Report" "fn_num d = Ok 3"
    "data_units d = Some [work_status_type_to_u8 (rws_work_status_type v)]"
  then show "report_work_status_try_from d = Ok v"
    by (simp add: report_work_status_try_from_def codec_total work_status_byte.of_byte_to_byte)
next
  fix d v
  assume "report_work_status_try_from d = Ok v"
  then show "True \<and> app_afn d = Report \<and> fn_num d = Ok 3
      \<and> data_units d = Some [work_status_type_to_u8 (rws_work_status_type v)]"
    by (auto simp: report_work_status_try_from_def codec_total work_status_byte.of_byte_Ok_iff
        length_Suc_conv)
next
  fix d :: app_data
  assume "flag_mark (app_flag d) \<noteq> 0"
  then show "\<not> panics (report_work_status_try_from d)"
    by (cases "data_units d")
       (auto simp: report_work_status_try_from_def codec_total work_status_byte.of_byte_no_panic)
qed

lemma front3: "length x = 3 + n \<Longrightarrow> x = x ! 0 # x ! Suc 0 # x ! 2 # drop 3 x"
  by (cases x; cases "tl x"; cases "tl (tl x)") auto

interpretation slave_event: total_codec Report 5
  "\<lambda>r. [sne_device_type r, sne_protocol_type r, sne_data_length r] @ sne_data r"
  "\<lambda>r. length (sne_data r) = unat (sne_data_length r)" slave_node_event_try_from
proof
  fix v :: slave_node_event and d
  assume "length (sne_data v) = unat (sne_data_length v)" "app_afn d = Report" "fn_num d = Ok 5"
    "data_units d = Some ([sne_device_type v, sne_protocol_type v, sne_data_length v] @ sne_data v)"
  then show "slave_node_event_try_from d = Ok v"
    by (simp add: slave_node_event_try_from_def codec_total)
next
  fix d v
  assume "slave_node_event_try_from d = Ok v"
  then show "length (sne_data v) = unat (sne_data_length v) \<and> app_afn d = Report \<and> fn_num d = Ok 5
      \<and> data_units d = Some ([sne_device_type v, sne_protocol_type v, sne_data_length v] @ sne_data v)"
    by (auto simp: slave_node_event_try_from_def codec_total intro: front3)
next
  fix d :: app_data
  assume "flag_mark (app_flag d) \<noteq> 0"
  then show "\<not> panics (slave_node_event_try_from d)"
    by (cases "data_units d") (auto simp: slave_node_event_try_from_def codec_total)
qed

definition device_report_layout :: "report_node_info_and_device_type \<Rightarrow> u8 list" where
  "device_report_layout r =
     [rnt_node_number r] @ report_node_info_detail_layout (rnt_node_info r)
     @ [rnt_device_type r, rnt_slave_node_count r, rnt_slave_node_number r]
     @ concat (map slave_node_comm_info_layout (rnt_slave_node_comm_infos r))"

lemma length_detail_layout [simp]: "length (report_node_info_detail_layout n) = 9"
  by (simp add: report_node_info_detail_layout_def)

lemma split_13:
  assumes "13 \<le> length x"
  shows "x = [x ! 0] @ take 9 (drop 1 x) @ [x ! 10, x ! 11, x ! 12] @ drop 13 x"
proof -
  have final: "drop 10 x = x ! 10 # x ! 11 # x ! 12 # drop 13 x"
    using assms Cons_nth_drop_Suc [of 10 x] Cons_nth_drop_Suc [of 11 x] Cons_nth_drop_Suc [of 12 x]
    by simp
  have middle: "take 9 (drop 1 x) @ drop 10 x = drop 1 x"
    using append_take_drop_id [of 9 "drop 1 x"] by (simp del: append_take_drop_id)
  have "[x ! 0] @ take 9 (drop 1 x) @ [x ! 10, x ! 11, x ! 12] @ drop 13 x = x ! 0 # (take 9 (drop 1 x) @ drop 10 x)"
    by (simp only: final append_Cons append_Nil)
  also have "... = x ! 0 # drop 1 x" by (simp only: middle)
  also have "... = x" using assms by (cases x) auto
  finally show ?thesis by (rule sym)
qed

interpretation device_report: total_codec Report 4 device_report_layout
  "\<lambda>r. length (rnt_slave_node_comm_infos r) = unat (rnt_slave_node_number r)"
  report_node_info_and_device_type_try_from
proof
  fix v :: report_node_info_and_device_type and d
  assume len: "length (rnt_slave_node_comm_infos v) = unat (rnt_slave_node_number v)"
    and code: "app_afn d = Report" "fn_num d = Ok 4" and units: "data_units d = Some (device_report_layout v)"
  let ?u = "device_report_layout v"
  let ?rest = "concat (map slave_node_comm_info_layout (rnt_slave_node_comm_infos v))"
  have rest: "length ?rest = unat (rnt_slave_node_number v) * 7"
    using slave_info.length_concat_enc [of "rnt_slave_node_comm_infos v"] len by simp
  have parts: "?u ! 0 = rnt_node_number v" "?u ! 10 = rnt_device_type v" "?u ! 11 = rnt_slave_node_count v"
    "?u ! 12 = rnt_slave_node_number v" "drop 13 ?u = ?rest"
    "take 9 (drop (Suc 0) ?u) = report_node_info_detail_layout (rnt_node_info v)"
    "length ?u = 13 + unat (rnt_slave_node_number v) * 7"
    by (simp_all add: device_report_layout_def nth_append rest)
  show "report_node_info_and_device_type_try_from d = Ok v"
    using code units parts rest node_detail.dec_enc [of "rnt_node_info v"]
      slave_info.decode_entries [of "rnt_slave_node_comm_infos v"]
    by (simp add: report_node_info_and_device_type_try_from_def codec_total SLAVE_NODE_INFO_SIZE_def
        take_all_chunks)
next
  fix d v
  assume dec: "report_node_info_and_device_type_try_from d = Ok v"
  then obtain u where u: "data_units d = Some u" and len: "length u = 13 + unat (u ! 12) * 7"
    and ent: "traverse slave_node_comm_info_from (chunks 7 (drop 13 u)) = Ok (rnt_slave_node_comm_infos v)"
    and node: "report_node_info_detail_from (take 9 (drop 1 u)) = Ok (rnt_node_info v)"
    and fields: "rnt_node_number v = u ! 0" "rnt_device_type v = u ! 10" "rnt_slave_node_count v = u ! 11"
      "rnt_slave_node_number v = u ! 12"
    and code: "app_afn d = Report" "fn_num d = Ok 4"
    by (auto simp: report_node_info_and_device_type_try_from_def codec_total SLAVE_NODE_INFO_SIZE_def
        take_all_chunks)
  have "length (drop 13 u) = unat (u ! 12) * 7" using len by simp
  note slaves = slave_info.decode_entries_sound [OF this ent]
  have "length (take 9 (drop 1 u)) = 9" using len by simp
  from node_detail.dec_sound [OF this node]
  have "report_node_info_detail_layout (rnt_node_info v) = take 9 (drop 1 u)" by simp
  with slaves fields split_13 [of u] len have "device_report_layout v = u"
    by (simp add: device_report_layout_def)
  with u code slaves fields
  show "length (rnt_slave_node_comm_infos v) = unat (rnt_slave_node_number v) \<and> app_afn d = Report
    \<and> fn_num d = Ok 4 \<and> data_units d = Some (device_report_layout v)"
    by simp
next
  fix d :: app_data
  assume mark: "flag_mark (app_flag d) \<noteq> 0"
  have "\<not> panics (slave_node_comm_info_from x)" if "length x = 7" for x
    using slave_node_comm_info_from_total [OF that] by auto
  moreover have "\<not> panics (report_node_info_detail_from x)" if "length x = 9" for x
    using report_node_info_detail_from_total [OF that] by auto
  ultimately show "\<not> panics (report_node_info_and_device_type_try_from d)"
    using mark
    by (cases "data_units d")
       (auto simp: report_node_info_and_device_type_try_from_def codec_total SLAVE_NODE_INFO_SIZE_def
         traverse_chunks_no_panic)
qed

section \<open>Properties\<close>

text \<open>C28: A report of a node and the meters behind it is accepted exactly when it is the layout of its
  fields, with as many seven-byte entries as its count byte says: the node, the device type and every
  meter are at their places. Received data never stops the reading thread.\<close>

theorem device_report_exact:
  assumes "app_data_try_from bytes = Ok d"
  shows "\<not> panics (report_node_info_and_device_type_try_from d)
    \<and> (report_node_info_and_device_type_try_from d = Ok r \<longleftrightarrow>
         app_afn d = Report \<and> fn_num d = Ok 4
         \<and> length (rnt_slave_node_comm_infos r) = unat (rnt_slave_node_number r)
         \<and> data_units d = Some (device_report_layout r))"
  using device_report.decode_received_total [OF assms] device_report.decode_Ok_iff [of d r] by auto

theorem device_report_exact_witness:
  "\<exists>r. report_node_info_and_device_type_try_from (app_data_new Report 4 (Some (device_report_layout r))) = Ok r
     \<and> length (rnt_slave_node_comm_infos r) = 1"
proof -
  let ?r = "\<lparr>rnt_node_number = 1,
      rnt_node_info = \<lparr>rnd_address = address_default, rnd_protocol_type = 2, rnd_seq_num = 7\<rparr>,
      rnt_device_type = 0, rnt_slave_node_count = 1, rnt_slave_node_number = 1,
      rnt_slave_node_comm_infos = [\<lparr>snc_address = address_default, snc_protocol_type = 2\<rparr>]\<rparr>"
  have "device_report_layout ?r \<noteq> []" by (simp add: device_report_layout_def)
  then have "app_data_try_from (app_data_to_vec (app_data_new Report 4 (Some (device_report_layout ?r))))
      = Ok (app_data_new Report 4 (Some (device_report_layout ?r)))"
    by (intro app_data_roundtrip) simp
  from device_report_exact [OF this, of ?r]
  have "report_node_info_and_device_type_try_from (app_data_new Report 4 (Some (device_report_layout ?r))) = Ok ?r"
    by simp
  then show ?thesis by (intro exI [of _ ?r]) simp
qed

lemma node_infos_inject:
  "concat (map node_info_to_vec xs) = concat (map node_info_to_vec ys) \<Longrightarrow> xs = ys"
proof (induction xs arbitrary: ys)
  case Nil
  then show ?case by (cases ys) (auto simp: node_info_to_vec_def)
next
  case (Cons x xs)
  have len: "length (node_info_to_vec n) = 7" for n by (simp add: node_info_to_vec_def)
  from Cons.prems obtain y ys' where ys: "ys = y # ys'"
    by (cases ys) (auto simp: node_info_to_vec_def)
  with Cons.prems len [of x] len [of y] have front: "node_info_to_vec x = node_info_to_vec y"
    and rest: "concat (map node_info_to_vec xs) = concat (map node_info_to_vec ys')"
    by (auto simp: append_eq_append_conv)
  from front have "x = y" by (simp add: node_info_to_vec_def append_eq_append_conv)
  with Cons.IH [OF rest] ys show ?case by simp
qed

text \<open>The add-node request lists its nodes in order, each as its address and protocol byte, behind a
  count byte that is their number as long as there are fewer than 256; two requests of fewer than 256
  nodes with the same bytes have the same nodes.\<close>

theorem add_node_request_bytes:
  assumes "length nodes < 256"
  shows "\<exists>u. data_units (add_node_request_to_app_data nodes) = Some u
    \<and> length u = 1 + 7 * length nodes \<and> unat (u ! 0) = length nodes
    \<and> (\<forall>nodes'. add_node_request_to_app_data nodes' = add_node_request_to_app_data nodes \<longrightarrow> nodes' = nodes)"
proof -
  have len: "length (concat (map node_info_to_vec xs)) = 7 * length xs" for xs
    by (induction xs) (simp_all add: node_info_to_vec_def)
  show ?thesis
    using assms len [of nodes]
    by (auto simp: add_node_request_to_app_data_def unat_of_nat app_data_new_def
        dest: node_infos_inject)
qed

theorem add_node_request_bytes_witness:
  "\<exists>u. data_units (add_node_request_to_app_data [\<lparr>ni_src_addr = address_default, ni_protocol_type = 2\<rparr>]) = Some u
     \<and> length u = 8"
  using add_node_request_bytes [of "[\<lparr>ni_src_addr = address_default, ni_protocol_type = 2\<rparr>]"] by auto

end
