(* ===== verification/Query_Data.thy ===== *)
theory Query_Data
  imports Response_Codec
begin

text \<open>
  src/src/protocol/app_data/query_data.rs: the queries of the concentrator's own module. The dates are
  made by \<^verbatim>\<open>NaiveDate::from_ymd_opt\<close> of the chrono package, an argument of the two decoders that
  read them; the decoders unwrap what it and \<^verbatim>\<open>String::from_utf8\<close> return, and the lemmas
  \<open>comm_module_info_cases\<close> and \<open>module_info_panics_iff\<close> say for which bytes that stops the thread.
\<close>

datatype query_data = CommModuleInfo | MasterAddress | BroadcastDelay | GetModuleInfo | GetMasterIdInfo
  | QueryHplcFrequency

fun query_data_to_u8 :: "query_data \<Rightarrow> u8" where
  "query_data_to_u8 CommModuleInfo = 1"
| "query_data_to_u8 MasterAddress = 4"
| "query_data_to_u8 BroadcastDelay = 9"
| "query_data_to_u8 GetModuleInfo = 10"
| "query_data_to_u8 GetMasterIdInfo = 12"
| "query_data_to_u8 QueryHplcFrequency = 16"

section \<open>Requests\<close>

definition comm_module_info_request_to_app_data :: app_data where
  "comm_module_info_request_to_app_data = app_data_new QueryData (query_data_to_u8 CommModuleInfo) None"

definition master_address_request_to_app_data :: app_data where
  "master_address_request_to_app_data = app_data_new QueryData (query_data_to_u8 MasterAddress) None"

record broadcast_delay_request =
  bdq_protocol_type :: u8
  bdq_message :: "u8 list"

definition broadcast_delay_request_to_app_data :: "broadcast_delay_request \<Rightarrow> app_data" where
  "broadcast_delay_request_to_app_data r =
     app_data_new QueryData (query_data_to_u8 BroadcastDelay)
       (Some ([bdq_protocol_type r, of_nat (length (bdq_message r))] @ bdq_message r))"

definition module_info_request_to_app_data :: app_data where
  "module_info_request_to_app_data = app_data_new QueryData (query_data_to_u8 GetModuleInfo) None"

definition master_id_info_request_to_app_data :: app_data where
  "master_id_info_request_to_app_data = app_data_new QueryData (query_data_to_u8 GetMasterIdInfo) None"

definition get_hplc_freq_request_to_app_data :: app_data where
  "get_hplc_freq_request_to_app_data = app_data_new QueryData (query_data_to_u8 QueryHplcFrequency) None"

section \<open>Responses\<close>

record 'date comm_module_info_response =
  cmi_factory_code :: string
  cmi_chip_code :: string
  cmi_version_date :: 'date
  cmi_version :: string

definition comm_module_info_response_try_from ::
    "(int \<Rightarrow> nat \<Rightarrow> nat \<Rightarrow> 'date option) \<Rightarrow> app_data \<Rightarrow> 'date comm_module_info_response result" where
  "comm_module_info_response_try_from from_ymd_opt d =
     andThen (app_data_check d QueryData (query_data_to_u8 CommModuleInfo) 9) (\<lambda>_.
     andThen (unwrap_option (data_units d)) (\<lambda>u.
     andThen (index u 1) (\<lambda>u1. andThen (index u 0) (\<lambda>u0.
     andThen (unwrap (string_from_utf8 [u1, u0])) (\<lambda>factory_code.
     andThen (index u 3) (\<lambda>u3. andThen (index u 2) (\<lambda>u2.
     andThen (unwrap (string_from_utf8 [u3, u2])) (\<lambda>chip_code.
     andThen (index u 6) (\<lambda>u6. andThen (index u 5) (\<lambda>u5. andThen (index u 4) (\<lambda>u4.
     andThen (date_transfer from_ymd_opt u6 u5 u4) (\<lambda>version_date.
     andThen (slice u 7 9) (\<lambda>v.
     Ok \<lparr>cmi_factory_code = factory_code, cmi_chip_code = chip_code,
         cmi_version_date = version_date, cmi_version = slice_to_bcd_string v\<rparr>)))))))))))))"

record master_address_response =
  master_addr :: address

definition master_address_response_try_from :: "app_data \<Rightarrow> master_address_response result" where
  "master_address_response_try_from d =
     andThen (app_data_check d QueryData (query_data_to_u8 MasterAddress) ADDR_LEN) (\<lambda>_.
     andThen (unwrap_option (data_units d)) (\<lambda>units.
     andThen (slice units 0 6) (\<lambda>a.
     andThen (unwrap (address_try_from a)) (\<lambda>addr.
     Ok \<lparr>master_addr = addr\<rparr>))))"

definition QUERY_PREFIX_LEN :: nat where "QUERY_PREFIX_LEN = 4"

record broadcast_delay_response =
  bdr_delay :: u16
  bdr_protocol_type :: u8
  bdr_message_len :: u8
  bdr_message :: "u8 list"

definition broadcast_delay_response_try_from :: "app_data \<Rightarrow> broadcast_delay_response result" where
  "broadcast_delay_response_try_from d =
     andThen (ensure (QUERY_PREFIX_LEN \<le> data_length d) (AppDataErr (DataLengthError (data_length d)))) (\<lambda>_.
     andThen (unwrap_option (data_units d)) (\<lambda>units0.
     andThen (index units0 3) (\<lambda>message_len.
     andThen (app_data_check d QueryData (query_data_to_u8 BroadcastDelay)
                (QUERY_PREFIX_LEN + unat message_len)) (\<lambda>_.
     andThen (unwrap_option (data_units d)) (\<lambda>units.
     andThen (slice units 0 2) (\<lambda>t.
     andThen (unwrap (u16_from_le ArrayLength t)) (\<lambda>delay.
     andThen (index units 2) (\<lambda>protocol_type.
     andThen (slice_from units QUERY_PREFIX_LEN) (\<lambda>message.
     Ok \<lparr>bdr_delay = delay, bdr_protocol_type = protocol_type, bdr_message_len = message_len,
         bdr_message = message\<rparr>)))))))))"

record 'date module_info_response =
  mi_metering_mode :: u8
  mi_node_info_mode :: u8
  mi_route_management_mode :: u8
  mi_comm_mode :: u8
  mi_broadcast_cmd_mode :: u8
  mi_broadcast_cmd_confirm :: u8
  mi_fail_node_change_mode :: u8
  mi_delay_param_support :: u8
  mi_low_voltage_power_off :: u8
  mi_channel_num :: u8
  mi_speed_num :: u8
  mi_max_timeout_time :: u8
  mi_broadcast_cmd_timeout_time :: u16
  mi_max_packet_length :: u16
  mi_max_packet_per_packet :: u16
  mi_upgrade_wait_time :: u8
  mi_main_node_addr :: address
  mi_max_node_num :: u16
  mi_current_node_num :: u16
  mi_protocol_release_date :: 'date
  mi_last_record_date :: 'date
  mi_factory_code :: string
  mi_chip_code :: string
  mi_version_date :: 'date
  mi_version :: string
  mi_comm_speed :: "u16 list"

definition module_info_response_try_from ::
    "(int \<Rightarrow> nat \<Rightarrow> nat \<Rightarrow> 'date option) \<Rightarrow> app_data \<Rightarrow> 'date module_info_response result" where
  "module_info_response_try_from from_ymd_opt d =
     andThen (ensure (39 \<le> data_length d) (AppDataErr (DataLengthError (data_length d)))) (\<lambda>_.
     andThen (unwrap_option (data_units d)) (\<lambda>units0.
     andThen (index units0 3) (\<lambda>b3.
     let speed_num = b3 AND 0x0F in
     andThen (app_data_check d QueryData (query_data_to_u8 GetModuleInfo) (39 + unat speed_num * 2)) (\<lambda>_.
     andThen (unwrap_option (data_units d)) (\<lambda>u.
     andThen (slice u 14 20) (\<lambda>a.
     andThen (unwrap (address_try_from a)) (\<lambda>main_node_addr.
     andThen (date_transfer from_ymd_opt (u ! 26) (u ! 25) (u ! 24)) (\<lambda>protocol_release_date.
     andThen (date_transfer from_ymd_opt (u ! 29) (u ! 28) (u ! 27)) (\<lambda>last_record_date.
     andThen (unwrap (string_from_utf8 [u ! 31, u ! 30])) (\<lambda>factory_code.
     andThen (unwrap (string_from_utf8 [u ! 33, u ! 32])) (\<lambda>chip_code.
     andThen (date_transfer from_ymd_opt (u ! 36) (u ! 35) (u ! 34)) (\<lambda>version_date.
     andThen (slice u 37 39) (\<lambda>v.
     andThen (slice_from u 39) (\<lambda>speeds.
     andThen (traverse (\<lambda>x. unwrap (u16_from_le ArrayLength x)) (chunks 2 speeds)) (\<lambda>comm_speed.
     Ok \<lparr>mi_metering_mode = drop_bit 6 (u ! 0 AND 0xc0),
         mi_node_info_mode = 0, mi_route_management_mode = 0,
         mi_comm_mode = drop_bit 4 (u ! 0) AND 0x0F,
         mi_broadcast_cmd_mode = 0, mi_broadcast_cmd_confirm = 0, mi_fail_node_change_mode = 0,
         mi_delay_param_support = 0, mi_low_voltage_power_off = 0, mi_channel_num = 0,
         mi_speed_num = speed_num,
         mi_max_timeout_time = u ! 6,
         mi_broadcast_cmd_timeout_time = u16_le (u ! 7) (u ! 8),
         mi_max_packet_length = u16_le (u ! 9) (u ! 10),
         mi_max_packet_per_packet = u16_le (u ! 11) (u ! 12),
         mi_upgrade_wait_time = u ! 13,
         mi_main_node_addr = main_node_addr,
         mi_max_node_num = u16_le (u ! 20) (u ! 21),
         mi_current_node_num = u16_le (u ! 22) (u ! 23),
         mi_protocol_release_date = protocol_release_date,
         mi_last_record_date = last_record_date,
         mi_factory_code = factory_code, mi_chip_code = chip_code,
         mi_version_date = version_date, mi_version = slice_to_bcd_string v,
         mi_comm_speed = comm_speed\<rparr>)))))))))))))))"

record master_id_info_response =
  mid_factory_code :: string
  mid_module_id_length :: u8
  mid_module_id_format :: module_id_format
  mid_module_id :: "u8 list"

definition master_id_info_response_try_from :: "app_data \<Rightarrow> master_id_info_response result" where
  "master_id_info_response_try_from d =
     andThen (ensure (3 \<le> data_length d) (AppDataErr (DataLengthError (data_length d)))) (\<lambda>_.
     andThen (unwrap_option (data_units d)) (\<lambda>units0.
     andThen (index units0 2) (\<lambda>len.
     andThen (app_data_check d QueryData (query_data_to_u8 GetMasterIdInfo) (4 + unat len)) (\<lambda>_.
     andThen (unwrap_option (data_units d)) (\<lambda>u.
     andThen (index u 1) (\<lambda>u1. andThen (index u 0) (\<lambda>u0.
     andThen (unwrap (string_from_utf8 [u1, u0])) (\<lambda>factory_code.
     andThen (index u 2) (\<lambda>u2.
     andThen (index u 3) (\<lambda>u3.
     andThen (module_id_format_try_from u3) (\<lambda>fmt.
     andThen (slice_from u 4) (\<lambda>module_id.
     Ok \<lparr>mid_factory_code = factory_code, mid_module_id_length = u2,
         mid_module_id_format = fmt, mid_module_id = module_id\<rparr>))))))))))))"

record get_hplc_freq_response =
  gh_frequency :: u8

definition get_hplc_freq_response_try_from :: "app_data \<Rightarrow> get_hplc_freq_response result" where
  "get_hplc_freq_response_try_from d =
     andThen (app_data_check d QueryData (query_data_to_u8 QueryHplcFrequency) 1) (\<lambda>_.
     andThen (unwrap_option (data_units d)) (\<lambda>u.
     andThen (index u 0) (\<lambda>f. Ok \<lparr>gh_frequency = f\<rparr>)))"

section \<open>What they read\<close>

interpretation master_address: total_codec QueryData 4
  "\<lambda>r. address_to_vec (master_addr r)" "\<lambda>r. True" master_address_response_try_from
proof
  fix v :: master_address_response and d
  assume "app_afn d = QueryData" "fn_num d = Ok 4" "data_units d = Some (address_to_vec (master_addr v))"
  then show "master_address_response_try_from d = Ok v"
    by (simp add: master_address_response_try_from_def codec_total ADDR_LEN_def)
next
  fix d v
  assume "master_address_response_try_from d = Ok v"
  then show "True \<and> app_afn d = QueryData \<and> fn_num d = Ok 4
      \<and> data_units d = Some (address_to_vec (master_addr v))"
    by (auto simp: master_address_response_try_from_def codec_total ADDR_LEN_def address_try_from_Ok_iff)
next
  fix d :: app_data
  assume "flag_mark (app_flag d) \<noteq> 0"
  then show "\<not> panics (master_address_response_try_from d)"
    using address_try_from_total
    by (cases "data_units d")
       (auto simp: master_address_response_try_from_def codec_total ADDR_LEN_def is_ok_iff)
qed

interpretation broadcast_delay: total_codec QueryData 9
  "\<lambda>r. u16_to_le (bdr_delay r) @ [bdr_protocol_type r, bdr_message_len r] @ bdr_message r"
  "\<lambda>r. length (bdr_message r) = unat (bdr_message_len r)" broadcast_delay_response_try_from
proof
  fix v :: broadcast_delay_response and d
  assume "length (bdr_message v) = unat (bdr_message_len v)" "app_afn d = QueryData" "fn_num d = Ok 9"
    "data_units d = Some (u16_to_le (bdr_delay v) @ [bdr_protocol_type v, bdr_message_len v]
       @ bdr_message v)"
  then show "broadcast_delay_response_try_from d = Ok v"
    by (simp add: broadcast_delay_response_try_from_def codec_total word_bytes_iff QUERY_PREFIX_LEN_def
        nth_append)
next
  fix d v
  assume "broadcast_delay_response_try_from d = Ok v"
  then show "length (bdr_message v) = unat (bdr_message_len v) \<and> app_afn d = QueryData
      \<and> fn_num d = Ok 9
      \<and> data_units d = Some (u16_to_le (bdr_delay v) @ [bdr_protocol_type v, bdr_message_len v]
          @ bdr_message v)"
    by (auto simp: broadcast_delay_response_try_from_def codec_total word_bytes_iff
        QUERY_PREFIX_LEN_def length_ge_iff)
next
  fix d :: app_data
  assume "flag_mark (app_flag d) \<noteq> 0"
  then show "\<not> panics (broadcast_delay_response_try_from d)"
    by (cases "data_units d")
       (auto simp: broadcast_delay_response_try_from_def codec_total QUERY_PREFIX_LEN_def)
qed

interpretation hplc_freq: total_codec QueryData 16
  "\<lambda>r. [gh_frequency r]" "\<lambda>r. True" get_hplc_freq_response_try_from
proof
  fix v :: get_hplc_freq_response and d
  assume "app_afn d = QueryData" "fn_num d = Ok 16" "data_units d = Some [gh_frequency v]"
  then show "get_hplc_freq_response_try_from d = Ok v"
    by (simp add: get_hplc_freq_response_try_from_def codec_total)
next
  fix d v
  assume "get_hplc_freq_response_try_from d = Ok v"
  then show "True \<and> app_afn d = QueryData \<and> fn_num d = Ok 16 \<and> data_units d = Some [gh_frequency v]"
    by (auto simp: get_hplc_freq_response_try_from_def codec_total length_Suc_conv)
next
  fix d :: app_data
  assume "flag_mark (app_flag d) \<noteq> 0"
  then show "\<not> panics (get_hplc_freq_response_try_from d)"
    by (cases "data_units d") (auto simp: get_hplc_freq_response_try_from_def codec_total)
qed

section \<open>Dates and texts in a response\<close>

text \<open>The three bytes of a date name a calendar date, in the sense of the chrono package.\<close>

definition date_bytes_ok :: "(int \<Rightarrow> nat \<Rightarrow> nat \<Rightarrow> 'date option) \<Rightarrow> u8 \<Rightarrow> u8 \<Rightarrow> u8 \<Rightarrow> bool" where
  "date_bytes_ok from_ymd_opt year month day \<longleftrightarrow>
     from_ymd_opt (2000 + uint (hex_to_dec year)) (unat (hex_to_dec month)) (unat (hex_to_dec day)) \<noteq> None"

lemma panics_date_transfer [simp]:
  "panics (date_transfer from_ymd_opt y m d) \<longleftrightarrow> \<not> date_bytes_ok from_ymd_opt y m d"
  by (simp add: date_transfer_def date_bytes_ok_def)

lemma date_transfer_returns:
  "(\<exists>x. date_transfer from_ymd_opt y m d = Ok x) \<longleftrightarrow> date_bytes_ok from_ymd_opt y m d"
  by (auto simp: date_transfer_def date_bytes_ok_def)

lemma string_from_utf8_Ok [simp]: "string_from_utf8 bs = Ok s \<longleftrightarrow> utf8_ok bs \<and> s = bytes_to_string bs"
  by (auto simp: string_from_utf8_def)

lemma is_ok_string_from_utf8 [simp]: "is_ok (string_from_utf8 bs) \<longleftrightarrow> utf8_ok bs"
  by (simp add: string_from_utf8_def)

lemma comm_module_info_panics_iff:
  assumes "app_afn d = QueryData" "fn_num d = Ok 1" "data_units d = Some u" "length u = 9"
  shows "panics (comm_module_info_response_try_from f d) \<longleftrightarrow>
     \<not> (utf8_ok [u ! 1, u ! 0] \<and> utf8_ok [u ! 3, u ! 2] \<and> date_bytes_ok f (u ! 6) (u ! 5) (u ! 4))"
proof -
  have "flag_mark (app_flag d) \<noteq> 0" using assms(2) by (auto simp: fn_num_def dest: as_fn_num_hangs_iff [THEN iffD2])
  with assms show ?thesis
    by (auto simp: comm_module_info_response_try_from_def codec_total simp del: utf8_ok.simps)
qed

lemma comm_module_info_reads:
  assumes "app_afn d = QueryData" "fn_num d = Ok 1" "data_units d = Some u" "length u = 9"
    and "utf8_ok [u ! 1, u ! 0]" "utf8_ok [u ! 3, u ! 2]"
    and "f (2000 + uint (hex_to_dec (u ! 6))) (unat (hex_to_dec (u ! 5))) (unat (hex_to_dec (u ! 4))) = Some date"
  shows "comm_module_info_response_try_from f d =
     Ok \<lparr>cmi_factory_code = bytes_to_string [u ! 1, u ! 0], cmi_chip_code = bytes_to_string [u ! 3, u ! 2],
         cmi_version_date = date, cmi_version = slice_to_bcd_string [u ! 7, u ! 8]\<rparr>"
proof -
  have "take 2 (drop 7 u) = [u ! 7, u ! 8]"
    using assms(4) by (auto simp: list_eq_iff_nth_eq less_2_cases_iff)
  with assms show ?thesis
    by (simp add: comm_module_info_response_try_from_def codec_total date_transfer_def
        del: utf8_ok.simps)
qed

definition module_info_dates_ok :: "(int \<Rightarrow> nat \<Rightarrow> nat \<Rightarrow> 'date option) \<Rightarrow> u8 list \<Rightarrow> bool" where
  "module_info_dates_ok f u \<longleftrightarrow>
     date_bytes_ok f (u ! 26) (u ! 25) (u ! 24) \<and> date_bytes_ok f (u ! 29) (u ! 28) (u ! 27)
     \<and> date_bytes_ok f (u ! 36) (u ! 35) (u ! 34)"

lemma module_info_panics_iff:
  assumes "app_afn d = QueryData" "fn_num d = Ok 10" "data_units d = Some u"
    and "length u = 39 + unat (u ! 3 AND 0x0F) * 2"
  shows "panics (module_info_response_try_from f d) \<longleftrightarrow>
     \<not> (module_info_dates_ok f u \<and> utf8_ok [u ! 31, u ! 30] \<and> utf8_ok [u ! 33, u ! 32])"
proof -
  have mark: "flag_mark (app_flag d) \<noteq> 0"
    using assms(2) by (auto simp: fn_num_def dest: as_fn_num_hangs_iff [THEN iffD2])
  have len: "39 \<le> length u" using assms(4) by linarith
  obtain a where a: "address_try_from (take 6 (drop 14 u)) = Ok a"
    using address_try_from_total [of "take 6 (drop 14 u)"] len by auto
  have speeds: "\<not> panics (traverse (\<lambda>x. unwrap (u16_from_le ArrayLength x)) (chunks 2 (drop 39 u)))"
  proof (rule traverse_no_panic)
    fix x
    assume "x \<in> set (chunks 2 (drop 39 u))"
    then have "length x = 2"
      by (rule chunks_exact_length [rotated 2, where k = "unat (u ! 3 AND 0x0F)"]) (simp_all add: assms(4))
    then show "\<not> panics (unwrap (u16_from_le ArrayLength x))" by (simp add: is_ok_u16_from_le)
  qed
  show ?thesis
    using assms mark len a speeds
    by (auto simp: module_info_response_try_from_def codec_total Let_def module_info_dates_ok_def
        date_transfer_returns simp del: utf8_ok.simps)
qed

lemma module_info_reads_packet_length:
  assumes "module_info_response_try_from f d = Ok r" and "data_units d = Some u"
  shows "mi_max_packet_length r = u16_le (u ! 9) (u ! 10)"
    and "mi_max_packet_per_packet r = u16_le (u ! 11) (u ! 12)"
    and "mi_upgrade_wait_time r = u ! 13" and "mi_max_timeout_time r = u ! 6"
    and "length (mi_comm_speed r) = unat (mi_speed_num r)"
proof -
  from assms show "mi_max_packet_length r = u16_le (u ! 9) (u ! 10)"
    "mi_max_packet_per_packet r = u16_le (u ! 11) (u ! 12)"
    "mi_upgrade_wait_time r = u ! 13" "mi_max_timeout_time r = u ! 6"
    by (auto simp: module_info_response_try_from_def Let_def)
  from assms have "length u = 39 + unat (mi_speed_num r) * 2"
    and "traverse (\<lambda>x. unwrap (u16_from_le ArrayLength x)) (chunks 2 (drop 39 u)) = Ok (mi_comm_speed r)"
    by (auto simp: module_info_response_try_from_def Let_def codec_total)
  then show "length (mi_comm_speed r) = unat (mi_speed_num r)"
    using length_chunks_exact [of 2 "drop 39 u" "unat (mi_speed_num r)"] by (auto dest: traverse_length)
qed

section \<open>Properties\<close>

text \<open>A version response of the right function and length stops the reading thread exactly when one
  of its two codes is not UTF-8 or its three date bytes name no date of the calendar; otherwise it is
  accepted.\<close>

theorem comm_module_info_stops_iff:
  assumes "app_afn d = QueryData" "fn_num d = Ok 1" "data_units d = Some u" "length u = 9"
  shows "panics (comm_module_info_response_try_from from_ymd_opt d) \<longleftrightarrow>
     \<not> (utf8_ok [u ! 1, u ! 0] \<and> utf8_ok [u ! 3, u ! 2]
        \<and> date_bytes_ok from_ymd_opt (u ! 6) (u ! 5) (u ! 4))"
  using assms by (rule comm_module_info_panics_iff)

text \<open>The calendar of the witness knows the days of 31-day months only.\<close>

theorem comm_module_info_stops_iff_witness:
  "panics (comm_module_info_response_try_from (\<lambda>y m d. if 1 \<le> d \<and> d \<le> 31 \<and> m \<in> {1, 3, 5} then Some (y, m, d) else None)
     (app_data_new QueryData 1 (Some [0x41, 0x42, 0x43, 0x44, 0, 0, 0x25, 0, 1])))"
  using comm_module_info_stops_iff
    [of "app_data_new QueryData 1 (Some [0x41, 0x42, 0x43, 0x44, 0, 0, 0x25, 0, 1])"
        "[0x41, 0x42, 0x43, 0x44, 0, 0, 0x25, 0, 1]"
        "\<lambda>y m d. if 1 \<le> d \<and> d \<le> 31 \<and> m \<in> {1, 3, 5} then Some (y, m, d) else None"]
  by (simp add: date_bytes_ok_def hex_to_dec_def)

text \<open>Module information that is accepted carries the packet length, the upgrade wait time and the
  timeout at their places of the wire format, and as many speeds as its speed count.\<close>

theorem module_info_fields:
  assumes "module_info_response_try_from from_ymd_opt d = Ok r" and "data_units d = Some u"
  shows "mi_max_packet_length r = u16_le (u ! 9) (u ! 10)
    \<and> mi_max_packet_per_packet r = u16_le (u ! 11) (u ! 12) \<and> mi_upgrade_wait_time r = u ! 13
    \<and> mi_max_timeout_time r = u ! 6 \<and> length (mi_comm_speed r) = unat (mi_speed_num r)"
  using module_info_reads_packet_length [OF assms] by simp

theorem module_info_fields_witness:
  "\<exists>r. module_info_response_try_from (\<lambda>_ _ _. Some ()) (app_data_new QueryData 10
       (Some (replicate 6 0 @ [30] @ replicate 32 0))) = Ok r
     \<and> mi_max_timeout_time r = 30"
proof -
  let ?u = "replicate 6 0 @ [30] @ replicate 32 (0 :: u8)"
  let ?d = "app_data_new QueryData 10 (Some ?u)"
  have "?u ! 3 = 0" "length ?u = 39" "take 6 (drop 14 ?u) = replicate 6 0" by (simp_all add: nth_append)
  moreover have "address_try_from (replicate 6 0) = Ok (Address 0 0 0 0 0 0)"
    by (simp add: address_try_from_def ADDR_LEN_def numeral_eq_Suc)
  moreover have "utf8_ok [0, 0]" by simp
  ultimately have "\<exists>r. module_info_response_try_from (\<lambda>_ _ _. Some ()) ?d = Ok r"
    by (simp add: module_info_response_try_from_def codec_total Let_def date_transfer_def nth_append
        del: utf8_ok.simps)
  then show ?thesis using module_info_fields [of "\<lambda>_ _ _. Some ()" ?d _ ?u] by (auto simp: nth_append)
qed

end
