(* ===== verification/Route_Get.thy ===== *)
theory Route_Get
  imports Active_Report Query_Data
begin

text \<open>
  src/src/protocol/app_data/route_get.rs: the queries of the routing module (AFN 10H). Most responses
  are a prefix with a count and that many entries of fixed size; each entry type is an interpretation
  of \<open>entry_reader\<close>, and the lemmas \<open>..._reads\<close> say when a response is accepted and that it holds as
  many entries as its count byte says. \<open>slave_module_id_loop\<close> is the one cursor loop, over entries
  of varying size.
\<close>

datatype route_query =
    NodeNumber | NodeInfoQuery | RunningStatus | SlaveModuleId | NetworkSize | NetTopology
  | NodeLineInfoQuery | IdInfo | NetworkNodeInfo | MultipleNet | ChipInfo

fun route_query_to_u8 :: "route_query \<Rightarrow> u8" where
  "route_query_to_u8 NodeNumber = 1"
| "route_query_to_u8 NodeInfoQuery = 2"
| "route_query_to_u8 RunningStatus = 4"
| "route_query_to_u8 SlaveModuleId = 7"
| "route_query_to_u8 NetworkSize = 9"
| "route_query_to_u8 NetTopology = 21"
| "route_query_to_u8 NodeLineInfoQuery = 31"
| "route_query_to_u8 IdInfo = 40"
| "route_query_to_u8 NetworkNodeInfo = 104"
| "route_query_to_u8 MultipleNet = 111"
| "route_query_to_u8 ChipInfo = 112"

definition all_route_queries :: "route_query list" where
  "all_route_queries =
     [NodeNumber, NodeInfoQuery, RunningStatus, SlaveModuleId, NetworkSize, NetTopology,
      NodeLineInfoQuery, IdInfo, NetworkNodeInfo, MultipleNet, ChipInfo]"

definition route_query_try_from :: "u8 \<Rightarrow> route_query result" where
  "route_query_try_from = of_code ''RouteQuery'' (with_codes route_query_to_u8 all_route_queries)"

interpretation route_query_byte: byte_enum route_query_to_u8 route_query_try_from
proof
  fix v
  show "route_query_try_from (route_query_to_u8 v) = Ok v"
    by (cases v) (simp_all add: route_query_try_from_def of_code_def with_codes_def all_route_queries_def)
qed (auto simp: route_query_try_from_def of_code_no_panic dest: of_code_sound)

section \<open>Requests\<close>

text \<open>The paged requests share their shape: a start number and a count of nodes.\<close>

record page_request =
  pg_start :: u16
  pg_node_number :: u8

definition network_node_info_request_to_app_data :: "page_request \<Rightarrow> app_data" where
  "network_node_info_request_to_app_data r =
     app_data_new RouteGet (route_query_to_u8 NetworkNodeInfo)
       (Some (u16_to_le (pg_start r) @ [pg_node_number r]))"

definition query_node_number_request_to_app_data :: app_data where
  "query_node_number_request_to_app_data = app_data_new RouteGet (route_query_to_u8 NodeNumber) None"

definition query_node_info_request_to_app_data :: "page_request \<Rightarrow> app_data" where
  "query_node_info_request_to_app_data r =
     app_data_new RouteGet (route_query_to_u8 NodeInfoQuery)
       (Some (u16_to_le (pg_start r) @ [pg_node_number r]))"

definition chip_info_request_to_app_data :: "page_request \<Rightarrow> app_data" where
  "chip_info_request_to_app_data r =
     app_data_new RouteGet (route_query_to_u8 ChipInfo)
       (Some (u16_to_le (pg_start r) @ [pg_node_number r]))"

record id_info_request =
  iiq_device_type :: u8
  iiq_address :: address
  iiq_id_type :: u8

definition id_info_request_to_app_data :: "id_info_request \<Rightarrow> app_data" where
  "id_info_request_to_app_data r =
     app_data_new RouteGet (route_query_to_u8 IdInfo)
       (Some ([iiq_device_type r] @ address_to_vec (iiq_address r) @ [iiq_id_type r]))"

definition query_node_line_info_request_to_app_data :: "page_request \<Rightarrow> app_data" where
  "query_node_line_info_request_to_app_data r =
     app_data_new RouteGet (route_query_to_u8 NodeLineInfoQuery)
       (Some (u16_to_le (pg_start r) @ [pg_node_number r]))"

definition slave_module_id_request_to_app_data :: "page_request \<Rightarrow> app_data" where
  "slave_module_id_request_to_app_data r =
     app_data_new RouteGet (route_query_to_u8 SlaveModuleId)
       (Some (u16_to_le (pg_start r) @ [pg_node_number r]))"

definition net_topology_request_to_app_data :: "page_request \<Rightarrow> app_data" where
  "net_topology_request_to_app_data r =
     app_data_new RouteGet (route_query_to_u8 NetTopology)
       (Some (u16_to_le (pg_start r) @ [pg_node_number r]))"

definition multiple_net_request_to_app_data :: app_data where
  "multiple_net_request_to_app_data = app_data_new RouteGet (route_query_to_u8 MultipleNet) None"

definition running_status_request_to_app_data :: app_data where
  "running_status_request_to_app_data = app_data_new RouteGet (route_query_to_u8 RunningStatus) None"

definition network_size_request_to_app_data :: app_data where
  "network_size_request_to_app_data = app_data_new RouteGet (route_query_to_u8 NetworkSize) None"

section \<open>Entries\<close>

record 'date node_version_info =
  nv_address :: address
  nv_version :: string
  nv_version_date :: 'date
  nv_factory_code :: string
  nv_chip_code :: string

definition node_version_info_from ::
    "(int \<Rightarrow> nat \<Rightarrow> nat \<Rightarrow> 'date option) \<Rightarrow> u8 list \<Rightarrow> 'date node_version_info result" where
  "node_version_info_from from_ymd_opt data =
     andThen (slice data 0 6) (\<lambda>a.
     andThen (unwrap (address_try_from a)) (\<lambda>address.
     andThen (slice data 6 8) (\<lambda>v.
     andThen (index data 10) (\<lambda>year. andThen (index data 9) (\<lambda>month. andThen (index data 8) (\<lambda>day.
     andThen (date_transfer from_ymd_opt year month day) (\<lambda>date.
     andThen (index data 12) (\<lambda>f1. andThen (index data 11) (\<lambda>f0.
     andThen (unwrap (string_from_utf8 [f1, f0])) (\<lambda>factory_code.
     andThen (index data 14) (\<lambda>c1. andThen (index data 13) (\<lambda>c0.
     andThen (unwrap (string_from_utf8 [c1, c0])) (\<lambda>chip_code.
     Ok \<lparr>nv_address = address, nv_version = slice_to_bcd_string v, nv_version_date = date,
         nv_factory_code = factory_code, nv_chip_code = chip_code\<rparr>)))))))))))))"

record node_detail =
  nd_src_addr :: address
  nd_listen_signal_quality :: u8
  nd_relay_level :: u8
  nd_comm_protocol_type :: u8
  nd_phase :: u8

definition node_detail_from :: "u8 list \<Rightarrow> node_detail result" where
  "node_detail_from data =
     andThen (slice data 0 6) (\<lambda>a.
     andThen (unwrap (address_try_from a)) (\<lambda>address.
     andThen (index data 6) (\<lambda>b6.
     andThen (index data 7) (\<lambda>b7.
     Ok \<lparr>nd_src_addr = address, nd_listen_signal_quality = drop_bit 4 b6,
         nd_relay_level = b6 AND 0x0F, nd_comm_protocol_type = drop_bit 3 b7 AND 0x07,
         nd_phase = b7 AND 0x07\<rparr>))))"

record chip_information =
  ci_address :: address
  ci_device_type :: u8
  ci_id_info :: "u8 list"
  ci_software_version :: string

text \<open>\<^verbatim>\<open>[u8; 24]\<close> from a slice: \<^verbatim>\<open>try_into().unwrap()\<close> stops unless the slice has 24 bytes.\<close>

definition array_of_length :: "nat \<Rightarrow> u8 list \<Rightarrow> u8 list result" where
  "array_of_length n bs = (if length bs = n then Ok bs else Err ArrayLength)"

definition chip_information_from :: "(u8 list \<Rightarrow> string) \<Rightarrow> u8 list \<Rightarrow> chip_information result" where
  "chip_information_from hex_encode data =
     andThen (slice data 0 ADDR_LEN) (\<lambda>a.
     andThen (unwrap (address_try_from a)) (\<lambda>address.
     andThen (index data 6) (\<lambda>device_type.
     andThen (slice data 7 31) (\<lambda>i.
     andThen (unwrap (array_of_length 24 i)) (\<lambda>id_info.
     andThen (index data 32) (\<lambda>v1. andThen (index data 31) (\<lambda>v0.
     Ok \<lparr>ci_address = address, ci_device_type = device_type, ci_id_info = id_info,
         ci_software_version = hex_encode [v1, v0]\<rparr>)))))))"

record node_line_info =
  nl_addr :: address
  nl_info :: u16

definition node_line_info_from :: "u8 list \<Rightarrow> node_line_info result" where
  "node_line_info_from data =
     andThen (slice data 0 6) (\<lambda>a.
     andThen (unwrap (address_try_from a)) (\<lambda>addr.
     andThen (slice data 6 8) (\<lambda>i.
     andThen (unwrap (u16_from_le ArrayLength i)) (\<lambda>info.
     Ok \<lparr>nl_addr = addr, nl_info = info\<rparr>))))"

record net_topology_info =
  nt_address :: address
  nt_node_flag :: u16
  nt_proxy_node_flag :: u16
  nt_node_level :: u8
  nt_node_role :: u8

definition net_topology_info_try_from :: "u8 list \<Rightarrow> net_topology_info result" where
  "net_topology_info_try_from data =
     andThen (slice data 0 ADDR_LEN) (\<lambda>a.
     andThen (unwrap (address_try_from a)) (\<lambda>address.
     andThen (slice data 6 8) (\<lambda>n.
     andThen (u16_from_le ArrayLength n) (\<lambda>node_flag.
     andThen (slice data 8 10) (\<lambda>p.
     andThen (u16_from_le ArrayLength p) (\<lambda>proxy_node_flag.
     andThen (index data 10) (\<lambda>b.
     Ok \<lparr>nt_address = address, nt_node_flag = node_flag, nt_proxy_node_flag = proxy_node_flag,
         nt_node_level = b AND 0x0F, nt_node_role = drop_bit 4 b\<rparr>)))))))"

definition multiple_net_info_from :: "u8 list \<Rightarrow> u32 result" where
  "multiple_net_info_from data =
     andThen (index data 0) (\<lambda>b0. andThen (index data 1) (\<lambda>b1. andThen (index data 2) (\<lambda>b2.
     Ok (u32_le b0 b1 b2 0))))"

record slave_module_id_info =
  sm_address :: address
  sm_device_type :: u8
  sm_factory_code :: string
  sm_id_format :: module_id_format
  sm_id_info :: "u8 list"

definition slave_module_id_info_try_from :: "u8 list \<Rightarrow> slave_module_id_info result" where
  "slave_module_id_info_try_from data =
     andThen (slice data 0 ADDR_LEN) (\<lambda>a.
     andThen (unwrap (address_try_from a)) (\<lambda>address.
     andThen (index data 6) (\<lambda>device_type.
     andThen (index data 8) (\<lambda>f1. andThen (index data 7) (\<lambda>f0.
     andThen (unwrap (string_from_utf8 [f1, f0])) (\<lambda>factory_code.
     andThen (index data 10) (\<lambda>b.
     andThen (module_id_format_try_from b) (\<lambda>id_format.
     andThen (slice_from data 11) (\<lambda>id_info.
     Ok \<lparr>sm_address = address, sm_device_type = device_type, sm_factory_code = factory_code,
         sm_id_format = id_format, sm_id_info = id_info\<rparr>)))))))))"

section \<open>Responses\<close>

record 'date network_node_info_response =
  nn_total_node_number :: u16
  nn_node_number :: u8
  nn_node_version_infos :: "'date node_version_info list"

definition network_node_info_response_try_from ::
    "(int \<Rightarrow> nat \<Rightarrow> nat \<Rightarrow> 'date option) \<Rightarrow> app_data \<Rightarrow> 'date network_node_info_response result" where
  "network_node_info_response_try_from from_ymd_opt d =
     andThen (ensure (3 \<le> data_length d) (AppDataErr (DataLengthError (data_length d)))) (\<lambda>_.
     andThen (unwrap_option (data_units d)) (\<lambda>units0.
     andThen (index units0 2) (\<lambda>node_number.
     andThen (app_data_check d RouteGet (route_query_to_u8 NetworkNodeInfo)
                (unat node_number * 15 + 3)) (\<lambda>_.
     andThen (unwrap_option (data_units d)) (\<lambda>units.
     andThen (slice units 0 2) (\<lambda>t.
     andThen (u16_from_le ArrayLength t) (\<lambda>total.
     andThen (slice_from units 3) (\<lambda>rest.
     andThen (traverse (node_version_info_from from_ymd_opt) (chunks 15 rest)) (\<lambda>infos.
     Ok \<lparr>nn_total_node_number = total, nn_node_number = node_number,
         nn_node_version_infos = infos\<rparr>)))))))))"

record query_node_number_response =
  qn_node_number :: u16
  qn_max_node_number :: u16

definition query_node_number_response_try_from :: "app_data \<Rightarrow> query_node_number_response result" where
  "query_node_number_response_try_from d =
     andThen (app_data_check d RouteGet (route_query_to_u8 NodeNumber) 4) (\<lambda>_.
     andThen (unwrap_option (data_units d)) (\<lambda>units.
     andThen (slice units 0 2) (\<lambda>n.
     andThen (u16_from_le ArrayLength n) (\<lambda>node_number.
     andThen (slice units 2 4) (\<lambda>m.
     andThen (u16_from_le ArrayLength m) (\<lambda>max_node_number.
     Ok \<lparr>qn_node_number = node_number, qn_max_node_number = max_node_number\<rparr>))))))"

record query_node_info_response =
  qi_total_node_number :: u16
  qi_node_number :: u8
  qi_node_infos :: "node_detail list"

definition query_node_info_response_try_from :: "app_data \<Rightarrow> query_node_info_response result" where
  "query_node_info_response_try_from d =
     andThen (ensure (3 \<le> data_length d) (AppDataErr (DataLengthError (data_length d)))) (\<lambda>_.
     andThen (unwrap_option (data_units d)) (\<lambda>units0.
     andThen (index units0 2) (\<lambda>node_number.
     andThen (app_data_check d RouteGet (route_query_to_u8 NodeInfoQuery) (unat node_number * 8 + 3)) (\<lambda>_.
     andThen (unwrap_option (data_units d)) (\<lambda>units.
     andThen (slice units 0 2) (\<lambda>t.
     andThen (u16_from_le ArrayLength t) (\<lambda>total.
     andThen (slice_from units 3) (\<lambda>rest.
     andThen (traverse node_detail_from (take (unat node_number) (chunks 8 rest))) (\<lambda>infos.
     Ok \<lparr>qi_total_node_number = total, qi_node_number = node_number, qi_node_infos = infos\<rparr>)))))))))"

record chip_info_response =
  cp_total_node_number :: u16
  cp_start_seq :: u16
  cp_node_number :: u8
  cp_chip_infos :: "chip_information list"

definition chip_info_response_try_from :: "(u8 list \<Rightarrow> string) \<Rightarrow> app_data \<Rightarrow> chip_info_response result" where
  "chip_info_response_try_from hex_encode d =
     andThen (ensure (5 \<le> data_length d) (AppDataErr (DataLengthError (data_length d)))) (\<lambda>_.
     andThen (unwrap_option (data_units d)) (\<lambda>units0.
     andThen (index units0 4) (\<lambda>node_number.
     andThen (app_data_check d RouteGet (route_query_to_u8 ChipInfo) (unat node_number * 33 + 5)) (\<lambda>_.
     andThen (unwrap_option (data_units d)) (\<lambda>units.
     andThen (slice units 0 2) (\<lambda>t.
     andThen (u16_from_le ArrayLength t) (\<lambda>total.
     andThen (slice units 2 4) (\<lambda>s.
     andThen (u16_from_le ArrayLength s) (\<lambda>start_seq.
     andThen (slice_from units 5) (\<lambda>rest.
     andThen (traverse (chip_information_from hex_encode) (chunks 33 rest)) (\<lambda>infos.
     Ok \<lparr>cp_total_node_number = total, cp_start_seq = start_seq, cp_node_number = node_number,
         cp_chip_infos = infos\<rparr>)))))))))))"

record id_info_response =
  ii_device_type :: u8
  ii_address :: address
  ii_id_type :: u8
  ii_id_length :: u8
  ii_id_info :: "u8 list"

definition id_info_response_try_from :: "app_data \<Rightarrow> id_info_response result" where
  "id_info_response_try_from d =
     andThen (ensure (9 \<le> data_length d) (AppDataErr (DataLengthError (data_length d)))) (\<lambda>_.
     andThen (unwrap_option (data_units d)) (\<lambda>units0.
     andThen (index units0 8) (\<lambda>id_length.
     andThen (app_data_check d RouteGet (route_query_to_u8 IdInfo) (unat id_length + 9)) (\<lambda>_.
     andThen (unwrap_option (data_units d)) (\<lambda>units.
     andThen (index units 0) (\<lambda>device_type.
     andThen (slice units 1 7) (\<lambda>a.
     andThen (address_try_from a) (\<lambda>address.
     andThen (index units 7) (\<lambda>id_type.
     andThen (slice units 9 (9 + unat id_length)) (\<lambda>id_info.
     Ok \<lparr>ii_device_type = device_type, ii_address = address, ii_id_type = id_type,
         ii_id_length = id_length, ii_id_info = id_info\<rparr>))))))))))"

record query_node_line_info_response =
  ql_total_node_number :: u16
  ql_start_index :: u16
  ql_node_number :: u8
  ql_line_infos :: "node_line_info list"

definition query_node_line_info_response_try_from :: "app_data \<Rightarrow> query_node_line_info_response result" where
  "query_node_line_info_response_try_from d =
     andThen (ensure (5 \<le> data_length d) (AppDataErr (DataLengthError (data_length d)))) (\<lambda>_.
     andThen (unwrap_option (data_units d)) (\<lambda>units0.
     andThen (index units0 4) (\<lambda>node_number.
     andThen (app_data_check d RouteGet (route_query_to_u8 NodeLineInfoQuery)
                (unat node_number * 8 + 5)) (\<lambda>_.
     andThen (unwrap_option (data_units d)) (\<lambda>units.
     andThen (slice units 0 2) (\<lambda>t.
     andThen (u16_from_le ArrayLength t) (\<lambda>total.
     andThen (slice units 2 4) (\<lambda>s.
     andThen (u16_from_le ArrayLength s) (\<lambda>start_index.
     andThen (slice_from units 5) (\<lambda>rest.
     andThen (traverse node_line_info_from (take (unat node_number) (chunks 8 rest))) (\<lambda>infos.
     Ok \<lparr>ql_total_node_number = total, ql_start_index = start_index, ql_node_number = node_number,
         ql_line_infos = infos\<rparr>)))))))))))"

text \<open>The cursor loop of \<^verbatim>\<open>SlaveModuleIdResponse\<close>: \<open>n\<close> entries are left, the cursor is at \<open>i\<close>.\<close>

record slave_module_id_response =
  si_total_node_number :: u16
  si_node_number :: u8
  si_slave_module_id_infos :: "slave_module_id_info list"

primrec slave_module_id_loop ::
    "nat \<Rightarrow> u8 list \<Rightarrow> nat \<Rightarrow> slave_module_id_info list \<Rightarrow> (slave_module_id_info list \<times> nat) result" where
  "slave_module_id_loop 0 units i infos = Ok (infos, i)"
| "slave_module_id_loop (Suc n) units i infos =
     andThen (ensure (i + 11 \<le> length units) (AppDataErr (DataLengthError (length units)))) (\<lambda>_.
     andThen (index units (i + 9)) (\<lambda>b.
     let id_length = unat b + 11 in
     andThen (ensure (i + id_length \<le> length units) (AppDataErr (DataLengthError (length units)))) (\<lambda>_.
     andThen (slice units i (i + id_length)) (\<lambda>entry.
     andThen (slave_module_id_info_try_from entry) (\<lambda>info.
     slave_module_id_loop n units (i + id_length) (infos @ [info]))))))"

definition slave_module_id_response_try_from :: "app_data \<Rightarrow> slave_module_id_response result" where
  "slave_module_id_response_try_from d =
     andThen (ensure (3 \<le> data_length d) (AppDataErr (DataLengthError (data_length d)))) (\<lambda>_.
     andThen (unwrap_option (data_units d)) (\<lambda>units.
     andThen (index units 2) (\<lambda>node_number.
     andThen (slave_module_id_loop (unat node_number) units 3 []) (\<lambda>(infos, i).
     andThen (app_data_check d RouteGet (route_query_to_u8 SlaveModuleId) i) (\<lambda>_.
     andThen (slice units 0 2) (\<lambda>t.
     andThen (u16_from_le ArrayLength t) (\<lambda>total.
     Ok \<lparr>si_total_node_number = total, si_node_number = node_number,
         si_slave_module_id_infos = infos\<rparr>)))))))"

record net_topology_response =
  np_total_node_number :: u16
  np_start_index :: u16
  np_node_number :: u8
  np_net_topology_infos :: "net_topology_info list"

definition net_topology_response_try_from :: "app_data \<Rightarrow> net_topology_response result" where
  "net_topology_response_try_from d =
     andThen (ensure (5 \<le> data_length d) (AppDataErr (DataLengthError (data_length d)))) (\<lambda>_.
     andThen (unwrap_option (data_units d)) (\<lambda>units.
     andThen (index units 4) (\<lambda>node_number.
     andThen (app_data_check d RouteGet (route_query_to_u8 NetTopology) (unat node_number * 11 + 5)) (\<lambda>_.
     andThen (slice_from units 5) (\<lambda>rest.
     andThen (traverse net_topology_info_try_from (take (unat node_number) (chunks 11 rest))) (\<lambda>infos.
     andThen (slice units 0 2) (\<lambda>t.
     andThen (u16_from_le ArrayLength t) (\<lambda>total.
     andThen (slice units 2 4) (\<lambda>s.
     andThen (u16_from_le ArrayLength s) (\<lambda>start_index.
     Ok \<lparr>np_total_node_number = total, np_start_index = start_index, np_node_number = node_number,
         np_net_topology_infos = infos\<rparr>))))))))))"

record multiple_net_response =
  mn_total_node_number :: u8
  mn_node_net_identity :: u32
  mn_address :: address
  mn_multiple_net_infos :: "u32 list"

definition multiple_net_response_try_from :: "app_data \<Rightarrow> multiple_net_response result" where
  "multiple_net_response_try_from d =
     andThen (ensure (10 \<le> data_length d) (AppDataErr (DataLengthError (data_length d)))) (\<lambda>_.
     andThen (unwrap_option (data_units d)) (\<lambda>units.
     andThen (index units 0) (\<lambda>total.
     andThen (app_data_check d RouteGet (route_query_to_u8 MultipleNet) (unat total * 3 + 10)) (\<lambda>_.
     andThen (slice_from units 10) (\<lambda>rest.
     andThen (traverse multiple_net_info_from (take (unat total) (chunks 3 rest))) (\<lambda>infos.
     andThen (index units 1) (\<lambda>b1. andThen (index units 2) (\<lambda>b2. andThen (index units 3) (\<lambda>b3.
     andThen (slice units 4 10) (\<lambda>a.
     andThen (unwrap (address_try_from a)) (\<lambda>address.
     Ok \<lparr>mn_total_node_number = total, mn_node_net_identity = u32_le b1 b2 b3 0,
         mn_address = address, mn_multiple_net_infos = infos\<rparr>)))))))))))"

record running_status =
  rs_error_code :: u8
  rs_report_event_flag :: u8
  rs_work_flag :: u8
  rs_route_finish_flag :: u8

definition running_status_from :: "u8 \<Rightarrow> running_status" where
  "running_status_from v =
     \<lparr>rs_error_code = drop_bit 4 (v AND 0xf0), rs_report_event_flag = drop_bit 2 (v AND 0x04),
      rs_work_flag = drop_bit 1 (v AND 0x02), rs_route_finish_flag = v AND 0x01\<rparr>"

record work_status =
  ws_meter_status :: u8
  ws_area_identify_status :: u8
  ws_report_event_flag :: u8
  ws_register_permit :: u8
  ws_work_status :: u8

definition work_status_from :: "u8 \<Rightarrow> work_status" where
  "work_status_from v =
     \<lparr>ws_meter_status = drop_bit 6 (v AND 0xc0), ws_area_identify_status = drop_bit 3 (v AND 0x08),
      ws_report_event_flag = drop_bit 2 (v AND 0x04), ws_register_permit = drop_bit 1 (v AND 0x02),
      ws_work_status = v AND 0x01\<rparr>"

record running_status_response =
  rr_running_status :: running_status
  rr_total_node_number :: u16
  rr_meter_node_number :: u16
  rr_relay_meter_node_number :: u16
  rr_work_status :: work_status
  rr_comm_speed :: u16
  rr_relay_level :: "u8 list"
  rr_work_step :: "u8 list"

datatype current_status = Metering | Searching | Upgrading | OtherCurrent

fun current_status_to_u8 :: "current_status \<Rightarrow> u8" where
  "current_status_to_u8 Metering = 0"
| "current_status_to_u8 Searching = 1"
| "current_status_to_u8 Upgrading = 2"
| "current_status_to_u8 OtherCurrent = 3"

definition current_status_try_from :: "u8 \<Rightarrow> current_status result" where
  "current_status_try_from =
     of_code ''CurrentStatus''
       (with_codes current_status_to_u8 [Metering, Searching, Upgrading, OtherCurrent])"

definition current_status :: "running_status_response \<Rightarrow> current_status result" where
  "current_status r = unwrap (current_status_try_from (ws_meter_status (rr_work_status r)))"

definition running_status_response_try_from :: "app_data \<Rightarrow> running_status_response result" where
  "running_status_response_try_from d =
     andThen (app_data_check d RouteGet (route_query_to_u8 RunningStatus) 16) (\<lambda>_.
     andThen (unwrap_option (data_units d)) (\<lambda>u.
     andThen (slice u 10 13) (\<lambda>r.
     andThen (unwrap (array_of_length 3 r)) (\<lambda>relay_level.
     andThen (slice u 13 16) (\<lambda>w.
     andThen (unwrap (array_of_length 3 w)) (\<lambda>work_step.
     Ok \<lparr>rr_running_status = running_status_from (u ! 0),
         rr_total_node_number = u16_le (u ! 1) (u ! 2),
         rr_meter_node_number = u16_le (u ! 3) (u ! 4),
         rr_relay_meter_node_number = u16_le (u ! 5) (u ! 6),
         rr_work_status = work_status_from (u ! 7),
         rr_comm_speed = u16_le (u ! 8) (u ! 9),
         rr_relay_level = relay_level, rr_work_step = work_step\<rparr>))))))"

record network_size_response =
  ns_network_size :: u16

definition network_size_response_try_from :: "app_data \<Rightarrow> network_size_response result" where
  "network_size_response_try_from d =
     andThen (app_data_check d RouteGet (route_query_to_u8 NetworkSize) 2) (\<lambda>_.
     andThen (unwrap_option (data_units d)) (\<lambda>u.
     andThen (index u 0) (\<lambda>b0. andThen (index u 1) (\<lambda>b1.
     Ok \<lparr>ns_network_size = u16_le b0 b1\<rparr>))))"

section \<open>Entries are never refused\<close>

lemma entry_front:
  assumes "length bs = n" "6 \<le> n"
  shows "\<exists>a rest. bs = address_to_vec a @ rest \<and> length rest = n - 6"
  using address_front [of bs] assms by simp

lemma is_ok_address [simp]: "length bs = 6 \<Longrightarrow> is_ok (address_try_from bs)"
  using address_try_from_total [of bs] by auto

lemma is_ok_array_of_length [simp]: "is_ok (array_of_length n bs) \<longleftrightarrow> length bs = n"
  by (simp add: array_of_length_def)

lemma exists_Ok: "is_ok m \<Longrightarrow> \<exists>x. m = Ok x"
  by (simp add: is_ok_iff)

lemma is_ok_unwrap [simp]: "is_ok (unwrap m) = is_ok m"
  by (cases m) auto

interpretation node_detail_entry: entry_reader 8 node_detail_from
proof
  fix bs :: "u8 list"
  assume "length bs = 8"
  then have "is_ok (node_detail_from bs)"
    using address_try_from_total [of "take 6 bs"] by (auto simp: node_detail_from_def codec_total)
  then show "\<exists>x. node_detail_from bs = Ok x" by (rule exists_Ok)
qed simp

interpretation chip_entry: entry_reader 33 "chip_information_from hex_encode" for hex_encode
proof
  fix bs :: "u8 list"
  assume "length bs = 33"
  then have "is_ok (chip_information_from hex_encode bs)"
    using address_try_from_total [of "take 6 bs"]
    by (auto simp: chip_information_from_def codec_total ADDR_LEN_def array_of_length_def)
  then show "\<exists>x. chip_information_from hex_encode bs = Ok x" by (rule exists_Ok)
qed simp

interpretation line_entry: entry_reader 8 node_line_info_from
proof
  fix bs :: "u8 list"
  assume "length bs = 8"
  then have "is_ok (node_line_info_from bs)"
    using address_try_from_total [of "take 6 bs"] is_ok_u16_from_le [of ArrayLength "take 2 (drop 6 bs)"]
    by (auto simp: node_line_info_from_def codec_total is_ok_iff)
  then show "\<exists>x. node_line_info_from bs = Ok x" by (rule exists_Ok)
qed simp

interpretation topology_entry: entry_reader 11 net_topology_info_try_from
proof
  fix bs :: "u8 list"
  assume "length bs = 11"
  then have "is_ok (net_topology_info_try_from bs)"
    using address_try_from_total [of "take 6 bs"] is_ok_u16_from_le [of ArrayLength "take 2 (drop 6 bs)"]
      is_ok_u16_from_le [of ArrayLength "take 2 (drop 8 bs)"]
    by (auto simp: net_topology_info_try_from_def codec_total is_ok_iff ADDR_LEN_def)
  then show "\<exists>x. net_topology_info_try_from bs = Ok x" by (rule exists_Ok)
qed simp

interpretation multiple_net_entry: entry_reader 3 multiple_net_info_from
proof
  fix bs :: "u8 list"
  assume "length bs = 3"
  then show "\<exists>x. multiple_net_info_from bs = Ok x" by (simp add: multiple_net_info_from_def index_def)
qed simp

section \<open>Counted responses\<close>

lemma u16_at:
  assumes "k + 2 \<le> length u"
  shows "u16_from_le e (take 2 (drop k u)) = Ok (u16_le (u ! k) (u ! (k + 1)))"
proof -
  have "take 2 (drop k u) = [u ! k, u ! (k + 1)]"
    using assms by (intro nth_equalityI) (auto simp: less_2_cases_iff)
  then show ?thesis by simp
qed

lemmas counted_run = codec_total counted_units_def u16_at [of 0, simplified] u16_at [of 2, simplified]

interpretation node_infos: counted_response RouteGet 2 3 2 8 query_node_info_response_try_from
  "\<lambda>r. length (qi_node_infos r)"
proof
  fix d u
  assume "app_afn d = RouteGet" "fn_num d = Ok 2" "data_units d = Some u" "counted_units 3 2 8 u"
  then show "\<exists>r. query_node_info_response_try_from d = Ok r"
    using node_detail_entry.counted_total [of "drop 3 u" "unat (u ! 2)"]
    by (auto simp: query_node_info_response_try_from_def counted_run)
next
  fix d r
  assume "query_node_info_response_try_from d = Ok r"
  then show "app_afn d = RouteGet \<and> fn_num d = Ok 2 \<and> (\<exists>u. data_units d = Some u
      \<and> counted_units 3 2 8 u \<and> length (qi_node_infos r) = unat (u ! 2))"
    by (auto simp: query_node_info_response_try_from_def counted_run length_chunks_exact
        dest!: traverse_length)
next
  fix d :: app_data
  assume "flag_mark (app_flag d) \<noteq> 0"
  then show "\<not> panics (query_node_info_response_try_from d)"
    by (cases "data_units d")
       (auto simp: query_node_info_response_try_from_def counted_run
         node_detail_entry.counted_entries node_detail_entry.entries_no_panic)
qed

interpretation line_infos: counted_response RouteGet 31 5 4 8 query_node_line_info_response_try_from
  "\<lambda>r. length (ql_line_infos r)"
proof
  fix d u
  assume "app_afn d = RouteGet" "fn_num d = Ok 31" "data_units d = Some u" "counted_units 5 4 8 u"
  then show "\<exists>r. query_node_line_info_response_try_from d = Ok r"
    using line_entry.counted_total [of "drop 5 u" "unat (u ! 4)"]
    by (auto simp: query_node_line_info_response_try_from_def counted_run)
next
  fix d r
  assume "query_node_line_info_response_try_from d = Ok r"
  then show "app_afn d = RouteGet \<and> fn_num d = Ok 31 \<and> (\<exists>u. data_units d = Some u
      \<and> counted_units 5 4 8 u \<and> length (ql_line_infos r) = unat (u ! 4))"
    by (auto simp: query_node_line_info_response_try_from_def counted_run length_chunks_exact
        dest!: traverse_length)
next
  fix d :: app_data
  assume "flag_mark (app_flag d) \<noteq> 0"
  then show "\<not> panics (query_node_line_info_response_try_from d)"
    by (cases "data_units d")
       (auto simp: query_node_line_info_response_try_from_def counted_run
         line_entry.counted_entries line_entry.entries_no_panic)
qed

interpretation topology_infos: counted_response RouteGet 21 5 4 11 net_topology_response_try_from
  "\<lambda>r. length (np_net_topology_infos r)"
proof
  fix d u
  assume "app_afn d = RouteGet" "fn_num d = Ok 21" "data_units d = Some u" "counted_units 5 4 11 u"
  then show "\<exists>r. net_topology_response_try_from d = Ok r"
    using topology_entry.counted_total [of "drop 5 u" "unat (u ! 4)"]
    by (auto simp: net_topology_response_try_from_def counted_run)
next
  fix d r
  assume "net_topology_response_try_from d = Ok r"
  then show "app_afn d = RouteGet \<and> fn_num d = Ok 21 \<and> (\<exists>u. data_units d = Some u
      \<and> counted_units 5 4 11 u \<and> length (np_net_topology_infos r) = unat (u ! 4))"
    by (auto simp: net_topology_response_try_from_def counted_run length_chunks_exact
        dest!: traverse_length)
next
  fix d :: app_data
  assume "flag_mark (app_flag d) \<noteq> 0"
  then show "\<not> panics (net_topology_response_try_from d)"
    by (cases "data_units d")
       (auto simp: net_topology_response_try_from_def counted_run
         topology_entry.counted_entries topology_entry.entries_no_panic)
qed

interpretation chip_infos: counted_response RouteGet 112 5 4 33 "chip_info_response_try_from hex_encode"
  "\<lambda>r. length (cp_chip_infos r)" for hex_encode
proof
  fix d u
  assume "app_afn d = RouteGet" "fn_num d = Ok 112" "data_units d = Some u" "counted_units 5 4 33 u"
  then show "\<exists>r. chip_info_response_try_from hex_encode d = Ok r"
    using chip_entry.entries_total [of "drop 5 u" "unat (u ! 4)" hex_encode]
    by (auto simp: chip_info_response_try_from_def counted_run)
next
  fix d r
  assume "chip_info_response_try_from hex_encode d = Ok r"
  then show "app_afn d = RouteGet \<and> fn_num d = Ok 112 \<and> (\<exists>u. data_units d = Some u
      \<and> counted_units 5 4 33 u \<and> length (cp_chip_infos r) = unat (u ! 4))"
    by (auto simp: chip_info_response_try_from_def counted_run length_chunks_exact
        dest!: traverse_length)
next
  fix d :: app_data
  assume "flag_mark (app_flag d) \<noteq> 0"
  then show "\<not> panics (chip_info_response_try_from hex_encode d)"
    by (cases "data_units d")
       (auto simp: chip_info_response_try_from_def counted_run
         chip_entry.counted_entries chip_entry.entries_no_panic)
qed

interpretation multiple_nets: counted_response RouteGet 111 10 0 3 multiple_net_response_try_from
  "\<lambda>r. length (mn_multiple_net_infos r)"
proof
  fix d u
  assume "app_afn d = RouteGet" "fn_num d = Ok 111" "data_units d = Some u" "counted_units 10 0 3 u"
  then show "\<exists>r. multiple_net_response_try_from d = Ok r"
    using multiple_net_entry.counted_total [of "drop 10 u" "unat (u ! 0)"]
      address_try_from_total [of "take 6 (drop 4 u)"]
    by (auto simp: multiple_net_response_try_from_def counted_run)
next
  fix d r
  assume "multiple_net_response_try_from d = Ok r"
  then show "app_afn d = RouteGet \<and> fn_num d = Ok 111 \<and> (\<exists>u. data_units d = Some u
      \<and> counted_units 10 0 3 u \<and> length (mn_multiple_net_infos r) = unat (u ! 0))"
    by (auto simp: multiple_net_response_try_from_def counted_run length_chunks_exact
        dest!: traverse_length)
next
  fix d :: app_data
  assume "flag_mark (app_flag d) \<noteq> 0"
  then show "\<not> panics (multiple_net_response_try_from d)"
    by (cases "data_units d")
       (auto simp: multiple_net_response_try_from_def counted_run
         multiple_net_entry.counted_entries multiple_net_entry.entries_no_panic)
qed

section \<open>The other responses\<close>

interpretation node_number: total_codec RouteGet 1
  "\<lambda>r. u16_to_le (qn_node_number r) @ u16_to_le (qn_max_node_number r)" "\<lambda>_. True"
  query_node_number_response_try_from
proof
  fix v :: query_node_number_response and d
  assume "app_afn d = RouteGet" "fn_num d = Ok 1"
    "data_units d = Some (u16_to_le (qn_node_number v) @ u16_to_le (qn_max_node_number v))"
  then show "query_node_number_response_try_from d = Ok v"
    by (simp add: query_node_number_response_try_from_def codec_total word_bytes_iff)
next
  fix d v
  assume "query_node_number_response_try_from d = Ok v"
  then show "True \<and> app_afn d = RouteGet \<and> fn_num d = Ok 1
      \<and> data_units d = Some (u16_to_le (qn_node_number v) @ u16_to_le (qn_max_node_number v))"
    by (auto simp: query_node_number_response_try_from_def codec_total word_bytes_iff)
      (metis append_take_drop_id)
next
  fix d :: app_data
  assume "flag_mark (app_flag d) \<noteq> 0"
  moreover have "\<not> panics (u16_from_le e bs)" for e :: error and bs
    by (cases "(e, bs)" rule: u16_from_le.cases) simp_all
  ultimately show "\<not> panics (query_node_number_response_try_from d)"
    by (cases "data_units d") (auto simp: query_node_number_response_try_from_def codec_total)
qed

interpretation network_size: total_codec RouteGet 9
  "\<lambda>r. u16_to_le (ns_network_size r)" "\<lambda>_. True" network_size_response_try_from
proof
  fix v :: network_size_response and d
  assume "app_afn d = RouteGet" "fn_num d = Ok 9" "data_units d = Some (u16_to_le (ns_network_size v))"
  then show "network_size_response_try_from d = Ok v"
    by (simp add: network_size_response_try_from_def codec_total u16_to_le_def)
next
  fix d v
  assume "network_size_response_try_from d = Ok v"
  then show "True \<and> app_afn d = RouteGet \<and> fn_num d = Ok 9
      \<and> data_units d = Some (u16_to_le (ns_network_size v))"
    by (auto simp: network_size_response_try_from_def codec_total numeral_2_eq_2 length_Suc_conv)
next
  fix d :: app_data
  assume "flag_mark (app_flag d) \<noteq> 0"
  then show "\<not> panics (network_size_response_try_from d)"
    by (cases "data_units d") (auto simp: network_size_response_try_from_def codec_total)
qed

lemma split_9:
  assumes "9 \<le> length x"
  shows "x = [x ! 0] @ take 6 (drop 1 x) @ [x ! 7, x ! 8] @ drop 9 x"
proof -
  have final: "drop 7 x = x ! 7 # x ! 8 # drop 9 x"
    using assms Cons_nth_drop_Suc [of 7 x] Cons_nth_drop_Suc [of 8 x]
    by simp
  have middle: "take 6 (drop 1 x) @ drop 7 x = drop 1 x"
    using append_take_drop_id [of 6 "drop 1 x"] by (simp del: append_take_drop_id)
  have "[x ! 0] @ take 6 (drop 1 x) @ [x ! 7, x ! 8] @ drop 9 x = x ! 0 # (take 6 (drop 1 x) @ drop 7 x)"
    by (simp only: final append_Cons append_Nil)
  also have "... = x ! 0 # drop 1 x" by (simp only: middle)
  also have "... = x" using assms by (cases x) auto
  finally show ?thesis by (rule sym)
qed

interpretation id_info: total_codec RouteGet 40
  "\<lambda>r. [ii_device_type r] @ address_to_vec (ii_address r) @ [ii_id_type r, ii_id_length r] @ ii_id_info r"
  "\<lambda>r. length (ii_id_info r) = unat (ii_id_length r)" id_info_response_try_from
proof
  fix v :: id_info_response and d
  assume "length (ii_id_info v) = unat (ii_id_length v)" "app_afn d = RouteGet" "fn_num d = Ok 40"
    "data_units d = Some ([ii_device_type v] @ address_to_vec (ii_address v)
       @ [ii_id_type v, ii_id_length v] @ ii_id_info v)"
  then show "id_info_response_try_from d = Ok v"
    by (simp add: id_info_response_try_from_def codec_total nth_append address_try_from_Ok_iff)
next
  fix d v
  assume dec: "id_info_response_try_from d = Ok v"
  then obtain u where u: "data_units d = Some u" "length u = 9 + unat (u ! 8)"
    and fields: "ii_device_type v = u ! 0" "ii_id_type v = u ! 7" "ii_id_length v = u ! 8"
      "ii_id_info v = drop 9 u" "take 6 (drop 1 u) = address_to_vec (ii_address v)"
    and code: "app_afn d = RouteGet" "fn_num d = Ok 40"
    by (auto simp: id_info_response_try_from_def codec_total address_try_from_Ok_iff)
  have "[u ! 0] @ take 6 (drop 1 u) @ [u ! 7, u ! 8] @ drop 9 u = u"
    using u(2) by (intro split_9 [symmetric]) simp
  then have layout: "[ii_device_type v] @ address_to_vec (ii_address v)
      @ [ii_id_type v, ii_id_length v] @ ii_id_info v = u"
    by (simp only: fields)
  have "length (ii_id_info v) = unat (ii_id_length v)" using u(2) fields(3,4) by simp
  then show "length (ii_id_info v) = unat (ii_id_length v) \<and> app_afn d = RouteGet
      \<and> fn_num d = Ok 40 \<and> data_units d = Some ([ii_device_type v] @ address_to_vec (ii_address v)
          @ [ii_id_type v, ii_id_length v] @ ii_id_info v)"
    unfolding layout using u(1) code by simp
next
  fix d :: app_data
  assume "flag_mark (app_flag d) \<noteq> 0"
  then show "\<not> panics (id_info_response_try_from d)"
    by (cases "data_units d") (auto simp: id_info_response_try_from_def codec_total)
qed

text \<open>The two bits of the meter status always name a current status, so \<^verbatim>\<open>current_status\<close> returns.\<close>

lemma two_bits: "drop_bit 6 (v AND 0xc0) \<in> {0, 1, 2, 3 :: u8}"
  by (cases "bit v 6"; cases "bit v 7") (simp_all add: u8_eq_bits bit_blast)

lemma current_status_total: "\<exists>c. current_status_try_from (ws_meter_status (work_status_from v)) = Ok c"
  using two_bits [of v]
  by (auto simp: work_status_from_def current_status_try_from_def of_code_def with_codes_def)

lemma running_status_reads:
  assumes "app_afn d = RouteGet" "fn_num d = Ok 4" "data_units d = Some u" "length u = 16"
  shows "\<exists>r. running_status_response_try_from d = Ok r \<and> rr_running_status r = running_status_from (u ! 0)
    \<and> rr_work_status r = work_status_from (u ! 7) \<and> is_ok (current_status r)"
  using assms current_status_total [of "u ! 7"]
  by (auto simp: running_status_response_try_from_def codec_total array_of_length_def current_status_def
      is_ok_iff)

lemma running_status_sound:
  assumes "running_status_response_try_from d = Ok r"
  shows "\<exists>u. app_afn d = RouteGet \<and> fn_num d = Ok 4 \<and> data_units d = Some u \<and> length u = 16
    \<and> rr_work_status r = work_status_from (u ! 7)"
  using assms by (auto simp: running_status_response_try_from_def codec_total)

lemma running_status_no_panic: "flag_mark (app_flag d) \<noteq> 0 \<Longrightarrow> \<not> panics (running_status_response_try_from d)"
  by (cases "data_units d") (auto simp: running_status_response_try_from_def codec_total)

section \<open>The cursor loop\<close>

lemma slave_module_id_info_faults:
  assumes "11 \<le> length bs" and "slave_module_id_info_try_from bs = Panic p"
  shows "p = UnwrapOnErr"
proof -
  have "\<exists>a. address_try_from (take 6 bs) = Ok a"
    using address_try_from_total [of "take 6 bs"] assms(1) by simp
  then obtain a where a: "address_try_from (take 6 bs) = Ok a" ..
  have "slave_module_id_info_try_from bs =
    andThen (unwrap (string_from_utf8 [bs ! 8, bs ! 7])) (\<lambda>factory_code.
    andThen (module_id_format_try_from (bs ! 10)) (\<lambda>id_format.
    Ok \<lparr>sm_address = a, sm_device_type = bs ! 6, sm_factory_code = factory_code,
        sm_id_format = id_format, sm_id_info = drop 11 bs\<rparr>))"
    using assms(1) a by (simp add: slave_module_id_info_try_from_def index_def slice_def slice_from_def ADDR_LEN_def)
  with assms(2) show ?thesis
    using id_format_byte.of_byte_no_panic [of "bs ! 10"]
    by (cases "string_from_utf8 [bs ! 8, bs ! 7]"; cases "module_id_format_try_from (bs ! 10)") auto
qed

text \<open>The loop never leaves the buffer: the only fault left is a factory code that is no UTF-8.\<close>

lemma slave_module_id_loop_faults:
  "slave_module_id_loop n units i infos = Panic p \<Longrightarrow> p = UnwrapOnErr"
proof (induction n arbitrary: i infos)
  case 0
  then show ?case by simp
next
  case (Suc n)
  let ?len = "unat (units ! (i + 9)) + 11"
  show ?case
  proof (cases "i + 11 \<le> length units \<and> i + ?len \<le> length units")
    case True
    let ?entry = "take ?len (drop i units)"
    from True have step: "slave_module_id_loop (Suc n) units i infos =
        andThen (slave_module_id_info_try_from ?entry) (\<lambda>info.
        slave_module_id_loop n units (i + ?len) (infos @ [info]))"
      by (simp add: ensure_def index_def slice_def Let_def)
    have "11 \<le> length ?entry" using True by auto
    with Suc step slave_module_id_info_faults [of ?entry p] show ?thesis
      by (cases "slave_module_id_info_try_from ?entry") auto
  next
    case False
    with Suc.prems show ?thesis
      by (cases "i + 11 \<le> length units") (simp_all add: ensure_def index_def Let_def)
  qed
qed

lemma slave_module_id_loop_counts:
  "slave_module_id_loop n units i infos = Ok (xs, j) \<Longrightarrow>
     length xs = length infos + n \<and> i + 11 * n \<le> j \<and> (0 < n \<longrightarrow> j \<le> length units)"
proof (induction n arbitrary: i infos)
  case 0
  then show ?case by simp
next
  case (Suc n)
  then obtain info where next_entry:
    "slave_module_id_loop n units (i + (unat (units ! (i + 9)) + 11)) (infos @ [info]) = Ok (xs, j)"
    and bound: "i + (unat (units ! (i + 9)) + 11) \<le> length units"
    by (auto simp: Let_def index_eq_Ok)
  from Suc.IH [OF next_entry] bound Suc.prems next_entry show ?case
    by (cases n) auto
qed

lemma slave_module_id_counts:
  assumes "slave_module_id_response_try_from d = Ok r" and "data_units d = Some u"
  shows "length (si_slave_module_id_infos r) = unat (u ! 2)"
    and "3 + 11 * unat (u ! 2) \<le> length u"
proof -
  from assms obtain xs where "slave_module_id_loop (unat (u ! 2)) u 3 [] = Ok (xs, length u)"
    and "si_slave_module_id_infos r = xs"
    by (auto simp: slave_module_id_response_try_from_def codec_total split: prod.splits)
  with slave_module_id_loop_counts [of "unat (u ! 2)" u 3 "[]" xs "length u"]
  show "length (si_slave_module_id_infos r) = unat (u ! 2)" "3 + 11 * unat (u ! 2) \<le> length u"
    by simp_all
qed

section \<open>Properties\<close>

text \<open>A page of the node table is accepted exactly when its length is the one its count byte
  announces, three bytes and eight for each node, and then it has that many nodes; received data never
  stops the thread.\<close>

theorem node_info_page:
  assumes "app_data_try_from bytes = Ok d" and "data_units d = Some u"
  shows "\<not> panics (query_node_info_response_try_from d)
    \<and> (is_ok (query_node_info_response_try_from d) \<longleftrightarrow>
         app_afn d = RouteGet \<and> fn_num d = Ok 2 \<and> 3 \<le> length u \<and> length u = unat (u ! 2) * 8 + 3)
    \<and> (\<forall>r. query_node_info_response_try_from d = Ok r \<longrightarrow> length (qi_node_infos r) = unat (u ! 2))"
  using assms node_infos.received_never_panics [OF assms(1)]
  by (auto simp: node_infos.accepted_iff counted_units_def dest: node_infos.entries_counted)

theorem node_info_page_witness:
  "is_ok (query_node_info_response_try_from (app_data_new RouteGet 2 (Some [5, 0, 1, 1, 2, 3, 4, 5, 6, 0x71, 0x12])))"
  using node_info_page [OF app_data_roundtrip [of "Some [5, 0, 1, 1, 2, 3, 4, 5, 6, 0x71, 0x12]" RouteGet 2]]
  by simp

text \<open>The cursor loop over module identifiers of varying length never reads outside the response:
  the only way it can stop the thread is a factory code that is not UTF-8. When the response is
  accepted it has as many entries as its count byte says, at least eleven bytes each.\<close>

theorem slave_module_ids_in_bounds:
  assumes "data_units d = Some u"
  shows "(slave_module_id_loop n u i infos = Panic p \<longrightarrow> p = UnwrapOnErr)
    \<and> (\<forall>r. slave_module_id_response_try_from d = Ok r \<longrightarrow>
         length (si_slave_module_id_infos r) = unat (u ! 2) \<and> 3 + 11 * unat (u ! 2) \<le> length u)"
  using slave_module_id_loop_faults slave_module_id_counts assms by blast

theorem slave_module_ids_in_bounds_witness:
  "slave_module_id_loop 1 [9, 0, 1, 1, 2, 3, 4, 5, 6, 0] 3 [] \<noteq> Panic IndexOutOfBounds"
  using slave_module_ids_in_bounds [of "app_data_new RouteGet 7 (Some [9, 0, 1, 1, 2, 3, 4, 5, 6, 0])"
      "[9, 0, 1, 1, 2, 3, 4, 5, 6, 0]" 1 3 "[]" IndexOutOfBounds] by auto

text \<open>A running-status answer of sixteen bytes is accepted whatever they are, and its current status,
  which the code unwraps, is always one of the four.\<close>

theorem running_status_usable:
  assumes "app_afn d = RouteGet" "fn_num d = Ok 4" "data_units d = Some u" "length u = 16"
  shows "\<exists>r. running_status_response_try_from d = Ok r
    \<and> rs_work_flag (rr_running_status r) = drop_bit 1 (u ! 0 AND 0x02)
    \<and> ws_work_status (rr_work_status r) = u ! 7 AND 0x01 \<and> is_ok (current_status r)"
  using running_status_reads [OF assms] by (auto simp: running_status_from_def work_status_from_def)

theorem running_status_usable_witness:
  "\<exists>r. running_status_response_try_from (app_data_new RouteGet 4 (Some (replicate 16 0xff))) = Ok r
     \<and> is_ok (current_status r)"
  using running_status_usable [of "app_data_new RouteGet 4 (Some (replicate 16 0xff))" "replicate 16 0xff"]
  by auto

end
