(* ===== verification/Info_Field.thy ===== *)
theory Info_Field
  imports Errors
begin

text \<open>
  src/src/protocol/info_field.rs: the six-byte information field of a frame, in its downlink and
  uplink layouts. The records have the fields of \<^verbatim>\<open>InfoFieldDown\<close> and \<^verbatim>\<open>InfoFieldUp\<close>; each field is
  an \<open>u8\<close> or \<open>u16\<close> of which the wire holds only some bits, which \<open>info_field_fits\<close> states.

  The main facts: a field that fits is read back as it was written; a downlink field has no unused
  bit, so reading and writing it returns the bytes; an uplink field has the six bits
  \<open>0x0A\<close> of byte 0 and \<open>0xF0\<close> of byte 1 that are read by nobody and written as zero.
\<close>

definition INFO_FIELD_SIZE :: nat where
  "INFO_FIELD_SIZE = 6"

datatype info_field_type = DownType | UpType

record info_field_down =
  dn_route_flag :: u8
  dn_node_flag :: u8
  dn_comm_model_mark :: u8
  dn_conflict_check :: u8
  dn_relay_level :: u8
  dn_channel_flag :: u8
  dn_ecc :: u8
  dn_answer_bytes :: u8
  dn_speed :: u16
  dn_speed_unit_flag :: u8
  dn_seq_num :: u8

record info_field_up =
  up_route_flag :: u8
  up_comm_model_mark :: u8
  up_relay_level :: u8
  up_channel_flag :: u8
  up_line_mark :: u8
  up_meter_feature :: u8
  up_cmd_signal_quality :: u8
  up_res_signal_quality :: u8
  up_event_mark :: u8
  up_seq_num :: u8

datatype info_field = Down info_field_down | Up info_field_up

definition info_field_down_default :: info_field_down where
  "info_field_down_default =
     \<lparr>dn_route_flag = 0, dn_node_flag = 0, dn_comm_model_mark = 0, dn_conflict_check = 0,
      dn_relay_level = 0, dn_channel_flag = 0, dn_ecc = 0, dn_answer_bytes = 0, dn_speed = 0,
      dn_speed_unit_flag = 0, dn_seq_num = 0\<rparr>"

definition info_field_up_default :: info_field_up where
  "info_field_up_default =
     \<lparr>up_route_flag = 0, up_comm_model_mark = 0, up_relay_level = 0, up_channel_flag = 0,
      up_line_mark = 0, up_meter_feature = 0, up_cmd_signal_quality = 0,
      up_res_signal_quality = 0, up_event_mark = 0, up_seq_num = 0\<rparr>"

definition info_field_down_try_from :: "u8 list \<Rightarrow> info_field_down result" where
  "info_field_down_try_from bytes =
     (case bytes of
        [b0, b1, b2, b3, b4, b5] \<Rightarrow>
          Ok \<lparr>dn_route_flag = b0 AND 0x01,
              dn_node_flag = drop_bit 1 (b0 AND 0x02),
              dn_comm_model_mark = drop_bit 2 (b0 AND 0x04),
              dn_conflict_check = drop_bit 3 (b0 AND 0x08),
              dn_relay_level = drop_bit 4 (b0 AND 0xF0),
              dn_channel_flag = b1 AND 0x0F,
              dn_ecc = drop_bit 4 (b1 AND 0xF0),
              dn_answer_bytes = b2,
              dn_speed = u16_le b3 (b4 AND 0x7F),
              dn_speed_unit_flag = drop_bit 7 (b4 AND 0x80),
              dn_seq_num = b5\<rparr>
      | _ \<Rightarrow> Err (Message ''Invalid info field size''))"

definition info_field_up_try_from :: "u8 list \<Rightarrow> info_field_up result" where
  "info_field_up_try_from bytes =
     (case bytes of
        [b0, b1, b2, b3, b4, b5] \<Rightarrow>
          Ok \<lparr>up_route_flag = b0 AND 0x01,
              up_comm_model_mark = drop_bit 2 (b0 AND 0x04),
              up_relay_level = drop_bit 4 (b0 AND 0xF0),
              up_channel_flag = b1 AND 0x0F,
              up_line_mark = b2 AND 0x0F,
              up_meter_feature = drop_bit 4 (b2 AND 0xF0),
              up_cmd_signal_quality = b3 AND 0x0F,
              up_res_signal_quality = drop_bit 4 (b3 AND 0xF0),
              up_event_mark = b4,
              up_seq_num = b5\<rparr>
      | _ \<Rightarrow> Err (Message ''Invalid info field size''))"

fun info_field_from_bytes :: "info_field_type \<Rightarrow> u8 list \<Rightarrow> info_field result" where
  "info_field_from_bytes DownType bytes =
     andThen (info_field_down_try_from bytes) (\<lambda>d. Ok (Down d))"
| "info_field_from_bytes UpType bytes =
     andThen (info_field_up_try_from bytes) (\<lambda>u. Ok (Up u))"

fun info_field_new :: "info_field_type \<Rightarrow> u8 \<Rightarrow> u8 \<Rightarrow> u8 \<Rightarrow> info_field" where
  "info_field_new DownType seq relay_level comm_model_mark =
     Down (info_field_down_default\<lparr>dn_seq_num := seq, dn_comm_model_mark := comm_model_mark,
       dn_relay_level := relay_level\<rparr>)"
| "info_field_new UpType seq relay_level comm_model_mark =
     Up (info_field_up_default\<lparr>up_seq_num := seq, up_comm_model_mark := comm_model_mark,
       up_relay_level := relay_level\<rparr>)"

fun info_field_get_type :: "info_field \<Rightarrow> info_field_type" where
  "info_field_get_type (Down d) = DownType"
| "info_field_get_type (Up u) = UpType"

fun relay_level :: "info_field \<Rightarrow> u8" where
  "relay_level (Down d) = dn_relay_level d"
| "relay_level (Up u) = up_relay_level u"

fun comm_model_mark :: "info_field \<Rightarrow> u8" where
  "comm_model_mark (Down d) = dn_comm_model_mark d"
| "comm_model_mark (Up u) = up_comm_model_mark u"

fun set_comm_model_mark :: "info_field \<Rightarrow> u8 \<Rightarrow> info_field" where
  "set_comm_model_mark (Down d) m = Down (d\<lparr>dn_comm_model_mark := m\<rparr>)"
| "set_comm_model_mark (Up u) m = Up (u\<lparr>up_comm_model_mark := m\<rparr>)"

fun seq_num :: "info_field \<Rightarrow> u8" where
  "seq_num (Down d) = dn_seq_num d"
| "seq_num (Up u) = up_seq_num u"

fun info_field_to_bytes :: "info_field \<Rightarrow> u8 list" where
  "info_field_to_bytes (Down d) =
     [dn_route_flag d OR push_bit 1 (dn_node_flag d) OR push_bit 2 (dn_comm_model_mark d)
        OR push_bit 3 (dn_conflict_check d) OR push_bit 4 (dn_relay_level d),
      dn_channel_flag d OR push_bit 4 (dn_ecc d),
      dn_answer_bytes d,
      u16_to_le (dn_speed d) ! 0,
      (u16_to_le (dn_speed d) ! 1 AND 0x7F) OR push_bit 7 (dn_speed_unit_flag d),
      dn_seq_num d]"
| "info_field_to_bytes (Up u) =
     [up_route_flag u OR push_bit 2 (up_comm_model_mark u) OR push_bit 4 (up_relay_level u),
      up_channel_flag u,
      up_line_mark u OR push_bit 4 (up_meter_feature u),
      up_cmd_signal_quality u OR push_bit 4 (up_res_signal_quality u),
      up_event_mark u,
      up_seq_num u]"

section \<open>The values the wire can hold\<close>

fun info_field_fits :: "info_field \<Rightarrow> bool" where
  "info_field_fits (Down d) \<longleftrightarrow>
     dn_route_flag d < 2 \<and> dn_node_flag d < 2 \<and> dn_comm_model_mark d < 2
     \<and> dn_conflict_check d < 2 \<and> dn_relay_level d < 16 \<and> dn_channel_flag d < 16 \<and> dn_ecc d < 16
     \<and> dn_speed d < 0x8000 \<and> dn_speed_unit_flag d < 2"
| "info_field_fits (Up u) \<longleftrightarrow>
     up_route_flag u < 2 \<and> up_comm_model_mark u < 2 \<and> up_relay_level u < 16
     \<and> up_channel_flag u < 16 \<and> up_line_mark u < 16 \<and> up_meter_feature u < 16
     \<and> up_cmd_signal_quality u < 16 \<and> up_res_signal_quality u < 16"

lemma list6_cases:
  obtains (six) b0 b1 b2 b3 b4 b5 where "bs = [b0, b1, b2, b3, b4, b5]"
  | (other) "length bs \<noteq> 6"
proof (cases "length bs = 6")
  case True
  then show ?thesis using six by (auto simp: numeral_eq_Suc length_Suc_conv)
qed (rule other)

lemma info_field_from_bytes_size: "length bs \<noteq> 6 \<Longrightarrow> \<exists>e. info_field_from_bytes t bs = Err e"
  by (cases t) (auto simp: info_field_down_try_from_def info_field_up_try_from_def
      split: list.splits)

lemma info_field_from_bytes_total: "length bs = 6 \<Longrightarrow> \<exists>i. info_field_from_bytes t bs = Ok i"
  by (cases t; cases bs rule: list6_cases)
     (simp_all add: info_field_down_try_from_def info_field_up_try_from_def)

lemma info_field_from_bytes_no_panic [simp]: "\<not> panics (info_field_from_bytes t bs)"
proof (cases "length bs = 6")
  case True
  then show ?thesis using info_field_from_bytes_total [of bs t] by auto
next
  case False
  then show ?thesis using info_field_from_bytes_size [of bs t] by auto
qed

lemma length_info_field_to_bytes [simp]: "length (info_field_to_bytes i) = 6"
  by (cases i) simp_all

lemma info_field_type_preserved:
  "info_field_from_bytes t bs = Ok i \<Longrightarrow> info_field_get_type i = t"
  by (cases t) auto

subsection \<open>Reading back what was written\<close>

lemma u16_high_byte_small: "w < 0x8000 \<Longrightarrow> ucast (drop_bit 8 w) AND (0x7F::u8) = ucast (drop_bit 8 w)"
  for w :: u16
proof -
  assume "w < 0x8000"
  then have "\<not> bit w 15" using not_bit_above [of w 15 15] by simp
  then show ?thesis
    unfolding u8_eq_bits bit_blast by (simp add: bit_ucast_iff bit_drop_bit_eq)
qed

lemma packed_flags:
  fixes r nf c k lv :: u8
  assumes "r < 2" "nf < 2" "c < 2" "k < 2" "lv < 16"
  defines "b \<equiv> r OR push_bit 1 nf OR push_bit 2 c OR push_bit 3 k OR push_bit 4 lv"
  shows "b AND 0x01 = r" and "drop_bit 1 (b AND 0x02) = nf" and "drop_bit 2 (b AND 0x04) = c"
    and "drop_bit 3 (b AND 0x08) = k" and "drop_bit 4 (b AND 0xF0) = lv"
  using assms(1-5) not_bit_small(1) [of r] not_bit_small(1) [of nf] not_bit_small(1) [of c]
    not_bit_small(1) [of k] not_bit_small(2) [of lv]
  unfolding b_def u8_eq_bits bit_blast by simp_all

lemma packed_flags_up:
  fixes r c lv :: u8
  assumes "r < 2" "c < 2" "lv < 16"
  defines "b \<equiv> r OR push_bit 2 c OR push_bit 4 lv"
  shows "b AND 0x01 = r" and "drop_bit 2 (b AND 0x04) = c" and "drop_bit 4 (b AND 0xF0) = lv"
  using assms(1-3) not_bit_small(1) [of r] not_bit_small(1) [of c] not_bit_small(2) [of lv]
  unfolding b_def u8_eq_bits bit_blast by simp_all

lemma packed_nibbles:
  fixes lo hi :: u8
  assumes "lo < 16" "hi < 16"
  shows "(lo OR push_bit 4 hi) AND 0x0F = lo" and "drop_bit 4 ((lo OR push_bit 4 hi) AND 0xF0) = hi"
  using assms not_bit_small(2) [of lo] not_bit_small(2) [of hi]
  unfolding u8_eq_bits bit_blast by simp_all

lemma packed_speed:
  fixes s :: u8
  assumes "s < 2"
  shows "((a AND 0x7F) OR push_bit 7 s) AND 0x7F = a AND 0x7F"
    and "drop_bit 7 (((a AND 0x7F) OR push_bit 7 s) AND 0x80) = s"
  using assms not_bit_small(1) [of s]
  unfolding u8_eq_bits bit_blast by auto

lemma nibble_small: "lo < 16 \<Longrightarrow> lo AND 0x0F = lo" for lo :: u8
  using not_bit_small(2) [of lo] unfolding u8_eq_bits bit_blast by simp

lemma info_field_roundtrip:
  assumes "info_field_fits i"
  shows "info_field_from_bytes (info_field_get_type i) (info_field_to_bytes i) = Ok i"
proof (cases i)
  case (Down d)
  with assms have speed: "u16_le (ucast (dn_speed d)) (ucast (drop_bit 8 (dn_speed d)) AND 0x7F) = dn_speed d"
    by (simp add: u16_high_byte_small)
  have b3: "u16_to_le (dn_speed d) ! 0 = ucast (dn_speed d)"
    and b4: "u16_to_le (dn_speed d) ! 1 = ucast (drop_bit 8 (dn_speed d))"
    by (simp_all add: u16_to_le_def)
  from assms Down show ?thesis
    by (simp only: info_field_to_bytes.simps info_field_get_type.simps info_field_from_bytes.simps
        info_field_down_try_from_def list.case andThen.simps packed_flags packed_nibbles
        packed_speed info_field_fits.simps b3 b4 speed) simp
next
  case (Up u)
  with assms show ?thesis
    by (simp only: info_field_to_bytes.simps info_field_get_type.simps info_field_from_bytes.simps
        info_field_up_try_from_def list.case andThen.simps packed_flags_up packed_nibbles
        nibble_small info_field_fits.simps) simp
qed

subsection \<open>Writing back what was read\<close>

lemma unpacked_flags:
  fixes b :: u8
  shows "(b AND 0x01) OR push_bit 1 (drop_bit 1 (b AND 0x02)) OR push_bit 2 (drop_bit 2 (b AND 0x04))
      OR push_bit 3 (drop_bit 3 (b AND 0x08)) OR push_bit 4 (drop_bit 4 (b AND 0xF0)) = b"
    and "(b AND 0x01) OR push_bit 2 (drop_bit 2 (b AND 0x04)) OR push_bit 4 (drop_bit 4 (b AND 0xF0))
      = b AND 0xF5"
    and "(b AND 0x0F) OR push_bit 4 (drop_bit 4 (b AND 0xF0)) = b"
    and "((b AND 0x7F) AND 0x7F) OR push_bit 7 (drop_bit 7 (b AND 0x80)) = b"
  unfolding u8_eq_bits bit_blast by auto

lemma info_field_rewrite:
  assumes "info_field_from_bytes t [b0, b1, b2, b3, b4, b5] = Ok i"
  shows "info_field_to_bytes i =
    (case t of
       DownType \<Rightarrow> [b0, b1, b2, b3, b4, b5]
     | UpType \<Rightarrow> [b0 AND 0xF5, b1 AND 0x0F, b2, b3, b4, b5])"
proof (cases t)
  case DownType
  with assms show ?thesis
    by (auto simp only: info_field_to_bytes.simps info_field_from_bytes.simps u16_to_le_of_le
        info_field_down_try_from_def list.case andThen.simps unpacked_flags [unfolded One_nat_def]
        outcome.inject info_field_down.simps info_field_type.case nth_Cons_0 nth_Cons_Suc One_nat_def)
next
  case UpType
  with assms show ?thesis
    by (auto simp only: info_field_to_bytes.simps info_field_from_bytes.simps
        info_field_up_try_from_def list.case andThen.simps unpacked_flags outcome.inject
        info_field_up.simps info_field_type.case)
qed

lemma masked_small:
  fixes b :: u8
  shows "b AND 0x01 < 2" "drop_bit 1 (b AND 0x02) < 2" "drop_bit 2 (b AND 0x04) < 2"
    "drop_bit 3 (b AND 0x08) < 2" "drop_bit 4 (b AND 0xF0) < 16" "b AND 0x0F < 16"
    "drop_bit 7 (b AND 0x80) < 2"
proof -
  have bit1: "x = 0 \<or> x = 1 \<Longrightarrow> x < 2" for x :: u8 by auto
  show "b AND 0x01 < 2" "drop_bit 1 (b AND 0x02) < 2" "drop_bit 2 (b AND 0x04) < 2"
    "drop_bit 3 (b AND 0x08) < 2" "drop_bit 7 (b AND 0x80) < 2"
    by (rule bit1; unfold u8_eq_bits bit_blast; auto)+
  show "drop_bit 4 (b AND 0xF0) < 16"
    using and_mask_less' [of 4 "drop_bit 4 b"] by (simp add: drop_bit_and mask_eq_exp_minus_1)
  show "b AND 0x0F < 16"
    using and_mask_less' [of 4 b] by (simp add: mask_eq_exp_minus_1)
qed

lemma u16_le_small: "u16_le b3 (b4 AND 0x7F) < 0x8000"
proof -
  have "u16_le b3 (b4 AND 0x7F) < 2 ^ 15"
  proof (rule less_by_bits)
    fix n :: nat
    assume "15 \<le> n"
    then consider "n = 15" | "16 \<le> n" by linarith
    then show "\<not> bit (u16_le b3 (b4 AND 0x7F)) n"
    proof cases
      case 1
      have "\<not> bit b3 15" using bit_imp_le_length [of b3 15] by auto
      with 1 show ?thesis
        by (simp add: u16_le_def bit_or_iff bit_push_bit_iff bit_ucast_iff bit_and_iff)
    next
      case 2
      then show ?thesis using bit_imp_le_length [of "u16_le b3 (b4 AND 0x7F)" n] by auto
    qed
  qed simp
  then show ?thesis by simp
qed

lemma info_field_from_bytes_fits:
  assumes "info_field_from_bytes t bs = Ok i"
  shows "info_field_fits i"
proof (cases bs rule: list6_cases)
  case (six b0 b1 b2 b3 b4 b5)
  from assms show ?thesis
    unfolding six
    by (cases t) (auto simp only: info_field_from_bytes.simps info_field_down_try_from_def
        info_field_up_try_from_def list.case andThen.simps outcome.inject info_field_fits.simps
        info_field_down.simps info_field_up.simps masked_small u16_le_small)
next
  case other
  with assms info_field_from_bytes_size [of bs t] show ?thesis by auto
qed

declare info_field_from_bytes.simps [simp del]

section \<open>Properties\<close>

text \<open>An information field whose values fit their bits, in either direction, is read back from the
  six bytes it is written to, with its type.\<close>

theorem info_field_written_is_read:
  assumes "info_field_fits i"
  shows "info_field_from_bytes (info_field_get_type i) (info_field_to_bytes i) = Ok i
    \<and> length (info_field_to_bytes i) = INFO_FIELD_SIZE"
  using info_field_roundtrip [OF assms] by (simp add: INFO_FIELD_SIZE_def)

theorem info_field_written_is_read_witness:
  "info_field_from_bytes DownType (info_field_to_bytes (info_field_new DownType 9 1 1))
     = Ok (info_field_new DownType 9 1 1)"
  using info_field_written_is_read [of "info_field_new DownType 9 1 1"]
  by (simp add: info_field_down_default_def)

text \<open>Reading any six bytes and writing the result: a downlink field returns the bytes, an uplink
  field clears the bits 0x0A of byte 0 and 0xF0 of byte 1 and keeps all others.\<close>

theorem info_field_read_is_written:
  "\<exists>i. info_field_from_bytes t [b0, b1, b2, b3, b4, b5] = Ok i \<and> info_field_fits i
     \<and> info_field_to_bytes i =
        (case t of
           DownType \<Rightarrow> [b0, b1, b2, b3, b4, b5]
         | UpType \<Rightarrow> [b0 AND 0xF5, b1 AND 0x0F, b2, b3, b4, b5])"
proof -
  obtain i where "info_field_from_bytes t [b0, b1, b2, b3, b4, b5] = Ok i"
    using info_field_from_bytes_total [of "[b0, b1, b2, b3, b4, b5]" t] by auto
  then show ?thesis using info_field_rewrite info_field_from_bytes_fits by blast
qed

end
