(* ===== verification/User_Data.thy ===== *)
theory User_Data
  imports App_Data Info_Field
begin

text \<open>
  src/src/protocol/user_data.rs: the address field (source, relays, destination) and the user data of a
  frame, information field, optional address field and application data. Whether an address field is
  present is decided on reading by the communication-module mark of the information field, which
  \<^verbatim>\<open>UserData::new\<close> derives from the application function code alone; \<open>well_addressed\<close> says when the
  two agree, and \<open>user_data_roundtrip\<close> is the round trip under it.
\<close>

record address_field =
  src_address :: address
  relay_address :: "address list option"
  dst_address :: address

definition address_field_length :: "address_field \<Rightarrow> nat" where
  "address_field_length a =
     ADDR_LEN * (2 + (case relay_address a of None \<Rightarrow> 0 | Some r \<Rightarrow> length r))"

definition address_field_to_vec :: "address_field \<Rightarrow> u8 list" where
  "address_field_to_vec a =
     address_to_vec (src_address a)
     @ (case relay_address a of None \<Rightarrow> [] | Some r \<Rightarrow> concat (map address_to_vec r))
     @ address_to_vec (dst_address a)"

definition address_field_try_from :: "u8 list \<Rightarrow> address_field result" where
  "address_field_try_from bytes =
     andThen (slice bytes 0 ADDR_LEN) (\<lambda>src_bytes.
     andThen (unwrap (address_try_from src_bytes)) (\<lambda>src.
     andThen
       (if ADDR_LEN * 2 < length bytes
        then andThen (slice bytes ADDR_LEN (length bytes - ADDR_LEN)) (\<lambda>relay_bytes.
             andThen (traverse (\<lambda>b. unwrap (address_try_from b)) (chunks ADDR_LEN relay_bytes))
               (\<lambda>r. Ok (Some r)))
        else Ok None) (\<lambda>relay.
     andThen (slice_from bytes (length bytes - ADDR_LEN)) (\<lambda>dst_bytes.
     andThen (unwrap (address_try_from dst_bytes)) (\<lambda>dst.
     Ok \<lparr>src_address = src, relay_address = relay, dst_address = dst\<rparr>)))))"

definition USER_DATA_PREFIX_SIZE :: nat where
  "USER_DATA_PREFIX_SIZE = INFO_FIELD_SIZE + APP_DATA_PREFIX_SIZE"

record user_data =
  ud_info_field :: info_field
  ud_address_field :: "address_field option"
  ud_app_data :: app_data

definition user_data_new :: "u8 \<Rightarrow> address_field option \<Rightarrow> app_data \<Rightarrow> user_data" where
  "user_data_new seq address_field app_data =
     \<lparr>ud_info_field =
        info_field_new DownType seq
          (case address_field of
             None \<Rightarrow> 0
           | Some a \<Rightarrow> (if relay_address a \<noteq> None then 1 else 0))
          (get_comm_mark app_data),
      ud_address_field = address_field,
      ud_app_data = app_data\<rparr>"

definition user_data_length :: "user_data \<Rightarrow> nat" where
  "user_data_length u =
     INFO_FIELD_SIZE
     + (case ud_address_field u of None \<Rightarrow> 0 | Some a \<Rightarrow> address_field_length a)
     + app_data_length (ud_app_data u)"

definition user_data_from_bytes :: "info_field_type \<Rightarrow> u8 list \<Rightarrow> user_data result" where
  "user_data_from_bytes t bytes =
     andThen (slice bytes 0 INFO_FIELD_SIZE) (\<lambda>info_bytes.
     andThen (info_field_from_bytes t info_bytes) (\<lambda>info.
     if comm_model_mark info = 1
     then
       (let len = (unat (relay_level info) + 2) * ADDR_LEN in
        andThen (ensure (INFO_FIELD_SIZE + len \<le> length bytes)
                   (Message ''address field length error'')) (\<lambda>_.
        andThen (slice bytes INFO_FIELD_SIZE (INFO_FIELD_SIZE + len)) (\<lambda>address_bytes.
        andThen (address_field_try_from address_bytes) (\<lambda>address.
        andThen (slice_from bytes (INFO_FIELD_SIZE + len)) (\<lambda>app_bytes.
        andThen (app_data_try_from app_bytes) (\<lambda>app.
        Ok \<lparr>ud_info_field = info, ud_address_field = Some address, ud_app_data = app\<rparr>))))))
     else
       andThen (slice_from bytes INFO_FIELD_SIZE) (\<lambda>app_bytes.
       andThen (app_data_try_from app_bytes) (\<lambda>app.
       Ok \<lparr>ud_info_field = info, ud_address_field = None, ud_app_data = app\<rparr>))))"

definition user_data_get_seq :: "user_data \<Rightarrow> u8" where
  "user_data_get_seq u = seq_num (ud_info_field u)"

definition user_data_to_vec :: "user_data \<Rightarrow> u8 list" where
  "user_data_to_vec u =
     info_field_to_bytes (ud_info_field u)
     @ (case ud_address_field u of None \<Rightarrow> [] | Some a \<Rightarrow> address_field_to_vec a)
     @ app_data_to_vec (ud_app_data u)"

section \<open>Address fields\<close>

lemma length_concat_addresses [simp]: "length (concat (map address_to_vec r)) = 6 * length r"
  by (induction r) auto

lemma chunks_addresses: "chunks 6 (concat (map address_to_vec r)) = map address_to_vec r"
proof (induction r)
  case Nil
  then show ?case by simp
next
  case (Cons a r)
  then show ?case by (simp add: chunks_append)
qed

lemma length_address_field_to_vec: "length (address_field_to_vec a) = address_field_length a"
  by (simp add: address_field_to_vec_def address_field_length_def ADDR_LEN_def split: option.splits)

lemma traverse_addresses [simp]:
  "traverse (\<lambda>b. unwrap (address_try_from b)) (map address_to_vec r) = Ok r"
  by (induction r) auto

lemma address_field_roundtrip:
  "relay_address a \<noteq> Some [] \<Longrightarrow> address_field_try_from (address_field_to_vec a) = Ok a"
proof (cases "relay_address a")
  case None
  then show ?thesis
    by (simp add: address_field_try_from_def address_field_to_vec_def ADDR_LEN_def run)
next
  case (Some r)
  assume "relay_address a \<noteq> Some []"
  with Some have "0 < length r" by simp
  with Some show ?thesis
    by (simp add: address_field_try_from_def address_field_to_vec_def ADDR_LEN_def run chunks_addresses)
qed

lemma traverse_address_chunks:
  "length bs = n * 6 \<Longrightarrow> \<exists>r. traverse (\<lambda>b. unwrap (address_try_from b)) (chunks 6 bs) = Ok r"
proof (induction n arbitrary: bs)
  case 0
  then show ?case by simp
next
  case (Suc n)
  then have "length (take 6 bs) = 6" and "bs \<noteq> []" by auto
  with Suc address_try_from_total [of "take 6 bs"] show ?case
    by (auto simp: chunks_step)
qed

lemma address_field_try_from_total:
  assumes "length bs = (n + 2) * 6"
  shows "\<exists>a. address_field_try_from bs = Ok a"
proof -
  obtain src where src: "address_try_from (take 6 bs) = Ok src"
    using assms address_try_from_total [of "take 6 bs"] by auto
  obtain dst where dst: "address_try_from (drop (length bs - 6) bs) = Ok dst"
    using assms address_try_from_total [of "drop (length bs - 6) bs"] by auto
  have mid: "length (take (length bs - 6 - 6) (drop 6 bs)) = n * 6"
    using assms by simp
  obtain r where r: "traverse (\<lambda>b. unwrap (address_try_from b))
      (chunks 6 (take (length bs - 6 - 6) (drop 6 bs))) = Ok r"
    using traverse_address_chunks [OF mid] by blast
  have sl: "slice bs 0 6 = Ok (take 6 bs)" "slice_from bs (length bs - 6) = Ok (drop (length bs - 6) bs)"
    "slice bs 6 (length bs - 6) = Ok (take (length bs - 6 - 6) (drop 6 bs))"
    using assms by (simp_all add: slice_def slice_from_def)
  show ?thesis
    unfolding address_field_try_from_def ADDR_LEN_def sl andThen.simps src dst r unwrap.simps
    by simp
qed

section \<open>User data\<close>

lemma length_user_data_to_vec: "length (user_data_to_vec u) = user_data_length u"
  by (simp add: user_data_to_vec_def user_data_length_def INFO_FIELD_SIZE_def
      length_address_field_to_vec length_app_data_to_vec split: option.splits)

text \<open>The address field is present exactly when the function code is one that carries it, and it has
  no relay or one, the number \<^verbatim>\<open>UserData::new\<close> writes into the information field.\<close>

definition well_addressed :: "address_field option \<Rightarrow> app_data \<Rightarrow> bool" where
  "well_addressed address_field app_data \<longleftrightarrow>
     (case address_field of
        None \<Rightarrow> get_comm_mark app_data = 0
      | Some a \<Rightarrow> get_comm_mark app_data = 1
          \<and> (case relay_address a of None \<Rightarrow> True | Some r \<Rightarrow> length r = 1))"

lemma get_comm_mark_cases: "get_comm_mark d = 0 \<or> get_comm_mark d = 1"
  by (cases "app_afn d") (simp_all add: get_comm_mark_def)

lemma user_data_new_fits: "info_field_fits (ud_info_field (user_data_new seq a d))"
  using get_comm_mark_cases [of d]
  by (auto simp: user_data_new_def info_field_down_default_def split: option.splits)

lemma user_data_new_sel [simp]:
  "ud_address_field (user_data_new seq a d) = a"
  "ud_app_data (user_data_new seq a d) = d"
  "user_data_get_seq (user_data_new seq a d) = seq"
  "comm_model_mark (ud_info_field (user_data_new seq a d)) = get_comm_mark d"
  "info_field_get_type (ud_info_field (user_data_new seq a d)) = DownType"
  by (simp_all add: user_data_new_def user_data_get_seq_def)

lemma user_data_new_relay_level:
  "relay_level (ud_info_field (user_data_new seq a d)) =
     (case a of None \<Rightarrow> 0 | Some f \<Rightarrow> if relay_address f \<noteq> None then 1 else 0)"
  by (simp add: user_data_new_def)

lemma user_data_info_roundtrip:
  "info_field_from_bytes DownType (info_field_to_bytes (ud_info_field (user_data_new seq a d)))
     = Ok (ud_info_field (user_data_new seq a d))"
  using info_field_roundtrip [OF user_data_new_fits [of seq a d]] by simp

text \<open>Reading, once the information field has been split off.\<close>

lemma user_data_from_bytes_append:
  assumes "length ib = 6"
  shows "user_data_from_bytes t (ib @ rest) =
     andThen (info_field_from_bytes t ib) (\<lambda>info.
     if comm_model_mark info = 1
     then
       (let len = (unat (relay_level info) + 2) * 6 in
        andThen (ensure (len \<le> length rest) (Message ''address field length error'')) (\<lambda>_.
        andThen (address_field_try_from (take len rest)) (\<lambda>address.
        andThen (app_data_try_from (drop len rest)) (\<lambda>app.
        Ok \<lparr>ud_info_field = info, ud_address_field = Some address, ud_app_data = app\<rparr>))))
     else
       andThen (app_data_try_from rest) (\<lambda>app.
       Ok \<lparr>ud_info_field = info, ud_address_field = None, ud_app_data = app\<rparr>))"
  using assms
  by (cases "info_field_from_bytes t ib")
     (auto simp: user_data_from_bytes_def INFO_FIELD_SIZE_def ADDR_LEN_def slice_def slice_from_def
       ensure_def Let_def)

text \<open>User data that the wire can carry, in either direction: the address field is there exactly when
  the mark of the information field says so, with as many relays as its relay level.\<close>

definition address_matches :: "info_field \<Rightarrow> address_field option \<Rightarrow> bool" where
  "address_matches info a \<longleftrightarrow>
     (case a of
        None \<Rightarrow> comm_model_mark info \<noteq> 1
      | Some f \<Rightarrow> comm_model_mark info = 1
          \<and> (case relay_address f of
               None \<Rightarrow> relay_level info = 0
             | Some r \<Rightarrow> r \<noteq> [] \<and> length r = unat (relay_level info)))"

definition user_data_ok :: "user_data \<Rightarrow> bool" where
  "user_data_ok u \<longleftrightarrow>
     info_field_fits (ud_info_field u)
     \<and> address_matches (ud_info_field u) (ud_address_field u)
     \<and> app_data_try_from (app_data_to_vec (ud_app_data u)) = Ok (ud_app_data u)"

lemma user_data_reads_back:
  assumes "user_data_ok u"
  shows "user_data_from_bytes (info_field_get_type (ud_info_field u)) (user_data_to_vec u) = Ok u"
proof -
  let ?i = "ud_info_field u"
  have info: "info_field_from_bytes (info_field_get_type ?i) (info_field_to_bytes ?i) = Ok ?i"
    using assms by (intro info_field_roundtrip) (simp add: user_data_ok_def)
  from assms have app: "app_data_try_from (app_data_to_vec (ud_app_data u)) = Ok (ud_app_data u)"
    and matches: "address_matches ?i (ud_address_field u)"
    by (simp_all add: user_data_ok_def)
  show ?thesis
  proof (cases "ud_address_field u")
    case None
    with matches app info show ?thesis
      by (simp add: user_data_to_vec_def user_data_from_bytes_append address_matches_def
          del: andThen_eq_Ok)
  next
    case (Some f)
    with matches have mark: "comm_model_mark ?i = 1"
      and ne: "relay_address f \<noteq> Some []"
      and len: "12 + unat (relay_level ?i) * 6 = length (address_field_to_vec f)"
      by (auto simp: address_matches_def length_address_field_to_vec address_field_length_def
          ADDR_LEN_def split: option.splits)
    have rt: "address_field_try_from (address_field_to_vec f) = Ok f"
      using ne by (rule address_field_roundtrip)
    from mark app info rt Some show ?thesis
      by (simp add: user_data_to_vec_def user_data_from_bytes_append len Let_def del: andThen_eq_Ok)
  qed
qed

lemma user_data_new_ok:
  assumes "well_addressed a d" and "app_data_try_from (app_data_to_vec d) = Ok d"
  shows "user_data_ok (user_data_new seq a d)"
  using assms user_data_new_fits [of seq a d]
  by (auto simp: user_data_ok_def address_matches_def well_addressed_def user_data_new_relay_level
      split: option.splits)

lemma user_data_roundtrip:
  assumes "well_addressed a d" and "app_data_try_from (app_data_to_vec d) = Ok d"
  shows "user_data_from_bytes DownType (user_data_to_vec (user_data_new seq a d))
           = Ok (user_data_new seq a d)"
  using user_data_reads_back [OF user_data_new_ok [OF assms, of seq]] by simp

text \<open>What reading accepts is such user data, but for the flag of the application data, which is
  written again in its canonical form.\<close>

lemma length_ge_3: "3 \<le> length xs \<longleftrightarrow> (\<exists>a b c rest. xs = a # b # c # rest)"
  by (rule length_ge_iff(3))

lemma app_data_accepted_ok:
  assumes "app_data_try_from bs = Ok d"
  shows "app_data_try_from (app_data_to_vec d) = Ok d"
proof -
  from assms obtain a f units where "d = app_data_new a f (if units = [] then None else Some units)"
    by (auto simp: app_data_try_from_Ok_iff)
  then show ?thesis by (cases "units = []") simp_all
qed

lemma address_field_accepted:
  assumes "address_field_try_from bs = Ok a" and "length bs = (n + 2) * 6"
  shows "case relay_address a of None \<Rightarrow> n = 0 | Some r \<Rightarrow> r \<noteq> [] \<and> length r = n"
proof -
  have mid: "length (take (length bs - 12) (drop 6 bs)) = n * 6" using assms(2) by simp
  have "length r = n"
    if "traverse (\<lambda>b. unwrap (address_try_from b)) (chunks 6 (take (length bs - 12) (drop 6 bs))) = Ok r" for r
    using traverse_length [OF that] length_chunks_exact [OF _ mid] by simp
  with assms show ?thesis
    by (auto simp: address_field_try_from_def ADDR_LEN_def slice_eq_Ok split: if_splits option.splits)
qed

lemma user_data_accepted_ok:
  assumes "user_data_from_bytes t bs = Ok u"
  shows "user_data_ok u" and "info_field_get_type (ud_info_field u) = t"
proof -
  have "6 \<le> length bs" using assms by (auto simp: user_data_from_bytes_def INFO_FIELD_SIZE_def slice_eq_Ok)
  then have "length (take 6 bs) = 6" by simp
  note read = user_data_from_bytes_append [OF this, of t "drop 6 bs", simplified append_take_drop_id]
  from assms obtain info where info: "info_field_from_bytes t (take 6 bs) = Ok info"
    and ui: "ud_info_field u = info" and app: "app_data_try_from (app_data_to_vec (ud_app_data u)) = Ok (ud_app_data u)"
    by (auto simp: read Let_def dest: app_data_accepted_ok split: if_splits)
  show "info_field_get_type (ud_info_field u) = t"
    using info ui by (simp add: info_field_type_preserved)
  have "address_matches info (ud_address_field u)"
  proof (cases "comm_model_mark info = 1")
    case True
    let ?n = "unat (relay_level info)"
    from assms True info obtain a where a: "ud_address_field u = Some a"
      and dec: "address_field_try_from (take ((?n + 2) * 6) (drop 6 bs)) = Ok a"
      and len: "(?n + 2) * 6 \<le> length (drop 6 bs)"
      by (auto simp: read Let_def)
    have "length (take ((?n + 2) * 6) (drop 6 bs)) = (?n + 2) * 6" using len by simp
    from address_field_accepted [OF dec this] True a show ?thesis
      by (auto simp: address_matches_def unat_eq_0 split: option.splits)
  next
    case False
    with assms info show ?thesis by (auto simp: read address_matches_def)
  qed
  then show "user_data_ok u"
    using info_field_from_bytes_fits [OF info] ui app by (simp add: user_data_ok_def)
qed

text \<open>Where reading user data stops the thread: less than an information field, or a known function
  code followed by a zero mark at the place where the application data starts.\<close>

definition app_data_offset :: "info_field \<Rightarrow> nat" where
  "app_data_offset info =
     INFO_FIELD_SIZE
     + (if comm_model_mark info = 1 then (unat (relay_level info) + 2) * ADDR_LEN else 0)"

lemma panics_app_data_try_from:
  "panics (app_data_try_from data) \<longleftrightarrow>
     3 \<le> length data \<and> is_ok (afn_try_from (data ! 0)) \<and> data ! 1 = 0"
  using app_data_try_from_hangs_iff [of data] by (cases "app_data_try_from data") auto

lemma user_data_panics_iff:
  assumes "6 \<le> length bs" and info: "info_field_from_bytes t (take 6 bs) = Ok info"
  shows "panics (user_data_from_bytes t bs) \<longleftrightarrow>
     app_data_offset info + 3 \<le> length bs
     \<and> is_ok (afn_try_from (bs ! app_data_offset info)) \<and> bs ! (app_data_offset info + 1) = 0"
proof -
  let ?len = "(unat (relay_level info) + 2) * 6"
  have split: "panics (user_data_from_bytes t bs) \<longleftrightarrow>
      (if comm_model_mark info = 1
       then ?len \<le> length bs - 6 \<and> panics (app_data_try_from (drop ?len (drop 6 bs)))
       else panics (app_data_try_from (drop 6 bs)))"
  proof -
    have addr: "\<exists>a. address_field_try_from (take ?len (drop 6 bs)) = Ok a" if "?len \<le> length bs - 6"
      using that by (intro address_field_try_from_total [of _ "unat (relay_level info)"]) simp
    have "panics (user_data_from_bytes t (take 6 bs @ drop 6 bs)) \<longleftrightarrow>
      (if comm_model_mark info = 1
       then ?len \<le> length bs - 6 \<and> panics (app_data_try_from (drop ?len (drop 6 bs)))
       else panics (app_data_try_from (drop 6 bs)))"
      using assms(1) addr
      by (subst user_data_from_bytes_append) (auto simp: info Let_def)
    then show ?thesis by simp
  qed
  show ?thesis
    unfolding split panics_app_data_try_from
    using assms(1) by (auto simp: app_data_offset_def INFO_FIELD_SIZE_def ADDR_LEN_def add.commute)
qed

lemma user_data_panics_short: "length bs < 6 \<Longrightarrow> panics (user_data_from_bytes t bs)"
  by (simp add: user_data_from_bytes_def INFO_FIELD_SIZE_def)

section \<open>Properties\<close>

text \<open>C25: What \<^verbatim>\<open>UserData::new\<close> builds is read back from its bytes exactly when it is well addressed: the
  address field is there for the function codes that carry one and only for them, and it has at most
  one relay (the relay level written is 1 for every list of relays). With two relays or more, or an
  address under another function code, the reader sees something else.\<close>

theorem user_data_new_read_back_iff:
  assumes "units \<noteq> Some []"
  shows "user_data_from_bytes DownType (user_data_to_vec (user_data_new seq a (app_data_new x n units)))
           = Ok (user_data_new seq a (app_data_new x n units))
     \<longleftrightarrow> well_addressed a (app_data_new x n units)"
proof
  let ?d = "app_data_new x n units"
  let ?u = "user_data_new seq a ?d"
  assume "user_data_from_bytes DownType (user_data_to_vec ?u) = Ok ?u"
  then have "address_matches (ud_info_field ?u) a"
    using user_data_accepted_ok(1) [of DownType "user_data_to_vec ?u" ?u] by (simp add: user_data_ok_def)
  then show "well_addressed a ?d"
    using get_comm_mark_cases [of ?d]
    by (auto simp: address_matches_def well_addressed_def user_data_new_relay_level
        split: option.splits)
qed (use assms in \<open>intro user_data_roundtrip; simp\<close>)

theorem user_data_new_read_back_iff_witness:
  "user_data_from_bytes DownType (user_data_to_vec
     (user_data_new 3 (Some \<lparr>src_address = address_default,
         relay_address = Some [address_default, address_default], dst_address = address_default\<rparr>)
       (app_data_new RouteDataForward 1 (Some [2, 0, 0, 0]))))
   \<noteq> Ok (user_data_new 3 (Some \<lparr>src_address = address_default,
         relay_address = Some [address_default, address_default], dst_address = address_default\<rparr>)
       (app_data_new RouteDataForward 1 (Some [2, 0, 0, 0])))"
  using user_data_new_read_back_iff [of "Some [2, 0, 0, 0]" 3
      "Some \<lparr>src_address = address_default, relay_address = Some [address_default, address_default],
         dst_address = address_default\<rparr>" RouteDataForward 1]
  by (simp add: well_addressed_def)

text \<open>C24: User data accepted from the line is consistent: the fields fit their bits, an address field is
  there exactly when the mark says so, with as many relays as the relay level, and writing it and
  reading it again changes nothing.\<close>

theorem user_data_accepted_is_stable:
  assumes "user_data_from_bytes t bs = Ok u"
  shows "info_field_fits (ud_info_field u)
    \<and> (comm_model_mark (ud_info_field u) = 1 \<longleftrightarrow> ud_address_field u \<noteq> None)
    \<and> (\<forall>f. ud_address_field u = Some f \<longrightarrow>
         (case relay_address f of
            None \<Rightarrow> relay_level (ud_info_field u) = 0
          | Some r \<Rightarrow> r \<noteq> [] \<and> length r = unat (relay_level (ud_info_field u))))
    \<and> user_data_from_bytes t (user_data_to_vec u) = Ok u"
proof -
  note ok = user_data_accepted_ok [OF assms]
  then show ?thesis
    using user_data_reads_back [OF ok(1)]
    by (auto simp: user_data_ok_def address_matches_def split: option.splits)
qed

text \<open>An accepted input: the mark is set, the relay level is 2, four addresses and an initialisation follow.\<close>

definition relayed_bytes :: "u8 list" where
  "relayed_bytes = [0x24, 0, 0, 0, 0, 9] @ replicate 24 0x11 @ [0x01, 0x01, 0x00]"

definition relayed_user_data :: user_data where
  "relayed_user_data =
     \<lparr>ud_info_field = Down (info_field_down_default\<lparr>dn_seq_num := 9, dn_comm_model_mark := 1, dn_relay_level := 2\<rparr>),
      ud_address_field = Some \<lparr>src_address = Address 0x11 0x11 0x11 0x11 0x11 0x11,
        relay_address = Some (replicate 2 (Address 0x11 0x11 0x11 0x11 0x11 0x11)),
        dst_address = Address 0x11 0x11 0x11 0x11 0x11 0x11\<rparr>,
      ud_app_data = app_data_new Init 1 None\<rparr>"

lemma relayed_bytes_accepted: "user_data_from_bytes DownType relayed_bytes = Ok relayed_user_data"
proof -
  have "app_data_try_from (app_data_to_vec (app_data_new Init 1 None)) = Ok (app_data_new Init 1 None)" by simp
  then have "user_data_ok relayed_user_data"
    by (simp add: user_data_ok_def relayed_user_data_def address_matches_def info_field_down_default_def)
  from user_data_reads_back [OF this] have
    "user_data_from_bytes DownType (user_data_to_vec relayed_user_data) = Ok relayed_user_data"
    by (simp add: relayed_user_data_def)
  moreover have "user_data_to_vec relayed_user_data = relayed_bytes"
    by code_simp
  ultimately show ?thesis by simp
qed

theorem user_data_accepted_is_stable_witness:
  "user_data_from_bytes DownType relayed_bytes = Ok relayed_user_data
   \<and> relay_level (ud_info_field relayed_user_data) = 2
   \<and> info_field_fits (ud_info_field relayed_user_data) \<and> comm_model_mark (ud_info_field relayed_user_data) = 1
   \<and> (\<exists>f r. ud_address_field relayed_user_data = Some f \<and> relay_address f = Some r
        \<and> length r = unat (relay_level (ud_info_field relayed_user_data)))
   \<and> user_data_from_bytes DownType (user_data_to_vec relayed_user_data) = Ok relayed_user_data"
  using user_data_accepted_is_stable [OF relayed_bytes_accepted] relayed_bytes_accepted
  by (simp add: relayed_user_data_def)

end
