(* ===== verification/Frame_Codec.thy ===== *)
theory Frame_Codec
  imports User_Data
begin

text \<open>
  src/src/protocol/frame.rs: the frame around the user data (start byte, little-endian length, control
  byte, user data, checksum, stop byte), its construction for requests and responses, its reading from
  a complete byte string (\<open>frame_try_from\<close>) and its extraction from a receive buffer
  (\<open>frame_parse\<close>, the cursor's position being passed in and out).

  \<^item> The global counter \<^verbatim>\<open>SEQ\<close> is threaded through \<open>frame_new_request\<close>.
  \<^item> \<open>frame_length_read\<close> names what \<^verbatim>\<open>Frame::parse\<close> reads as the length of a frame: bytes 1 and 2 of
    the \<^emph>\<open>buffer\<close>, whatever was skipped before the start byte.
\<close>

section \<open>Header and control byte\<close>

definition HEADER :: u8 where "HEADER = 0x68"
definition TAIL :: u8 where "TAIL = 0x16"
definition HEADER_SIZE :: nat where "HEADER_SIZE = 3"
definition CTRL_FIELD_SIZE :: nat where "CTRL_FIELD_SIZE = 1"
definition CHECK_SUM_SIZE :: nat where "CHECK_SUM_SIZE = 1"
definition TAIL_SIZE :: nat where "TAIL_SIZE = 1"
definition FRAME_SIZE :: nat where
  "FRAME_SIZE = HEADER_SIZE + CTRL_FIELD_SIZE + CHECK_SUM_SIZE + TAIL_SIZE"
definition LAST_SIZE :: nat where "LAST_SIZE = CHECK_SUM_SIZE + TAIL_SIZE"
definition HEADER_OFFSET :: nat where "HEADER_OFFSET = 0"
definition CTRL_FIELD_OFFSET :: nat where "CTRL_FIELD_OFFSET = HEADER_OFFSET + HEADER_SIZE"
definition USER_DATA_OFFSET :: nat where "USER_DATA_OFFSET = CTRL_FIELD_OFFSET + CTRL_FIELD_SIZE"

lemmas frame_sizes =
  HEADER_SIZE_def CTRL_FIELD_SIZE_def CHECK_SUM_SIZE_def TAIL_SIZE_def FRAME_SIZE_def LAST_SIZE_def
  HEADER_OFFSET_def CTRL_FIELD_OFFSET_def USER_DATA_OFFSET_def

record header =
  header_byte :: u8
  header_length :: u16

definition header_new :: "u16 \<Rightarrow> header" where
  "header_new len = \<lparr>header_byte = HEADER, header_length = len\<rparr>"

definition header_from :: "u8 list \<Rightarrow> header result" where
  "header_from bytes =
     andThen (index bytes 0) (\<lambda>b0. andThen (index bytes 1) (\<lambda>b1. andThen (index bytes 2) (\<lambda>b2.
     Ok \<lparr>header_byte = b0, header_length = u16_le b1 b2\<rparr>)))"

definition header_to_vec :: "header \<Rightarrow> u8 list" where
  "header_to_vec h = header_byte h # u16_to_le (header_length h)"

datatype dir = DirDown | DirUp
datatype prm = Slave | Master
datatype comm = Centralize | Decentralize | Hplc | LowerPower | Ethernet

fun dir_to_u8 :: "dir \<Rightarrow> u8" where
  "dir_to_u8 DirDown = 0"
| "dir_to_u8 DirUp = 1"

fun prm_to_u8 :: "prm \<Rightarrow> u8" where
  "prm_to_u8 Slave = 0"
| "prm_to_u8 Master = 1"

fun comm_to_u8 :: "comm \<Rightarrow> u8" where
  "comm_to_u8 Centralize = 1"
| "comm_to_u8 Decentralize = 2"
| "comm_to_u8 Hplc = 3"
| "comm_to_u8 LowerPower = 10"
| "comm_to_u8 Ethernet = 20"

definition dir_try_from :: "u8 \<Rightarrow> dir result" where
  "dir_try_from = of_code ''Dir'' (with_codes dir_to_u8 [DirDown, DirUp])"

definition prm_try_from :: "u8 \<Rightarrow> prm result" where
  "prm_try_from = of_code ''Prm'' (with_codes prm_to_u8 [Slave, Master])"

definition comm_try_from :: "u8 \<Rightarrow> comm result" where
  "comm_try_from =
     of_code ''Comm'' (with_codes comm_to_u8 [Centralize, Decentralize, Hplc, LowerPower, Ethernet])"

record ctrl_field =
  ctrl_dir :: dir
  ctrl_prm :: prm
  ctrl_comm :: comm

definition ctrl_field_new :: "bool \<Rightarrow> ctrl_field" where
  "ctrl_field_new is_response =
     \<lparr>ctrl_dir = DirDown, ctrl_prm = (if is_response then Slave else Master), ctrl_comm = Hplc\<rparr>"

definition get_info_field_type :: "ctrl_field \<Rightarrow> info_field_type" where
  "get_info_field_type c = (case ctrl_dir c of DirDown \<Rightarrow> DownType | DirUp \<Rightarrow> UpType)"

definition ctrl_field_to_u8 :: "ctrl_field \<Rightarrow> u8" where
  "ctrl_field_to_u8 c =
     push_bit 7 (dir_to_u8 (ctrl_dir c)) OR push_bit 6 (prm_to_u8 (ctrl_prm c))
     OR comm_to_u8 (ctrl_comm c)"

definition ctrl_field_try_from :: "u8 \<Rightarrow> ctrl_field result" where
  "ctrl_field_try_from b =
     andThen (dir_try_from (drop_bit 7 b)) (\<lambda>d.
     andThen (prm_try_from (drop_bit 6 b AND 0x01)) (\<lambda>p.
     andThen (comm_try_from (b AND 0x3f)) (\<lambda>c.
     Ok \<lparr>ctrl_dir = d, ctrl_prm = p, ctrl_comm = c\<rparr>)))"

interpretation dir_byte: byte_enum dir_to_u8 dir_try_from
proof
  fix v
  show "dir_try_from (dir_to_u8 v) = Ok v"
    by (cases v) (simp_all add: dir_try_from_def of_code_def with_codes_def)
qed (auto simp: dir_try_from_def of_code_no_panic dest: of_code_sound)

interpretation prm_byte: byte_enum prm_to_u8 prm_try_from
proof
  fix v
  show "prm_try_from (prm_to_u8 v) = Ok v"
    by (cases v) (simp_all add: prm_try_from_def of_code_def with_codes_def)
qed (auto simp: prm_try_from_def of_code_no_panic dest: of_code_sound)

interpretation comm_byte: byte_enum comm_to_u8 comm_try_from
proof
  fix v
  show "comm_try_from (comm_to_u8 v) = Ok v"
    by (cases v) (simp_all add: comm_try_from_def of_code_def with_codes_def)
qed (auto simp: comm_try_from_def of_code_no_panic dest: of_code_sound)

lemma ctrl_field_fields:
  "drop_bit 7 (ctrl_field_to_u8 c) = dir_to_u8 (ctrl_dir c)"
  "drop_bit 6 (ctrl_field_to_u8 c) AND 0x01 = prm_to_u8 (ctrl_prm c)"
  "ctrl_field_to_u8 c AND 0x3f = comm_to_u8 (ctrl_comm c)"
  by (cases "ctrl_dir c"; cases "ctrl_prm c"; cases "ctrl_comm c"; simp add: ctrl_field_to_u8_def)+

lemma ctrl_field_unfields:
  "push_bit 7 (drop_bit 7 b) OR push_bit 6 (drop_bit 6 b AND 0x01) OR (b AND 0x3f) = b" for b :: u8
  unfolding u8_eq_bits bit_blast by auto

text \<open>The control byte is an enum of its own: thirty values, each the byte of one triple.\<close>

interpretation ctrl_byte: byte_enum ctrl_field_to_u8 ctrl_field_try_from
proof
  fix v :: ctrl_field
  show "ctrl_field_try_from (ctrl_field_to_u8 v) = Ok v"
    by (simp add: ctrl_field_try_from_def ctrl_field_fields dir_byte.of_byte_to_byte
        prm_byte.of_byte_to_byte comm_byte.of_byte_to_byte)
next
  fix v b
  assume "ctrl_field_try_from b = Ok v"
  then have "dir_to_u8 (ctrl_dir v) = drop_bit 7 b" "prm_to_u8 (ctrl_prm v) = drop_bit 6 b AND 0x01"
    "comm_to_u8 (ctrl_comm v) = b AND 0x3f"
    by (auto simp: ctrl_field_try_from_def dir_byte.of_byte_Ok_iff prm_byte.of_byte_Ok_iff
        comm_byte.of_byte_Ok_iff)
  then show "ctrl_field_to_u8 v = b"
    by (simp only: ctrl_field_to_u8_def ctrl_field_unfields)
next
  fix b
  show "\<not> panics (ctrl_field_try_from b)"
    by (simp add: ctrl_field_try_from_def dir_byte.of_byte_no_panic prm_byte.of_byte_no_panic
        comm_byte.of_byte_no_panic)
qed

section \<open>Frames\<close>

record frame =
  fr_header :: header
  fr_ctrl_field :: ctrl_field
  fr_user_data :: user_data
  fr_checksum :: u8
  fr_tail :: u8

definition calc_checksum :: "u8 list \<Rightarrow> u8" where
  "calc_checksum bytes = foldl (+) 0 bytes"

definition frame_to_bytes :: "frame \<Rightarrow> u8 list" where
  "frame_to_bytes f =
     header_to_vec (fr_header f) @ [ctrl_field_to_u8 (fr_ctrl_field f)]
     @ user_data_to_vec (fr_user_data f) @ [fr_checksum f, fr_tail f]"

definition frame_new :: "bool \<Rightarrow> u8 \<Rightarrow> address_field option \<Rightarrow> app_data \<Rightarrow> frame result" where
  "frame_new is_response seq address_field app_data =
     (let user_data = user_data_new seq address_field app_data;
          frame =
            \<lparr>fr_header = header_new (of_nat (FRAME_SIZE + user_data_length user_data)),
             fr_ctrl_field = ctrl_field_new is_response,
             fr_user_data = user_data,
             fr_checksum = 0,
             fr_tail = TAIL\<rparr>;
          bytes = frame_to_bytes frame
      in andThen (slice bytes CTRL_FIELD_OFFSET (length bytes - LAST_SIZE)) (\<lambda>body.
         Ok (frame\<lparr>fr_checksum := calc_checksum body\<rparr>)))"

definition frame_new_request :: "u8 \<Rightarrow> address_field option \<Rightarrow> app_data \<Rightarrow> frame result \<times> u8" where
  "frame_new_request SEQ address_field app_data =
     (frame_new False SEQ address_field app_data, SEQ + 1)"

definition frame_new_response :: "u8 \<Rightarrow> address_field option \<Rightarrow> app_data \<Rightarrow> frame result" where
  "frame_new_response seq address_field app_data = frame_new True seq address_field app_data"

definition frame_afn :: "frame \<Rightarrow> afn" where
  "frame_afn f = app_afn (ud_app_data (fr_user_data f))"

definition frame_fn_num :: "frame \<Rightarrow> u8 result" where
  "frame_fn_num f = fn_num (ud_app_data (fr_user_data f))"

text \<open>\<^verbatim>\<open>AnswerFn::Confirm\<close> is 1 and \<^verbatim>\<open>AnswerFn::Deny\<close> is 2 (app_data/answer.rs).\<close>

definition answer_fn_confirm :: u8 where "answer_fn_confirm = 1"
definition answer_fn_deny :: u8 where "answer_fn_deny = 2"

definition frame_is_confirm :: "frame \<Rightarrow> bool result" where
  "frame_is_confirm f =
     (if frame_afn f = Answer then andThen (frame_fn_num f) (\<lambda>n. Ok (n = answer_fn_confirm)) else Ok False)"

definition frame_is_deny :: "frame \<Rightarrow> bool result" where
  "frame_is_deny f =
     (if frame_afn f = Answer then andThen (frame_fn_num f) (\<lambda>n. Ok (n = answer_fn_deny)) else Ok False)"

definition is_slave_report :: "frame \<Rightarrow> bool" where
  "is_slave_report f \<longleftrightarrow> ctrl_dir (fr_ctrl_field f) = DirUp \<and> ctrl_prm (fr_ctrl_field f) = Master"

definition is_master_response :: "frame \<Rightarrow> bool" where
  "is_master_response f \<longleftrightarrow> ctrl_dir (fr_ctrl_field f) = DirDown \<and> ctrl_prm (fr_ctrl_field f) = Slave"

definition frame_get_seq :: "frame \<Rightarrow> u8" where
  "frame_get_seq f = user_data_get_seq (fr_user_data f)"

definition match_req :: "frame \<Rightarrow> u8 \<Rightarrow> bool" where
  "match_req f seq \<longleftrightarrow> user_data_get_seq (fr_user_data f) = seq"

definition frame_set_comm_model_mark :: "frame \<Rightarrow> u8 \<Rightarrow> frame" where
  "frame_set_comm_model_mark f m =
     f\<lparr>fr_user_data := (fr_user_data f)
       \<lparr>ud_info_field := set_comm_model_mark (ud_info_field (fr_user_data f)) m\<rparr>\<rparr>"

definition hex_digit :: "nat \<Rightarrow> char" where
  "hex_digit n = (if n < 10 then char_of (48 + n) else char_of (55 + n))"

definition hex_byte :: "u8 \<Rightarrow> string" where
  "hex_byte b = [hex_digit (unat b div 16), hex_digit (unat b mod 16)]"

fun join_with :: "string \<Rightarrow> string list \<Rightarrow> string" where
  "join_with sep [] = []"
| "join_with sep [s] = s"
| "join_with sep (s # t # ss) = s @ sep @ join_with sep (t # ss)"

definition to_hex_string :: "frame \<Rightarrow> string" where
  "to_hex_string f = join_with '' '' (map hex_byte (frame_to_bytes f))"

definition frame_try_from :: "u8 list \<Rightarrow> frame result" where
  "frame_try_from bytes =
     andThen (ensure (FRAME_SIZE \<le> length bytes) (FrameErr (LengthError (length bytes)))) (\<lambda>_.
     andThen (slice bytes HEADER_OFFSET (HEADER_OFFSET + HEADER_SIZE)) (\<lambda>header_bytes.
     andThen (header_from header_bytes) (\<lambda>header.
     andThen (ensure (header_byte header = HEADER) (FrameErr (HeaderError (header_byte header)))) (\<lambda>_.
     andThen (ensure (unat (header_length header) \<le> length bytes)
                (FrameErr (LengthError (length bytes)))) (\<lambda>_.
     andThen (index bytes CTRL_FIELD_OFFSET) (\<lambda>ctrl_byte.
     andThen (ctrl_field_try_from ctrl_byte) (\<lambda>ctrl_field.
     andThen (slice bytes USER_DATA_OFFSET (length bytes - LAST_SIZE)) (\<lambda>user_bytes.
     andThen (user_data_from_bytes (get_info_field_type ctrl_field) user_bytes) (\<lambda>user_data.
     andThen (index bytes (length bytes - LAST_SIZE)) (\<lambda>checksum.
     andThen (slice bytes CTRL_FIELD_OFFSET (length bytes - LAST_SIZE)) (\<lambda>body.
     andThen (ensure (checksum = calc_checksum body)
                (FrameErr (ChecksumError checksum (calc_checksum body)))) (\<lambda>_.
     andThen (index bytes (length bytes - TAIL_SIZE)) (\<lambda>tail.
     andThen (ensure (tail = TAIL) (FrameErr (TailError tail))) (\<lambda>_.
     Ok \<lparr>fr_header = header, fr_ctrl_field = ctrl_field, fr_user_data = user_data,
         fr_checksum = checksum, fr_tail = tail\<rparr>))))))))))))))"

text \<open>\<^verbatim>\<open>usize\<close> subtraction of a release build, and \<^verbatim>\<open>Frame::parse\<close>: the position of the cursor after
  the call, and what the call returns.\<close>

definition usize_sub :: "nat \<Rightarrow> nat \<Rightarrow> nat" where
  "usize_sub a b = (if b \<le> a then a - b else 2 ^ 64 + a - b)"

function skip_to_header :: "u8 list \<Rightarrow> nat \<Rightarrow> nat" where
  "skip_to_header src pos =
     (if pos < length src \<and> src ! pos \<noteq> HEADER then skip_to_header src (pos + 1) else pos)"
  by pat_completeness auto
termination
  by (relation "measure (\<lambda>(src, pos). length src - pos)") auto

declare skip_to_header.simps [simp del]

definition frame_parse :: "u8 list \<Rightarrow> nat \<Rightarrow> nat \<times> frame option result" where
  "frame_parse src pos =
     (let end_pos = length src; start = skip_to_header src pos in
      if usize_sub end_pos start < HEADER_SIZE then (start, Ok None)
      else
        case andThen (slice src 1 HEADER_SIZE) (u16_from_le ArrayLength) of
          Err e \<Rightarrow> (start, Err e)
        | Panic p \<Rightarrow> (start, Panic p)
        | Ok w \<Rightarrow>
            if usize_sub end_pos start < unat w then (start, Ok None)
            else
              (start + unat w,
               andThen (slice src start (start + unat w)) (\<lambda>bytes.
               andThen (frame_try_from bytes) (\<lambda>f. Ok (Some f)))))"

section \<open>Reading a complete frame\<close>

lemma list_of_length_2: "length xs = 2 \<Longrightarrow> \<exists>a b. xs = [a, b]"
  by (auto simp: numeral_eq_Suc length_Suc_conv)

lemma list_of_length_4: "length xs = 4 \<Longrightarrow> \<exists>a b c d. xs = [a, b, c, d]"
  by (auto simp: numeral_eq_Suc length_Suc_conv)

lemma frame_shape:
  assumes "6 \<le> length bs"
  obtains h l0 l1 c body k t where "bs = [h, l0, l1, c] @ body @ [k, t]"
proof -
  have "length (take 4 bs) = 4" using assms by simp
  then obtain h l0 l1 c where front: "take 4 bs = [h, l0, l1, c]"
    using list_of_length_4 by blast
  let ?r = "drop 4 bs"
  have "length (drop (length ?r - 2) ?r) = 2" using assms by simp
  then obtain k t where final: "drop (length ?r - 2) ?r = [k, t]"
    using list_of_length_2 by blast
  have "bs = take 4 bs @ take (length ?r - 2) ?r @ drop (length ?r - 2) ?r"
    by (simp del: drop_drop take_drop)
  then show ?thesis using that unfolding front final by blast
qed

lemma header_from_triple [simp]:
  "header_from [b0, b1, b2] = Ok \<lparr>header_byte = b0, header_length = u16_le b1 b2\<rparr>"
  by (simp add: header_from_def index_def)

text \<open>The steps of \<open>frame_try_from\<close> on the parts of the frame.\<close>

lemma frame_try_from_parts:
  "frame_try_from ([h, l0, l1, c] @ body @ [k, t]) =
     andThen (ensure (h = HEADER) (FrameErr (HeaderError h))) (\<lambda>_.
     andThen (ensure (unat (u16_le l0 l1) \<le> length body + 6)
                (FrameErr (LengthError (length body + 6)))) (\<lambda>_.
     andThen (ctrl_field_try_from c) (\<lambda>cf.
     andThen (user_data_from_bytes (get_info_field_type cf) body) (\<lambda>ud.
     andThen (ensure (k = calc_checksum (c # body))
                (FrameErr (ChecksumError k (calc_checksum (c # body))))) (\<lambda>_.
     andThen (ensure (t = TAIL) (FrameErr (TailError t))) (\<lambda>_.
     Ok \<lparr>fr_header = \<lparr>header_byte = h, header_length = u16_le l0 l1\<rparr>, fr_ctrl_field = cf,
         fr_user_data = ud, fr_checksum = k, fr_tail = t\<rparr>))))))"
proof -
  define bs where "bs = [h, l0, l1, c] @ body @ [k, t]"
  have acc: "slice bs 0 3 = (Ok [h, l0, l1] :: u8 list result)" "index bs 3 = (Ok c :: u8 result)"
    "slice bs 4 (length bs - 2) = (Ok body :: u8 list result)"
    "index bs (length bs - 2) = (Ok k :: u8 result)"
    "slice bs 3 (length bs - 2) = (Ok (c # body) :: u8 list result)"
    "index bs (length bs - 1) = (Ok t :: u8 result)"
    by (simp_all add: bs_def slice_def index_def nth_append numeral_eq_Suc)
  have len: "length bs = length body + 6" by (simp add: bs_def)
  then have min: "ensure (6 \<le> length bs) (e :: error) = Ok ()" for e by simp
  have sizes: "HEADER_SIZE = 3" "HEADER_OFFSET = 0" "CTRL_FIELD_OFFSET = 3"
    "USER_DATA_OFFSET = 4" "LAST_SIZE = 2" "TAIL_SIZE = 1" "FRAME_SIZE = 6"
    by (simp_all add: frame_sizes)
  show ?thesis
    unfolding bs_def [symmetric]
    by (simp only: frame_try_from_def sizes acc [unfolded len] min [unfolded len] len andThen.simps
        header_from_triple header.simps add_0)
qed

lemma frame_try_from_short: "length bs < 6 \<Longrightarrow> frame_try_from bs = Err (FrameErr (LengthError (length bs)))"
  by (simp add: frame_try_from_def frame_sizes)

lemma frame_try_from_Ok_parts:
  assumes "frame_try_from bs = Ok f"
  obtains l0 l1 c body where "bs = [HEADER, l0, l1, c] @ body @ [calc_checksum (c # body), TAIL]"
    and "unat (u16_le l0 l1) \<le> length bs"
    and "ctrl_field_try_from c = Ok (fr_ctrl_field f)"
    and "user_data_from_bytes (get_info_field_type (fr_ctrl_field f)) body = Ok (fr_user_data f)"
    and "fr_header f = \<lparr>header_byte = HEADER, header_length = u16_le l0 l1\<rparr>"
    and "fr_checksum f = calc_checksum (c # body)" and "fr_tail f = TAIL"
proof -
  have "6 \<le> length bs" using assms frame_try_from_short [of bs] by fastforce
  then obtain h l0 l1 c body k t where bs: "bs = [h, l0, l1, c] @ body @ [k, t]" by (rule frame_shape)
  from assms show ?thesis
    unfolding bs frame_try_from_parts by (auto intro: that [of l0 l1 c body] simp: bs)
qed

section \<open>Checksums\<close>

lemma calc_checksum_Nil [simp]: "calc_checksum [] = 0"
  by (simp add: calc_checksum_def)

lemma calc_checksum_sum: "calc_checksum bs = sum_list bs"
proof -
  have "foldl (+) a bs = a + sum_list bs" for a
    by (induction bs arbitrary: a) (simp_all add: add.assoc)
  then show ?thesis by (simp add: calc_checksum_def)
qed

lemma calc_checksum_Cons [simp]: "calc_checksum (c # bs) = c + calc_checksum bs"
  by (simp add: calc_checksum_sum)

lemma calc_checksum_append [simp]: "calc_checksum (xs @ ys) = calc_checksum xs + calc_checksum ys"
  by (simp add: calc_checksum_sum)

lemma calc_checksum_update:
  "i < length bs \<Longrightarrow> calc_checksum (bs[i := b]) = calc_checksum bs - bs ! i + b"
  by (induction bs arbitrary: i) (auto split: nat.splits)

lemma frame_try_from_checksum:
  assumes "frame_try_from bs = Ok f"
  shows "6 \<le> length bs" and "bs ! 0 = HEADER" and "bs ! (length bs - 1) = TAIL"
    and "calc_checksum (take (length bs - 5) (drop 3 bs)) = bs ! (length bs - 2)"
proof -
  from assms obtain l0 l1 c body where bs: "bs = [HEADER, l0, l1, c] @ body @ [calc_checksum (c # body), TAIL]"
    by (rule frame_try_from_Ok_parts)
  show "6 \<le> length bs" "bs ! 0 = HEADER" by (simp_all add: bs)
  show "bs ! (length bs - 1) = TAIL" by (simp add: bs nth_append)
  have "take (length bs - 5) (drop 3 bs) = c # body" by (simp add: bs)
  then show "calc_checksum (take (length bs - 5) (drop 3 bs)) = bs ! (length bs - 2)"
    by (simp add: bs nth_append)
qed

section \<open>Frames made by the service\<close>

definition frame_total_length :: "address_field option \<Rightarrow> app_data \<Rightarrow> nat" where
  "frame_total_length a d =
     FRAME_SIZE + INFO_FIELD_SIZE + (case a of None \<Rightarrow> 0 | Some f \<Rightarrow> address_field_length f)
     + app_data_length d"

lemma frame_total_length_new:
  "frame_total_length a d = FRAME_SIZE + user_data_length (user_data_new seq a d)"
  by (simp add: frame_total_length_def user_data_length_def)

lemma frame_new_Ok:
  "frame_new r seq a d =
     Ok \<lparr>fr_header = \<lparr>header_byte = HEADER, header_length = of_nat (frame_total_length a d)\<rparr>,
         fr_ctrl_field = ctrl_field_new r, fr_user_data = user_data_new seq a d,
         fr_checksum = calc_checksum
           (ctrl_field_to_u8 (ctrl_field_new r) # user_data_to_vec (user_data_new seq a d)),
         fr_tail = TAIL\<rparr>"
proof -
  let ?h = "of_nat (frame_total_length a d) :: u16"
  let ?c = "ctrl_field_to_u8 (ctrl_field_new r)"
  let ?u = "user_data_to_vec (user_data_new seq a d)"
  have "u16_to_le ?h = [ucast ?h, ucast (drop_bit 8 ?h)]" by (simp add: u16_to_le_def)
  then show ?thesis
    by (simp add: frame_new_def frame_to_bytes_def header_to_vec_def header_new_def slice_def
        frame_sizes frame_total_length_new [of a d seq] Let_def)
qed

lemma frame_new_sel:
  assumes "frame_new r seq a d = Ok f"
  shows "fr_user_data f = user_data_new seq a d" and "fr_ctrl_field f = ctrl_field_new r"
    and "frame_get_seq f = seq" and "frame_afn f = app_afn d" and "frame_fn_num f = fn_num d"
    and "match_req f s \<longleftrightarrow> s = seq" and "is_slave_report f = False"
    and "is_master_response f = r"
  using assms
  by (auto simp: frame_new_Ok frame_get_seq_def frame_afn_def frame_fn_num_def match_req_def
      is_slave_report_def is_master_response_def ctrl_field_new_def split: if_splits)

lemma frame_to_bytes_new:
  assumes "frame_new r seq a d = Ok f"
  obtains l0 l1 c body
  where "frame_to_bytes f = [HEADER, l0, l1, c] @ body @ [calc_checksum (c # body), TAIL]"
    and "u16_le l0 l1 = of_nat (frame_total_length a d)"
    and "c = ctrl_field_to_u8 (ctrl_field_new r)"
    and "body = user_data_to_vec (user_data_new seq a d)"
    and "length body + 6 = frame_total_length a d"
proof -
  let ?h = "of_nat (frame_total_length a d)"
  show ?thesis
  proof (rule that [of "ucast (?h :: u16)" "ucast (drop_bit 8 (?h :: u16))"
        "ctrl_field_to_u8 (ctrl_field_new r)" "user_data_to_vec (user_data_new seq a d)"])
    show "frame_to_bytes f = [HEADER, ucast (?h :: u16), ucast (drop_bit 8 (?h :: u16)),
        ctrl_field_to_u8 (ctrl_field_new r)] @ user_data_to_vec (user_data_new seq a d)
        @ [calc_checksum (ctrl_field_to_u8 (ctrl_field_new r)
             # user_data_to_vec (user_data_new seq a d)), TAIL]"
      using assms
      by (auto simp: frame_new_Ok frame_to_bytes_def header_to_vec_def u16_to_le_def)
    show "u16_le (ucast (?h :: u16)) (ucast (drop_bit 8 (?h :: u16))) = ?h" by simp
    show "length (user_data_to_vec (user_data_new seq a d)) + 6 = frame_total_length a d"
      by (simp add: length_user_data_to_vec frame_total_length_new [of a d seq] frame_sizes)
  qed simp_all
qed

lemma length_frame_to_bytes_new:
  "frame_new r seq a d = Ok f \<Longrightarrow> length (frame_to_bytes f) = frame_total_length a d"
  by (erule frame_to_bytes_new) simp

lemma frame_total_length_min: "12 \<le> frame_total_length a d"
  by (simp add: frame_total_length_def frame_sizes INFO_FIELD_SIZE_def)

lemma unat_of_nat_le: "unat (of_nat n :: u16) \<le> n"
  by (simp add: unat_of_nat)

lemma unat_of_nat_u16: "n < 65536 \<Longrightarrow> unat (of_nat n :: u16) = n"
  by (simp add: unat_of_nat)

lemma frame_roundtrip_new:
  assumes f: "frame_new r seq a d = Ok f" and wa: "well_addressed a d"
    and rt: "app_data_try_from (app_data_to_vec d) = Ok d"
  shows "frame_try_from (frame_to_bytes f) = Ok f"
proof -
  obtain l0 l1 c body
    where bytes: "frame_to_bytes f = [HEADER, l0, l1, c] @ body @ [calc_checksum (c # body), TAIL]"
    and l: "u16_le l0 l1 = of_nat (frame_total_length a d)"
    and c: "c = ctrl_field_to_u8 (ctrl_field_new r)"
    and body: "body = user_data_to_vec (user_data_new seq a d)"
    and len: "length body + 6 = frame_total_length a d"
    using f by (rule frame_to_bytes_new)
  have fits: "unat (u16_le l0 l1) \<le> length body + 6" unfolding l len by (rule unat_of_nat_le)
  have type_down: "get_info_field_type (ctrl_field_new r) = DownType"
    by (simp add: get_info_field_type_def ctrl_field_new_def)
  show ?thesis
    unfolding bytes frame_try_from_parts
    using f fits by (auto simp: ctrl_byte.of_byte_to_byte type_down user_data_roundtrip [OF wa rt]
        frame_new_Ok l c body)
qed

section \<open>When reading a frame stops the thread\<close>

definition frame_body :: "u8 list \<Rightarrow> u8 list" where
  "frame_body bs = take (length bs - 6) (drop 4 bs)"

lemma frame_try_from_panics:
  "panics (frame_try_from bs) \<longleftrightarrow>
     6 \<le> length bs \<and> bs ! 0 = HEADER \<and> unat (u16_le (bs ! 1) (bs ! 2)) \<le> length bs
     \<and> (\<exists>cf. ctrl_field_try_from (bs ! 3) = Ok cf
          \<and> panics (user_data_from_bytes (get_info_field_type cf) (frame_body bs)))"
proof (cases "6 \<le> length bs")
  case True
  then obtain h l0 l1 c body k t where bs: "bs = [h, l0, l1, c] @ body @ [k, t]" by (rule frame_shape)
  have body: "frame_body bs = body" by (simp add: bs frame_body_def)
  have parts: "bs ! 0 = h" "bs ! 1 = l0" "bs ! 2 = l1" "bs ! 3 = c" "length bs = length body + 6"
    by (simp_all add: bs numeral_eq_Suc)
  show ?thesis
    unfolding body parts
    unfolding bs frame_try_from_parts by (auto simp: ctrl_byte.of_byte_no_panic)
next
  case False
  then show ?thesis using frame_try_from_short [of bs] by simp
qed

section \<open>Extraction from a receive buffer\<close>

lemma skip_to_header_eq:
  "pos \<le> length src \<Longrightarrow>
     skip_to_header src pos = pos + length (takeWhile (\<lambda>b. b \<noteq> HEADER) (drop pos src))"
proof (induction src pos rule: skip_to_header.induct)
  case (1 src pos)
  show ?case
  proof (cases "pos < length src \<and> src ! pos \<noteq> HEADER")
    case True
    then have "drop pos src = src ! pos # drop (pos + 1) src" by (simp add: Cons_nth_drop_Suc)
    with True 1 show ?thesis by (subst skip_to_header.simps) simp
  next
    case False
    with 1(2) show ?thesis
      by (subst skip_to_header.simps) (cases "pos < length src"; auto simp: Cons_nth_drop_Suc [symmetric])
  qed
qed

lemma skip_to_header_range: "pos \<le> length src \<Longrightarrow> pos \<le> skip_to_header src pos
    \<and> skip_to_header src pos \<le> length src"
  using length_takeWhile_le [of "\<lambda>b. b \<noteq> HEADER" "drop pos src"]
  by (simp add: skip_to_header_eq)

lemma skip_to_header_here: "pos < length src \<Longrightarrow> src ! pos = HEADER \<Longrightarrow> skip_to_header src pos = pos"
  by (subst skip_to_header.simps) simp

text \<open>The length the code reads, and the frame candidate, for a position inside the buffer.\<close>

definition frame_length_read :: "u8 list \<Rightarrow> nat" where
  "frame_length_read src = unat (u16_le (src ! 1) (src ! 2))"

lemma slice_1_3: "3 \<le> length src \<Longrightarrow> slice src 1 3 = Ok [src ! 1, src ! 2]"
  by (cases src; cases "tl src"; cases "tl (tl src)") (auto simp: slice_def numeral_eq_Suc)

lemma frame_parse_eq:
  assumes "pos \<le> length src"
  shows "frame_parse src pos =
    (let start = skip_to_header src pos in
     if length src < start + 3 \<or> length src < start + frame_length_read src then (start, Ok None)
     else (start + frame_length_read src,
           andThen (frame_try_from (take (frame_length_read src) (drop start src)))
             (\<lambda>f. Ok (Some f))))"
proof -
  let ?s = "skip_to_header src pos"
  have s: "?s \<le> length src" using skip_to_header_range [OF assms] by simp
  show ?thesis
  proof (cases "length src < ?s + 3")
    case True
    with s have "length src - ?s < 3" by linarith
    with True s show ?thesis
      by (simp add: frame_parse_def Let_def HEADER_SIZE_def usize_sub_def)
  next
    case False
    then have acc: "andThen (slice src 1 3) (u16_from_le ArrayLength) = Ok (u16_le (src ! 1) (src ! 2))"
      by (simp only: slice_1_3 andThen.simps u16_from_le.simps)
    from False s show ?thesis
      unfolding frame_parse_def Let_def HEADER_SIZE_def acc
      by (auto simp: usize_sub_def frame_length_read_def slice_def)
  qed
qed

text \<open>A frame at the start of the buffer is extracted whole, and only once it is complete.\<close>

lemma frame_parse_complete:
  assumes f: "frame_new r seq a d = Ok f" and wa: "well_addressed a d"
    and rt: "app_data_try_from (app_data_to_vec d) = Ok d" and len: "frame_total_length a d < 65536"
  shows "frame_parse (frame_to_bytes f @ rest) 0 = (frame_total_length a d, Ok (Some f))"
proof -
  obtain l0 l1 c body
    where bytes: "frame_to_bytes f = [HEADER, l0, l1, c] @ body @ [calc_checksum (c # body), TAIL]"
    and l: "u16_le l0 l1 = of_nat (frame_total_length a d)"
    and n: "length body + 6 = frame_total_length a d"
    using f by (rule frame_to_bytes_new)
  have read: "frame_length_read (frame_to_bytes f @ rest) = frame_total_length a d"
    using len by (simp add: frame_length_read_def bytes l unat_of_nat_u16)
  have skip: "skip_to_header (frame_to_bytes f @ rest) 0 = 0"
    by (rule skip_to_header_here) (simp_all add: bytes)
  have total: "length (frame_to_bytes f) = frame_total_length a d"
    using f by (rule length_frame_to_bytes_new)
  have "take (frame_total_length a d) (frame_to_bytes f @ rest) = frame_to_bytes f"
    using total by simp
  with total frame_total_length_min [of a d] frame_roundtrip_new [OF f wa rt] show ?thesis
    by (simp add: frame_parse_eq read skip Let_def)
qed

lemma frame_parse_incomplete:
  assumes f: "frame_new r seq a d = Ok f" and len: "frame_total_length a d < 65536"
    and n: "n < frame_total_length a d"
  shows "frame_parse (take n (frame_to_bytes f)) 0 = (0, Ok None)"
proof -
  obtain l0 l1 c body
    where bytes: "frame_to_bytes f = [HEADER, l0, l1, c] @ body @ [calc_checksum (c # body), TAIL]"
    and l: "u16_le l0 l1 = of_nat (frame_total_length a d)"
    and total: "length body + 6 = frame_total_length a d"
    using f by (rule frame_to_bytes_new)
  let ?src = "take n (frame_to_bytes f)"
  have lsrc: "length ?src = n" using n total by (simp add: bytes)
  have skip: "skip_to_header ?src 0 = 0"
  proof (cases n)
    case 0
    then show ?thesis by (subst skip_to_header.simps) simp
  next
    case (Suc m)
    then show ?thesis by (intro skip_to_header_here) (simp_all add: bytes)
  qed
  have read: "frame_length_read ?src = frame_total_length a d" if "3 \<le> n"
    using that len by (simp add: frame_length_read_def bytes l unat_of_nat_u16)
  show ?thesis
    using n lsrc read by (cases "n < 3") (simp_all add: frame_parse_eq skip Let_def)
qed

section \<open>Properties\<close>

text \<open>C5: Changing one byte of an accepted frame, other than its two length bytes, is always noticed.\<close>

theorem frame_corruption:
  assumes ok: "frame_try_from bs = Ok f" and i: "i < length bs" "i \<noteq> 1" "i \<noteq> 2" and b: "b \<noteq> bs ! i"
  shows "\<not> is_ok (frame_try_from (bs[i := b]))"
proof
  assume "is_ok (frame_try_from (bs[i := b]))"
  then obtain g where g: "frame_try_from (bs[i := b]) = Ok g" by (auto simp: is_ok_iff)
  note old = frame_try_from_checksum [OF ok]
  note new = frame_try_from_checksum [OF g]
  let ?n = "length bs"
  let ?body = "take (?n - 5) (drop 3 bs)"
  consider "i = 0" | "i = ?n - 1" | "i = ?n - 2" | "3 \<le> i" "i < ?n - 2"
    using i by linarith
  then show False
  proof cases
    case 1
    with new(2) old(2) b i show False by simp
  next
    case 2
    with new(3) old(3) b i show False by simp
  next
    case 3
    with old(1) have "take (?n - 5) (drop 3 (bs[i := b])) = ?body"
      by (simp add: drop_update_swap take_update_cancel)
    with new(4) old(4) b i 3 show False by simp
  next
    case 4
    have "take (?n - 5) (drop 3 (bs[i := b])) = ?body[i - 3 := b]"
      using 4 by (simp add: drop_update_swap take_update_swap)
    moreover have "calc_checksum (?body[i - 3 := b]) = calc_checksum ?body - bs ! i + b"
      using 4 old(1) by (subst calc_checksum_update) simp_all
    moreover have "bs[i := b] ! (?n - 2) = bs ! (?n - 2)" using 4 by simp
    ultimately show False using new(4) old(4) b by simp
  qed
qed


lemma sample_frame:
  obtains f where "frame_new False 7 None (app_data_new Init 2 None) = Ok f"
    and "frame_try_from (frame_to_bytes f) = Ok f" and "length (frame_to_bytes f) = 15"
    and "frame_to_bytes f ! 3 = 0x43" and "fr_ctrl_field f = ctrl_field_new False"
proof -
  obtain f where f: "frame_new False 7 None (app_data_new Init 2 None) = Ok f"
    by (auto simp: frame_new_Ok)
  moreover from this have "frame_try_from (frame_to_bytes f) = Ok f"
    by (rule frame_roundtrip_new) (simp_all add: well_addressed_def get_comm_mark_def)
  moreover from f have "length (frame_to_bytes f) = 15"
    by (simp add: length_frame_to_bytes_new frame_total_length_def frame_sizes INFO_FIELD_SIZE_def
        app_data_length_def AFN_SIZE_def DATA_FLAG_SIZE_def data_length_def)
  moreover from f have "frame_to_bytes f ! 3 = 0x43"
    by (rule frame_to_bytes_new) (simp add: ctrl_field_to_u8_def ctrl_field_new_def)
  moreover from f have "fr_ctrl_field f = ctrl_field_new False" by (rule frame_new_sel(2))
  ultimately show ?thesis by (rule that)
qed

theorem frame_corruption_witness:
  "\<exists>f. frame_try_from (frame_to_bytes f) = Ok f \<and> \<not> is_ok (frame_try_from ((frame_to_bytes f)[3 := 0x83]))"
proof (rule sample_frame)
  fix f
  assume "frame_try_from (frame_to_bytes f) = Ok f" "length (frame_to_bytes f) = 15"
    "frame_to_bytes f ! 3 = 0x43"
  then show ?thesis using frame_corruption [of "frame_to_bytes f" f 3 "0x83"] by auto
qed

text \<open>C4: A frame the service builds for a well-addressed message is accepted again from its bytes, with
  its sequence number, function code and number; it has the length of its parts, and it is a master's
  response exactly when it was built as a response.\<close>

theorem service_frame_roundtrip:
  assumes "frame_new r seq a (app_data_new x n units) = Ok f"
    and "well_addressed a (app_data_new x n units)" and "units \<noteq> Some []"
  shows "frame_try_from (frame_to_bytes f) = Ok f \<and> frame_get_seq f = seq \<and> frame_afn f = x
    \<and> frame_fn_num f = Ok n \<and> is_master_response f = r \<and> \<not> is_slave_report f
    \<and> length (frame_to_bytes f) = frame_total_length a (app_data_new x n units)"
  using frame_roundtrip_new [OF assms(1,2)] frame_new_sel [OF assms(1)] assms(3)
    length_frame_to_bytes_new [OF assms(1)] by simp

theorem service_frame_roundtrip_witness:
  "\<exists>f. frame_new_response 7 None (app_data_new RouteDataRead 2 (Some [0, 0, 0, 1, 1, 0x25])) = Ok f
     \<and> frame_try_from (frame_to_bytes f) = Ok f \<and> is_master_response f"
proof -
  obtain f where f: "frame_new True 7 None (app_data_new RouteDataRead 2 (Some [0, 0, 0, 1, 1, 0x25])) = Ok f"
    by (auto simp: frame_new_Ok)
  from service_frame_roundtrip [OF f] f show ?thesis
    by (auto simp: frame_new_response_def well_addressed_def get_comm_mark_def)
qed

text \<open>A frame of six to eleven bytes with a start byte, a length that does not exceed it and a valid
  control byte stops the thread that reads it: the information field is sliced from a user data field
  shorter than six bytes before the checksum is looked at.\<close>

theorem short_frame_panics:
  assumes "length body < 6" and "unat (u16_le l0 l1) \<le> length body + 6" and "is_ok (ctrl_field_try_from c)"
  shows "panics (frame_try_from ([HEADER, l0, l1, c] @ body @ [k, t]))"
  using assms user_data_panics_short [OF assms(1)]
  unfolding frame_try_from_parts by (auto simp: is_ok_iff)

theorem short_frame_panics_witness: "panics (frame_try_from [0x68, 6, 0, 0x43, 0x43, 0x16])"
proof -
  have "ctrl_field_to_u8 (ctrl_field_new False) = 0x43" by (simp add: ctrl_field_to_u8_def ctrl_field_new_def)
  then have "is_ok (ctrl_field_try_from 0x43)"
    using ctrl_byte.of_byte_to_byte [of "ctrl_field_new False"] by simp
  then show ?thesis
    using short_frame_panics [of "[]" 6 0 "0x43" "0x43" "0x16"] by (simp add: u16_le_def HEADER_def)
qed

text \<open>C26: A longer frame stops the reader exactly when it has a start byte, a length that does not exceed
  it, a valid control byte, and user data with a known function code and a zero mark: the checksum
  does not protect from this, because it is compared last.\<close>

theorem frame_panics_iff:
  assumes "12 \<le> length bs"
  shows "panics (frame_try_from bs) \<longleftrightarrow>
     bs ! 0 = HEADER \<and> unat (u16_le (bs ! 1) (bs ! 2)) \<le> length bs
     \<and> (\<exists>cf info. ctrl_field_try_from (bs ! 3) = Ok cf
          \<and> info_field_from_bytes (get_info_field_type cf) (take 6 (frame_body bs)) = Ok info
          \<and> app_data_offset info + 3 \<le> length (frame_body bs)
          \<and> is_ok (afn_try_from (frame_body bs ! app_data_offset info))
          \<and> frame_body bs ! (app_data_offset info + 1) = 0)"
proof -
  have len: "6 \<le> length (frame_body bs)" using assms by (simp add: frame_body_def)
  then have "length (take 6 (frame_body bs)) = 6" by simp
  then have "\<exists>info. info_field_from_bytes t (take 6 (frame_body bs)) = Ok info" for t
    by (rule info_field_from_bytes_total)
  then show ?thesis
    using assms user_data_panics_iff [OF len] unfolding frame_try_from_panics by fastforce
qed

theorem frame_panics_iff_witness:
  "panics (frame_try_from [0x68, 15, 0, 0x43, 0, 0, 0, 0, 0, 0, 1, 0, 0, 0, 0])"
proof -
  let ?bs = "[0x68, 15, 0, 0x43, 0, 0, 0, 0, 0, 0, 1, 0, 0, 0, 0 :: u8]"
  have "ctrl_field_to_u8 (ctrl_field_new False) = 0x43" by (simp add: ctrl_field_to_u8_def ctrl_field_new_def)
  then have ctrl: "ctrl_field_try_from (?bs ! 3) = Ok (ctrl_field_new False)"
    using ctrl_byte.of_byte_to_byte [of "ctrl_field_new False"] by simp
  have info: "info_field_from_bytes DownType (take 6 (frame_body ?bs)) = Ok (Down info_field_down_default)"
    by (simp add: frame_body_def info_field_from_bytes.simps info_field_down_try_from_def
        info_field_down_default_def u16_le_def)
  have "is_ok (afn_try_from 1)" using afn_byte.of_byte_to_byte [of Init] by simp
  with ctrl info show ?thesis
    using frame_panics_iff [of ?bs]
    by (auto simp: HEADER_def u16_le_def frame_body_def app_data_offset_def INFO_FIELD_SIZE_def
        info_field_down_default_def get_info_field_type_def ctrl_field_new_def)
qed

text \<open>C7: One stray byte before a frame of the usual size, and the length is read from the start byte and
  the low length byte: the frame is not extracted before \<open>104 + 256 * n\<close> bytes have followed.\<close>

theorem frame_parse_stray_byte:
  assumes f: "frame_new r seq a d = Ok f" and n: "n = frame_total_length a d" "n < 256"
    and g: "g \<noteq> HEADER" and few: "n + length rest < 104 + 256 * n"
  shows "frame_parse (g # frame_to_bytes f @ rest) 0 = (1, Ok None)"
proof -
  obtain l0 l1 c body
    where bytes: "frame_to_bytes f = [HEADER, l0, l1, c] @ body @ [calc_checksum (c # body), TAIL]"
    and l: "u16_le l0 l1 = of_nat n" and total: "length body + 6 = n"
    using f unfolding n(1) by (rule frame_to_bytes_new)
  let ?src = "g # frame_to_bytes f @ rest"
  have "ucast (u16_le l0 l1) = l0"
    using u16_to_le_of_le [of l0 l1] by (simp add: u16_to_le_def)
  moreover have "ucast (of_nat n :: u16) = (of_nat n :: u8)"
    by (simp add: unsigned_of_nat word_of_nat_eq_iff)
  ultimately have l0: "l0 = of_nat n" by (simp add: l)
  have "u16_le HEADER l0 = ucast HEADER + ucast l0 * 256"
  proof -
    have "ucast HEADER AND push_bit 8 (ucast l0) = (0 :: u16)"
      by (rule bit_word_eqI) (auto simp: bit_and_iff bit_push_bit_iff bit_ucast_iff dest: bit_imp_le_length)
    then show ?thesis
      unfolding u16_le_def by (simp add: disjunctive_add_eq_or [symmetric] push_bit_eq_mult)
  qed
  also have "... = of_nat (104 + 256 * n)"
    using n(2) by (simp add: l0 HEADER_def unsigned_of_nat take_bit_nat_eq_self)
  finally have read: "frame_length_read ?src = 104 + 256 * n"
    using n(2) by (simp only: frame_length_read_def bytes nth_Cons_Suc One_nat_def nth_Cons_0
        numeral_2_eq_2 append_Cons) (subst unat_of_nat_u16; simp)
  have skip: "skip_to_header ?src 0 = 1"
    using g by (simp add: skip_to_header_eq bytes)
  have lsrc: "length ?src = 1 + n + length rest" by (simp add: bytes total [symmetric])
  show ?thesis
    using few lsrc read frame_total_length_min [of a d] n(1)
    by (simp add: frame_parse_eq skip Let_def)
qed


theorem frame_parse_stray_byte_witness:
  "\<exists>f. frame_new False 7 None (app_data_new Init 2 None) = Ok f
     \<and> frame_parse (0 # frame_to_bytes f @ frame_to_bytes f) 0 = (1, Ok None)"
proof (rule sample_frame)
  fix f
  assume f: "frame_new False 7 None (app_data_new Init 2 None) = Ok f"
    and len: "length (frame_to_bytes f) = 15"
  have "frame_total_length None (app_data_new Init 2 None) = 15"
    using len length_frame_to_bytes_new [OF f] by simp
  with f len show ?thesis
    using frame_parse_stray_byte [OF f, of 15 0 "frame_to_bytes f"] by (auto simp: HEADER_def)
qed

end
