(* ===== verification/Stream_Reader.thy ===== *)
theory Stream_Reader
  imports Frame_Codec
begin

text \<open>
  src/src/serial_port.rs: the reader of the serial line. \<open>parse_frame\<close> runs \<open>frame_parse\<close> on the
  receive buffer and drops the bytes of an extracted frame; \<open>read_response\<close> is its loop around
  \<^verbatim>\<open>stream.read\<close>, whose results are the list of events; \<open>reader_run\<close> is the loop of the thread
  \<^verbatim>\<open>uart_handler_thread\<close> of src/src/uart_agent.rs, which asks for one frame after another and ends at
  the first error. Opening the port (\<^verbatim>\<open>open\<close>, \<^verbatim>\<open>UartPort::new\<close>) is left out.

  The main fact is \<open>reader_reassembles\<close>: however the line cuts a sequence of frames into reads, the
  reader delivers exactly these frames.
\<close>

text \<open>One \<^verbatim>\<open>stream.read\<close>: the bytes it put into its buffer of 1024 (none at the end of the stream), or
  an error of the operating system.\<close>

datatype read_event = Bytes "u8 list" | ReadError error

definition parse_frame :: "u8 list \<Rightarrow> u8 list \<times> frame option result" where
  "parse_frame buffer =
     (case frame_parse buffer 0 of
        (pos, Ok (Some f)) \<Rightarrow> (drop pos buffer, Ok (Some f))
      | (pos, Ok None) \<Rightarrow> (buffer, Ok None)
      | (pos, Err e) \<Rightarrow> (buffer, Err e)
      | (pos, Panic p) \<Rightarrow> (buffer, Panic p))"

text \<open>\<open>None\<close>: the call still waits for the line when the events are used up.\<close>

fun read_response ::
    "u8 list \<Rightarrow> read_event list \<Rightarrow> u8 list \<times> read_event list \<times> frame option result option" where
  "read_response buffer [] =
     (case parse_frame buffer of
        (buffer', Ok (Some f)) \<Rightarrow> (buffer', [], Some (Ok (Some f)))
      | (buffer', Ok None) \<Rightarrow> (buffer', [], None)
      | (buffer', Err e) \<Rightarrow> (buffer', [], Some (Err e))
      | (buffer', Panic p) \<Rightarrow> (buffer', [], Some (Panic p)))"
| "read_response buffer (ev # events) =
     (case parse_frame buffer of
        (buffer', Ok (Some f)) \<Rightarrow> (buffer', ev # events, Some (Ok (Some f)))
      | (buffer', Err e) \<Rightarrow> (buffer', ev # events, Some (Err e))
      | (buffer', Panic p) \<Rightarrow> (buffer', ev # events, Some (Panic p))
      | (buffer', Ok None) \<Rightarrow>
          (case ev of
             ReadError e \<Rightarrow> (buffer', events, Some (Err e))
           | Bytes [] \<Rightarrow>
               (buffer', events,
                Some (Err (Message
                  (if buffer' = [] then ''connection close'' else ''connection reset by perr''))))
           | Bytes (b # bs) \<Rightarrow> read_response (buffer' @ b # bs) events))"

datatype reader_end = Waiting "u8 list" | Stopped error | Crashed fault

lemma frame_try_from_min: "frame_try_from bs = Ok f \<Longrightarrow> 6 \<le> length bs"
  by (rule frame_try_from_checksum(1))

lemma parse_frame_shrinks: "parse_frame buffer = (buffer', Ok (Some f)) \<Longrightarrow> length buffer' < length buffer"
proof -
  assume parse: "parse_frame buffer = (buffer', Ok (Some f))"
  then obtain pos where "frame_parse buffer 0 = (pos, Ok (Some f))" and b: "buffer' = drop pos buffer"
    by (auto simp: parse_frame_def split: prod.splits outcome.splits option.splits)
  then have "pos = skip_to_header buffer 0 + frame_length_read buffer"
    and le: "pos \<le> length buffer"
    and accepted: "frame_try_from (take (frame_length_read buffer) (drop (skip_to_header buffer 0) buffer)) = Ok f"
    by (auto simp: frame_parse_eq Let_def split: if_splits)
  with frame_try_from_min [OF accepted] have "0 < pos" by simp
  with le b show ?thesis by simp
qed

lemma read_response_shrinks:
  "read_response buffer events = (buffer', events', Some (Ok (Some f))) \<Longrightarrow>
     length events' < length events \<or> length events' = length events \<and> length buffer' < length buffer"
proof (induction buffer events rule: read_response.induct)
  case (1 buffer)
  then show ?case
    using parse_frame_shrinks [of buffer buffer' f]
    by (auto split: prod.splits outcome.splits option.splits)
next
  case (2 buffer ev events)
  obtain b r where parse: "parse_frame buffer = (b, r)" by fastforce
  show ?case
  proof (cases r)
    case (Ok fo)
    show ?thesis
    proof (cases fo)
      case None
      show ?thesis
      proof (cases "\<exists>c cs. ev = Bytes (c # cs)")
        case True
        then obtain c cs where ev: "ev = Bytes (c # cs)" by blast
        from 2(2) parse Ok None ev
        have "read_response (b @ c # cs) events = (buffer', events', Some (Ok (Some f)))" by simp
        with 2(1) [OF parse [symmetric] Ok None ev refl] show ?thesis by auto
      next
        case False
        with 2(2) parse Ok None show ?thesis by (auto split: read_event.splits list.splits)
      qed
    next
      case (Some g)
      with 2 parse Ok show ?thesis using parse_frame_shrinks [of buffer b g] by auto
    qed
  qed (use 2 parse in auto)
qed

function reader_run :: "u8 list \<Rightarrow> read_event list \<Rightarrow> frame list \<times> reader_end" where
  "reader_run buffer events =
     (case read_response buffer events of
        (buffer', events', None) \<Rightarrow> ([], Waiting buffer')
      | (buffer', events', Some (Err e)) \<Rightarrow> ([], Stopped e)
      | (buffer', events', Some (Panic p)) \<Rightarrow> ([], Crashed p)
      | (buffer', events', Some (Ok None)) \<Rightarrow> ([], Waiting buffer') \<comment> \<open>never returned\<close>
      | (buffer', events', Some (Ok (Some f))) \<Rightarrow>
          (let (fs, end_state) = reader_run buffer' events' in (f # fs, end_state)))"
  by pat_completeness auto
termination
  by (relation "measures [\<lambda>(buffer, events). length events, \<lambda>(buffer, events). length buffer]")
     (auto dest: read_response_shrinks [OF sym])

declare reader_run.simps [simp del]

section \<open>Frames on the wire\<close>

text \<open>The bytes of one frame: accepted, and their length field is their length.\<close>

definition wire_frame :: "frame \<Rightarrow> u8 list \<Rightarrow> bool" where
  "wire_frame f bs \<longleftrightarrow> frame_try_from bs = Ok f \<and> frame_length_read bs = length bs"

lemma wire_frame_min: "wire_frame f bs \<Longrightarrow> 6 \<le> length bs"
  by (auto simp: wire_frame_def dest: frame_try_from_min)

lemma wire_frame_header: "wire_frame f bs \<Longrightarrow> bs ! 0 = HEADER"
  by (auto simp: wire_frame_def dest: frame_try_from_checksum(2))

lemma wire_frame_skip:
  assumes "wire_frame f bs" and "0 < n"
  shows "skip_to_header (take n bs @ rest) 0 = 0"
  using wire_frame_min [OF assms(1)] wire_frame_header [OF assms(1)] assms(2)
  by (intro skip_to_header_here) (auto simp: nth_append)

lemma frame_parse_wire:
  assumes "wire_frame f bs"
  shows "frame_parse (bs @ rest) 0 = (length bs, Ok (Some f))"
proof -
  have min: "6 \<le> length bs" using assms by (rule wire_frame_min)
  have skip: "skip_to_header (bs @ rest) 0 = 0"
    using wire_frame_skip [OF assms, of "length bs" rest] min by force
  have read: "frame_length_read (bs @ rest) = length bs"
    using assms min by (simp add: wire_frame_def frame_length_read_def nth_append)
  from min assms show ?thesis
    by (simp add: frame_parse_eq skip read Let_def wire_frame_def)
qed

lemma frame_parse_wire_prefix:
  assumes "wire_frame f bs" and n: "n < length bs"
  shows "frame_parse (take n bs) 0 = (0, Ok None)"
proof -
  have skip: "skip_to_header (take n bs) 0 = 0"
  proof (cases n)
    case 0
    then show ?thesis by (subst skip_to_header.simps) simp
  next
    case (Suc m)
    then show ?thesis using wire_frame_skip [OF assms(1), of n "[]"] by simp
  qed
  have read: "frame_length_read (take n bs) = length bs" if "3 \<le> n"
    using that assms by (simp add: wire_frame_def frame_length_read_def)
  show ?thesis
    using n read by (cases "n < 3") (simp_all add: frame_parse_eq skip Let_def)
qed

lemma parse_frame_wire: "wire_frame f bs \<Longrightarrow> parse_frame (bs @ rest) = (rest, Ok (Some f))"
  by (simp add: parse_frame_def frame_parse_wire)

lemma parse_frame_wire_prefix:
  "wire_frame f bs \<Longrightarrow> n < length bs \<Longrightarrow> parse_frame (take n bs) = (take n bs, Ok None)"
  by (simp add: parse_frame_def frame_parse_wire_prefix)

lemma parse_frame_Nil: "parse_frame [] = ([], Ok None)"
proof -
  have "skip_to_header [] 0 = 0" by (subst skip_to_header.simps) simp
  then show ?thesis by (simp add: parse_frame_def frame_parse_eq Let_def)
qed

lemma read_response_frame:
  "parse_frame buffer = (buffer', Ok (Some f)) \<Longrightarrow>
     read_response buffer events = (buffer', events, Some (Ok (Some f)))"
  by (cases events) simp_all

lemma reader_run_frame:
  "parse_frame buffer = (buffer', Ok (Some f)) \<Longrightarrow>
     reader_run buffer events = (let (fs, end_state) = reader_run buffer' events in (f # fs, end_state))"
  by (subst reader_run.simps) (simp add: read_response_frame)

lemma reader_run_more:
  assumes "parse_frame buffer = (buffer, Ok None)" and "bs \<noteq> []"
  shows "reader_run buffer (Bytes bs # events) = reader_run (buffer @ bs) events"
proof -
  have "read_response buffer (Bytes bs # events) = read_response (buffer @ bs) events"
    using assms by (cases bs) simp_all
  then show ?thesis
    by (simp only: reader_run.simps [of buffer "Bytes bs # events"] reader_run.simps [of "buffer @ bs" events])
qed

section \<open>Well-formed frames\<close>

text \<open>Frames of either direction whose bytes are such a wire frame: the header length and the checksum
  are those of the content, the control byte names the direction of the information field.\<close>

definition frame_ok :: "frame \<Rightarrow> bool" where
  "frame_ok f \<longleftrightarrow>
     header_byte (fr_header f) = HEADER
     \<and> FRAME_SIZE + user_data_length (fr_user_data f) = unat (header_length (fr_header f))
     \<and> get_info_field_type (fr_ctrl_field f) = info_field_get_type (ud_info_field (fr_user_data f))
     \<and> user_data_ok (fr_user_data f)
     \<and> fr_checksum f =
         calc_checksum (ctrl_field_to_u8 (fr_ctrl_field f) # user_data_to_vec (fr_user_data f))
     \<and> fr_tail f = TAIL"

lemma frame_ok_wire:
  assumes ok: "frame_ok f"
  shows "wire_frame f (frame_to_bytes f)"
proof -
  let ?u = "fr_user_data f"
  let ?l = "header_length (fr_header f)"
  let ?c = "ctrl_field_to_u8 (fr_ctrl_field f)"
  have bytes: "frame_to_bytes f = [HEADER, ucast ?l, ucast (drop_bit 8 ?l), ?c] @ user_data_to_vec ?u
      @ [calc_checksum (?c # user_data_to_vec ?u), TAIL]"
    using ok by (simp add: frame_to_bytes_def header_to_vec_def u16_to_le_def frame_ok_def)
  have len: "length (user_data_to_vec ?u) + 6 = unat ?l"
    using ok by (simp add: length_user_data_to_vec frame_ok_def frame_sizes)
  have ud: "user_data_from_bytes (get_info_field_type (fr_ctrl_field f)) (user_data_to_vec ?u) = Ok ?u"
    using ok user_data_reads_back [of ?u] by (simp add: frame_ok_def)
  have "frame_try_from (frame_to_bytes f) = Ok f"
    unfolding bytes frame_try_from_parts
    using ok len ud by (simp add: ctrl_byte.of_byte_to_byte frame_ok_def)
  moreover have "frame_length_read (frame_to_bytes f) = length (frame_to_bytes f)"
    using len by (simp add: bytes frame_length_read_def)
  ultimately show ?thesis by (simp add: wire_frame_def)
qed

lemma frame_new_frame_ok:
  assumes "frame_new r seq a d = Ok f" and "well_addressed a d"
    and "app_data_try_from (app_data_to_vec d) = Ok d" and "frame_total_length a d < 65536"
  shows "frame_ok f"
proof -
  let ?n = "frame_total_length a d"
  have len: "FRAME_SIZE + user_data_length (user_data_new seq a d) = ?n"
    by (simp only: frame_total_length_new [of a d seq])
  have "unat (of_nat ?n :: u16) = ?n" using assms(4) by (rule unat_of_nat_u16)
  with assms(1) len user_data_new_ok [OF assms(2,3), of seq] show ?thesis
    by (auto simp: frame_new_Ok frame_ok_def get_info_field_type_def ctrl_field_new_def)
qed

section \<open>Reassembly\<close>

lemma reader_reassembles:
  assumes "list_all2 wire_frame fs wires" and "concat wires = buffer @ concat pieces"
    and "[] \<notin> set pieces"
  shows "reader_run buffer (map Bytes pieces) = (fs, Waiting [])"
  using assms
proof (induction "length pieces + length fs" arbitrary: fs wires buffer pieces rule: less_induct)
  case less
  show ?case
  proof (cases fs)
    case Nil
    with less.prems have "buffer = []" "concat pieces = []" by auto
    with less.prems(3) have "pieces = []" by (cases pieces) auto
    with \<open>buffer = []\<close> Nil show ?thesis
      by (subst reader_run.simps) (simp add: parse_frame_Nil)
  next
    case (Cons f fs')
    with less.prems(1) obtain w ws where wires: "wires = w # ws" and w: "wire_frame f w"
      and ws: "list_all2 wire_frame fs' ws"
      by (auto simp: list_all2_Cons1)
    show ?thesis
    proof (cases "length w \<le> length buffer")
      case True
      have "take (length w) (concat wires) = w" by (simp add: wires)
      with True less.prems(2) have "take (length w) buffer = w" by simp
      then obtain rest where buffer: "buffer = w @ rest" by (metis append_take_drop_id)
      have "reader_run rest (map Bytes pieces) = (fs', Waiting [])"
        by (rule less.hyps [OF _ ws]) (use less.prems buffer wires Cons in auto)
      then show ?thesis
        using reader_run_frame [OF parse_frame_wire [OF w]] by (simp add: buffer Cons)
    next
      case False
      have "take (length buffer) (concat wires) = take (length buffer) w" using False by (simp add: wires)
      with less.prems(2) have buffer: "take (length buffer) w = buffer" by simp
      have none: "parse_frame buffer = (buffer, Ok None)"
        using parse_frame_wire_prefix [OF w, of "length buffer"] False buffer by simp
      have "pieces \<noteq> []"
        using False less.prems(2) wires by (auto dest: arg_cong [where f = length])
      then obtain c cs where pieces: "pieces = c # cs" by (cases pieces) auto
      with less.prems(3) have "c \<noteq> []" by auto
      have "reader_run (buffer @ c) (map Bytes cs) = (fs, Waiting [])"
        by (rule less.hyps [OF _ less.prems(1)]) (use less.prems pieces in auto)
      with reader_run_more [OF none \<open>c \<noteq> []\<close>] show ?thesis by (simp add: pieces)
    qed
  qed
qed


section \<open>Properties\<close>

text \<open>C1: However the serial line cuts a sequence of well-formed frames of either direction into reads,
  the reading thread delivers exactly these frames, in order and each once, and then waits for more
  with an empty buffer.\<close>

theorem reader_reassembles_frames:
  assumes "\<forall>f \<in> set fs. frame_ok f" and "concat pieces = concat (map frame_to_bytes fs)"
    and "[] \<notin> set pieces"
  shows "reader_run [] (map Bytes pieces) = (fs, Waiting [])"
proof (rule reader_reassembles [where wires = "map frame_to_bytes fs"])
  show "list_all2 wire_frame fs (map frame_to_bytes fs)"
    using assms(1) by (auto simp: list.rel_map list_all2_same intro: frame_ok_wire)
qed (use assms in auto)


theorem reader_reassembles_frames_witness:
  "\<exists>f. frame_new False 7 None (app_data_new Init 2 None) = Ok f
     \<and> reader_run [] (map Bytes [take 5 (frame_to_bytes f), drop 5 (frame_to_bytes f) @ frame_to_bytes f])
         = ([f, f], Waiting [])"
proof (rule sample_frame)
  fix f
  assume f: "frame_new False 7 None (app_data_new Init 2 None) = Ok f"
    and len: "length (frame_to_bytes f) = 15"
  have "frame_total_length None (app_data_new Init 2 None) = 15"
    using len length_frame_to_bytes_new [OF f] by simp
  then have "frame_ok f"
    using f by (intro frame_new_frame_ok [OF f]) (simp_all add: well_addressed_def get_comm_mark_def)
  moreover have "take 5 (frame_to_bytes f) \<noteq> []" "drop 5 (frame_to_bytes f) @ frame_to_bytes f \<noteq> []"
    using len by auto
  ultimately show ?thesis
    using f reader_reassembles_frames [of "[f, f]"
        "[take 5 (frame_to_bytes f), drop 5 (frame_to_bytes f) @ frame_to_bytes f]"]
    by auto
qed

end
