(* ===== verification/Mqtt_Messages.thy ===== *)
theory Mqtt_Messages
  imports Message_Codecs Frame_Codec
begin

text \<open>
  src/src/mqtt_topic.rs and src/src/mqtt_message.rs: topics, payloads and messages of the MQTT side.

  \<^item> A JSON document is a value of \<open>json\<close>, an object its list of entries. The payload of a message is
    a text in the code; here it is what \<^verbatim>\<open>serde_json::from_str\<close> makes of it, \<open>None\<close> for a text that is
    no JSON. No key comes twice in an object, and a struct is read from an object only (serde also takes an
    array of its fields).
  \<^item> \<open>env\<close> collects what the libraries answer: the time stamp of \<^verbatim>\<open>chrono\<close>, the texts of the errors
    of the libraries, \<^verbatim>\<open>hex::encode\<close> and \<^verbatim>\<open>hex::decode\<close>.
  \<^item> The counter \<^verbatim>\<open>TOKEN\<close> is threaded through the constructors that use it.
\<close>

section \<open>Libraries\<close>

datatype json =
    JNull | JBool bool | JNum int | JFloat string | JStr string
  | JArr "json list" | JObj "(string \<times> json) list"

fun json_index :: "json \<Rightarrow> string \<Rightarrow> json" where
  "json_index (JObj entries) key = (case map_of entries key of Some v \<Rightarrow> v | None \<Rightarrow> JNull)"
| "json_index _ key = JNull"

fun as_u64 :: "json \<Rightarrow> nat option" where
  "as_u64 (JNum n) = (if 0 \<le> n \<and> n < 2 ^ 64 then Some (nat n) else None)"
| "as_u64 _ = None"

fun as_str :: "json \<Rightarrow> string option" where
  "as_str (JStr s) = Some s"
| "as_str _ = None"

text \<open>A required field of type \<^verbatim>\<open>String\<close> of a \<^verbatim>\<open>#[derive(Deserialize)]\<close> struct.\<close>

fun string_field :: "json \<Rightarrow> string \<Rightarrow> string result" where
  "string_field (JObj entries) key =
     (case map_of entries key of Some (JStr s) \<Rightarrow> Ok s | _ \<Rightarrow> Err InvalidJsonText)"
| "string_field _ key = Err InvalidJsonText"

record env =
  env_now :: string
  env_library_text :: "error \<Rightarrow> string"
  env_hex_encode :: "u8 list \<Rightarrow> string"
  env_hex_decode :: "string \<Rightarrow> u8 list option"

section \<open>Topics\<close>

definition APP_NAME :: string where "APP_NAME = ''PLCServiceGW''"

datatype mqtt_topic_operator = SetOp | GetOp | ActionOp | NotifyOp
datatype mqtt_topic_info_type = Request | Response | Event | Spont

definition operator_try_from :: "string \<Rightarrow> mqtt_topic_operator result" where
  "operator_try_from v =
     (if v = ''set'' then Ok SetOp
      else if v = ''get'' then Ok GetOp
      else if v = ''action'' then Ok ActionOp
      else if v = ''notify'' then Ok NotifyOp
      else Err (TopicErr (OperatorError v)))"

fun operator_to_string :: "mqtt_topic_operator \<Rightarrow> string" where
  "operator_to_string SetOp = ''set''"
| "operator_to_string GetOp = ''get''"
| "operator_to_string ActionOp = ''action''"
| "operator_to_string NotifyOp = ''notify''"

definition info_type_try_from :: "string \<Rightarrow> mqtt_topic_info_type result" where
  "info_type_try_from v =
     (if v = ''request'' then Ok Request
      else if v = ''response'' then Ok Response
      else if v = ''event'' then Ok Event
      else if v = ''spont'' then Ok Spont
      else Err (TopicErr (InfoTypeError v)))"

fun info_type_to_string :: "mqtt_topic_info_type \<Rightarrow> string" where
  "info_type_to_string Request = ''request''"
| "info_type_to_string Response = ''response''"
| "info_type_to_string Event = ''event''"
| "info_type_to_string Spont = ''spont''"

record mqtt_topic =
  mt_app :: string
  mt_operator :: mqtt_topic_operator
  mt_info_type :: mqtt_topic_info_type
  mt_info_target :: string
  mt_info_object :: string

text \<open>\<^verbatim>\<open>str::split\<close> with a character.\<close>

fun split_char :: "char \<Rightarrow> string \<Rightarrow> string list" where
  "split_char c [] = [[]]"
| "split_char c (x # xs) =
     (if x = c then [] # split_char c xs
      else (case split_char c xs of [] \<Rightarrow> [[x]] | p # ps \<Rightarrow> (x # p) # ps))"

definition mqtt_topic_try_from :: "string \<Rightarrow> mqtt_topic result" where
  "mqtt_topic_try_from value =
     (let parts = split_char CHR ''/'' value in
      andThen (ensure (length parts = 5) (TopicErr (TopicFormatError value))) (\<lambda>_.
      andThen (ensure (parts ! 3 = APP_NAME \<or> parts ! 0 = APP_NAME)
                 (TopicErr (InfoTargetError (parts ! 3 @ ''|'' @ parts ! 0)))) (\<lambda>_.
      andThen (operator_try_from (parts ! 1)) (\<lambda>operator.
      andThen (info_type_try_from (parts ! 2)) (\<lambda>info_type.
      Ok \<lparr>mt_app = parts ! 0, mt_operator = operator, mt_info_type = info_type,
          mt_info_target = parts ! 3, mt_info_object = parts ! 4\<rparr>)))))"

definition mqtt_topic_to_string :: "mqtt_topic \<Rightarrow> string" where
  "mqtt_topic_to_string t =
     join_with ''/'' [mt_app t, operator_to_string (mt_operator t), info_type_to_string (mt_info_type t),
       mt_info_target t, mt_info_object t]"

definition topic_app_suffix :: "mqtt_topic \<Rightarrow> string" where
  "topic_app_suffix t =
     join_with ''/'' [operator_to_string (mt_operator t), info_type_to_string (mt_info_type t),
       mt_info_target t, mt_info_object t]"

definition topic_transfer :: "mqtt_topic \<Rightarrow> string" where
  "topic_transfer t =
     (case mt_info_type t of
        Request \<Rightarrow>
          join_with ''/'' [mt_info_target t, operator_to_string (mt_operator t),
            info_type_to_string Response, mt_app t, mt_info_object t]
      | _ \<Rightarrow>
          join_with ''/'' [mt_info_target t, operator_to_string (mt_operator t),
            info_type_to_string (mt_info_type t), mt_app t, mt_info_object t])"

definition transfer_topic :: "string \<Rightarrow> string result" where
  "transfer_topic topic = andThen (unwrap (mqtt_topic_try_from topic)) (\<lambda>t. Ok (topic_transfer t))"

definition get_app :: "string \<Rightarrow> string result" where
  "get_app topic = (case split_char CHR ''/'' topic of [] \<Rightarrow> Panic UnwrapOnNone | p # ps \<Rightarrow> Ok p)"

definition get_info_target :: "string \<Rightarrow> string result" where
  "get_info_target topic =
     (let parts = split_char CHR ''/'' topic in
      if 3 < length parts then Ok (parts ! 3) else Panic UnwrapOnNone)"

section \<open>Error texts\<close>

fun afn_text :: "afn \<Rightarrow> string" where
  "afn_text Answer = ''Answer''"
| "afn_text Init = ''Init''"
| "afn_text DataForward = ''DataForward''"
| "afn_text QueryData = ''QueryData''"
| "afn_text PortCheck = ''PortCheck''"
| "afn_text CtrlCmd = ''CtrlCmd''"
| "afn_text Report = ''Report''"
| "afn_text RouteGet = ''RouteGet''"
| "afn_text RouteSet = ''RouteSet''"
| "afn_text RouteCtrl = ''RouteCtrl''"
| "afn_text RouteDataForward = ''RouteDataForward''"
| "afn_text RouteDataRead = ''RouteDataRead''"
| "afn_text FileTransfer = ''FileTransfer''"
| "afn_text Debug = ''Debug''"
| "afn_text CocurrentReadMeter = ''CocurrentReadMeter''"
| "afn_text Test = ''Test''"

definition lower_hex_digit :: "nat \<Rightarrow> char" where
  "lower_hex_digit n = (if n < 10 then char_of (48 + n) else char_of (87 + n))"

text \<open>\<^verbatim>\<open>{:02x}\<close>, and \<^verbatim>\<open>{:#02x}\<close> (whose width of 2 the prefix already fills).\<close>

definition lower_hex2 :: "u8 \<Rightarrow> string" where
  "lower_hex2 b = [lower_hex_digit (unat b div 16), lower_hex_digit (unat b mod 16)]"

definition prefixed_hex :: "u8 \<Rightarrow> string" where
  "prefixed_hex b = ''0x'' @ (if b < 16 then [lower_hex_digit (unat b)] else lower_hex2 b)"

fun frame_error_text :: "frame_error \<Rightarrow> string" where
  "frame_error_text (LengthError n) = ''length '' @ decimal n @ '' error''"
| "frame_error_text (HeaderError b) = ''header '' @ decimal (unat b) @ '' error''"
| "frame_error_text (ChecksumError c e) =
     ''checksum '' @ lower_hex2 c @ '' error, expected '' @ lower_hex2 e"
| "frame_error_text (TailError b) = ''tail '' @ decimal (unat b) @ '' error''"

fun app_data_error_text :: "app_data_error \<Rightarrow> string" where
  "app_data_error_text (AfnError a) = ''invalid afn '' @ afn_text a"
| "app_data_error_text (FnNumError n) = ''invalid fn '' @ decimal (unat n)"
| "app_data_error_text (DataLengthError n) = ''invalid data unit length '' @ decimal n"

fun topic_error_text :: "topic_error \<Rightarrow> string" where
  "topic_error_text (OperatorError v) = ''invalid operator '' @ v"
| "topic_error_text (InfoTypeError v) = ''invalid info type '' @ v"
| "topic_error_text (InfoTargetError v) = ''invalid info target '' @ v"
| "topic_error_text (TopicFormatError v) = ''invalid topic '' @ v"

fun concurrent_meter_error_text :: "concurrent_meter_error \<Rightarrow> string" where
  "concurrent_meter_error_text (AddrLimit n) = ''concurrent addr exceed limit '' @ decimal n"
| "concurrent_meter_error_text (QueueLimit n) = ''addr queue size exceed limit '' @ decimal n"
| "concurrent_meter_error_text MeterReading = ''Meter reading failed. Cco response data empty''"

fun mqtt_response_error_text :: "mqtt_response_error \<Rightarrow> string" where
  "mqtt_response_error_text RequestTimeout = ''request timeout''"
| "mqtt_response_error_text ModelOffline = ''model is pullout or initializing''"
| "mqtt_response_error_text (InvalidJson v) = ''invalid json request: '' @ v"
| "mqtt_response_error_text InvalidUpgradeFile = ''File is not exist''"
| "mqtt_response_error_text AlreadyUpgrading = ''already upgrading''"

fun node_config_error_text :: "node_config_error \<Rightarrow> string" where
  "node_config_error_text (NodeNotFound a) = ''acq addr '' @ a @ '' not found''"
| "node_config_error_text (TypeMismatch x y) = ''pro type mismatch, expected '' @ x @ '', got '' @ y"

fun plc_init_error_text :: "plc_init_error \<Rightarrow> string" where
  "plc_init_error_text InitTimeout = ''init timeout''"
| "plc_init_error_text InvalidEvent = ''unexpected event type''"

fun uart_handler_error_text :: "uart_handler_error \<Rightarrow> string" where
  "uart_handler_error_text (UnsupportedAfn a) = ''unsupported afn: '' @ prefixed_hex (afn_to_u8 a)"
| "uart_handler_error_text (UnsupportedAfnFn a n) =
     ''unsupported afn: '' @ prefixed_hex (afn_to_u8 a) @ '', fn: '' @ decimal (unat n)"
| "uart_handler_error_text NoOriginReqKey = ''no origin req key''"

fun error_text :: "env \<Rightarrow> error \<Rightarrow> string" where
  "error_text env (FrameErr e) = frame_error_text e"
| "error_text env (AppDataErr e) = app_data_error_text e"
| "error_text env (TopicErr e) = topic_error_text e"
| "error_text env (ConcurrentMeterErr e) = concurrent_meter_error_text e"
| "error_text env (MqttResponseErr e) = mqtt_response_error_text e"
| "error_text env (NodeConfigErr e) = node_config_error_text e"
| "error_text env (PlcInitErr e) = plc_init_error_text e"
| "error_text env (UartHandlerErr e) = uart_handler_error_text e"
| "error_text env (Message s) = s"
| "error_text env e = env_library_text env e"

section \<open>Payloads\<close>

datatype status = Success | Failure

fun status_text :: "status \<Rightarrow> string" where
  "status_text Success = ''OK''"
| "status_text Failure = ''FAILURE''"

datatype payload_body = Flat json | Nested json

definition SUCCESS :: string where "SUCCESS = ''OK''"

record mqtt_payload =
  mp_token :: string
  mp_timestamp :: string
  mp_status :: "status option"
  mp_reason :: "string option"
  mp_body :: "payload_body option"

definition mqtt_payload_new ::
    "env \<Rightarrow> string \<Rightarrow> status \<Rightarrow> string \<Rightarrow> payload_body option \<Rightarrow> mqtt_payload" where
  "mqtt_payload_new env token status reason body =
     \<lparr>mp_token = token, mp_timestamp = env_now env, mp_status = Some status,
      mp_reason = Some reason, mp_body = body\<rparr>"

definition mqtt_payload_new_with_token :: "env \<Rightarrow> string \<Rightarrow> payload_body option \<Rightarrow> mqtt_payload" where
  "mqtt_payload_new_with_token env token body =
     \<lparr>mp_token = token, mp_timestamp = env_now env, mp_status = Some Success,
      mp_reason = Some SUCCESS, mp_body = body\<rparr>"

definition mqtt_payload_new_with_body ::
    "env \<Rightarrow> u64 \<Rightarrow> payload_body option \<Rightarrow> mqtt_payload \<times> u64" where
  "mqtt_payload_new_with_body env TOKEN body =
     (\<lparr>mp_token = decimal (unat TOKEN), mp_timestamp = env_now env, mp_status = None,
       mp_reason = None, mp_body = body\<rparr>, TOKEN + 1)"

definition mqtt_payload_new_with_status_reason ::
    "env \<Rightarrow> u64 \<Rightarrow> status \<Rightarrow> string \<Rightarrow> mqtt_payload \<times> u64" where
  "mqtt_payload_new_with_status_reason env TOKEN status reason =
     (\<lparr>mp_token = decimal (unat TOKEN), mp_timestamp = env_now env, mp_status = Some status,
       mp_reason = Some reason, mp_body = None\<rparr>, TOKEN + 1)"

fun mqtt_payload_new_with_token_result :: "env \<Rightarrow> string \<Rightarrow> unit result \<Rightarrow> mqtt_payload result" where
  "mqtt_payload_new_with_token_result env token (Ok u) = Ok (mqtt_payload_new_with_token env token None)"
| "mqtt_payload_new_with_token_result env token (Err e) =
     Ok (mqtt_payload_new env token Failure (error_text env e) None)"
| "mqtt_payload_new_with_token_result env token (Panic p) = Panic p"

text \<open>\<^verbatim>\<open>serde_json::to_string(self).unwrap()\<close>: the optional entries are left out when absent, and a
  flat body adds its own entries; a flat body that is no object cannot be written.\<close>

fun body_fields :: "payload_body option \<Rightarrow> (string \<times> json) list result" where
  "body_fields None = Ok []"
| "body_fields (Some (Flat (JObj entries))) = Ok entries"
| "body_fields (Some (Flat _)) = Panic UnwrapOnErr"
| "body_fields (Some (Nested v)) = Ok [(''body'', v)]"

definition mqtt_payload_to_json :: "mqtt_payload \<Rightarrow> json result" where
  "mqtt_payload_to_json p =
     andThen (body_fields (mp_body p)) (\<lambda>entries.
     Ok (JObj ([(''token'', JStr (mp_token p)), (''timestamp'', JStr (mp_timestamp p))]
       @ (case mp_status p of None \<Rightarrow> [] | Some s \<Rightarrow> [(''status'', JStr (status_text s))])
       @ (case mp_reason p of None \<Rightarrow> [] | Some r \<Rightarrow> [(''reason'', JStr r)])
       @ entries)))"

section \<open>Messages\<close>

record mqtt_message =
  mm_topic :: string
  mm_payload :: "json option"

definition mqtt_message_new :: "string \<Rightarrow> mqtt_payload \<Rightarrow> mqtt_message result" where
  "mqtt_message_new topic payload =
     andThen (mqtt_payload_to_json payload) (\<lambda>v. Ok \<lparr>mm_topic = topic, mm_payload = Some v\<rparr>)"

definition get_priority :: "mqtt_message \<Rightarrow> nat result" where
  "get_priority m =
     andThen (unwrap_option (mm_payload m)) (\<lambda>payload.
     Ok (case as_u64 (json_index payload ''prio'') of Some n \<Rightarrow> n | None \<Rightarrow> 0))"

definition get_token :: "mqtt_message \<Rightarrow> string result" where
  "get_token m =
     andThen (unwrap_option (mm_payload m)) (\<lambda>payload.
     unwrap_option (as_str (json_index payload ''token'')))"

definition new_with_msg_body :: "env \<Rightarrow> mqtt_message \<Rightarrow> payload_body option \<Rightarrow> mqtt_message result" where
  "new_with_msg_body env m body =
     andThen (unwrap (mqtt_topic_try_from (mm_topic m))) (\<lambda>topic.
     andThen (get_token m) (\<lambda>token.
     mqtt_message_new (topic_transfer topic) (mqtt_payload_new_with_token env token body)))"

definition new_with_msg_status_reason ::
    "env \<Rightarrow> mqtt_message \<Rightarrow> status \<Rightarrow> string \<Rightarrow> mqtt_message result" where
  "new_with_msg_status_reason env m status reason =
     andThen (unwrap (mqtt_topic_try_from (mm_topic m))) (\<lambda>topic.
     andThen (get_token m) (\<lambda>token.
     mqtt_message_new (topic_transfer topic) (mqtt_payload_new env token status reason None)))"

section \<open>Facts about topics\<close>

lemma split_char_not_Nil [simp]: "split_char c xs \<noteq> []"
  by (induction xs) (auto split: list.splits)

lemma split_char_Cons:
  "x \<noteq> c \<Longrightarrow> split_char c (x # xs) = (x # hd (split_char c xs)) # tl (split_char c xs)"
  by (auto split: list.splits)

lemma join_with_Cons: "ps \<noteq> [] \<Longrightarrow> join_with sep (p # ps) = p @ sep @ join_with sep ps"
  by (cases ps) auto

lemma join_with_prepend: "ps \<noteq> [] \<Longrightarrow> join_with sep ((x # hd ps) # tl ps) = x # join_with sep ps"
  by (cases ps; cases "tl ps") (auto simp: neq_Nil_conv)

lemma join_split [simp]: "join_with [c] (split_char c xs) = xs"
proof (induction xs)
  case (Cons x xs)
  then show ?case
    by (cases "x = c") (simp_all add: join_with_Cons join_with_prepend split_char_Cons del: split_char.simps(2)
        add: split_char.simps(2) [where x = c, simplified])
qed simp

lemma split_char_parts: "p \<in> set (split_char c xs) \<Longrightarrow> c \<notin> set p"
  by (induction xs arbitrary: p) (auto split: if_splits list.splits)

lemma split_char_plain: "c \<notin> set xs \<Longrightarrow> split_char c (xs @ c # ys) = xs # split_char c ys"
  by (induction xs) (auto split: list.splits)

lemma split_char_no_sep: "c \<notin> set xs \<Longrightarrow> split_char c xs = [xs]"
  by (induction xs) auto

lemma split_join: "ps \<noteq> [] \<Longrightarrow> (\<And>p. p \<in> set ps \<Longrightarrow> c \<notin> set p) \<Longrightarrow> split_char c (join_with [c] ps) = ps"
proof (induction ps)
  case (Cons p ps)
  then show ?case
    by (cases "ps = []") (simp_all add: join_with_Cons split_char_plain split_char_no_sep)
qed simp

text \<open>Operators and kinds of topics are enums with a text; the locale is the string analogue of
  \<open>byte_enum\<close>.\<close>

locale text_enum =
  fixes to_text :: "'a \<Rightarrow> string" and of_text :: "string \<Rightarrow> 'a result"
  assumes of_text_to_text: "of_text (to_text v) = Ok v"
    and to_text_of_text: "of_text s = Ok v \<Longrightarrow> to_text v = s"
    and of_text_no_panic: "\<not> panics (of_text s)"
    and to_text_plain: "CHR ''/'' \<notin> set (to_text v)"
begin

lemma of_text_Ok_iff: "of_text s = Ok v \<longleftrightarrow> to_text v = s"
  using of_text_to_text to_text_of_text by auto

lemma to_text_inject: "to_text v = to_text w \<longleftrightarrow> v = w"
  by (metis of_text_to_text outcome.inject(1))

end

interpretation operator_text: text_enum operator_to_string operator_try_from
proof
  fix v s
  show "operator_try_from (operator_to_string v) = Ok v"
    and "CHR ''/'' \<notin> set (operator_to_string v)"
    by (cases v; simp add: operator_try_from_def)+
  show "operator_to_string v = s" if "operator_try_from s = Ok v"
    using that by (auto simp: operator_try_from_def split: if_splits)
  show "\<not> panics (operator_try_from s)" by (simp add: operator_try_from_def)
qed

interpretation info_type_text: text_enum info_type_to_string info_type_try_from
proof
  fix v s
  show "info_type_try_from (info_type_to_string v) = Ok v"
    and "CHR ''/'' \<notin> set (info_type_to_string v)"
    by (cases v; simp add: info_type_try_from_def)+
  show "info_type_to_string v = s" if "info_type_try_from s = Ok v"
    using that by (auto simp: info_type_try_from_def split: if_splits)
  show "\<not> panics (info_type_try_from s)" by (simp add: info_type_try_from_def)
qed

text \<open>A topic of this service: no field contains the separator, and one side is the service.\<close>

definition service_topic :: "mqtt_topic \<Rightarrow> bool" where
  "service_topic t \<longleftrightarrow>
     CHR ''/'' \<notin> set (mt_app t) \<and> CHR ''/'' \<notin> set (mt_info_target t)
     \<and> CHR ''/'' \<notin> set (mt_info_object t) \<and> (mt_app t = APP_NAME \<or> mt_info_target t = APP_NAME)"

lemma topic_parts:
  "service_topic t \<Longrightarrow>
     split_char CHR ''/'' (mqtt_topic_to_string t) =
       [mt_app t, operator_to_string (mt_operator t), info_type_to_string (mt_info_type t),
        mt_info_target t, mt_info_object t]"
  unfolding mqtt_topic_to_string_def
  by (rule split_join)
     (use operator_text.to_text_plain info_type_text.to_text_plain in \<open>auto simp: service_topic_def\<close>)

lemma topic_roundtrip: "service_topic t \<Longrightarrow> mqtt_topic_try_from (mqtt_topic_to_string t) = Ok t"
  unfolding mqtt_topic_try_from_def Let_def
  by (auto simp: topic_parts service_topic_def ensure_run operator_text.of_text_to_text
      info_type_text.of_text_to_text)

lemma list_of_length_5: "length xs = 5 \<Longrightarrow> \<exists>a b c d e. xs = [a, b, c, d, e]"
  by (auto simp: numeral_eq_Suc length_Suc_conv)

lemma topic_accepted:
  assumes "mqtt_topic_try_from s = Ok t"
  shows "service_topic t" and "mqtt_topic_to_string t = s"
proof -
  from assms have "length (split_char CHR ''/'' s) = 5" by (auto simp: mqtt_topic_try_from_def Let_def)
  then obtain a b c d e where parts: "split_char CHR ''/'' s = [a, b, c, d, e]"
    using list_of_length_5 by blast
  have plain: "CHR ''/'' \<notin> set p" if "p \<in> set [a, b, c, d, e]" for p
    using that split_char_parts [of p "CHR ''/''" s] by (simp only: parts) simp
  from assms obtain op kind where t: "t = \<lparr>mt_app = a, mt_operator = op, mt_info_type = kind,
      mt_info_target = d, mt_info_object = e\<rparr>"
    and op: "operator_try_from b = Ok op" and kind: "info_type_try_from c = Ok kind"
    and app: "d = APP_NAME \<or> a = APP_NAME"
    unfolding mqtt_topic_try_from_def Let_def parts by (auto simp: eval_nat_numeral)
  from t plain app show "service_topic t" by (auto simp: service_topic_def)
  have "join_with ''/'' [a, b, c, d, e] = s" by (metis parts join_split)
  with t op kind show "mqtt_topic_to_string t = s"
    by (simp only: mqtt_topic_to_string_def mqtt_topic.select_convs
        operator_text.of_text_Ok_iff info_type_text.of_text_Ok_iff)
qed

lemma topic_try_from_no_panic [simp]: "\<not> panics (mqtt_topic_try_from s)"
  by (auto simp: mqtt_topic_try_from_def Let_def operator_text.of_text_no_panic
      info_type_text.of_text_no_panic)

text \<open>The reply topic of a topic: the two sides change places, a request becomes a response.\<close>

definition reply_topic :: "mqtt_topic \<Rightarrow> mqtt_topic" where
  "reply_topic t =
     t\<lparr>mt_app := mt_info_target t, mt_info_target := mt_app t,
       mt_info_type := (if mt_info_type t = Request then Response else mt_info_type t)\<rparr>"

lemma topic_transfer_reply: "topic_transfer t = mqtt_topic_to_string (reply_topic t)"
  by (cases "mt_info_type t") (simp_all add: topic_transfer_def mqtt_topic_to_string_def reply_topic_def)

lemma service_topic_reply: "service_topic t \<Longrightarrow> service_topic (reply_topic t)"
  by (auto simp: service_topic_def reply_topic_def)

lemma transfer_topic_accepted:
  "mqtt_topic_try_from s = Ok t \<Longrightarrow> transfer_topic s = Ok (mqtt_topic_to_string (reply_topic t))"
  by (simp add: transfer_topic_def topic_transfer_reply)

lemma transfer_topic_panics: "panics (transfer_topic s) \<longleftrightarrow> \<not> is_ok (mqtt_topic_try_from s)"
  by (auto simp: transfer_topic_def)

section \<open>Properties\<close>

text \<open>C31: A text is accepted as a topic exactly when it is the text of a topic whose fields hold no
  separator and of which one side is the service; the topic it is read as is that one.\<close>

theorem topic_text_iff: "mqtt_topic_try_from s = Ok t \<longleftrightarrow> service_topic t \<and> s = mqtt_topic_to_string t"
  using topic_accepted topic_roundtrip by blast

text \<open>The topic a reply is published on: it is accepted again, application and target have changed
  places, a request has become a response and everything else is kept; replying to a reply gives the
  original topic again, unless that was a request.\<close>

theorem reply_topic_of_request:
  assumes "mqtt_topic_try_from s = Ok t"
  shows "\<exists>s'. transfer_topic s = Ok s' \<and> mqtt_topic_try_from s' = Ok (reply_topic t)
    \<and> (transfer_topic s' = Ok s \<longleftrightarrow> mt_info_type t \<noteq> Request)"
proof -
  let ?s' = "mqtt_topic_to_string (reply_topic t)"
  from topic_accepted [OF assms] have s: "mqtt_topic_to_string t = s"
    and again: "mqtt_topic_try_from ?s' = Ok (reply_topic t)"
    by (simp_all add: topic_roundtrip service_topic_reply)
  from again have "transfer_topic ?s' = Ok (mqtt_topic_to_string (reply_topic (reply_topic t)))"
    by (rule transfer_topic_accepted)
  moreover have "mqtt_topic_to_string (reply_topic (reply_topic t)) = s \<longleftrightarrow> reply_topic (reply_topic t) = t"
    by (metis assms again outcome.inject(1) s service_topic_reply topic_accepted(1) topic_roundtrip)
  moreover have "reply_topic (reply_topic t) = t \<longleftrightarrow> mt_info_type t \<noteq> Request"
    by (cases t) (auto simp: reply_topic_def)
  ultimately show ?thesis using again transfer_topic_accepted [OF assms] by auto
qed

theorem reply_topic_of_request_witness:
  "\<exists>s'. transfer_topic ''app/get/request/PLCServiceGW/version'' = Ok s'
     \<and> mqtt_topic_try_from s' = Ok (reply_topic \<lparr>mt_app = ''app'', mt_operator = GetOp,
         mt_info_type = Request, mt_info_target = APP_NAME, mt_info_object = ''version''\<rparr>)
     \<and> transfer_topic s' \<noteq> Ok ''app/get/request/PLCServiceGW/version''"
  using reply_topic_of_request [of "''app/get/request/PLCServiceGW/version''"
    "\<lparr>mt_app = ''app'', mt_operator = GetOp, mt_info_type = Request, mt_info_target = APP_NAME,
      mt_info_object = ''version''\<rparr>"]
  by (auto simp: mqtt_topic_try_from_def Let_def APP_NAME_def operator_try_from_def
      info_type_try_from_def ensure_run)

end
