(* ===== verification/Requests.thy ===== *)
theory Requests
  imports Mqtt_Messages
begin

text \<open>
  src/src/request_info.rs, src/src/service/parse_response.rs and the reply traits of
  src/src/service/mod.rs: what travels between the threads of the service.

  A service sends over three channels: to the MQTT client, to the thread of the serial requests and to
  the thread of the concurrent requests. \<open>action\<close> is one such send; the receivers live as long as
  the service, so a send does not fail. Operations return the list of their sends in order.

  \<open>extra\<close> lists the types the code boxes as \<^verbatim>\<open>dyn Any\<close> with a request.
\<close>

section \<open>Numbers in texts\<close>

text \<open>\<^verbatim>\<open>str::parse::<u8>\<close> and \<^verbatim>\<open>parse::<usize>\<close>: decimal digits after an optional plus sign.\<close>

fun digits_value :: "nat \<Rightarrow> string \<Rightarrow> nat option" where
  "digits_value acc [] = Some acc"
| "digits_value acc (c # cs) =
     (let d = of_char c in
      if 48 \<le> d \<and> d \<le> (57::nat) then digits_value (10 * acc + (d - 48)) cs else None)"

definition parse_below :: "nat \<Rightarrow> string \<Rightarrow> nat result" where
  "parse_below bound s =
     (let digits = (if take 1 s = ''+'' then drop 1 s else s) in
      case (if digits = [] then None else digits_value 0 digits) of
        Some n \<Rightarrow> if n < bound then Ok n else Err ParseIntError
      | None \<Rightarrow> Err ParseIntError)"

definition parse_u8 :: "string \<Rightarrow> u8 result" where
  "parse_u8 s = andThen (parse_below 256 s) (\<lambda>n. Ok (of_nat n))"

definition parse_usize :: "string \<Rightarrow> nat result" where
  "parse_usize s = parse_below (2 ^ 64) s"

section \<open>Requests\<close>

datatype frame_key = FrameKey (key_afn: afn) (key_fn_num: u8)

record sample_payload =
  sp_task_id :: string
  sp_acq_addr :: string
  sp_pro_type :: string
  sp_data :: string

datatype extra = ExtraAddress address | ExtraSample sample_payload

record mqtt_req_info =
  mri_topic :: string
  mri_token :: string
  mri_extra_data :: "extra option"

definition mqtt_req_info_new :: "string \<Rightarrow> string \<Rightarrow> extra option \<Rightarrow> mqtt_req_info result" where
  "mqtt_req_info_new topic token extra_data =
     andThen (transfer_topic topic) (\<lambda>reply.
     Ok \<lparr>mri_topic = reply, mri_token = token, mri_extra_data = extra_data\<rparr>)"

record req_info =
  ri_mqtt_req_info :: "mqtt_req_info option"
  ri_frame_key :: frame_key
  ri_seq_num :: u8
  ri_origin_req_key :: "frame_key option"

definition frame_key_of :: "frame \<Rightarrow> frame_key result" where
  "frame_key_of f = andThen (frame_fn_num f) (\<lambda>n. Ok (FrameKey (frame_afn f) n))"

definition req_info_new :: "frame \<Rightarrow> mqtt_req_info option \<Rightarrow> req_info result" where
  "req_info_new f mqtt =
     andThen (frame_key_of f) (\<lambda>key.
     Ok \<lparr>ri_mqtt_req_info = mqtt, ri_frame_key = key, ri_seq_num = frame_get_seq f,
         ri_origin_req_key = None\<rparr>)"

definition req_info_new_with_key :: "frame \<Rightarrow> frame_key \<Rightarrow> mqtt_req_info option \<Rightarrow> req_info" where
  "req_info_new_with_key f key mqtt =
     \<lparr>ri_mqtt_req_info = mqtt, ri_frame_key = key, ri_seq_num = frame_get_seq f,
      ri_origin_req_key = None\<rparr>"

definition req_info_new_with_origin_req_key :: "frame \<Rightarrow> frame_key \<Rightarrow> req_info result" where
  "req_info_new_with_origin_req_key f origin =
     andThen (frame_key_of f) (\<lambda>key.
     Ok \<lparr>ri_mqtt_req_info = None, ri_frame_key = key, ri_seq_num = frame_get_seq f,
         ri_origin_req_key = Some origin\<rparr>)"

definition req_info_new_with_key_and_origin ::
    "frame \<Rightarrow> frame_key \<Rightarrow> mqtt_req_info option \<Rightarrow> frame_key \<Rightarrow> req_info" where
  "req_info_new_with_key_and_origin f key mqtt origin =
     \<lparr>ri_mqtt_req_info = mqtt, ri_frame_key = key, ri_seq_num = frame_get_seq f,
      ri_origin_req_key = Some origin\<rparr>"

definition req_info_new_with_mqtt :: "frame \<Rightarrow> string \<Rightarrow> string \<Rightarrow> extra option \<Rightarrow> req_info result" where
  "req_info_new_with_mqtt f topic token extra_data =
     andThen (mqtt_req_info_new topic token extra_data) (\<lambda>mqtt.
     req_info_new f (Some mqtt))"

definition is_init :: "req_info \<Rightarrow> bool" where
  "is_init r \<longleftrightarrow> ri_mqtt_req_info r = None"

record uart_message =
  um_req_info :: req_info
  um_frame :: frame
  um_timeout :: "nat option" \<comment> \<open>milliseconds\<close>

definition uart_message_new :: "req_info \<Rightarrow> frame \<Rightarrow> uart_message" where
  "uart_message_new r f = \<lparr>um_req_info = r, um_frame = f, um_timeout = None\<rparr>"

definition uart_message_new_with_timeout :: "req_info \<Rightarrow> frame \<Rightarrow> nat \<Rightarrow> uart_message" where
  "uart_message_new_with_timeout r f t = \<lparr>um_req_info = r, um_frame = f, um_timeout = Some t\<rparr>"

datatype action = ToMqtt mqtt_message | ToUart uart_message | ToConcurrent uart_message

section \<open>Replies to the MQTT side\<close>

definition new_with_req_info_body :: "env \<Rightarrow> mqtt_req_info \<Rightarrow> payload_body option \<Rightarrow> mqtt_message result" where
  "new_with_req_info_body env m body =
     mqtt_message_new (mri_topic m) (mqtt_payload_new_with_token env (mri_token m) body)"

definition new_with_req_info_status_reason ::
    "env \<Rightarrow> mqtt_req_info \<Rightarrow> status \<Rightarrow> string \<Rightarrow> mqtt_message result" where
  "new_with_req_info_status_reason env m status reason =
     mqtt_message_new (mri_topic m) (mqtt_payload_new env (mri_token m) status reason None)"

definition unit_into_mqtt_message :: "env \<Rightarrow> mqtt_req_info \<Rightarrow> unit \<Rightarrow> mqtt_message result" where
  "unit_into_mqtt_message env m u = new_with_req_info_body env m None"

definition error_into_mqtt_message :: "env \<Rightarrow> mqtt_req_info \<Rightarrow> error \<Rightarrow> mqtt_message result" where
  "error_into_mqtt_message env m e = new_with_req_info_status_reason env m Failure (error_text env e)"

fun result_into_mqtt_message ::
    "env \<Rightarrow> ('a \<Rightarrow> mqtt_message result) \<Rightarrow> mqtt_req_info \<Rightarrow> 'a result \<Rightarrow> mqtt_message result" where
  "result_into_mqtt_message env into m (Ok x) = into x"
| "result_into_mqtt_message env into m (Err e) = error_into_mqtt_message env m e"
| "result_into_mqtt_message env into m (Panic p) = Panic p"

fun deny_error_code_text :: "deny_error_code \<Rightarrow> string" where
  "deny_error_code_text TimeOut = ''Time Out''"
| "deny_error_code_text InvalidDataUnit = ''Invalid ID''"
| "deny_error_code_text DenyLengthError = ''Error Length''"
| "deny_error_code_text DenyChecksumError = ''Error Checksum''"
| "deny_error_code_text InfoClassNotExist = ''Error Data Info''"
| "deny_error_code_text FormatError = ''Error Format''"
| "deny_error_code_text MeterDup = ''Meter Has Existed''"
| "deny_error_code_text MeterNotExist = ''Meter Not Exist''"
| "deny_error_code_text AppNoResponse = ''Meter No Response''"
| "deny_error_code_text MasterBusy = ''CCO Busy''"
| "deny_error_code_text MasterNotSupport = ''CCO Not Support''"
| "deny_error_code_text SlaveNoResponse = ''Slave No Response''"
| "deny_error_code_text SlaveOutNet = ''Slave Out Net''"
| "deny_error_code_text ExceedCocurrentNum = ''Exceed Cocurrent Num''"
| "deny_error_code_text ExceedMsgNum = ''Exceed Msg Num''"
| "deny_error_code_text MeterOperating = ''Meter Operating''"
| "deny_error_code_text Other = ''Other Error''"

definition deny_response_to_error :: "deny_response \<Rightarrow> error" where
  "deny_response_to_error r = Message (deny_error_code_text (error_code r))"

definition deny_into_mqtt_message :: "env \<Rightarrow> mqtt_req_info \<Rightarrow> deny_response \<Rightarrow> mqtt_message result" where
  "deny_into_mqtt_message env m r = error_into_mqtt_message env m (deny_response_to_error r)"

section \<open>Responses of the module\<close>

datatype 'a uart_response = NormalResponse 'a | DenyAnswer deny_response

text \<open>\<^verbatim>\<open>UartResponse::map\<close> is \<open>map_uart_response\<close>, which the datatype declares.\<close>

definition uart_response_try_from :: "(app_data \<Rightarrow> 'a result) \<Rightarrow> frame \<Rightarrow> 'a uart_response result" where
  "uart_response_try_from decode f =
     andThen (frame_is_deny f) (\<lambda>denied.
     if denied
     then andThen (deny_response_try_from (ud_app_data (fr_user_data f))) (\<lambda>r. Ok (DenyAnswer r))
     else andThen (decode (ud_app_data (fr_user_data f))) (\<lambda>r. Ok (NormalResponse r)))"

fun uart_response_into_mqtt_message ::
    "env \<Rightarrow> ('a \<Rightarrow> mqtt_message result) \<Rightarrow> mqtt_req_info \<Rightarrow> 'a uart_response \<Rightarrow> mqtt_message result" where
  "uart_response_into_mqtt_message env into m (NormalResponse r) = into r"
| "uart_response_into_mqtt_message env into m (DenyAnswer r) = deny_into_mqtt_message env m r"

fun uart_response_to_result :: "'a uart_response \<Rightarrow> 'a result" where
  "uart_response_to_result (DenyAnswer r) = Err (deny_response_to_error r)"
| "uart_response_to_result (NormalResponse x) = Ok x"

fun confirm_uart_response_to_result :: "confirm_response uart_response \<Rightarrow> unit result" where
  "confirm_uart_response_to_result (DenyAnswer r) = Err (deny_response_to_error r)"
| "confirm_uart_response_to_result (NormalResponse x) = Ok ()"

text \<open>The senders of requests: a new frame takes its number from \<open>SEQ\<close>.\<close>

definition mqtt_info_request_uart_handler ::
    "u8 \<Rightarrow> app_data \<Rightarrow> mqtt_req_info option \<Rightarrow> action list result \<times> u8" where
  "mqtt_info_request_uart_handler SEQ app_data mqtt =
     (case frame_new_request SEQ None app_data of
        (frame, SEQ') \<Rightarrow>
          (andThen frame (\<lambda>f.
           andThen (req_info_new f mqtt) (\<lambda>r.
           Ok [ToUart (uart_message_new r f)])), SEQ'))"

definition mqtt_request_uart_handler ::
    "u8 \<Rightarrow> app_data \<Rightarrow> mqtt_message \<Rightarrow> action list result \<times> u8" where
  "mqtt_request_uart_handler SEQ app_data m =
     (case andThen (get_token m) (\<lambda>token. mqtt_req_info_new (mm_topic m) token None) of
        Ok mqtt \<Rightarrow> mqtt_info_request_uart_handler SEQ app_data (Some mqtt)
      | Err e \<Rightarrow> (Err e, SEQ)
      | Panic p \<Rightarrow> (Panic p, SEQ))"

definition mqtt_request_handler ::
    "u8 \<Rightarrow> (json \<Rightarrow> 'm result) \<Rightarrow> ('m \<Rightarrow> app_data) \<Rightarrow> mqtt_message \<Rightarrow> action list result \<times> u8" where
  "mqtt_request_handler SEQ from_json into m =
     (case andThen (unwrap (case mm_payload m of None \<Rightarrow> Err InvalidJsonText | Some v \<Rightarrow> from_json v)) (\<lambda>request.
           andThen (get_token m) (\<lambda>token.
           andThen (mqtt_req_info_new (mm_topic m) token None) (\<lambda>mqtt. Ok (request, mqtt)))) of
        Ok (request, mqtt) \<Rightarrow> mqtt_info_request_uart_handler SEQ (into request) (Some mqtt)
      | Err e \<Rightarrow> (Err e, SEQ)
      | Panic p \<Rightarrow> (Panic p, SEQ))"

definition uart_response_handler ::
    "env \<Rightarrow> (app_data \<Rightarrow> 't result) \<Rightarrow> ('t \<Rightarrow> 'm) \<Rightarrow> (mqtt_req_info \<Rightarrow> 'm \<Rightarrow> mqtt_message result)
       \<Rightarrow> uart_message \<Rightarrow> action list result" where
  "uart_response_handler env decode from into message =
     andThen (uart_response_try_from decode (um_frame message)) (\<lambda>response.
     andThen (unwrap_option (ri_mqtt_req_info (um_req_info message))) (\<lambda>mqtt.
     andThen (uart_response_into_mqtt_message env (into mqtt) mqtt (map_uart_response from response)) (\<lambda>m.
     Ok [ToMqtt m])))"

end
