(* ===== verification/Uart_Agent.thy ===== *)
theory Uart_Agent
  imports Requests Stream_Reader "HOL-Library.Multiset"
begin

text \<open>
  src/src/uart_agent.rs: the four threads around the serial line and the state they share under one
  lock.

  \<^item> The thread of serial requests takes one message at a time, puts its request into \<open>ag_req_info\<close>,
    writes the frame and waits until the request has been answered or its time is over
    (\<open>serial_recv\<close>, \<open>serial_wake\<close>, \<open>serial_expire\<close>); \<^verbatim>\<open>MAX_RETRY\<close> is 1, so a frame is written once.
  \<^item> The thread of concurrent requests starts a timer, writes the frame and enters the request into the
    table under its number (\<open>concurrent_recv\<close>, \<open>concurrent_write\<close>).
  \<^item> The timer thread runs one callback at a time. A timer whose guard is alive may become due
    (\<open>timer_fire\<close>); its callback then waits for the lock and removes the request (\<open>timer_body\<close>). Dropping
    a guard only stops timers that are not due yet.
  \<^item> The reading thread decides what a frame answers (\<open>classify_response\<close>).
  \<^item> A panic while the lock is held poisons it, and every thread that takes it then panics too:
    \<open>ag_poisoned\<close>.

  \<open>agent_step\<close> interleaves these steps with the sends of the services, \<open>agent_reachable\<close> are its
  states from the start. The log is what the handlers are called with; it is read by no step.
\<close>

section \<open>The shared state\<close>

datatype source = FromSerial | FromConcurrent | FromReport

datatype agent_event =
    Took source bool req_info \<comment> \<open>received by a thread; whether it is a mere response\<close>
  | Handled source req_info frame \<comment> \<open>\<^verbatim>\<open>uart_msg_handler\<close> is called\<close>
  | TimedOut source req_info \<comment> \<open>\<^verbatim>\<open>handle_timeout\<close> is called\<close>
  | Dropped source req_info \<comment> \<open>replaced, or not written\<close>
  | Ignored frame
  | Woken

datatype serial_phase = SerialIdle | SerialWaiting
datatype concurrent_phase = ConcurrentIdle | Armed uart_message nat

record agent =
  ag_serial_queue :: "uart_message list"
  ag_concurrent_queue :: "uart_message list"
  ag_serial :: serial_phase
  ag_concurrent :: concurrent_phase
  ag_req_info :: "req_info option"
  ag_table :: "u8 \<Rightarrow> (req_info \<times> nat) option" \<comment> \<open>\<^verbatim>\<open>concurrent_req_info\<close>, a guard being a timer's name\<close>
  ag_timers :: "(nat \<times> u8) list" \<comment> \<open>the timers whose guard is alive, with the number they captured\<close>
  ag_firing :: "(nat \<times> u8) option" \<comment> \<open>the callback under way\<close>
  ag_next_timer :: nat
  ag_timeouts :: u8 \<comment> \<open>\<^verbatim>\<open>consecutive_timeouts\<close>\<close>
  ag_poisoned :: bool
  ag_log :: "agent_event list"

definition agent_new :: agent where
  "agent_new =
     \<lparr>ag_serial_queue = [], ag_concurrent_queue = [], ag_serial = SerialIdle,
      ag_concurrent = ConcurrentIdle, ag_req_info = None, ag_table = (\<lambda>_. None), ag_timers = [],
      ag_firing = None, ag_next_timer = 0, ag_timeouts = 0, ag_poisoned = False, ag_log = []\<rparr>"

section \<open>The steps of the threads\<close>

text \<open>A response to the module is not answered, unless it belongs to an original request.\<close>

definition is_plain_response :: "uart_message \<Rightarrow> bool" where
  "is_plain_response m \<longleftrightarrow>
     is_master_response (um_frame m) \<and> ri_origin_req_key (um_req_info m) = None"

definition drop_old :: "source \<Rightarrow> req_info option \<Rightarrow> agent_event list" where
  "drop_old src old = (case old of None \<Rightarrow> [] | Some r \<Rightarrow> [Dropped src r])"

definition serial_recv :: "uart_message \<Rightarrow> agent \<Rightarrow> agent" where
  "serial_recv m s =
     s\<lparr>ag_req_info := Some (um_req_info m),
       ag_serial := (if is_plain_response m then SerialIdle else SerialWaiting),
       ag_log := ag_log s @ drop_old FromSerial (ag_req_info s)
         @ [Took FromSerial (is_plain_response m) (um_req_info m)]\<rparr>"

definition serial_wake :: "agent \<Rightarrow> agent" where
  "serial_wake s = s\<lparr>ag_serial := SerialIdle, ag_timeouts := 0, ag_log := ag_log s @ [Woken]\<rparr>"

definition serial_expire :: "req_info \<Rightarrow> agent \<Rightarrow> agent" where
  "serial_expire r s =
     s\<lparr>ag_serial := SerialIdle, ag_req_info := None, ag_timeouts := ag_timeouts s + 1,
       ag_log := ag_log s @ [TimedOut FromSerial r]\<rparr>"

definition drop_guard :: "nat \<Rightarrow> (nat \<times> u8) list \<Rightarrow> (nat \<times> u8) list" where
  "drop_guard t timers = [(t', q) \<leftarrow> timers. t' \<noteq> t]"

definition concurrent_recv :: "uart_message \<Rightarrow> agent \<Rightarrow> agent" where
  "concurrent_recv m s =
     (let t = ag_next_timer s in
      s\<lparr>ag_concurrent := Armed m t, ag_next_timer := t + 1,
        ag_timers := (t, frame_get_seq (um_frame m)) # ag_timers s,
        ag_log := ag_log s @ [Took FromConcurrent False (um_req_info m)]\<rparr>)"

definition concurrent_write :: "bool \<Rightarrow> uart_message \<Rightarrow> nat \<Rightarrow> agent \<Rightarrow> agent" where
  "concurrent_write written m t s =
     (if written then
        (let q = frame_get_seq (um_frame m) in
         s\<lparr>ag_concurrent := ConcurrentIdle,
           ag_table := (ag_table s)(q := Some (um_req_info m, t)),
           ag_timers :=
             (case ag_table s q of None \<Rightarrow> ag_timers s | Some (old, t') \<Rightarrow> drop_guard t' (ag_timers s)),
           ag_log := ag_log s @ drop_old FromConcurrent (map_option fst (ag_table s q))\<rparr>)
      else
        s\<lparr>ag_concurrent := ConcurrentIdle, ag_timers := drop_guard t (ag_timers s),
          ag_log := ag_log s @ [Dropped FromConcurrent (um_req_info m)]\<rparr>)"

definition timer_fire :: "nat \<Rightarrow> u8 \<Rightarrow> agent \<Rightarrow> agent" where
  "timer_fire t q s = s\<lparr>ag_firing := Some (t, q), ag_timers := drop_guard t (ag_timers s)\<rparr>"

definition timer_body :: "u8 \<Rightarrow> agent \<Rightarrow> agent" where
  "timer_body q s =
     (case ag_table s q of
        None \<Rightarrow> s\<lparr>ag_poisoned := True\<rparr>
      | Some (r, t) \<Rightarrow>
          s\<lparr>ag_firing := None, ag_table := (ag_table s)(q := None),
            ag_timers := drop_guard t (ag_timers s),
            ag_log := ag_log s @ [TimedOut FromConcurrent r]\<rparr>)"

definition classify_response :: "frame \<Rightarrow> agent \<Rightarrow> agent result" where
  "classify_response f s =
     (if is_slave_report f
         \<and> (case ag_req_info s of None \<Rightarrow> True | Some r \<Rightarrow> ri_origin_req_key r = None)
      then andThen (req_info_new f None) (\<lambda>r. Ok (s\<lparr>ag_log := ag_log s @ [Handled FromReport r f]\<rparr>))
      else (case ag_table s (frame_get_seq f) of
              Some (r, t) \<Rightarrow>
                Ok (s\<lparr>ag_table := (ag_table s)(frame_get_seq f := None),
                      ag_timers := drop_guard t (ag_timers s),
                      ag_log := ag_log s @ [Handled FromConcurrent r f]\<rparr>)
            | None \<Rightarrow>
                (case ag_req_info s of
                   Some r \<Rightarrow>
                     if match_req f (ri_seq_num r)
                     then Ok (s\<lparr>ag_req_info := None, ag_log := ag_log s @ [Handled FromSerial r f]\<rparr>)
                     else Ok (s\<lparr>ag_log := ag_log s @ [Ignored f]\<rparr>)
                 | None \<Rightarrow> Ok (s\<lparr>ag_log := ag_log s @ [Ignored f]\<rparr>))))"

text \<open>Every message is made with the number of its frame (\<open>req_info_new\<close> and the others).\<close>

definition numbered :: "uart_message \<Rightarrow> bool" where
  "numbered m \<longleftrightarrow> ri_seq_num (um_req_info m) = frame_get_seq (um_frame m)"

inductive agent_step :: "agent \<Rightarrow> agent \<Rightarrow> bool" where
  send_serial: "numbered m \<Longrightarrow> agent_step s (s\<lparr>ag_serial_queue := ag_serial_queue s @ [m]\<rparr>)"
| send_concurrent:
    "numbered m \<Longrightarrow> agent_step s (s\<lparr>ag_concurrent_queue := ag_concurrent_queue s @ [m]\<rparr>)"
| serial_recv:
    "\<lbrakk>\<not> ag_poisoned s; ag_serial s = SerialIdle; ag_serial_queue s = m # ms\<rbrakk>
     \<Longrightarrow> agent_step s (serial_recv m (s\<lparr>ag_serial_queue := ms\<rparr>))"
| serial_wake:
    "\<lbrakk>\<not> ag_poisoned s; ag_serial s = SerialWaiting; ag_req_info s = None\<rbrakk>
     \<Longrightarrow> agent_step s (serial_wake s)"
| serial_expire:
    "\<lbrakk>\<not> ag_poisoned s; ag_serial s = SerialWaiting; ag_req_info s = Some r\<rbrakk>
     \<Longrightarrow> agent_step s (serial_expire r s)"
| concurrent_recv:
    "\<lbrakk>ag_concurrent s = ConcurrentIdle; ag_concurrent_queue s = m # ms\<rbrakk>
     \<Longrightarrow> agent_step s (concurrent_recv m (s\<lparr>ag_concurrent_queue := ms\<rparr>))"
| concurrent_write:
    "\<lbrakk>\<not> ag_poisoned s; ag_concurrent s = Armed m t\<rbrakk>
     \<Longrightarrow> agent_step s (concurrent_write written m t s)"
| timer_fire:
    "\<lbrakk>ag_firing s = None; (t, q) \<in> set (ag_timers s)\<rbrakk> \<Longrightarrow> agent_step s (timer_fire t q s)"
| timer_body:
    "\<lbrakk>\<not> ag_poisoned s; ag_firing s = Some (t, q)\<rbrakk> \<Longrightarrow> agent_step s (timer_body q s)"
| response:
    "\<lbrakk>\<not> ag_poisoned s; classify_response f s = Ok s'\<rbrakk> \<Longrightarrow> agent_step s s'"

inductive agent_reachable :: "agent \<Rightarrow> bool" where
  start: "agent_reachable agent_new"
| step: "agent_reachable s \<Longrightarrow> agent_step s s' \<Longrightarrow> agent_reachable s'"

section \<open>Conservation of requests\<close>

text \<open>What a log event starts and ends, as multisets of requests.\<close>

fun started :: "source \<Rightarrow> agent_event \<Rightarrow> req_info multiset" where
  "started src (Took src' plain r) = (if src' = src then {#r#} else {#})"
| "started src _ = {#}"

fun ended :: "source \<Rightarrow> agent_event \<Rightarrow> req_info multiset" where
  "ended src (Handled src' r f) = (if src' = src then {#r#} else {#})"
| "ended src (TimedOut src' r) = (if src' = src then {#r#} else {#})"
| "ended src (Dropped src' r) = (if src' = src then {#r#} else {#})"
| "ended src _ = {#}"

definition all_started :: "source \<Rightarrow> agent \<Rightarrow> req_info multiset" where
  "all_started src s = sum_list (map (started src) (ag_log s))"

definition all_ended :: "source \<Rightarrow> agent \<Rightarrow> req_info multiset" where
  "all_ended src s = sum_list (map (ended src) (ag_log s))"

fun pending :: "req_info option \<Rightarrow> req_info multiset" where
  "pending None = {#}"
| "pending (Some r) = {#r#}"

definition table_pending :: "(u8 \<Rightarrow> (req_info \<times> nat) option) \<Rightarrow> req_info multiset" where
  "table_pending T = (\<Sum>q\<in>UNIV. pending (map_option fst (T q)))"

fun armed_pending :: "concurrent_phase \<Rightarrow> req_info multiset" where
  "armed_pending ConcurrentIdle = {#}"
| "armed_pending (Armed m t) = {#um_req_info m#}"

lemma table_pending_upd:
  "table_pending (T(q := v)) + pending (map_option fst (T q))
     = table_pending T + pending (map_option fst v)"
proof -
  let ?f = "\<lambda>T q. pending (map_option fst (T q))"
  have "table_pending T' = ?f T' q + (\<Sum>q'\<in>UNIV - {q}. ?f T' q')" for T' :: "u8 \<Rightarrow> (req_info \<times> nat) option"
    unfolding table_pending_def by (rule sum.remove) auto
  moreover have "(\<Sum>q'\<in>UNIV - {q}. ?f (T(q := v)) q') = (\<Sum>q'\<in>UNIV - {q}. ?f T q')"
    by (rule sum.cong) auto
  ultimately show ?thesis by (simp add: ac_simps)
qed

lemma table_pending_remove:
  "T q = Some (r, t) \<Longrightarrow> table_pending T = add_mset r (table_pending (T(q := None)))"
  using table_pending_upd [of T q None] by simp

lemma table_pending_insert:
  "pending (map_option fst (T q)) + table_pending (T(q := Some (r, t))) = add_mset r (table_pending T)"
  using table_pending_upd [of T q "Some (r, t)"] by (simp add: add.commute)

lemma table_pending_empty [simp]: "table_pending (\<lambda>_. None) = {#}"
  by (simp add: table_pending_def)

lemma log_drop_old [simp]:
  "sum_list (map (started src) (drop_old src' old)) = {#}"
  "sum_list (map (ended src) (drop_old src' old)) = (if src' = src then pending old else {#})"
  by (cases old; simp add: drop_old_def)+

lemmas agent_steps =
  serial_recv_def serial_wake_def serial_expire_def concurrent_recv_def concurrent_write_def
  timer_fire_def timer_body_def

lemmas conserved = all_started_def all_ended_def

lemma classify_response_cases:
  assumes "classify_response f s = Ok s'"
  obtains
    (report) r where "is_slave_report f" "req_info_new f None = Ok r"
      "s' = s\<lparr>ag_log := ag_log s @ [Handled FromReport r f]\<rparr>"
  | (concurrent) r t where "ag_table s (frame_get_seq f) = Some (r, t)"
      "s' = s\<lparr>ag_table := (ag_table s)(frame_get_seq f := None),
              ag_timers := drop_guard t (ag_timers s),
              ag_log := ag_log s @ [Handled FromConcurrent r f]\<rparr>"
  | (serial) r where "ag_table s (frame_get_seq f) = None" "ag_req_info s = Some r"
      "match_req f (ri_seq_num r)"
      "s' = s\<lparr>ag_req_info := None, ag_log := ag_log s @ [Handled FromSerial r f]\<rparr>"
  | (ignored) "s' = s\<lparr>ag_log := ag_log s @ [Ignored f]\<rparr>"
proof (cases "is_slave_report f
    \<and> (case ag_req_info s of None \<Rightarrow> True | Some r \<Rightarrow> ri_origin_req_key r = None)")
  case True
  with assms report show thesis by (simp add: classify_response_def) blast
next
  case no_report: False
  show thesis
  proof (cases "ag_table s (frame_get_seq f)")
    case (Some entry)
    obtain r t where "entry = (r, t)" by fastforce
    with assms no_report Some show thesis
      by (intro concurrent [of r t]) (simp_all add: classify_response_def)
  next
    case None
    with assms no_report serial ignored show thesis
      by (simp add: classify_response_def split: option.splits if_splits)
  qed
qed

lemma serial_conservation_step:
  assumes "agent_step s s'"
    and "all_started FromSerial s = all_ended FromSerial s + pending (ag_req_info s)"
  shows "all_started FromSerial s' = all_ended FromSerial s' + pending (ag_req_info s')"
  using assms
proof (cases rule: agent_step.cases)
  case (response f)
  from response(2) assms(2) show ?thesis
    by (cases rule: classify_response_cases) (auto simp: conserved)
qed (auto simp: conserved agent_steps Let_def split: option.splits)

lemma concurrent_conservation_step:
  assumes "agent_step s s'"
    and "all_started FromConcurrent s =
      all_ended FromConcurrent s + table_pending (ag_table s) + armed_pending (ag_concurrent s)"
  shows "all_started FromConcurrent s' =
    all_ended FromConcurrent s' + table_pending (ag_table s') + armed_pending (ag_concurrent s')"
  using assms
proof (cases rule: agent_step.cases)
  case (response f)
  from response(2) assms(2) show ?thesis
    by (cases rule: classify_response_cases) (auto simp: conserved table_pending_remove)
next
  case (concurrent_write m t written)
  with assms(2) table_pending_insert [of "ag_table s" "frame_get_seq (um_frame m)" "um_req_info m" t]
  show ?thesis by (auto simp: conserved agent_steps Let_def add.assoc [symmetric])
next
  case (timer_body t q)
  with assms(2) show ?thesis
    by (cases "ag_table s q") (auto simp: conserved agent_steps table_pending_remove)
qed (auto simp: conserved agent_steps Let_def split: option.splits)

section \<open>Timers and the table\<close>

text \<open>Timers are named once; a timer whose guard is alive belongs to the request in the table under its
  number, or to the one about to be written.\<close>

fun armed_timer :: "concurrent_phase \<Rightarrow> (nat \<times> u8) option" where
  "armed_timer ConcurrentIdle = None"
| "armed_timer (Armed m t) = Some (t, frame_get_seq (um_frame m))"

definition timers_inv ::
    "(u8 \<Rightarrow> (req_info \<times> nat) option) \<Rightarrow> (nat \<times> u8) list \<Rightarrow> (nat \<times> u8) option \<Rightarrow> nat \<Rightarrow> bool" where
  "timers_inv T L a n \<longleftrightarrow>
     (\<forall>(t, q) \<in> set L. t < n \<and> (a = Some (t, q) \<or> (\<exists>r. T q = Some (r, t))))
     \<and> (\<forall>q r t. T q = Some (r, t) \<longrightarrow> t < n)
     \<and> (\<forall>q q' r r' t. T q = Some (r, t) \<longrightarrow> T q' = Some (r', t) \<longrightarrow> q' = q)
     \<and> (\<forall>t q. a = Some (t, q) \<longrightarrow> t < n \<and> (\<forall>q r. T q \<noteq> Some (r, t)))"

definition timers_ok :: "agent \<Rightarrow> bool" where
  "timers_ok s \<longleftrightarrow>
     timers_inv (ag_table s) (ag_timers s) (armed_timer (ag_concurrent s)) (ag_next_timer s)"

lemma timers_invI:
  assumes "\<And>t q. (t, q) \<in> set L \<Longrightarrow> t < n"
    and "\<And>t q. (t, q) \<in> set L \<Longrightarrow> a \<noteq> Some (t, q) \<Longrightarrow> \<exists>r. T q = Some (r, t)"
    and "\<And>q r t. T q = Some (r, t) \<Longrightarrow> t < n"
    and "\<And>q q' r r' t. T q = Some (r, t) \<Longrightarrow> T q' = Some (r', t) \<Longrightarrow> q' = q"
    and "\<And>t q. a = Some (t, q) \<Longrightarrow> t < n"
    and "\<And>t q q' r. a = Some (t, q) \<Longrightarrow> T q' = Some (r, t) \<Longrightarrow> False"
  shows "timers_inv T L a n"
  unfolding timers_inv_def using assms by blast

lemma timers_invD:
  assumes "timers_inv T L a n"
  shows "(t, q) \<in> set L \<Longrightarrow> t < n"
    and "(t, q) \<in> set L \<Longrightarrow> a \<noteq> Some (t, q) \<Longrightarrow> \<exists>r. T q = Some (r, t)"
    and "T q = Some (r, t) \<Longrightarrow> t < n"
    and "T q = Some (r, t) \<Longrightarrow> T q' = Some (r', t) \<Longrightarrow> q' = q"
    and "a = Some (t, q) \<Longrightarrow> t < n"
    and "a = Some (t, q) \<Longrightarrow> T q' = Some (r, t) \<Longrightarrow> False"
proof -
  from assms have all: "\<forall>(t, q) \<in> set L. t < n \<and> (a = Some (t, q) \<or> (\<exists>r. T q = Some (r, t)))"
    "\<forall>q r t. T q = Some (r, t) \<longrightarrow> t < n"
    "\<forall>q q' r r' t. T q = Some (r, t) \<longrightarrow> T q' = Some (r', t) \<longrightarrow> q' = q"
    "\<forall>t q. a = Some (t, q) \<longrightarrow> t < n \<and> (\<forall>q r. T q \<noteq> Some (r, t))"
    unfolding timers_inv_def by - (elim conjE, assumption)+
  show "(t, q) \<in> set L \<Longrightarrow> t < n" and "(t, q) \<in> set L \<Longrightarrow> a \<noteq> Some (t, q) \<Longrightarrow> \<exists>r. T q = Some (r, t)"
    using all(1) by auto
  show "T q = Some (r, t) \<Longrightarrow> t < n"
    using all(2) by blast
  show "T q = Some (r, t) \<Longrightarrow> T q' = Some (r', t) \<Longrightarrow> q' = q"
    using all(3) by blast
  show "a = Some (t, q) \<Longrightarrow> t < n" and "a = Some (t, q) \<Longrightarrow> T q' = Some (r, t) \<Longrightarrow> False"
    using all(4) by blast+
qed

lemma set_drop_guard [simp]: "(t', q) \<in> set (drop_guard t timers) \<longleftrightarrow> (t', q) \<in> set timers \<and> t' \<noteq> t"
  by (auto simp: drop_guard_def)

lemma timers_inv_fire: "timers_inv T L a n \<Longrightarrow> timers_inv T (drop_guard t L) a n"
  by (rule timers_invI) (auto dest: timers_invD)

lemma timers_inv_remove:
  assumes inv: "timers_inv T L a n" and entry: "T q = Some (r, t)"
  shows "timers_inv (T(q := None)) (drop_guard t L) a n"
proof (rule timers_invI, goal_cases)
  case (2 t' q')
  with timers_invD(2) [OF inv, of t' q'] entry show ?case by auto
next
  case (4 q q' r r' t)
  with timers_invD(4) [OF inv, of q r t q' r'] show ?case by (simp split: if_splits)
next
  case (6 t q' q'' r)
  with timers_invD(6) [OF inv, of t q' q'' r] show ?case by (simp split: if_splits)
qed (use timers_invD(1,3,5) [OF inv] in \<open>auto split: if_splits\<close>)

lemma timers_inv_recv: "timers_inv T L None n \<Longrightarrow> timers_inv T ((n, q) # L) (Some (n, q)) (n + 1)"
proof (rule timers_invI, goal_cases)
  case (4 q q' r r' t)
  with timers_invD(4) [OF 4(1), of q r t q' r'] show ?case by simp
next
  case (2 t q')
  with timers_invD(2) [OF 2(1), of t q'] show ?case by auto
qed (auto dest: timers_invD intro: less_SucI)

lemma timers_inv_insert:
  assumes inv: "timers_inv T L (Some (t, q)) n"
  shows "timers_inv (T(q := Some (r, t)))
    (case T q of None \<Rightarrow> L | Some (old, t') \<Rightarrow> drop_guard t' L) None n"
proof (rule timers_invI, goal_cases)
  case (1 t' q')
  with timers_invD(1) [OF inv] show ?case by (auto split: option.splits)
next
  case (2 t' q')
  then have mem: "(t', q') \<in> set L" and kept: "\<And>old. T q \<noteq> Some (old, t')"
    by (auto split: option.splits)
  show ?case
  proof (cases "(t', q') = (t, q)")
    case False
    with timers_invD(2) [OF inv mem] kept show ?thesis by auto
  qed simp
next
  case (4 q1 q2 r r' t')
  with timers_invD(4) [OF inv, of q1 r t' q2 r'] timers_invD(6) [OF inv, of t q]
  show ?case by (auto split: if_splits)
qed (use timers_invD(3,5) [OF inv] in \<open>auto split: if_splits\<close>)

lemma timers_inv_give_up:
  assumes inv: "timers_inv T L (Some (t, q)) n"
  shows "timers_inv T (drop_guard t L) None n"
proof (rule timers_invI, goal_cases)
  case (2 t' q')
  with timers_invD(2) [OF inv, of t' q'] show ?case by auto
next
  case (4 q q' r r' t)
  with timers_invD(4) [OF inv, of q r t q' r'] show ?case by simp
qed (use timers_invD [OF inv] in auto)

lemma timers_ok_step: "agent_step s s' \<Longrightarrow> timers_ok s \<Longrightarrow> timers_ok s'"
proof (induction rule: agent_step.induct)
  case (response s f s')
  show ?case
    using response(2) by (cases rule: classify_response_cases)
      (use response(3) timers_inv_remove in \<open>auto simp: timers_ok_def\<close>)
next
  case (timer_body s t q)
  then show ?case
    using timers_inv_remove by (cases "ag_table s q") (auto simp: timer_body_def timers_ok_def)
next
  case (timer_fire s t q)
  then show ?case by (simp add: timer_fire_def timers_ok_def timers_inv_fire)
next
  case (concurrent_recv s m ms)
  then show ?case
    using timers_inv_recv by (auto simp: concurrent_recv_def timers_ok_def Let_def)
next
  case (concurrent_write s m t written)
  then show ?case
    using timers_inv_insert timers_inv_give_up
    by (auto simp: concurrent_write_def timers_ok_def Let_def)
qed (simp_all add: timers_ok_def serial_recv_def serial_wake_def serial_expire_def)

lemma reachable_timers_ok: "agent_reachable s \<Longrightarrow> timers_ok s"
proof (induction rule: agent_reachable.induct)
  case start
  show ?case by (simp add: timers_ok_def timers_inv_def agent_new_def)
qed (rule timers_ok_step)

section \<open>Requests that stay watched\<close>

text \<open>A request is written long before its timer is due (the delay is whole seconds): no callback starts
  for the request about to be written. Under this condition every request in the table has a timer
  that is still to come.\<close>

definition timely :: "agent \<Rightarrow> bool" where
  "timely s \<longleftrightarrow> ag_firing s = None \<or> ag_firing s \<noteq> armed_timer (ag_concurrent s)"

inductive timely_reachable :: "agent \<Rightarrow> bool" where
  start: "timely_reachable agent_new"
| step: "timely_reachable s \<Longrightarrow> agent_step s s' \<Longrightarrow> timely s' \<Longrightarrow> timely_reachable s'"

lemma timely_reachable_reachable: "timely_reachable s \<Longrightarrow> agent_reachable s"
  by (induction rule: timely_reachable.induct) (auto intro: agent_reachable.intros)

definition watched ::
    "(u8 \<Rightarrow> (req_info \<times> nat) option) \<Rightarrow> (nat \<times> u8) list \<Rightarrow> (nat \<times> u8) option \<Rightarrow> (nat \<times> u8) option \<Rightarrow> bool" where
  "watched T L a fi \<longleftrightarrow>
     (\<forall>q r t. T q = Some (r, t) \<longrightarrow> (t, q) \<in> set L \<or> fi = Some (t, q))
     \<and> (\<forall>x. a = Some x \<longrightarrow> x \<in> set L)"

lemma watched_remove:
  assumes "timers_inv T L a n" and "watched T L a fi" and "T q = Some (r, t)"
  shows "watched (T(q := None)) (drop_guard t L) a fi"
  unfolding watched_def
proof (intro conjI allI impI)
  fix q1 r1 t1
  assume "(T(q := None)) q1 = Some (r1, t1)"
  then have entry: "T q1 = Some (r1, t1)" and "q1 \<noteq> q" by (auto split: if_splits)
  then have "t1 \<noteq> t" using timers_invD(4) [OF assms(1) entry] assms(3) by blast
  moreover have "(t1, q1) \<in> set L \<or> fi = Some (t1, q1)" using assms(2) entry by (auto simp: watched_def)
  ultimately show "(t1, q1) \<in> set (drop_guard t L) \<or> fi = Some (t1, q1)" by simp
next
  fix x
  assume a: "a = Some x"
  obtain t1 q1 where x: "x = (t1, q1)" by fastforce
  have "t1 \<noteq> t" using timers_invD(6) [OF assms(1)] a x assms(3) by blast
  moreover have "x \<in> set L" using assms(2) a by (auto simp: watched_def)
  ultimately show "x \<in> set (drop_guard t L)" using x by simp
qed

lemma watched_body:
  assumes "timers_inv T L a n" and "watched T L a (Some (t', q))" and "T q = Some (r, t)"
  shows "watched (T(q := None)) (drop_guard t L) a None"
proof -
  from watched_remove [OF assms] have w: "watched (T(q := None)) (drop_guard t L) a (Some (t', q))" .
  then have "(t1, q1) \<in> set (drop_guard t L)" if "(T(q := None)) q1 = Some (r1, t1)" for q1 r1 t1
    using that unfolding watched_def by (metis fun_upd_same option.distinct(1) option.inject prod.inject)
  with w show ?thesis unfolding watched_def by blast
qed

lemma watched_fire:
  assumes inv: "timers_inv T L a n" and w: "watched T L a None" and due: "(t, q) \<in> set L"
    and "a \<noteq> Some (t, q)"
  shows "watched T (drop_guard t L) a (Some (t, q))"
proof -
  obtain r where entry: "T q = Some (r, t)" using timers_invD(2) [OF inv due assms(4)] by blast
  have "t1 = t \<Longrightarrow> q1 = q" if "T q1 = Some (r1, t1)" for q1 r1 t1
    using timers_invD(4) [OF inv entry] that by blast
  moreover have "t1 \<noteq> t" if "a = Some (t1, q1)" for t1 q1
    using timers_invD(6) [OF inv that] entry by blast
  ultimately show ?thesis using w unfolding watched_def by force
qed

lemma watched_insert:
  assumes inv: "timers_inv T L (Some (t, q)) n" and w: "watched T L (Some (t, q)) fi"
  shows "watched (T(q := Some (r, t)))
    (case T q of None \<Rightarrow> L | Some (old, t') \<Rightarrow> drop_guard t' L) None fi"
proof (cases "T q")
  case None
  with w show ?thesis unfolding watched_def by auto
next
  case (Some old)
  obtain r' t' where old: "old = (r', t')" by fastforce
  have "t' \<noteq> t" using timers_invD(6) [OF inv] Some old by blast
  moreover have "t1 \<noteq> t'" if "T q1 = Some (r1, t1)" "q1 \<noteq> q" for q1 r1 t1
    using timers_invD(4) [OF inv] that Some old by blast
  ultimately show ?thesis using w Some old unfolding watched_def by auto
qed

lemma watched_give_up:
  assumes inv: "timers_inv T L (Some (t, q)) n" and w: "watched T L (Some (t, q)) fi"
  shows "watched T (drop_guard t L) None fi"
proof -
  have "t1 \<noteq> t" if "T q1 = Some (r1, t1)" for q1 r1 t1
    using timers_invD(6) [OF inv] that by blast
  with w show ?thesis unfolding watched_def by auto
qed

lemma watched_recv: "watched T L None fi \<Longrightarrow> watched T ((n, q) # L) (Some (n, q)) fi"
  by (auto simp: watched_def)

definition agent_watched :: "agent \<Rightarrow> bool" where
  "agent_watched s \<longleftrightarrow>
     watched (ag_table s) (ag_timers s) (armed_timer (ag_concurrent s)) (ag_firing s)"

lemma watched_step:
  "agent_step s s' \<Longrightarrow> timers_ok s \<Longrightarrow> timely s' \<Longrightarrow> agent_watched s \<Longrightarrow> agent_watched s'"
proof (induction rule: agent_step.induct)
  case (response s f s')
  show ?case
    using response(2) by (cases rule: classify_response_cases)
      (use response watched_remove in \<open>auto simp: timers_ok_def agent_watched_def\<close>)
next
  case (timer_body s t q)
  then show ?case
    using watched_body by (cases "ag_table s q") (auto simp: timer_body_def timers_ok_def agent_watched_def)
next
  case (timer_fire s t q)
  then have "armed_timer (ag_concurrent s) \<noteq> Some (t, q)" by (auto simp: timely_def timer_fire_def)
  with timer_fire watched_fire show ?case
    by (auto simp: timer_fire_def timers_ok_def agent_watched_def)
next
  case (concurrent_recv s m ms)
  then show ?case
    using watched_recv by (auto simp: concurrent_recv_def agent_watched_def Let_def)
next
  case (concurrent_write s m t written)
  then show ?case
    using watched_insert watched_give_up
    by (auto simp: concurrent_write_def timers_ok_def agent_watched_def Let_def)
qed (simp_all add: agent_watched_def serial_recv_def serial_wake_def serial_expire_def)

lemma timely_reachable_watched: "timely_reachable s \<Longrightarrow> agent_watched s"
proof (induction rule: timely_reachable.induct)
  case start
  show ?case by (simp add: agent_watched_def watched_def agent_new_def)
next
  case (step s s')
  then show ?case
    using watched_step reachable_timers_ok timely_reachable_reachable by blast
qed

section \<open>What is logged\<close>

definition ghost_ok :: "agent \<Rightarrow> bool" where
  "ghost_ok s \<longleftrightarrow>
     (\<forall>m \<in> set (ag_serial_queue s) \<union> set (ag_concurrent_queue s). numbered m)
     \<and> (\<forall>m t. ag_concurrent s = Armed m t \<longrightarrow> numbered m)
     \<and> (\<forall>q r t. ag_table s q = Some (r, t) \<longrightarrow> ri_seq_num r = q)
     \<and> (\<forall>r. ag_serial s = SerialIdle \<longrightarrow> ag_req_info s = Some r \<longrightarrow> Took FromSerial True r \<in> set (ag_log s))
     \<and> (\<forall>r. Dropped FromSerial r \<in> set (ag_log s) \<longrightarrow> Took FromSerial True r \<in> set (ag_log s))
     \<and> (\<forall>r f. Handled FromReport r f \<in> set (ag_log s) \<longrightarrow>
          is_slave_report f \<and> req_info_new f None = Ok r)
     \<and> (\<forall>src r f. Handled src r f \<in> set (ag_log s) \<longrightarrow> src \<noteq> FromReport \<longrightarrow>
          ri_seq_num r = frame_get_seq f)"

lemma ghost_ok_step: "agent_step s s' \<Longrightarrow> ghost_ok s \<Longrightarrow> ghost_ok s'"
proof (induction rule: agent_step.induct)
  case (response s f s')
  show ?case
    using response(2)
  proof (cases rule: classify_response_cases)
    case (report r)
    with response(3) show ?thesis unfolding ghost_ok_def by auto
  next
    case (concurrent r t)
    with response(3) show ?thesis unfolding ghost_ok_def by auto
  next
    case (serial r)
    with response(3) show ?thesis unfolding ghost_ok_def by (auto simp: match_req_def frame_get_seq_def)
  next
    case ignored
    with response(3) show ?thesis unfolding ghost_ok_def by auto
  qed
next
  case (serial_recv s m ms)
  then show ?case
    unfolding ghost_ok_def serial_recv_def by (auto simp: drop_old_def split: option.splits)
next
  case (concurrent_write s m t written)
  then show ?case
    unfolding ghost_ok_def concurrent_write_def
    by (auto simp: drop_old_def Let_def numbered_def split: option.splits)
next
  case (timer_body s t q)
  then show ?case
    unfolding ghost_ok_def by (cases "ag_table s q") (auto simp: timer_body_def split: if_splits)
qed (auto simp: ghost_ok_def serial_wake_def serial_expire_def concurrent_recv_def timer_fire_def Let_def)

lemma reachable_ghost_ok: "agent_reachable s \<Longrightarrow> ghost_ok s"
proof (induction rule: agent_reachable.induct)
  case start
  show ?case by (simp add: ghost_ok_def agent_new_def)
qed (rule ghost_ok_step)

definition timeouts_since_answer :: "agent_event list \<Rightarrow> nat" where
  "timeouts_since_answer l =
     length [e \<leftarrow> takeWhile (\<lambda>e. e \<noteq> Woken) (rev l). \<exists>r. e = TimedOut FromSerial r]"

lemma timeouts_since_answer_append:
  "timeouts_since_answer (l @ l') =
     (if Woken \<in> set l' then timeouts_since_answer l'
      else timeouts_since_answer l' + timeouts_since_answer l)"
  by (auto simp: timeouts_since_answer_def takeWhile_append takeWhile_eq_all_conv [THEN iffD2]
      dest: takeWhile_eq_all_conv [THEN iffD2])

lemma timeouts_drop_old [simp]:
  "Woken \<notin> set (drop_old src old)" "timeouts_since_answer (drop_old src old) = 0"
  by (auto simp: drop_old_def timeouts_since_answer_def split: option.splits)

lemma timeouts_step:
  "agent_step s s' \<Longrightarrow> ag_timeouts s = of_nat (timeouts_since_answer (ag_log s))
     \<Longrightarrow> ag_timeouts s' = of_nat (timeouts_since_answer (ag_log s'))"
proof (induction rule: agent_step.induct)
  case (response s f s')
  show ?case
    using response(2) by (cases rule: classify_response_cases)
      (use response(3) in \<open>auto simp: timeouts_since_answer_append timeouts_since_answer_def\<close>)
qed (auto simp: agent_steps timeouts_since_answer_append Let_def split: option.splits,
     auto simp: timeouts_since_answer_def)

lemma reachable_timeouts:
  "agent_reachable s \<Longrightarrow> ag_timeouts s = of_nat (timeouts_since_answer (ag_log s))"
proof (induction rule: agent_reachable.induct)
  case start
  show ?case by (simp add: agent_new_def timeouts_since_answer_def)
qed (rule timeouts_step)

lemma reachable_serial_conservation:
  "agent_reachable s \<Longrightarrow> all_started FromSerial s = all_ended FromSerial s + pending (ag_req_info s)"
proof (induction rule: agent_reachable.induct)
  case start
  show ?case by (simp add: conserved agent_new_def)
qed (rule serial_conservation_step)

lemma reachable_concurrent_conservation:
  "agent_reachable s \<Longrightarrow>
     all_started FromConcurrent s =
       all_ended FromConcurrent s + table_pending (ag_table s) + armed_pending (ag_concurrent s)"
proof (induction rule: agent_reachable.induct)
  case start
  show ?case by (simp add: conserved agent_new_def)
qed (rule concurrent_conservation_step)

section \<open>Sample runs\<close>

lemma agent_new_sel [simp]:
  "ag_serial_queue agent_new = []" "ag_concurrent_queue agent_new = []"
  "ag_serial agent_new = SerialIdle" "ag_concurrent agent_new = ConcurrentIdle"
  "ag_req_info agent_new = None" "ag_table agent_new = (\<lambda>_. None)" "ag_timers agent_new = []"
  "ag_firing agent_new = None" "ag_next_timer agent_new = 0" "ag_timeouts agent_new = 0"
  "\<not> ag_poisoned agent_new" "ag_log agent_new = []"
  by (simp_all add: agent_new_def)

text \<open>A query of the service with number 7, and the steps that bring it to the threads.\<close>

lemma sample_query:
  obtains f where "frame_new False 7 None (app_data_new Init 2 None) = Ok f" "frame_get_seq f = 7"
    "\<not> is_slave_report f" "\<not> is_master_response f"
  by (rule sample_frame) (use frame_new_sel in auto)

lemma reachable_serial_recv:
  assumes "timely_reachable s" and "numbered m" and "\<not> ag_poisoned s" and "ag_serial s = SerialIdle"
    and "ag_serial_queue s = []" and "ag_firing s = None"
  shows "timely_reachable (serial_recv m s)"
proof -
  let ?s1 = "s\<lparr>ag_serial_queue := [m]\<rparr>"
  have same: "?s1\<lparr>ag_serial_queue := []\<rparr> = s" using assms(5) by simp
  have "timely_reachable ?s1"
    using timely_reachable.step [OF assms(1) agent_step.send_serial [OF assms(2)]] assms(5,6)
    by (simp add: timely_def)
  moreover have "agent_step ?s1 (serial_recv m (?s1\<lparr>ag_serial_queue := []\<rparr>))"
    by (rule agent_step.serial_recv) (use assms in simp_all)
  moreover have "timely (serial_recv m s)" using assms(6) by (simp add: timely_def serial_recv_def)
  ultimately show ?thesis unfolding same by (rule timely_reachable.step)
qed

lemma reachable_concurrent_request:
  assumes "timely_reachable s" and "numbered m" and "\<not> ag_poisoned s" and "ag_concurrent s = ConcurrentIdle"
    and "ag_concurrent_queue s = []" and "ag_firing s = None"
  shows "timely_reachable (concurrent_write True m (ag_next_timer s) (concurrent_recv m s))"
proof -
  let ?s1 = "s\<lparr>ag_concurrent_queue := [m]\<rparr>"
  let ?s2 = "concurrent_recv m s"
  have same: "?s1\<lparr>ag_concurrent_queue := []\<rparr> = s" using assms(5) by simp
  have "timely_reachable ?s1"
    using timely_reachable.step [OF assms(1) agent_step.send_concurrent [OF assms(2)]] assms(5,6)
    by (simp add: timely_def)
  moreover have "agent_step ?s1 (concurrent_recv m (?s1\<lparr>ag_concurrent_queue := []\<rparr>))"
    by (rule agent_step.concurrent_recv) (use assms in simp_all)
  moreover have "timely ?s2" using assms(6) by (simp add: timely_def concurrent_recv_def Let_def)
  ultimately have two: "timely_reachable ?s2" unfolding same by (rule timely_reachable.step)
  have "agent_step ?s2 (concurrent_write True m (ag_next_timer s) ?s2)"
    by (rule agent_step.concurrent_write) (use assms in \<open>simp_all add: concurrent_recv_def Let_def\<close>)
  from timely_reachable.step [OF two this] show ?thesis
    using assms(6) by (simp add: timely_def concurrent_write_def concurrent_recv_def Let_def)
qed

lemma timer_takes_entry:
  assumes "ag_table s q = Some (r, t)" and "\<not> ag_poisoned s" and "ag_firing s = Some (t', q)"
  shows "agent_step s (timer_body q s) \<and> ag_log (timer_body q s) = ag_log s @ [TimedOut FromConcurrent r]
    \<and> ag_table (timer_body q s) q = None \<and> \<not> ag_poisoned (timer_body q s)"
  using agent_step.timer_body [OF assms(2,3)] assms by (simp add: timer_body_def)

lemma poisoned_step:
  assumes "agent_step s s'" and "ag_poisoned s"
  shows "ag_poisoned s' \<and> (\<exists>l. ag_log s' = ag_log s @ l \<and> (\<forall>e \<in> set l. \<exists>r. e = Took FromConcurrent False r))"
  using assms
  by (cases rule: agent_step.cases)
     (auto simp: concurrent_recv_def timer_fire_def Let_def)

section \<open>Properties\<close>

text \<open>C7: Serial requests are accounted for. In every reachable state each request the serial thread took
  has ended in exactly one way (answered, timed out, or dropped) or is the one outstanding; there is
  never more than one outstanding, and only messages that answer the module, for which no answer is
  awaited, are ever dropped.\<close>

theorem serial_requests_accounted:
  assumes "agent_reachable s"
  shows "all_started FromSerial s = all_ended FromSerial s + pending (ag_req_info s)
    \<and> size (pending (ag_req_info s)) \<le> 1
    \<and> (\<forall>r. Dropped FromSerial r \<in> set (ag_log s) \<longrightarrow> Took FromSerial True r \<in> set (ag_log s))"
  using reachable_serial_conservation [OF assms] reachable_ghost_ok [OF assms]
  by (cases "ag_req_info s") (auto simp: ghost_ok_def)

theorem serial_requests_accounted_witness:
  "\<exists>s r. agent_reachable s \<and> ag_req_info s = Some r \<and> all_started FromSerial s = {#r#}
     \<and> all_ended FromSerial s = {#}"
proof (rule sample_query)
  fix f
  assume f: "frame_get_seq f = 7" "\<not> is_slave_report f" "\<not> is_master_response f"
  define r where "r = \<lparr>ri_mqtt_req_info = None, ri_frame_key = FrameKey Init 2, ri_seq_num = 7,
    ri_origin_req_key = None\<rparr>"
  let ?s = "serial_recv (uart_message_new r f) agent_new"
  have "agent_reachable ?s"
    by (rule timely_reachable_reachable, rule reachable_serial_recv)
       (simp_all add: timely_reachable.start numbered_def uart_message_new_def r_def f)
  moreover have "ag_req_info ?s = Some r" by (simp add: serial_recv_def uart_message_new_def)
  moreover have "all_started FromSerial ?s = {#r#}"
    by (simp add: conserved serial_recv_def uart_message_new_def drop_old_def)
  ultimately show ?thesis using serial_requests_accounted [of ?s] by auto
qed

text \<open>C8: Concurrent requests are accounted for. Each request the concurrent thread took has ended in
  exactly one way (answered, timed out, or dropped because it could not be written or another request
  took its number), or is in the table, or is about to be written.\<close>

theorem concurrent_requests_accounted:
  assumes "agent_reachable s"
  shows "all_started FromConcurrent s =
    all_ended FromConcurrent s + table_pending (ag_table s) + armed_pending (ag_concurrent s)"
  using reachable_concurrent_conservation [OF assms] .

theorem concurrent_requests_accounted_witness:
  "\<exists>s r. agent_reachable s \<and> all_started FromConcurrent s = {#r#} \<and> table_pending (ag_table s) = {#r#}"
proof (rule sample_query)
  fix f
  assume f: "frame_get_seq f = 7" "\<not> is_slave_report f" "\<not> is_master_response f"
  define r where "r = \<lparr>ri_mqtt_req_info = None, ri_frame_key = FrameKey Init 2, ri_seq_num = 7,
    ri_origin_req_key = None\<rparr>"
  let ?m = "uart_message_new r f"
  let ?s = "concurrent_write True ?m (ag_next_timer agent_new) (concurrent_recv ?m agent_new)"
  have "agent_reachable ?s"
    by (rule timely_reachable_reachable, rule reachable_concurrent_request)
       (simp_all add: timely_reachable.start numbered_def uart_message_new_def r_def f)
  moreover have "all_started FromConcurrent ?s = {#r#}" and "all_ended FromConcurrent ?s = {#}"
    and "ag_concurrent ?s = ConcurrentIdle"
    by (simp_all add: conserved concurrent_write_def concurrent_recv_def uart_message_new_def
        drop_old_def Let_def)
  moreover from calculation have "table_pending (ag_table ?s) = {#r#}"
    using concurrent_requests_accounted [of ?s] by (simp only: armed_pending.simps) simp
  ultimately show ?thesis by blast
qed

text \<open>C6: Answers go to their requests. A response is handed over with the request whose number it
  carries, and without a request only when it is a report of the module, with its own number, function
  code and number.\<close>

theorem responses_match_requests:
  assumes "agent_reachable s" and "Handled src r f \<in> set (ag_log s)"
  shows "if src = FromReport then is_slave_report f \<and> req_info_new f None = Ok r
    else ri_seq_num r = frame_get_seq f"
  using reachable_ghost_ok [OF assms(1)] assms(2) by (auto simp: ghost_ok_def)

theorem responses_match_requests_witness:
  "\<exists>s r f. agent_reachable s \<and> Handled FromSerial r f \<in> set (ag_log s) \<and> ri_seq_num r = frame_get_seq f"
proof (rule sample_query)
  fix f
  assume f: "frame_get_seq f = 7" "\<not> is_slave_report f" "\<not> is_master_response f"
  define r where "r = \<lparr>ri_mqtt_req_info = None, ri_frame_key = FrameKey Init 2, ri_seq_num = 7,
    ri_origin_req_key = None\<rparr>"
  let ?s = "serial_recv (uart_message_new r f) agent_new"
  let ?s' = "?s\<lparr>ag_req_info := None, ag_log := ag_log ?s @ [Handled FromSerial r f]\<rparr>"
  have "agent_reachable ?s"
    by (rule timely_reachable_reachable, rule reachable_serial_recv)
       (simp_all add: timely_reachable.start numbered_def uart_message_new_def r_def f)
  moreover have "classify_response f ?s = Ok ?s'"
    using f by (simp add: classify_response_def serial_recv_def uart_message_new_def
        r_def match_req_def frame_get_seq_def)
  then have "agent_step ?s ?s'"
    by (rule agent_step.response [rotated]) (simp add: serial_recv_def)
  ultimately have "agent_reachable ?s'" by (rule agent_reachable.step)
  then show ?thesis using responses_match_requests [of ?s' FromSerial r f] by fastforce
qed

text \<open>No concurrent request is forgotten. As long as timers come after the writing of their request, a
  request in the table can always still be timed out: its own timer is waiting or its callback is under
  way, and when the timer runs it reports exactly this request and clears its entry.\<close>

theorem concurrent_request_watched:
  assumes "timely_reachable s" and "ag_table s q = Some (r, t)" and "\<not> ag_poisoned s"
    and "ag_firing s = None \<or> ag_firing s = Some (t, q)"
  shows "\<exists>s'. agent_step\<^sup>*\<^sup>* s s' \<and> ag_log s' = ag_log s @ [TimedOut FromConcurrent r]
    \<and> ag_table s' q = None \<and> \<not> ag_poisoned s'"
proof (cases "ag_firing s")
  case None
  with timely_reachable_watched [OF assms(1)] assms(2) have "(t, q) \<in> set (ag_timers s)"
    by (auto simp: agent_watched_def watched_def)
  with None have first: "agent_step s (timer_fire t q s)" by (rule agent_step.timer_fire)
  have "ag_table (timer_fire t q s) q = Some (r, t)" "\<not> ag_poisoned (timer_fire t q s)"
    "ag_firing (timer_fire t q s) = Some (t, q)" "ag_log (timer_fire t q s) = ag_log s"
    using assms by (simp_all add: timer_fire_def)
  with timer_takes_entry first show ?thesis
    by (metis (no_types, lifting) converse_rtranclp_into_rtranclp r_into_rtranclp)
next
  case (Some x)
  with assms(4) have "ag_firing s = Some (t, q)" by simp
  with timer_takes_entry assms(2,3) show ?thesis by (metis (no_types, lifting) r_into_rtranclp)
qed

theorem concurrent_request_watched_witness:
  "\<exists>s s' r. timely_reachable s \<and> ag_table s 7 = Some (r, 0) \<and> agent_step\<^sup>*\<^sup>* s s'
     \<and> TimedOut FromConcurrent r \<in> set (ag_log s')"
proof (rule sample_query)
  fix f
  assume f: "frame_get_seq f = 7" "\<not> is_slave_report f" "\<not> is_master_response f"
  define r where "r = \<lparr>ri_mqtt_req_info = None, ri_frame_key = FrameKey Init 2, ri_seq_num = 7,
    ri_origin_req_key = None\<rparr>"
  let ?m = "uart_message_new r f"
  let ?s = "concurrent_write True ?m (ag_next_timer agent_new) (concurrent_recv ?m agent_new)"
  have reach: "timely_reachable ?s"
    by (rule reachable_concurrent_request)
       (simp_all add: timely_reachable.start numbered_def uart_message_new_def r_def f)
  have "ag_table ?s 7 = Some (r, 0)" "\<not> ag_poisoned ?s" "ag_firing ?s = None"
    using f by (simp_all add: concurrent_write_def concurrent_recv_def uart_message_new_def
        Let_def)
  from concurrent_request_watched [OF reach this(1,2)] this reach show ?thesis by fastforce
qed

text \<open>C29: A timer can stop the service. When an answer arrives between the moment a timer is due and the
  moment its callback gets the lock, the callback finds no request, panics with the lock held and
  poisons it; the request itself was answered.\<close>

theorem late_timer_poisons:
  assumes "numbered m" and "frame_get_seq f = frame_get_seq (um_frame m)" and "\<not> is_slave_report f"
  shows "\<exists>s. timely_reachable s \<and> ag_poisoned s \<and> ag_log s =
    [Took FromConcurrent False (um_req_info m), Handled FromConcurrent (um_req_info m) f]"
proof -
  let ?q = "frame_get_seq (um_frame m)"
  let ?s1 = "concurrent_write True m (ag_next_timer agent_new) (concurrent_recv m agent_new)"
  let ?s2 = "timer_fire 0 ?q ?s1"
  let ?s3 = "?s2\<lparr>ag_table := (ag_table ?s2)(frame_get_seq f := None),
    ag_timers := drop_guard 0 (ag_timers ?s2), ag_log := ag_log ?s2 @ [Handled FromConcurrent (um_req_info m) f]\<rparr>"
  let ?s4 = "timer_body ?q ?s3"
  note steps = concurrent_write_def concurrent_recv_def timer_fire_def Let_def timely_def drop_old_def
  have "timely_reachable ?s1"
    by (rule reachable_concurrent_request) (simp_all add: timely_reachable.start assms(1))
  moreover have "agent_step ?s1 ?s2"
    by (rule agent_step.timer_fire) (simp_all add: steps)
  ultimately have "timely_reachable ?s2"
    by (rule timely_reachable.step) (simp add: steps)
  moreover have "classify_response f ?s2 = Ok ?s3"
    using assms by (simp add: classify_response_def steps)
  then have "agent_step ?s2 ?s3"
    by (rule agent_step.response [rotated]) (simp add: steps)
  ultimately have "timely_reachable ?s3"
    by (rule timely_reachable.step) (simp add: steps)
  moreover have "agent_step ?s3 ?s4"
    by (rule agent_step.timer_body [where t = 0]) (simp_all add: steps)
  ultimately have "timely_reachable ?s4"
    by (rule timely_reachable.step) (simp add: steps timer_body_def assms(2))
  moreover have "ag_poisoned ?s4" and "ag_log ?s4 =
    [Took FromConcurrent False (um_req_info m), Handled FromConcurrent (um_req_info m) f]"
    by (simp_all add: steps timer_body_def assms(2))
  ultimately show ?thesis by blast
qed

theorem late_timer_poisons_witness: "\<exists>s. agent_reachable s \<and> ag_poisoned s"
proof (rule sample_query)
  fix f
  assume f: "frame_get_seq f = 7" "\<not> is_slave_report f" "\<not> is_master_response f"
  define r where "r = \<lparr>ri_mqtt_req_info = None, ri_frame_key = FrameKey Init 2, ri_seq_num = 7,
    ri_origin_req_key = None\<rparr>"
  show ?thesis
    using late_timer_poisons [of "uart_message_new r f" f] f timely_reachable_reachable
    by (auto simp: numbered_def uart_message_new_def r_def)
qed

text \<open>After that the service hears and sends nothing more: from a poisoned state no request is taken by
  the serial thread, none times out and no response is handed over, whatever happens.\<close>

theorem poisoned_agent_is_dead:
  assumes "agent_step\<^sup>*\<^sup>* s s'" and "ag_poisoned s"
  shows "ag_poisoned s' \<and> (\<exists>l. ag_log s' = ag_log s @ l \<and> (\<forall>e \<in> set l. \<exists>r. e = Took FromConcurrent False r))"
  using assms
proof (induction rule: rtranclp_induct)
  case base
  then show ?case by simp
next
  case (step s1 s2)
  then obtain l where "ag_poisoned s1" "ag_log s1 = ag_log s @ l"
    "\<forall>e \<in> set l. \<exists>r. e = Took FromConcurrent False r" by blast
  with poisoned_step [OF step(2)] show ?case by auto
qed

theorem poisoned_agent_is_dead_witness:
  "\<exists>s. ag_poisoned s \<and> (\<forall>s'. agent_step\<^sup>*\<^sup>* s s' \<longrightarrow> ag_poisoned s')"
  using poisoned_agent_is_dead [of "agent_new\<lparr>ag_poisoned := True\<rparr>"] by (intro exI [of _ "agent_new\<lparr>ag_poisoned := True\<rparr>"]) auto

text \<open>The table of concurrent requests is keyed by an 8-bit number. A request whose number is still in
  the table takes the place of the older one, which is dropped together with its timer: it is neither
  answered nor timed out.\<close>

theorem reused_number_drops_request:
  assumes "numbered m" and "numbered m'" and "frame_get_seq (um_frame m') = frame_get_seq (um_frame m)"
  shows "\<exists>s. timely_reachable s \<and> ag_log s =
      [Took FromConcurrent False (um_req_info m), Took FromConcurrent False (um_req_info m'),
       Dropped FromConcurrent (um_req_info m)]
    \<and> ag_table s (frame_get_seq (um_frame m)) = Some (um_req_info m', 1)
    \<and> ag_timers s = [(1, frame_get_seq (um_frame m))]"
proof -
  let ?s1 = "concurrent_write True m (ag_next_timer agent_new) (concurrent_recv m agent_new)"
  let ?s2 = "concurrent_write True m' (ag_next_timer ?s1) (concurrent_recv m' ?s1)"
  note steps = concurrent_write_def concurrent_recv_def Let_def drop_old_def drop_guard_def
  have "timely_reachable ?s1"
    by (rule reachable_concurrent_request) (simp_all add: timely_reachable.start assms(1))
  then have "timely_reachable ?s2"
    by (rule reachable_concurrent_request) (simp_all add: assms(2) steps)
  moreover have "ag_log ?s2 =
      [Took FromConcurrent False (um_req_info m), Took FromConcurrent False (um_req_info m'),
       Dropped FromConcurrent (um_req_info m)]"
    "ag_table ?s2 (frame_get_seq (um_frame m)) = Some (um_req_info m', 1)"
    "ag_timers ?s2 = [(1, frame_get_seq (um_frame m))]"
    using assms(3) by (simp_all add: steps)
  ultimately show ?thesis by blast
qed

theorem reused_number_drops_request_witness:
  "\<exists>s r. agent_reachable s \<and> Dropped FromConcurrent r \<in> set (ag_log s)"
proof (rule sample_query)
  fix f
  assume f: "frame_get_seq f = 7" "\<not> is_slave_report f" "\<not> is_master_response f"
  define r where "r = \<lparr>ri_mqtt_req_info = None, ri_frame_key = FrameKey Init 2, ri_seq_num = 7,
    ri_origin_req_key = None\<rparr>"
  let ?m = "uart_message_new r f"
  have "numbered ?m" using f by (simp add: numbered_def uart_message_new_def r_def)
  from reused_number_drops_request [OF this this refl] obtain s where
    "timely_reachable s" "Dropped FromConcurrent r \<in> set (ag_log s)"
    by (auto simp: uart_message_new_def)
  with timely_reachable_reachable show ?thesis by blast
qed

text \<open>C30: The counter of consecutive timeouts, which decides that the module is gone, is the number of
  serial timeouts since the last answer, modulo 256.\<close>

theorem consecutive_timeouts_counted:
  assumes "agent_reachable s"
  shows "unat (ag_timeouts s) = timeouts_since_answer (ag_log s) mod 256"
  using reachable_timeouts [OF assms] by (simp add: unat_of_nat)

theorem consecutive_timeouts_counted_witness:
  "\<exists>s. agent_reachable s \<and> timeouts_since_answer (ag_log s) = 1 \<and> unat (ag_timeouts s) = 1"
proof (rule sample_query)
  fix f
  assume f: "frame_get_seq f = 7" "\<not> is_slave_report f" "\<not> is_master_response f"
  define r where "r = \<lparr>ri_mqtt_req_info = None, ri_frame_key = FrameKey Init 2, ri_seq_num = 7,
    ri_origin_req_key = None\<rparr>"
  let ?s = "serial_recv (uart_message_new r f) agent_new"
  let ?s' = "serial_expire r ?s"
  have "agent_reachable ?s"
    by (rule timely_reachable_reachable, rule reachable_serial_recv)
       (simp_all add: timely_reachable.start numbered_def uart_message_new_def r_def f)
  moreover have "agent_step ?s ?s'"
    by (rule agent_step.serial_expire)
       (simp_all add: serial_recv_def is_plain_response_def uart_message_new_def f)
  ultimately have "agent_reachable ?s'" by (rule agent_reachable.step)
  moreover have "timeouts_since_answer (ag_log ?s') = 1"
    by (simp add: serial_expire_def serial_recv_def drop_old_def timeouts_since_answer_def)
  ultimately show ?thesis using consecutive_timeouts_counted [of ?s'] by fastforce
qed

end
