(* ===== verification/Concurrent_Meter.thy ===== *)
theory Concurrent_Meter
  imports Requests "HOL-Library.AList"
begin

text \<open>
  src/src/service/concurrent_meter.rs: reading of meters on behalf of MQTT clients. Each meter address
  has a cache entry that says whether a reading is under way and queues the requests that came
  meanwhile; an answer or a timeout starts the next one.

  \<^item> The map of the entries is an association list, in the order the code iterates over it.
  \<^item> \<open>cm_seq\<close> is the counter of \<^verbatim>\<open>Frame::new_request\<close>; the clock is an argument, in milliseconds.
  \<^item> An operation returns its result, what it sent and the new state; after a panic the state is
    lost with the lock, and what it was is returned unchanged.
  \<^item> \<open>meter_run\<close> and \<open>meter_step\<close> put the operations together as the other components call them, with
    what was sent, which requests were accepted and which addresses have had an answer.
\<close>

section \<open>The entries\<close>

record meter_reading_config =
  mrc_cache_queue_size :: nat
  mrc_concurrent_addr :: nat
  mrc_queue_aging_time :: int

record sample_cache =
  sc_is_waiting_response :: bool
  sc_msg_cache_queue :: "mqtt_message list"
  sc_last_operation_time :: int

definition sample_cache_new :: "int \<Rightarrow> sample_cache" where
  "sample_cache_new now =
     \<lparr>sc_is_waiting_response = False, sc_msg_cache_queue = [], sc_last_operation_time = now\<rparr>"

record meter =
  cm_cache :: "(string \<times> sample_cache) list"
  cm_seq :: u8

section \<open>Payloads\<close>

definition sample_payload_from_json :: "json \<Rightarrow> sample_payload result" where
  "sample_payload_from_json v =
     andThen (string_field v ''taskID'') (\<lambda>task_id.
     andThen (string_field v ''acqAddr'') (\<lambda>acq_addr.
     andThen (string_field v ''proType'') (\<lambda>pro_type.
     andThen (string_field v ''data'') (\<lambda>data.
     Ok \<lparr>sp_task_id = task_id, sp_acq_addr = acq_addr, sp_pro_type = pro_type, sp_data = data\<rparr>))))"

definition sample_payload_to_json :: "sample_payload \<Rightarrow> json" where
  "sample_payload_to_json p =
     JObj [(''taskID'', JStr (sp_task_id p)), (''acqAddr'', JStr (sp_acq_addr p)),
           (''proType'', JStr (sp_pro_type p)), (''data'', JStr (sp_data p))]"

definition message_sample_payload :: "mqtt_message \<Rightarrow> sample_payload result" where
  "message_sample_payload m =
     (case mm_payload m of None \<Rightarrow> Err InvalidJsonText | Some v \<Rightarrow> sample_payload_from_json v)"

text \<open>\<^verbatim>\<open>get_extra_data().unwrap().downcast::<SamplePayload>().unwrap()\<close>.\<close>

fun sample_extra :: "extra option \<Rightarrow> sample_payload result" where
  "sample_extra None = Panic UnwrapOnNone"
| "sample_extra (Some (ExtraSample p)) = Ok p"
| "sample_extra (Some (ExtraAddress a)) = Panic UnwrapOnErr"

definition sample_payload_into_mqtt_message ::
    "env \<Rightarrow> mqtt_req_info \<Rightarrow> sample_payload \<Rightarrow> mqtt_message result" where
  "sample_payload_into_mqtt_message env mqtt p =
     andThen (sample_extra (mri_extra_data mqtt)) (\<lambda>extra.
     let extra_data = extra\<lparr>sp_data := sp_data p\<rparr> in
     if sp_data extra_data = []
     then new_with_req_info_status_reason env mqtt Failure (error_text env (ConcurrentMeterErr MeterReading))
     else new_with_req_info_body env mqtt (Some (Flat (sample_payload_to_json extra_data))))"

definition sample_payload_from_response :: "env \<Rightarrow> concurrent_read_meter_response \<Rightarrow> sample_payload" where
  "sample_payload_from_response env r =
     \<lparr>sp_task_id = [], sp_acq_addr = [], sp_pro_type = [], sp_data = env_hex_encode env (crr_message r)\<rparr>"

section \<open>Operations\<close>

text \<open>The request for one message; it is only sent when nothing in it panics.\<close>

definition mqtt_meter_reading_handler ::
    "env \<Rightarrow> mqtt_message \<Rightarrow> address \<Rightarrow> u8 \<Rightarrow> (action \<times> u8) result" where
  "mqtt_meter_reading_handler env message master SEQ =
     andThen (unwrap (message_sample_payload message)) (\<lambda>sample.
     andThen (get_app (mm_topic message)) (\<lambda>app.
     let response_topic = app @ ''/notify/spont/'' @ APP_NAME @ ''/reportConcurrent'' in
     andThen (address_from_str (env_hex_decode env) (sp_acq_addr sample)) (\<lambda>dst.
     andThen (unwrap (parse_u8 (sp_pro_type sample))) (\<lambda>protocol.
     andThen (unwrap_option (env_hex_decode env (sp_data sample))) (\<lambda>data.
     let request = frame_new_request SEQ
           (Some \<lparr>src_address = master, relay_address = None, dst_address = dst\<rparr>)
           (concurrent_read_meter_request_to_app_data (concurrent_read_meter_request_new protocol data)) in
     andThen (fst request) (\<lambda>frame.
     andThen (get_token message) (\<lambda>token.
     andThen (req_info_new_with_mqtt frame response_topic token (Some (ExtraSample sample))) (\<lambda>r.
     Ok (ToConcurrent (uart_message_new r frame), snd request)))))))))"

definition concurrent_addr_num :: "(string \<times> sample_cache) list \<Rightarrow> nat" where
  "concurrent_addr_num cache =
     foldl (\<lambda>acc (k, v). acc + (if sc_is_waiting_response v \<or> sc_msg_cache_queue v \<noteq> [] then 1 else 0)) 0 cache"

text \<open>The panic of an operation keeps the state it had.\<close>

fun meter_panics :: "meter \<Rightarrow> ('a \<Rightarrow> unit result \<times> action list \<times> meter) \<Rightarrow> 'a result
    \<Rightarrow> unit result \<times> action list \<times> meter" where
  "meter_panics s k (Ok x) = k x"
| "meter_panics s k (Err e) = (Err e, [], s)"
| "meter_panics s k (Panic p) = (Panic p, [], s)"

definition handle_next_request ::
    "env \<Rightarrow> string \<Rightarrow> address \<Rightarrow> meter \<Rightarrow> unit result \<times> action list \<times> meter" where
  "handle_next_request env acq_addr master s =
     (case map_of (cm_cache s) acq_addr of
        None \<Rightarrow> (Ok (), [], s)
      | Some cache \<Rightarrow>
          (case sc_msg_cache_queue cache of
             [] \<Rightarrow>
               (Ok (), [], s\<lparr>cm_cache :=
                  AList.update acq_addr (cache\<lparr>sc_is_waiting_response := False\<rparr>) (cm_cache s)\<rparr>)
           | message # queue \<Rightarrow>
               meter_panics s
                 (\<lambda>(a, SEQ). (Ok (), [a],
                    s\<lparr>cm_cache := AList.update acq_addr
                        (cache\<lparr>sc_msg_cache_queue := queue, sc_is_waiting_response := True\<rparr>) (cm_cache s),
                      cm_seq := SEQ\<rparr>))
                 (mqtt_meter_reading_handler env message master (cm_seq s))))"

definition uart_meter_reading_timeout ::
    "env \<Rightarrow> mqtt_req_info \<Rightarrow> address \<Rightarrow> meter \<Rightarrow> unit result \<times> action list \<times> meter" where
  "uart_meter_reading_timeout env mqtt master s =
     meter_panics s
       (\<lambda>(extra_data, m).
          (case handle_next_request env (sp_acq_addr extra_data) master s of
             (r, acts, s') \<Rightarrow> (r, ToMqtt m # acts, s')))
       (andThen (sample_extra (mri_extra_data mqtt)) (\<lambda>extra_data.
        andThen (mqtt_message_new (mri_topic mqtt)
                   (mqtt_payload_new env (mri_token mqtt) Failure
                      (error_text env (MqttResponseErr RequestTimeout))
                      (Some (Flat (sample_payload_to_json extra_data))))) (\<lambda>m.
        Ok (extra_data, m))))"

definition handle_waiting_cache ::
    "meter_reading_config \<Rightarrow> int \<Rightarrow> string \<Rightarrow> sample_cache \<Rightarrow> mqtt_message \<Rightarrow> meter
       \<Rightarrow> unit result \<times> action list \<times> meter" where
  "handle_waiting_cache config now acq_addr cache message s =
     (if mrc_cache_queue_size config \<le> length (sc_msg_cache_queue cache)
      then (Err (ConcurrentMeterErr (QueueLimit (mrc_cache_queue_size config))), [], s)
      else (Ok (), [], s\<lparr>cm_cache := AList.update acq_addr
              (cache\<lparr>sc_msg_cache_queue := sc_msg_cache_queue cache @ [message],
                 sc_last_operation_time := now\<rparr>) (cm_cache s)\<rparr>))"

definition handle_meter_reading ::
    "env \<Rightarrow> meter_reading_config \<Rightarrow> int \<Rightarrow> bool \<Rightarrow> mqtt_message \<Rightarrow> address \<Rightarrow> string \<Rightarrow> meter
       \<Rightarrow> unit result \<times> action list \<times> meter" where
  "handle_meter_reading env config now metering message master acq_addr s =
     (if map_of (cm_cache s) acq_addr = None
         \<and> mrc_concurrent_addr config \<le> concurrent_addr_num (cm_cache s)
      then (Err (ConcurrentMeterErr (AddrLimit (mrc_concurrent_addr config))), [], s)
      else
        (let s = (if map_of (cm_cache s) acq_addr = None
                  then s\<lparr>cm_cache := AList.update acq_addr (sample_cache_new now) (cm_cache s)\<rparr>
                  else s);
             cache = (case map_of (cm_cache s) acq_addr of
                        Some c \<Rightarrow> c | None \<Rightarrow> sample_cache_new now) in
         if sc_is_waiting_response cache \<or> metering
         then handle_waiting_cache config now acq_addr cache message s
         else
           meter_panics s
             (\<lambda>(a, SEQ). (Ok (), [a],
                s\<lparr>cm_cache :=
                    AList.update acq_addr (cache\<lparr>sc_is_waiting_response := True\<rparr>) (cm_cache s),
                  cm_seq := SEQ\<rparr>))
             (mqtt_meter_reading_handler env message master (cm_seq s))))"

definition mqtt_concurrent_meter_reading ::
    "env \<Rightarrow> meter_reading_config \<Rightarrow> int \<Rightarrow> bool \<Rightarrow> mqtt_message \<Rightarrow> address \<Rightarrow> meter
       \<Rightarrow> unit result \<times> action list \<times> meter" where
  "mqtt_concurrent_meter_reading env config now metering message master s =
     meter_panics s
       (\<lambda>(payload, topic, token).
          (case handle_meter_reading env config now metering message master (sp_acq_addr payload) s of
             (r, acts, s') \<Rightarrow>
               (case andThen (mqtt_payload_new_with_token_result env token r) (mqtt_message_new topic) of
                  Ok response \<Rightarrow> (Ok (), acts @ [ToMqtt response], s')
                | Err e \<Rightarrow> (Err e, acts, s')
                | Panic p \<Rightarrow> (Panic p, acts, s'))))
       (andThen (message_sample_payload message) (\<lambda>payload.
        andThen (transfer_topic (mm_topic message)) (\<lambda>topic.
        andThen (get_token message) (\<lambda>token.
        Ok (payload, topic, token)))))"

text \<open>The loop over the entries; a panic leaves the rest as it is.\<close>

fun handle_cache_entries ::
    "env \<Rightarrow> address \<Rightarrow> u8 \<Rightarrow> (string \<times> sample_cache) list
       \<Rightarrow> unit result \<times> action list \<times> (string \<times> sample_cache) list \<times> u8" where
  "handle_cache_entries env master SEQ [] = (Ok (), [], [], SEQ)"
| "handle_cache_entries env master SEQ ((k, cache) # rest) =
     (if sc_is_waiting_response cache \<or> sc_msg_cache_queue cache = []
      then (case handle_cache_entries env master SEQ rest of
              (r, acts, rest', SEQ') \<Rightarrow> (r, acts, (k, cache) # rest', SEQ'))
      else
        (case mqtt_meter_reading_handler env (hd (sc_msg_cache_queue cache)) master SEQ of
           Ok (a, SEQ') \<Rightarrow>
             (case handle_cache_entries env master SEQ' rest of
                (r, acts, rest', SEQ'') \<Rightarrow>
                  (r, a # acts,
                   (k, cache\<lparr>sc_msg_cache_queue := tl (sc_msg_cache_queue cache),
                        sc_is_waiting_response := True\<rparr>) # rest', SEQ''))
         | Err e \<Rightarrow> (Err e, [], (k, cache) # rest, SEQ)
         | Panic p \<Rightarrow> (Panic p, [], (k, cache) # rest, SEQ)))"

definition handle_cache_request ::
    "env \<Rightarrow> address \<Rightarrow> meter \<Rightarrow> unit result \<times> action list \<times> meter" where
  "handle_cache_request env master s =
     (case handle_cache_entries env master (cm_seq s) (cm_cache s) of
        (r, acts, cache, SEQ) \<Rightarrow> (r, acts, s\<lparr>cm_cache := cache, cm_seq := SEQ\<rparr>))"

definition concurrent_acq_addr :: "uart_message \<Rightarrow> string result" where
  "concurrent_acq_addr message =
     andThen (unwrap_option (ri_mqtt_req_info (um_req_info message))) (\<lambda>mqtt.
     andThen (sample_extra (mri_extra_data mqtt)) (\<lambda>extra_data.
     Ok (sp_acq_addr extra_data)))"

definition uart_meter_reading ::
    "env \<Rightarrow> uart_message \<Rightarrow> address \<Rightarrow> meter \<Rightarrow> unit result \<times> action list \<times> meter" where
  "uart_meter_reading env message master s =
     meter_panics s
       (\<lambda>(acq_addr, replies).
          (case handle_next_request env acq_addr master s of
             (r, acts, s') \<Rightarrow> (r, replies @ acts, s')))
       (andThen (concurrent_acq_addr message) (\<lambda>acq_addr.
        andThen (uart_response_handler env concurrent_read_meter_response_try_from
                   (sample_payload_from_response env) (sample_payload_into_mqtt_message env) message) (\<lambda>replies.
        Ok (acq_addr, replies))))"

text \<open>The callback that runs every \<open>mrc_queue_aging_time\<close> minutes.\<close>

definition aging_queue :: "meter_reading_config \<Rightarrow> int \<Rightarrow> meter \<Rightarrow> meter" where
  "aging_queue config now s =
     s\<lparr>cm_cache := filter (\<lambda>(k, v).
         sc_is_waiting_response v \<or> sc_msg_cache_queue v \<noteq> []
         \<or> now - sc_last_operation_time v < mrc_queue_aging_time config * 60000) (cm_cache s)\<rparr>"

section \<open>What the operations do to the queues\<close>

text \<open>The abstract state: for each address whether a reading is under way, and the waiting requests; an
  address without an entry is idle. An offered message is sent, queued or refused; the end of a reading
  starts the next; a flush starts one reading at each idle address with a queue.\<close>

definition cache_view :: "(string \<times> sample_cache) list \<Rightarrow> string \<Rightarrow> bool \<times> mqtt_message list" where
  "cache_view cache a =
     (case map_of cache a of
        None \<Rightarrow> (False, [])
      | Some c \<Rightarrow> (sc_is_waiting_response c, sc_msg_cache_queue c))"

definition meter_view :: "meter \<Rightarrow> string \<Rightarrow> bool \<times> mqtt_message list" where
  "meter_view s = cache_view (cm_cache s)"

lemmas views = meter_view_def cache_view_def

datatype verdict = Sent | Queued | Refused

fun offer :: "nat \<Rightarrow> bool \<Rightarrow> mqtt_message \<Rightarrow> bool \<times> mqtt_message list
    \<Rightarrow> (bool \<times> mqtt_message list) \<times> verdict" where
  "offer limit metering m (w, q) =
     (if \<not> w \<and> \<not> metering then ((True, q), Sent)
      else if length q < limit then ((w, q @ [m]), Queued)
      else ((w, q), Refused))"

fun next_reading :: "bool \<times> mqtt_message list \<Rightarrow> (bool \<times> mqtt_message list) \<times> mqtt_message option" where
  "next_reading (w, []) = ((False, []), None)"
| "next_reading (w, m # q) = ((True, q), Some m)"

fun flush_reading :: "bool \<times> mqtt_message list \<Rightarrow> (bool \<times> mqtt_message list) \<times> mqtt_message option" where
  "flush_reading (w, q) =
     (if w \<or> q = [] then ((w, q), None) else ((True, tl q), Some (hd q)))"

text \<open>The reading an action starts.\<close>

fun sent_sample :: "action \<Rightarrow> sample_payload option" where
  "sent_sample (ToConcurrent m) =
     (case ri_mqtt_req_info (um_req_info m) of
        Some q \<Rightarrow> (case mri_extra_data q of Some (ExtraSample p) \<Rightarrow> Some p | _ \<Rightarrow> None)
      | None \<Rightarrow> None)"
| "sent_sample _ = None"

definition sent_to :: "string \<Rightarrow> action list \<Rightarrow> sample_payload list" where
  "sent_to a acts = [p \<leftarrow> List.map_filter sent_sample acts. sp_acq_addr p = a]"

lemma sent_to_append [simp]: "sent_to a (xs @ ys) = sent_to a xs @ sent_to a ys"
  by (simp add: sent_to_def List.map_filter_def)

lemma sent_to_Nil [simp]: "sent_to a [] = []"
  by (simp add: sent_to_def List.map_filter_def)

lemma sent_to_Cons:
  "sent_to a (x # xs) =
     (case sent_sample x of Some p \<Rightarrow> if sp_acq_addr p = a then [p] else [] | None \<Rightarrow> []) @ sent_to a xs"
  by (auto simp: sent_to_def List.map_filter_def split: option.splits)

lemma handler_sends:
  assumes "mqtt_meter_reading_handler env m master SEQ = Ok (x, SEQ')"
  obtains p u where "message_sample_payload m = Ok p" "sent_sample x = Some p" "x = ToConcurrent u"
    "ri_seq_num (um_req_info u) = frame_get_seq (um_frame u)" "frame_get_seq (um_frame u) = SEQ"
    "SEQ' = SEQ + 1"
proof -
  from assms obtain p where p: "message_sample_payload m = Ok p"
    by (auto simp: mqtt_meter_reading_handler_def)
  with assms obtain a d f token topic r where
    f: "frame_new False SEQ a d = Ok f" and r: "req_info_new_with_mqtt f topic token (Some (ExtraSample p)) = Ok r"
    and x: "x = ToConcurrent (uart_message_new r f)" and seq: "SEQ' = SEQ + 1"
    by (auto simp: mqtt_meter_reading_handler_def Let_def frame_new_request_def)
  from r x have "sent_sample x = Some p" and num: "ri_seq_num r = frame_get_seq f"
    by (auto simp: req_info_new_with_mqtt_def req_info_new_def mqtt_req_info_new_def uart_message_new_def)
  with p x seq frame_new_sel(3) [OF f] show ?thesis
    by (intro that [of p "uart_message_new r f"]) (simp_all add: uart_message_new_def)
qed

lemma andThen_eq_Err: "andThen m k = Err e \<longleftrightarrow> m = Err e \<or> (\<exists>x. m = Ok x \<and> k x = Err e)"
  by (cases m) auto

lemma unwraps_no_Err [simp]: "unwrap m \<noteq> Err e" "unwrap_option x \<noteq> Err e"
  by (cases m; simp) (cases x; simp)

lemma handler_never_errs: "mqtt_meter_reading_handler env m master SEQ \<noteq> Err e"
proof -
  have "get_app topic \<noteq> Err e" for topic by (simp add: get_app_def split: list.splits)
  moreover have "address_from_str d a \<noteq> Err e" for d a
    by (auto simp: address_from_str_def split: option.splits outcome.splits)
  moreover have "fst (frame_new_request SEQ a (app_data_new x n units)) \<noteq> Err e" for a x n units
    by (simp add: frame_new_request_def frame_new_Ok)
  moreover have "get_token m \<noteq> Err e" by (simp add: get_token_def andThen_eq_Err)
  moreover have "req_info_new_with_mqtt f topic token x \<noteq> Err e"
    if "fst (frame_new_request SEQ a (app_data_new y n units)) = Ok f" for f topic token x a y n units
    using frame_new_sel(5) that
    by (auto simp: req_info_new_with_mqtt_def mqtt_req_info_new_def transfer_topic_def req_info_new_def
        frame_key_of_def andThen_eq_Err frame_new_request_def)
  ultimately show ?thesis
    by (auto simp: mqtt_meter_reading_handler_def Let_def andThen_eq_Err
        concurrent_read_meter_request_to_app_data_def)
qed

lemma meter_panics_Ok:
  "meter_panics s k x = (Ok u, acts, s') \<Longrightarrow> \<exists>y. x = Ok y \<and> k y = (Ok u, acts, s')"
  by (cases x) auto

section \<open>Refinement\<close>

lemma meter_view_update:
  "meter_view (s\<lparr>cm_cache := AList.update a c (cm_cache s)\<rparr>) =
     (meter_view s)(a := (sc_is_waiting_response c, sc_msg_cache_queue c))"
  by (auto simp: views update_conv')

lemma meter_view_seq [simp]: "meter_view (s\<lparr>cm_seq := n\<rparr>) = meter_view s"
  by (auto simp: views)

text \<open>A new address gets an empty entry, which looks as before.\<close>

definition with_entry :: "int \<Rightarrow> string \<Rightarrow> meter \<Rightarrow> meter" where
  "with_entry now a s =
     (if map_of (cm_cache s) a = None
      then s\<lparr>cm_cache := AList.update a (sample_cache_new now) (cm_cache s)\<rparr> else s)"

lemma with_entry_view: "meter_view (with_entry now a s) = meter_view s"
proof (cases "map_of (cm_cache s) a")
  case None
  then have "meter_view s a = (False, [])" by (simp add: views)
  then have "(meter_view s)(a := (False, [])) = meter_view s" by (metis fun_upd_triv)
  with None show ?thesis by (simp add: with_entry_def meter_view_update sample_cache_new_def)
qed (simp add: with_entry_def)

lemma with_entry_keys: "distinct (map fst (cm_cache s)) \<Longrightarrow> distinct (map fst (cm_cache (with_entry now a s)))"
  by (simp add: with_entry_def distinct_update)

lemma handle_meter_reading_cases:
  assumes "handle_meter_reading env config now metering m master a s = (r, acts, s')"
  obtains
    (limit) "map_of (cm_cache s) a = None" "mrc_concurrent_addr config \<le> concurrent_addr_num (cm_cache s)"
      "r = Err (ConcurrentMeterErr (AddrLimit (mrc_concurrent_addr config)))" "acts = []" "s' = s"
  | (busy) c where "map_of (cm_cache (with_entry now a s)) a = Some c" "sc_is_waiting_response c \<or> metering"
      "handle_waiting_cache config now a c m (with_entry now a s) = (r, acts, s')"
  | (idle) c where "map_of (cm_cache (with_entry now a s)) a = Some c" "\<not> sc_is_waiting_response c" "\<not> metering"
      "meter_panics (with_entry now a s)
         (\<lambda>(x, SEQ). (Ok (), [x], (with_entry now a s)\<lparr>cm_cache :=
            AList.update a (c\<lparr>sc_is_waiting_response := True\<rparr>) (cm_cache (with_entry now a s)), cm_seq := SEQ\<rparr>))
         (mqtt_meter_reading_handler env m master (cm_seq (with_entry now a s))) = (r, acts, s')"
proof (cases "map_of (cm_cache s) a = None \<and> mrc_concurrent_addr config \<le> concurrent_addr_num (cm_cache s)")
  case True
  with assms show ?thesis by (intro limit) (simp_all add: handle_meter_reading_def)
next
  case False
  obtain c where c: "map_of (cm_cache (with_entry now a s)) a = Some c"
    by (cases "map_of (cm_cache s) a") (simp_all add: with_entry_def update_conv')
  show ?thesis
  proof (cases "sc_is_waiting_response c \<or> metering")
    case True
    with assms False c have "handle_waiting_cache config now a c m (with_entry now a s) = (r, acts, s')"
      by (simp add: handle_meter_reading_def Let_def flip: with_entry_def)
    with busy c True show ?thesis by blast
  next
    case no: False
    with assms False c show ?thesis
      by (intro idle [OF c]) (simp_all add: handle_meter_reading_def Let_def flip: with_entry_def)
  qed
qed

lemma handle_meter_reading_view:
  assumes "handle_meter_reading env config now metering m master a s = (r, acts, s')" and "\<not> panics r"
    and "message_sample_payload m = Ok p" and "sp_acq_addr p = a"
  obtains
    (refused) e where "r = Err e" "acts = []" "meter_view s' = meter_view s"
      "map_of (cm_cache s) a = None \<and> mrc_concurrent_addr config \<le> concurrent_addr_num (cm_cache s)
       \<or> snd (offer (mrc_cache_queue_size config) metering m (meter_view s a)) = Refused"
  | (queued) "r = Ok ()" "acts = []"
      "offer (mrc_cache_queue_size config) metering m (meter_view s a) = (meter_view s' a, Queued)"
      "\<And>b. b \<noteq> a \<Longrightarrow> meter_view s' b = meter_view s b"
  | (sent) "r = Ok ()" "\<And>b. sent_to b acts = (if b = a then [p] else [])"
      "offer (mrc_cache_queue_size config) metering m (meter_view s a) = (meter_view s' a, Sent)"
      "\<And>b. b \<noteq> a \<Longrightarrow> meter_view s' b = meter_view s b"
  using assms(1)
proof (cases rule: handle_meter_reading_cases)
  case limit
  then show ?thesis by (intro refused) simp_all
next
  case (busy c)
  have "meter_view (with_entry now a s) a = (sc_is_waiting_response c, sc_msg_cache_queue c)"
    using busy(1) by (simp add: views)
  then have here: "meter_view s a = (sc_is_waiting_response c, sc_msg_cache_queue c)"
    by (simp only: with_entry_view)
  show ?thesis
  proof (cases "length (sc_msg_cache_queue c) < mrc_cache_queue_size config")
    case True
    with busy here show ?thesis
      by (intro queued) (auto simp: handle_waiting_cache_def meter_view_update with_entry_view)
  next
    case False
    with busy here show ?thesis
      by (intro refused) (auto simp: handle_waiting_cache_def with_entry_view)
  qed
next
  case (idle c)
  have "meter_view (with_entry now a s) a = (sc_is_waiting_response c, sc_msg_cache_queue c)"
    using idle(1) by (simp add: views)
  then have here: "meter_view s a = (sc_is_waiting_response c, sc_msg_cache_queue c)"
    by (simp only: with_entry_view)
  from idle(4) assms(2) handler_never_errs obtain x SEQ' where
    x: "mqtt_meter_reading_handler env m master (cm_seq (with_entry now a s)) = Ok (x, SEQ')"
    by (cases "mqtt_meter_reading_handler env m master (cm_seq (with_entry now a s))") auto
  with assms(3) have "sent_sample x = Some p" by (metis handler_sends outcome.inject(1))
  with x idle here assms(4) show ?thesis
    by (intro sent) (auto simp: meter_view_update with_entry_view sent_to_Cons)
qed

definition option_list :: "'a option \<Rightarrow> 'a list" where
  "option_list x = (case x of None \<Rightarrow> [] | Some y \<Rightarrow> [y])"

lemma option_list_simps [simp]: "option_list None = []" "option_list (Some x) = [x]"
  by (simp_all add: option_list_def)

text \<open>Every queued message is a reading of the address it is queued for.\<close>

definition entries_ok :: "(string \<times> sample_cache) list \<Rightarrow> bool" where
  "entries_ok cache \<longleftrightarrow> distinct (map fst cache)
     \<and> (\<forall>(a, c) \<in> set cache. \<forall>m \<in> set (sc_msg_cache_queue c).
          \<exists>p. message_sample_payload m = Ok p \<and> sp_acq_addr p = a)"

lemma entries_okD:
  assumes "entries_ok cache" and "m \<in> set (snd (cache_view cache a))"
  obtains p where "message_sample_payload m = Ok p" "sp_acq_addr p = a"
  using assms by (fastforce simp: entries_ok_def cache_view_def dest: map_of_SomeD split: option.splits)

lemma sent_to_handler:
  assumes "mqtt_meter_reading_handler env m master SEQ = Ok (x, SEQ')"
    and "message_sample_payload m = Ok p"
  shows "sent_to b [x] = (if sp_acq_addr p = b then [p] else [])"
proof -
  from handler_sends [OF assms(1)] assms(2) have "sent_sample x = Some p" by (metis outcome.inject(1))
  then show ?thesis by (simp add: sent_to_Cons)
qed

lemma handle_next_request_view:
  assumes "handle_next_request env a master s = (Ok u, acts, s')" and "entries_ok (cm_cache s)"
  shows "meter_view s' = (meter_view s)(a := fst (next_reading (meter_view s a)))"
    and "map Ok (sent_to b acts) =
      (if b = a then map message_sample_payload (option_list (snd (next_reading (meter_view s a)))) else [])"
proof -
  have "meter_view s' = (meter_view s)(a := fst (next_reading (meter_view s a)))
    \<and> map Ok (sent_to b acts) =
      (if b = a then map message_sample_payload (option_list (snd (next_reading (meter_view s a)))) else [])"
  proof (cases "map_of (cm_cache s) a")
    case None
    with assms(1) show ?thesis by (auto simp: handle_next_request_def views)
  next
    case (Some c)
    then have here: "meter_view s a = (sc_is_waiting_response c, sc_msg_cache_queue c)"
      by (simp add: views)
    show ?thesis
    proof (cases "sc_msg_cache_queue c")
      case Nil
      with Some assms(1) here show ?thesis
        by (auto simp: handle_next_request_def meter_view_update)
    next
      case (Cons m q)
      with Some assms(1) obtain x SEQ' where
        x: "mqtt_meter_reading_handler env m master (cm_seq s) = Ok (x, SEQ')"
        and out: "acts = [x]"
        "s' = s\<lparr>cm_cache := AList.update a
          (c\<lparr>sc_msg_cache_queue := q, sc_is_waiting_response := True\<rparr>) (cm_cache s), cm_seq := SEQ'\<rparr>"
        by (auto simp: handle_next_request_def dest!: meter_panics_Ok)
      from assms(2) here Cons obtain p where "message_sample_payload m = Ok p" "sp_acq_addr p = a"
        by (metis entries_okD list.set_intros(1) meter_view_def snd_conv)
      with sent_to_handler [OF x] out here Cons show ?thesis by (auto simp: meter_view_update)
    qed
  qed
  then show "meter_view s' = (meter_view s)(a := fst (next_reading (meter_view s a)))"
    and "map Ok (sent_to b acts) =
      (if b = a then map message_sample_payload (option_list (snd (next_reading (meter_view s a)))) else [])"
    by blast+
qed

lemma cache_view_Cons:
  "cache_view ((k, c) # cache) a =
     (if a = k then (sc_is_waiting_response c, sc_msg_cache_queue c) else cache_view cache a)"
  by (simp add: cache_view_def)

lemma cache_view_absent: "a \<notin> fst ` set cache \<Longrightarrow> cache_view cache a = (False, [])"
  by (auto simp: cache_view_def map_of_eq_None_iff [THEN iffD2])

lemma entries_ok_Cons:
  "entries_ok ((k, c) # cache) \<longleftrightarrow> k \<notin> fst ` set cache \<and> entries_ok cache
     \<and> (\<forall>m \<in> set (sc_msg_cache_queue c). \<exists>p. message_sample_payload m = Ok p \<and> sp_acq_addr p = k)"
  by (auto simp: entries_ok_def)

lemma handle_cache_entries_view:
  assumes "handle_cache_entries env master SEQ cache = (Ok u, acts, cache', SEQ')" and "entries_ok cache"
  shows "map fst cache' = map fst cache \<and> cache_view cache' a = fst (flush_reading (cache_view cache a))
    \<and> map Ok (sent_to a acts) = map message_sample_payload (option_list (snd (flush_reading (cache_view cache a))))"
  using assms
proof (induction cache arbitrary: SEQ acts cache')
  case Nil
  then show ?case by (simp add: cache_view_def)
next
  case (Cons entry rest)
  obtain k c where entry: "entry = (k, c)" by fastforce
  show ?case
  proof (cases "sc_is_waiting_response c \<or> sc_msg_cache_queue c = []")
    case True
    with Cons.prems entry obtain rest' where
      rest: "handle_cache_entries env master SEQ rest = (Ok u, acts, rest', SEQ')"
      and cache': "cache' = (k, c) # rest'"
      by (auto split: prod.splits)
    from Cons.IH [OF rest] Cons.prems(2) entry have IH: "map fst rest' = map fst rest"
      "cache_view rest' a = fst (flush_reading (cache_view rest a))"
      "map Ok (sent_to a acts) = map message_sample_payload (option_list (snd (flush_reading (cache_view rest a))))"
      by (simp_all add: entries_ok_Cons)
    show ?thesis
    proof (cases "a = k")
      case here: True
      then have "cache_view rest a = (False, [])"
        using Cons.prems(2) entry by (simp add: entries_ok_Cons cache_view_absent)
      with here True IH entry cache' show ?thesis by (auto simp: cache_view_Cons)
    next
      case other: False
      with True IH entry cache' show ?thesis by (simp add: cache_view_Cons)
    qed
  next
    case False
    then obtain m q where queue: "sc_msg_cache_queue c = m # q" by (cases "sc_msg_cache_queue c") auto
    with False Cons.prems(1) entry obtain x SEQ1 acts1 rest' where
      x: "mqtt_meter_reading_handler env m master SEQ = Ok (x, SEQ1)"
      and rest: "handle_cache_entries env master SEQ1 rest = (Ok u, acts1, rest', SEQ')"
      and out: "acts = x # acts1"
      "cache' = (k, c\<lparr>sc_msg_cache_queue := q, sc_is_waiting_response := True\<rparr>) # rest'"
      by (auto split: prod.splits outcome.splits)
    from Cons.IH [OF rest] Cons.prems(2) entry have IH: "map fst rest' = map fst rest"
      "cache_view rest' a = fst (flush_reading (cache_view rest a))"
      "map Ok (sent_to a acts1) = map message_sample_payload (option_list (snd (flush_reading (cache_view rest a))))"
      by (simp_all add: entries_ok_Cons)
    from Cons.prems(2) entry queue obtain p where p: "message_sample_payload m = Ok p" "sp_acq_addr p = k"
      by (auto simp: entries_ok_Cons)
    have head: "sent_to a acts = (if k = a then [p] else []) @ sent_to a acts1"
      using sent_to_handler [OF x p(1)] p(2) sent_to_append [of a "[x]" acts1] out(1) by simp
    show ?thesis
    proof (cases "a = k")
      case here: True
      then have "cache_view rest a = (False, [])"
        using Cons.prems(2) entry by (simp add: entries_ok_Cons cache_view_absent)
      with here False IH entry out queue head p show ?thesis by (auto simp: cache_view_Cons)
    next
      case other: False
      with False IH entry out head show ?thesis by (simp add: cache_view_Cons)
    qed
  qed
qed

lemma handle_cache_request_view:
  assumes "handle_cache_request env master s = (Ok u, acts, s')" and "entries_ok (cm_cache s)"
  shows "map fst (cm_cache s') = map fst (cm_cache s)"
    and "meter_view s' a = fst (flush_reading (meter_view s a))"
    and "map Ok (sent_to a acts) =
      map message_sample_payload (option_list (snd (flush_reading (meter_view s a))))"
proof -
  from assms(1) obtain cache' SEQ' where
    entries: "handle_cache_entries env master (cm_seq s) (cm_cache s) = (Ok u, acts, cache', SEQ')"
    and s': "s' = s\<lparr>cm_cache := cache', cm_seq := SEQ'\<rparr>"
    by (auto simp: handle_cache_request_def split: prod.splits)
  from handle_cache_entries_view [OF entries assms(2)] s'
  show "map fst (cm_cache s') = map fst (cm_cache s)"
    and "meter_view s' a = fst (flush_reading (meter_view s a))"
    and "map Ok (sent_to a acts) =
      map message_sample_payload (option_list (snd (flush_reading (meter_view s a))))"
    by (simp_all add: meter_view_def)
qed

lemma map_of_filter_values:
  "distinct (map fst xs) \<Longrightarrow>
     map_of (filter (\<lambda>(k, v). P v) xs) a =
       (case map_of xs a of None \<Rightarrow> None | Some v \<Rightarrow> if P v then Some v else None)"
proof (induction xs)
  case (Cons x xs)
  obtain k v where x: "x = (k, v)" by fastforce
  have "map_of xs k = None" if "a = k" using Cons.prems x that by (simp add: map_of_eq_None_iff)
  with Cons x show ?case by (auto split: option.splits)
qed simp

lemma aging_queue_view:
  "distinct (map fst (cm_cache s)) \<Longrightarrow> meter_view (aging_queue config now s) = meter_view s"
  by (rule ext) (simp add: views aging_queue_def map_of_filter_values split: option.splits)

lemma entries_ok_filter: "entries_ok cache \<Longrightarrow> entries_ok (filter P cache)"
  by (auto simp: entries_ok_def distinct_map_filter)

text \<open>With the keys distinct, the condition on the entries is one on the queues that are seen.\<close>

lemma entries_ok_iff:
  "entries_ok cache \<longleftrightarrow> distinct (map fst cache)
     \<and> (\<forall>a. \<forall>m \<in> set (snd (cache_view cache a)). \<exists>p. message_sample_payload m = Ok p \<and> sp_acq_addr p = a)"
proof
  assume "entries_ok cache"
  then show "distinct (map fst cache)
     \<and> (\<forall>a. \<forall>m \<in> set (snd (cache_view cache a)). \<exists>p. message_sample_payload m = Ok p \<and> sp_acq_addr p = a)"
    by (metis entries_okD entries_ok_def)
next
  assume right: "distinct (map fst cache)
     \<and> (\<forall>a. \<forall>m \<in> set (snd (cache_view cache a)). \<exists>p. message_sample_payload m = Ok p \<and> sp_acq_addr p = a)"
  have "\<exists>p. message_sample_payload m = Ok p \<and> sp_acq_addr p = a"
    if "(a, c) \<in> set cache" "m \<in> set (sc_msg_cache_queue c)" for a c m
  proof -
    from right that(1) have "map_of cache a = Some c" by (simp add: map_of_eq_Some_iff)
    with right that(2) show ?thesis by (auto simp: cache_view_def dest!: spec [of _ a])
  qed
  with right show "entries_ok cache" by (auto simp: entries_ok_def)
qed

lemma handle_next_request_keys:
  assumes "handle_next_request env a master s = (Ok u, acts, s')" and "distinct (map fst (cm_cache s))"
  shows "distinct (map fst (cm_cache s'))"
proof (cases "map_of (cm_cache s) a")
  case None
  with assms show ?thesis by (simp add: handle_next_request_def)
next
  case (Some c)
  with assms show ?thesis
    by (cases "sc_msg_cache_queue c")
       (auto simp: handle_next_request_def distinct_update dest!: meter_panics_Ok)
qed

lemma meter_panics_send_keys:
  "meter_panics t (\<lambda>(x, SEQ). (Ok (), [x], t\<lparr>cm_cache := AList.update a c (cm_cache t), cm_seq := SEQ\<rparr>)) h
     = (r, acts, s') \<Longrightarrow> distinct (map fst (cm_cache t)) \<Longrightarrow> distinct (map fst (cm_cache s'))"
  by (cases h) (auto simp: distinct_update)

lemma handle_meter_reading_keys:
  assumes "handle_meter_reading env config now metering m master a s = (r, acts, s')"
    and "distinct (map fst (cm_cache s))"
  shows "distinct (map fst (cm_cache s'))"
  using assms(1)
proof (cases rule: handle_meter_reading_cases)
  case (busy c)
  with with_entry_keys [OF assms(2)] show ?thesis
    by (auto simp: handle_waiting_cache_def distinct_update split: if_splits)
qed (use assms(2) with_entry_keys [OF assms(2)] meter_panics_send_keys in blast)+

section \<open>Runs\<close>

text \<open>
  The operations as the other components call them. \<open>mr_metering\<close> is the flag the monitoring and
  transfer services set while they occupy the line; the thread of the MQTT requests runs those services
  and these requests one after the other, and flushes the queues right after (\<open>mr_flush\<close>: between the
  two). A reading ends with an answer or a timeout, after which the next one is started
  (\<open>finish\<close>), or with an answer that cannot be decoded, after which nothing is started (\<open>lose\<close>).
  \<open>mr_actions\<close>, \<open>mr_accepted\<close> and \<open>mr_finished\<close> record what happened.
\<close>

record meter_run =
  mr_meter :: meter
  mr_metering :: bool
  mr_flush :: bool
  mr_actions :: "action list"
  mr_accepted :: "sample_payload list"
  mr_finished :: "string list"

definition meter_run_new :: meter_run where
  "meter_run_new =
     \<lparr>mr_meter = \<lparr>cm_cache = [], cm_seq = 0\<rparr>, mr_metering = False, mr_flush = False, mr_actions = [],
      mr_accepted = [], mr_finished = []\<rparr>"

definition in_flight :: "string \<Rightarrow> meter_run \<Rightarrow> nat" where
  "in_flight a s = length (sent_to a (mr_actions s)) - count_list (mr_finished s) a"

inductive meter_step :: "env \<Rightarrow> meter_reading_config \<Rightarrow> meter_run \<Rightarrow> meter_run \<Rightarrow> bool"
  for env config where
  request:
    "\<lbrakk>\<not> mr_flush s; message_sample_payload m = Ok p;
      handle_meter_reading env config now (mr_metering s) m master (sp_acq_addr p) (mr_meter s)
        = (r, acts, t); \<not> panics r\<rbrakk>
     \<Longrightarrow> meter_step env config s
          (s\<lparr>mr_meter := t, mr_actions := mr_actions s @ acts,
             mr_accepted := mr_accepted s @ (if is_ok r then [p] else [])\<rparr>)"
| finish:
    "\<lbrakk>0 < in_flight a s; handle_next_request env a master (mr_meter s) = (Ok u, acts, t)\<rbrakk>
     \<Longrightarrow> meter_step env config s
          (s\<lparr>mr_meter := t, mr_actions := mr_actions s @ acts, mr_finished := a # mr_finished s\<rparr>)"
| lose: "0 < in_flight a s \<Longrightarrow> meter_step env config s (s\<lparr>mr_finished := a # mr_finished s\<rparr>)"
| metering_starts:
    "\<not> mr_flush s \<Longrightarrow> meter_step env config s (s\<lparr>mr_metering := True\<rparr>)"
| metering_stops:
    "mr_metering s \<Longrightarrow> meter_step env config s (s\<lparr>mr_metering := False, mr_flush := True\<rparr>)"
| flush:
    "\<lbrakk>mr_flush s; handle_cache_request env master (mr_meter s) = (Ok u, acts, t)\<rbrakk>
     \<Longrightarrow> meter_step env config s
          (s\<lparr>mr_meter := t, mr_actions := mr_actions s @ acts, mr_flush := False\<rparr>)"
| age: "meter_step env config s (s\<lparr>mr_meter := aging_queue config now (mr_meter s)\<rparr>)"

inductive meter_reachable :: "env \<Rightarrow> meter_reading_config \<Rightarrow> meter_run \<Rightarrow> bool" for env config where
  start: "meter_reachable env config meter_run_new"
| step: "meter_reachable env config s \<Longrightarrow> meter_step env config s s' \<Longrightarrow> meter_reachable env config s'"

text \<open>The invariant, one address at a time: its messages are well formed and within the limit, what was
  accepted is what was sent followed by what waits, at most one reading is under way, one under way is
  waited for, and a queue only builds up behind a reading or while the line is occupied.\<close>

definition address_ok :: "meter_reading_config \<Rightarrow> string \<Rightarrow> meter_run \<Rightarrow> bool" where
  "address_ok config a s \<longleftrightarrow>
     (case meter_view (mr_meter s) a of (w, q) \<Rightarrow>
        (\<forall>m \<in> set q. \<exists>p. message_sample_payload m = Ok p \<and> sp_acq_addr p = a)
        \<and> length q \<le> mrc_cache_queue_size config
        \<and> map Ok [p \<leftarrow> mr_accepted s. sp_acq_addr p = a]
            = map Ok (sent_to a (mr_actions s)) @ map message_sample_payload q
        \<and> count_list (mr_finished s) a \<le> length (sent_to a (mr_actions s))
        \<and> length (sent_to a (mr_actions s)) \<le> count_list (mr_finished s) a + (if w then 1 else 0)
        \<and> (\<not> mr_metering s \<and> \<not> mr_flush s \<and> q \<noteq> [] \<longrightarrow> w))"

definition meter_run_ok :: "meter_reading_config \<Rightarrow> meter_run \<Rightarrow> bool" where
  "meter_run_ok config s \<longleftrightarrow>
     distinct (map fst (cm_cache (mr_meter s))) \<and> (\<forall>a. address_ok config a s)"

lemma meter_run_ok_entries: "meter_run_ok config s \<Longrightarrow> entries_ok (cm_cache (mr_meter s))"
  unfolding entries_ok_iff meter_run_ok_def address_ok_def meter_view_def
  by (auto simp: case_prod_beta)

lemma meter_request_ok:
  assumes ok: "meter_run_ok config s"
    and "\<not> mr_flush s" and p: "message_sample_payload m = Ok p"
    and run: "handle_meter_reading env config now (mr_metering s) m master (sp_acq_addr p) (mr_meter s)
        = (r, acts, t)" and "\<not> panics r"
  shows "meter_run_ok config (s\<lparr>mr_meter := t, mr_actions := mr_actions s @ acts,
             mr_accepted := mr_accepted s @ (if is_ok r then [p] else [])\<rparr>)" (is "meter_run_ok config ?s'")
proof -
  let ?a = "sp_acq_addr p"
  from ok have keys: "distinct (map fst (cm_cache t))"
    using handle_meter_reading_keys [OF run] by (simp add: meter_run_ok_def)
  from ok have each: "address_ok config b s" for b by (simp add: meter_run_ok_def)
  obtain w q where here: "meter_view (mr_meter s) ?a = (w, q)" by fastforce
  have "address_ok config b ?s'" for b
    using run assms(5) p refl
  proof (cases rule: handle_meter_reading_view)
    case (refused e)
    with each [of b] show ?thesis by (simp add: address_ok_def)
  next
    case queued
    show ?thesis
    proof (cases "b = ?a")
      case True
      from queued(3) here have w: "w \<or> mr_metering s" and room: "length q < mrc_cache_queue_size config"
        and after: "meter_view t ?a = (w, q @ [m])"
        by (auto split: if_splits)
      show ?thesis
        using each [of ?a] here w room after queued(1,2) p True by (auto simp: address_ok_def)
    next
      case False
      with each [of b] queued show ?thesis by (simp add: address_ok_def)
    qed
  next
    case sent
    show ?thesis
    proof (cases "b = ?a")
      case True
      from sent(3) here have w: "\<not> w" "\<not> mr_metering s" and after: "meter_view t ?a = (True, q)"
        by (auto split: if_splits)
      have "q = []" using each [of ?a] here w assms(2) by (auto simp: address_ok_def)
      with each [of ?a] here w after sent(1,2) True show ?thesis by (auto simp: address_ok_def)
    next
      case False
      with each [of b] sent show ?thesis by (simp add: address_ok_def)
    qed
  qed
  with keys show ?thesis by (simp add: meter_run_ok_def)
qed

lemma in_flight_waits:
  assumes "meter_run_ok config s" and "0 < in_flight a s"
  shows "fst (meter_view (mr_meter s) a)"
    and "length (sent_to a (mr_actions s)) = count_list (mr_finished s) a + 1"
proof -
  obtain w q where here: "meter_view (mr_meter s) a = (w, q)" by fastforce
  with assms have "address_ok config a s" by (simp add: meter_run_ok_def)
  with here assms(2) show "fst (meter_view (mr_meter s) a)"
    and "length (sent_to a (mr_actions s)) = count_list (mr_finished s) a + 1"
    by (auto simp: address_ok_def in_flight_def split: if_splits)
qed

lemma meter_finish_ok:
  assumes ok: "meter_run_ok config s" and flight: "0 < in_flight a s"
    and run: "handle_next_request env a master (mr_meter s) = (Ok u, acts, t)"
  shows "meter_run_ok config
    (s\<lparr>mr_meter := t, mr_actions := mr_actions s @ acts, mr_finished := a # mr_finished s\<rparr>)"
    (is "meter_run_ok config ?s'")
proof -
  from ok have keys: "distinct (map fst (cm_cache t))"
    using handle_next_request_keys [OF run] by (simp add: meter_run_ok_def)
  note view = handle_next_request_view [OF run meter_run_ok_entries [OF ok]]
  from ok have each: "address_ok config b s" for b by (simp add: meter_run_ok_def)
  obtain q where here: "meter_view (mr_meter s) a = (True, q)"
    using in_flight_waits(1) [OF ok flight] by (cases "meter_view (mr_meter s) a") auto
  have "address_ok config b ?s'" for b
  proof (cases "b = a")
    case False
    with view(1) view(2) [of b] each [of b] show ?thesis by (simp add: address_ok_def)
  next
    case True
    show ?thesis
    proof (cases q)
      case Nil
      with True view(1) view(2) [of a] each [of a] here in_flight_waits(2) [OF ok flight]
      show ?thesis by (simp add: address_ok_def)
    next
      case (Cons m q')
      then obtain p where p: "message_sample_payload m = Ok p"
        using each [of a] here by (auto simp: address_ok_def)
      with Cons view(2) [of a] here have "sent_to a acts = [p]" by (cases "sent_to a acts") auto
      with True Cons p view(1) each [of a] here in_flight_waits(2) [OF ok flight]
      show ?thesis by (auto simp: address_ok_def)
    qed
  qed
  with keys show ?thesis by (simp add: meter_run_ok_def)
qed

lemma meter_lose_ok:
  assumes ok: "meter_run_ok config s" and flight: "0 < in_flight a s"
  shows "meter_run_ok config (s\<lparr>mr_finished := a # mr_finished s\<rparr>)"
proof -
  have "address_ok config b (s\<lparr>mr_finished := a # mr_finished s\<rparr>)" for b
    using ok in_flight_waits [OF ok flight]
    by (cases "b = a") (auto simp: meter_run_ok_def address_ok_def split: prod.splits dest: spec [of _ b])
  with ok show ?thesis by (simp add: meter_run_ok_def)
qed

lemma meter_flush_ok:
  assumes ok: "meter_run_ok config s"
    and run: "handle_cache_request env master (mr_meter s) = (Ok u, acts, t)"
  shows "meter_run_ok config (s\<lparr>mr_meter := t, mr_actions := mr_actions s @ acts, mr_flush := False\<rparr>)"
    (is "meter_run_ok config ?s'")
proof -
  note view = handle_cache_request_view [OF run meter_run_ok_entries [OF ok]]
  from ok have each: "address_ok config b s" for b by (simp add: meter_run_ok_def)
  have "address_ok config b ?s'" for b
  proof -
    obtain w q where here: "meter_view (mr_meter s) b = (w, q)" by fastforce
    show ?thesis
    proof (cases "w \<or> q = []")
      case True
      with here view(2,3) [of b] each [of b] show ?thesis by (auto simp: address_ok_def)
    next
      case False
      then obtain m q' where q: "q = m # q'" by (cases q) auto
      then obtain p where p: "message_sample_payload m = Ok p"
        using each [of b] here by (auto simp: address_ok_def)
      with q False view(3) [of b] here have "sent_to b acts = [p]" by (cases "sent_to b acts") auto
      with False q p here view(2) [of b] each [of b] show ?thesis by (auto simp: address_ok_def)
    qed
  qed
  with ok view(1) show ?thesis by (simp add: meter_run_ok_def)
qed

lemma meter_run_ok_step: "meter_step env config s s' \<Longrightarrow> meter_run_ok config s \<Longrightarrow> meter_run_ok config s'"
proof (induction rule: meter_step.induct)
  case (age s now)
  then show ?case
    using aging_queue_view by (auto simp: meter_run_ok_def address_ok_def aging_queue_def distinct_map_filter)
next
  case (request s m p now master r acts t)
  then show ?case by (blast intro: meter_request_ok)
next
  case (finish a s master u acts t)
  then show ?case by (blast intro: meter_finish_ok)
next
  case (lose a s)
  then show ?case by (blast intro: meter_lose_ok)
next
  case (flush s master u acts t)
  then show ?case by (blast intro: meter_flush_ok)
qed (simp_all add: meter_run_ok_def address_ok_def case_prod_beta)

lemma reachable_meter_ok: "meter_reachable env config s \<Longrightarrow> meter_run_ok config s"
proof (induction rule: meter_reachable.induct)
  case start
  show ?case by (simp add: meter_run_ok_def address_ok_def meter_run_new_def views)
qed (rule meter_run_ok_step)

text \<open>An address that waits for an answer nothing is under way for stays as it is, whatever happens.\<close>

definition blocked :: "string \<Rightarrow> meter_run \<Rightarrow> bool" where
  "blocked a s \<longleftrightarrow> fst (meter_view (mr_meter s) a)
     \<and> length (sent_to a (mr_actions s)) \<le> count_list (mr_finished s) a"

lemma blocked_step:
  assumes "meter_step env config s s'" and "meter_run_ok config s" and "blocked a s"
  shows "blocked a s' \<and> sent_to a (mr_actions s') = sent_to a (mr_actions s)"
  using assms(1)
proof (cases rule: meter_step.cases)
  case (request m p now master r acts t)
  from request(4,5,3) refl show ?thesis
  proof (cases rule: handle_meter_reading_view)
    case (refused e)
    with request assms(3) show ?thesis by (simp add: blocked_def)
  next
    case queued
    with request assms(3) show ?thesis
      by (cases "a = sp_acq_addr p"; cases "meter_view (mr_meter s) a"; cases "meter_view t a")
         (auto simp: blocked_def split: if_splits)
  next
    case sent
    with request assms(3) show ?thesis
      by (cases "a = sp_acq_addr p"; cases "meter_view (mr_meter s) a"; cases "meter_view t a")
         (auto simp: blocked_def split: if_splits)
  qed
next
  case (finish b master u acts t)
  then have "b \<noteq> a" using assms(3) by (auto simp: blocked_def in_flight_def)
  note view = handle_next_request_view [OF finish(3) meter_run_ok_entries [OF assms(2)]]
  from view(2) [of a] \<open>b \<noteq> a\<close> have "sent_to a acts = []" by simp
  with view(1) \<open>b \<noteq> a\<close> finish(1) assms(3) show ?thesis by (auto simp: blocked_def)
next
  case (lose b)
  with assms(3) show ?thesis by (auto simp: blocked_def)
next
  case (flush master u acts t)
  from handle_cache_request_view(2,3) [OF flush(3) meter_run_ok_entries [OF assms(2)], of a] flush(1) assms(3)
  show ?thesis by (cases "meter_view (mr_meter s) a") (auto simp: blocked_def)
next
  case (age now)
  with aging_queue_view assms(2,3) show ?thesis by (simp add: blocked_def meter_run_ok_def)
qed (use assms(3) in \<open>simp_all add: blocked_def\<close>)

section \<open>Sample readings\<close>

text \<open>A message whose reading can be sent.\<close>

definition startable :: "env \<Rightarrow> address \<Rightarrow> mqtt_message \<Rightarrow> sample_payload \<Rightarrow> bool" where
  "startable env master m p \<longleftrightarrow> message_sample_payload m = Ok p
     \<and> (\<forall>SEQ. \<exists>x. mqtt_meter_reading_handler env m master SEQ = Ok (x, SEQ + 1))"

lemma handle_meter_reading_dom:
  assumes "handle_meter_reading env config now metering m master a s = (r, acts, s')"
    and "map_of (cm_cache s) b \<noteq> None"
  shows "map_of (cm_cache s') b \<noteq> None"
proof -
  have entry: "map_of (cm_cache (with_entry now a s)) b \<noteq> None"
    using assms(2) by (simp add: with_entry_def update_conv')
  from assms(1) show ?thesis
  proof (cases rule: handle_meter_reading_cases)
    case (busy c)
    with entry show ?thesis by (auto simp: handle_waiting_cache_def update_conv' split: if_splits)
  next
    case (idle c)
    with entry show ?thesis
      by (cases "mqtt_meter_reading_handler env m master (cm_seq (with_entry now a s))")
         (auto simp: update_conv')
  qed (use assms(2) in simp)
qed

lemma request_idle:
  assumes "startable env master m p" and "\<not> fst (meter_view (mr_meter s) (sp_acq_addr p))"
    and "\<not> mr_metering s" and "\<not> mr_flush s"
    and "map_of (cm_cache (mr_meter s)) (sp_acq_addr p) \<noteq> None
      \<or> concurrent_addr_num (cm_cache (mr_meter s)) < mrc_concurrent_addr config"
    and reach: "meter_reachable env config s"
  obtains s' where "meter_reachable env config s'"
    "meter_view (mr_meter s') = (meter_view (mr_meter s))
       (sp_acq_addr p := (True, snd (meter_view (mr_meter s) (sp_acq_addr p))))"
    "in_flight (sp_acq_addr p) s' = in_flight (sp_acq_addr p) s + 1" "mr_finished s' = mr_finished s"
    "mr_metering s' = mr_metering s" "mr_flush s' = mr_flush s"
    "\<And>b. b \<noteq> sp_acq_addr p \<Longrightarrow> in_flight b s' = in_flight b s"
    "\<And>b. map_of (cm_cache (mr_meter s)) b \<noteq> None \<Longrightarrow> map_of (cm_cache (mr_meter s')) b \<noteq> None"
proof -
  let ?a = "sp_acq_addr p"
  obtain r acts t where run: "handle_meter_reading env config 0 (mr_metering s) m master ?a (mr_meter s)
    = (r, acts, t)" by (metis prod_cases3)
  have p: "message_sample_payload m = Ok p" using assms(1) by (simp add: startable_def)
  obtain x where x: "mqtt_meter_reading_handler env m master (cm_seq (with_entry 0 ?a (mr_meter s)))
      = Ok (x, cm_seq (with_entry 0 ?a (mr_meter s)) + 1)"
    using assms(1) by (auto simp: startable_def)
  obtain w q where view: "meter_view (mr_meter s) ?a = (w, q)" "\<not> w"
    using assms(2) by (cases "meter_view (mr_meter s) ?a") auto
  have ok: "meter_run_ok config s" using reachable_meter_ok [OF reach] .
  have r: "r = Ok ()"
    using run
  proof (cases rule: handle_meter_reading_cases)
    case limit
    with assms(5) show ?thesis by simp
  next
    case (busy c)
    have "meter_view (with_entry 0 ?a (mr_meter s)) ?a = (sc_is_waiting_response c, sc_msg_cache_queue c)"
      using busy(1) by (simp add: views)
    with view busy(2) assms(3) show ?thesis by (simp add: with_entry_view)
  next
    case (idle c)
    with x show ?thesis by simp
  qed
  then have no: "\<not> panics r" by simp
  from run no p refl show ?thesis
  proof (cases rule: handle_meter_reading_view)
    case (refused e)
    with r show ?thesis by simp
  next
    case queued
    with view assms(3) show ?thesis by simp
  next
    case sent
    let ?s' = "s\<lparr>mr_meter := t, mr_actions := mr_actions s @ acts,
      mr_accepted := mr_accepted s @ (if is_ok r then [p] else [])\<rparr>"
    have "meter_reachable env config ?s'"
      using meter_reachable.step [OF reach meter_step.request [OF assms(4) p run no]] .
    moreover have "meter_view t = (meter_view (mr_meter s))(?a := (True, snd (meter_view (mr_meter s) ?a)))"
      using sent(3,4) view assms(3) by (auto simp: fun_eq_iff)
    moreover have "count_list (mr_finished s) ?a \<le> length (sent_to ?a (mr_actions s))"
      using ok view by (auto simp: meter_run_ok_def address_ok_def dest!: spec [of _ ?a])
    then have "in_flight ?a ?s' = in_flight ?a s + 1"
      using sent(2) by (simp add: in_flight_def)
    ultimately show ?thesis
      using sent(2) handle_meter_reading_dom [OF run] by (intro that [of ?s']) (simp_all add: in_flight_def)
  qed
qed

lemma finish_to_idle:
  assumes reach: "meter_reachable env config s" and flight: "0 < in_flight a s"
    and "snd (meter_view (mr_meter s) a) = []"
  obtains s' where "meter_reachable env config s'"
    "meter_view (mr_meter s') = (meter_view (mr_meter s))(a := (False, []))"
    "mr_metering s' = mr_metering s" "mr_flush s' = mr_flush s" "in_flight b s' = in_flight b s - (if b = a then 1 else 0)"
    "map fst (cm_cache (mr_meter s')) = map fst (cm_cache (mr_meter s))"
proof -
  from in_flight_waits(1) [OF reachable_meter_ok [OF reach] flight] assms(3) obtain c where
    c: "map_of (cm_cache (mr_meter s)) a = Some c" and q: "sc_msg_cache_queue c = []"
    by (auto simp: views split: option.splits)
  let ?t = "(mr_meter s)\<lparr>cm_cache :=
    AList.update a (c\<lparr>sc_is_waiting_response := False\<rparr>) (cm_cache (mr_meter s))\<rparr>"
  let ?s' = "s\<lparr>mr_meter := ?t, mr_actions := mr_actions s @ [], mr_finished := a # mr_finished s\<rparr>"
  have "handle_next_request env a address_default (mr_meter s) = (Ok (), [], ?t)"
    using c q by (simp add: handle_next_request_def)
  from meter_reachable.step [OF reach meter_step.finish [OF flight this]]
  have "meter_reachable env config ?s'" .
  moreover have "a \<in> fst ` set (cm_cache (mr_meter s))" using c by (force dest: map_of_SomeD)
  then have "map fst (cm_cache ?t) = map fst (cm_cache (mr_meter s))" by (simp add: update_keys)
  ultimately show ?thesis
    using q by (intro that [of ?s']) (auto simp: meter_view_update in_flight_def)
qed

lemma concurrent_addr_num_filter:
  "concurrent_addr_num cache =
     length (filter (\<lambda>(k, v). sc_is_waiting_response v \<or> sc_msg_cache_queue v \<noteq> []) cache)"
proof -
  have "foldl (\<lambda>acc (k, v). acc + (if sc_is_waiting_response v \<or> sc_msg_cache_queue v \<noteq> [] then 1 else 0)) n cache
    = n + length (filter (\<lambda>(k, v). sc_is_waiting_response v \<or> sc_msg_cache_queue v \<noteq> []) cache)" for n
    by (induction cache arbitrary: n) auto
  then show ?thesis by (simp add: concurrent_addr_num_def)
qed

lemma no_active_addresses:
  assumes "\<And>a. cache_view cache a = (False, [])" and "distinct (map fst cache)"
  shows "concurrent_addr_num cache = 0"
proof -
  have "\<not> sc_is_waiting_response c \<and> sc_msg_cache_queue c = []" if "(a, c) \<in> set cache" for a c
    using assms(1) [of a] map_of_is_SomeI [OF assms(2) that] by (simp add: cache_view_def)
  then show ?thesis by (auto simp: concurrent_addr_num_filter filter_empty_conv)
qed

lemma concurrent_addr_num_ge:
  assumes "distinct addrs" and "\<And>a. a \<in> set addrs \<Longrightarrow> fst (cache_view cache a)"
  shows "length addrs \<le> concurrent_addr_num cache"
proof -
  let ?active = "filter (\<lambda>(k, v). sc_is_waiting_response v \<or> sc_msg_cache_queue v \<noteq> []) cache"
  have "set addrs \<subseteq> fst ` set ?active"
  proof
    fix a
    assume "a \<in> set addrs"
    with assms(2) obtain c where "map_of cache a = Some c" "sc_is_waiting_response c"
      by (force simp: cache_view_def split: option.splits)
    then show "a \<in> fst ` set ?active" by (force dest: map_of_SomeD)
  qed
  then have "card (set addrs) \<le> card (fst ` set ?active)" by (simp add: card_mono)
  also have "\<dots> \<le> length ?active" by (meson card_image_le card_length finite_set order_trans)
  finally show ?thesis using assms(1) by (simp add: concurrent_addr_num_filter distinct_card)
qed

text \<open>A configuration, an environment and a message to read a meter.\<close>

definition sample_config :: meter_reading_config where
  "sample_config = \<lparr>mrc_cache_queue_size = 2, mrc_concurrent_addr = 1, mrc_queue_aging_time = 30\<rparr>"

definition sample_env :: env where
  "sample_env = \<lparr>env_now = ''now'', env_library_text = (\<lambda>_. ''error''), env_hex_encode = (\<lambda>_. ''00''),
     env_hex_decode = (\<lambda>s. Some [1, 2, 3, 4, 5, 6])\<rparr>"

definition sample_reading :: "string \<Rightarrow> sample_payload" where
  "sample_reading a = \<lparr>sp_task_id = ''1'', sp_acq_addr = a, sp_pro_type = ''02'', sp_data = ''010203040506''\<rparr>"

definition reading_message :: "string \<Rightarrow> mqtt_message" where
  "reading_message a = \<lparr>mm_topic = ''app/get/request/PLCServiceGW/concurrent'',
     mm_payload = Some (JObj [(''token'', JStr ''7''), (''taskID'', JStr ''1''), (''acqAddr'', JStr a),
       (''proType'', JStr ''02''), (''data'', JStr ''010203040506'')])\<rparr>"

lemma reading_message_payload: "message_sample_payload (reading_message a) = Ok (sample_reading a)"
  by (simp add: message_sample_payload_def reading_message_def sample_payload_from_json_def sample_reading_def)

lemma report_topic:
  "transfer_topic ''app/notify/spont/PLCServiceGW/reportConcurrent'' = Ok ''PLCServiceGW/notify/spont/app/reportConcurrent''"
  by (simp add: transfer_topic_def mqtt_topic_try_from_def Let_def APP_NAME_def operator_try_from_def
      info_type_try_from_def ensure_run topic_transfer_def)

lemma reading_message_startable: "startable sample_env master (reading_message a) (sample_reading a)"
proof -
  have "\<exists>x. mqtt_meter_reading_handler sample_env (reading_message a) master SEQ = Ok (x, SEQ + 1)" for SEQ
  proof -
    have app: "get_app (mm_topic (reading_message a)) = Ok ''app''"
      by (simp add: get_app_def reading_message_def)
    have dst: "address_from_str (env_hex_decode sample_env) b = Ok (Address 1 2 3 4 5 6)" for b
      by (simp add: address_from_str_def sample_env_def)
    have protocol: "parse_u8 ''02'' = Ok 2"
      by (simp add: parse_u8_def parse_below_def Let_def)
    obtain f where f: "frame_new False SEQ
        (Some \<lparr>src_address = master, relay_address = None, dst_address = Address 1 2 3 4 5 6\<rparr>)
        (concurrent_read_meter_request_to_app_data (concurrent_read_meter_request_new 2 [1, 2, 3, 4, 5, 6])) = Ok f"
      by (auto simp: frame_new_Ok)
    have key: "frame_fn_num f = Ok ACTIVE_READ_METER"
      using frame_new_sel(5) [OF f] by (simp add: concurrent_read_meter_request_to_app_data_def)
    have token: "get_token (reading_message a) = Ok ''7''"
      by (simp add: get_token_def reading_message_def)
    show ?thesis
      by (simp add: mqtt_meter_reading_handler_def reading_message_payload app dst protocol sample_reading_def
          Let_def frame_new_request_def f token req_info_new_with_mqtt_def mqtt_req_info_new_def APP_NAME_def
          report_topic req_info_new_def frame_key_of_def key del: andThen_eq_Ok)
         (simp add: sample_env_def f token req_info_new_with_mqtt_def mqtt_req_info_new_def APP_NAME_def
          report_topic req_info_new_def frame_key_of_def key)
  qed
  then show ?thesis by (simp add: startable_def reading_message_payload)
qed

lemma empty_view: "meter_view \<lparr>cm_cache = [], cm_seq = n\<rparr> = (\<lambda>_. (False, []))"
  by (rule ext) (simp add: views)

lemma sample_run:
  obtains s where "meter_reachable sample_env sample_config s" "in_flight ''11'' s = 1"
proof (rule request_idle [OF reading_message_startable [of master "''11''"] _ _ _ _ meter_reachable.start])
  fix s
  assume "meter_reachable sample_env sample_config s"
    and "in_flight (sp_acq_addr (sample_reading ''11'')) s = in_flight (sp_acq_addr (sample_reading ''11'')) meter_run_new + 1"
  then show thesis
    by (intro that [of s]) (simp_all add: sample_reading_def in_flight_def meter_run_new_def)
qed (simp_all add: meter_run_new_def views sample_config_def concurrent_addr_num_def sample_reading_def)

section \<open>Properties\<close>

text \<open>C14: A request for a meter is handled as its queue says. Unless the meter is new and the number of
  active meters is at its limit, the message is sent when no reading is under way and the line is free,
  queued while there is room, and refused otherwise; nothing changes for any other meter.\<close>

theorem meter_request_refines_queue:
  assumes "handle_meter_reading env config now metering m master a s = (r, acts, t)" and "\<not> panics r"
    and "message_sample_payload m = Ok p" and "sp_acq_addr p = a"
    and "map_of (cm_cache s) a \<noteq> None \<or> concurrent_addr_num (cm_cache s) < mrc_concurrent_addr config"
  shows "meter_view t = (meter_view s)
      (a := fst (offer (mrc_cache_queue_size config) metering m (meter_view s a)))
    \<and> (is_ok r \<longleftrightarrow> snd (offer (mrc_cache_queue_size config) metering m (meter_view s a)) \<noteq> Refused)
    \<and> (\<forall>b. sent_to b acts =
         (if b = a \<and> snd (offer (mrc_cache_queue_size config) metering m (meter_view s a)) = Sent
          then [p] else []))"
  using assms(1-4)
proof (cases rule: handle_meter_reading_view)
  case (refused e)
  with assms(5) have "snd (offer (mrc_cache_queue_size config) metering m (meter_view s a)) = Refused" by auto
  moreover from this have "fst (offer (mrc_cache_queue_size config) metering m (meter_view s a)) = meter_view s a"
    by (cases "meter_view s a") (auto split: if_splits)
  ultimately show ?thesis using refused by simp
qed (auto simp: fun_eq_iff)

theorem meter_request_refines_queue_witness:
  "\<exists>r acts t. handle_meter_reading sample_env sample_config 0 True (reading_message ''11'') address_default ''11''
       \<lparr>cm_cache = [], cm_seq = 0\<rparr> = (r, acts, t)
     \<and> is_ok r \<and> acts = [] \<and> meter_view t ''11'' = (False, [reading_message ''11''])"
proof -
  obtain r acts t where run: "handle_meter_reading sample_env sample_config 0 True (reading_message ''11'')
    address_default ''11'' \<lparr>cm_cache = [], cm_seq = 0\<rparr> = (r, acts, t)" by (metis prod_cases3)
  then have "\<not> panics r" and "acts = []"
    by (auto simp: handle_meter_reading_def handle_waiting_cache_def sample_config_def sample_cache_new_def
        concurrent_addr_num_def)
  then show ?thesis
    using meter_request_refines_queue [OF run _ reading_message_payload] run
    by (simp add: sample_reading_def empty_view sample_config_def concurrent_addr_num_def)
qed

text \<open>C16: Readings of a meter are sent in the order they were accepted, each once: at any time the accepted
  ones are those sent followed by those that wait, at most as many as the queue may hold.\<close>

theorem readings_in_order:
  assumes "meter_reachable env config s"
  shows "\<exists>waiting. [p \<leftarrow> mr_accepted s. sp_acq_addr p = a] = sent_to a (mr_actions s) @ waiting
    \<and> map message_sample_payload (snd (meter_view (mr_meter s) a)) = map Ok waiting
    \<and> length waiting \<le> mrc_cache_queue_size config"
proof -
  obtain w q where view: "meter_view (mr_meter s) a = (w, q)" by fastforce
  with reachable_meter_ok [OF assms] have ok: "length q \<le> mrc_cache_queue_size config"
    and order: "map Ok [p \<leftarrow> mr_accepted s. sp_acq_addr p = a]
      = map Ok (sent_to a (mr_actions s)) @ map message_sample_payload q"
    by (auto simp: meter_run_ok_def address_ok_def dest!: spec [of _ a])
  let ?F = "[p \<leftarrow> mr_accepted s. sp_acq_addr p = a]" and ?S = "sent_to a (mr_actions s)"
  have "map Ok (take (length ?S) ?F) = (map Ok ?S :: sample_payload result list)" and rest: "map Ok (drop (length ?S) ?F) = map message_sample_payload q"
    using arg_cong [OF order, of "take (length ?S)"] arg_cong [OF order, of "drop (length ?S)"]
    by (simp_all add: take_map drop_map)
  then have "take (length ?S) ?F = ?S" by (simp add: inj_map_eq_map inj_def)
  then have "?F = ?S @ drop (length ?S) ?F" by (metis append_take_drop_id)
  moreover have "length (drop (length ?S) ?F) \<le> mrc_cache_queue_size config"
    using arg_cong [OF rest, of length] ok by simp
  ultimately show ?thesis using view rest by (intro exI [of _ "drop (length ?S) ?F"]) simp
qed

theorem readings_in_order_witness:
  "\<exists>s waiting. meter_reachable sample_env sample_config s \<and> in_flight ''11'' s = 1
     \<and> [p \<leftarrow> mr_accepted s. sp_acq_addr p = ''11''] = sent_to ''11'' (mr_actions s) @ waiting"
proof (rule sample_run)
  fix s
  assume "meter_reachable sample_env sample_config s" and "in_flight ''11'' s = 1"
  with readings_in_order [of sample_env sample_config s "''11''"] show ?thesis by blast
qed

text \<open>C15: There is at most one reading under way per meter, a meter with one under way is waited for, and the queue
  of requests that wait behind it is within its limit.\<close>

theorem one_reading_per_meter:
  assumes "meter_reachable env config s"
  shows "in_flight a s \<le> 1 \<and> (in_flight a s = 1 \<longrightarrow> fst (meter_view (mr_meter s) a))
    \<and> length (snd (meter_view (mr_meter s) a)) \<le> mrc_cache_queue_size config"
proof -
  from reachable_meter_ok [OF assms] have "address_ok config a s" by (simp add: meter_run_ok_def)
  then show ?thesis
    by (cases "meter_view (mr_meter s) a") (auto simp: address_ok_def in_flight_def split: if_splits)
qed

theorem one_reading_per_meter_witness:
  "\<exists>s. meter_reachable sample_env sample_config s \<and> in_flight ''11'' s = 1 \<and> fst (meter_view (mr_meter s) ''11'')
     \<and> length (snd (meter_view (mr_meter s) ''11'')) \<le> mrc_cache_queue_size sample_config"
proof (rule sample_run)
  fix s
  assume "meter_reachable sample_env sample_config s" and "in_flight ''11'' s = 1"
  with one_reading_per_meter [of sample_env sample_config s "''11''"] show ?thesis by auto
qed

text \<open>An answer that cannot be decoded ends the reading but starts no other: the meter is waited for
  although nothing is under way, and from then on nothing is sent to it any more, whatever happens.\<close>

theorem undecodable_answer_blocks_meter:
  assumes "meter_reachable env config s" and "0 < in_flight a s"
  shows "\<exists>s1. meter_step env config s s1 \<and> in_flight a s1 = 0
    \<and> (\<forall>s2. (meter_step env config)\<^sup>*\<^sup>* s1 s2 \<longrightarrow> sent_to a (mr_actions s2) = sent_to a (mr_actions s))"
proof -
  let ?s1 = "s\<lparr>mr_finished := a # mr_finished s\<rparr>"
  have step: "meter_step env config s ?s1" using assms(2) by (rule meter_step.lose)
  then have reach: "meter_reachable env config ?s1" using assms(1) meter_reachable.step by blast
  have waits: "fst (meter_view (mr_meter s) a)"
    "length (sent_to a (mr_actions s)) = count_list (mr_finished s) a + 1"
    using in_flight_waits [OF reachable_meter_ok [OF assms(1)] assms(2)] by auto
  then have start: "blocked a ?s1" by (simp add: blocked_def)
  have "meter_reachable env config s2 \<and> blocked a s2 \<and> sent_to a (mr_actions s2) = sent_to a (mr_actions s)"
    if "(meter_step env config)\<^sup>*\<^sup>* ?s1 s2" for s2
    using that
  proof (induction rule: rtranclp_induct)
    case base
    with reach start show ?case by simp
  next
    case (step s2 s3)
    with blocked_step [OF step(2) reachable_meter_ok] show ?case by (auto intro: meter_reachable.step)
  qed
  moreover have "in_flight a ?s1 = 0" using waits by (simp add: in_flight_def)
  ultimately show ?thesis using step by blast
qed

theorem undecodable_answer_blocks_meter_witness:
  "\<exists>s s1. meter_reachable sample_env sample_config s \<and> meter_step sample_env sample_config s s1
     \<and> in_flight ''11'' s1 = 0"
proof (rule sample_run)
  fix s
  assume "meter_reachable sample_env sample_config s" and "in_flight ''11'' s = 1"
  with undecodable_answer_blocks_meter [of sample_env sample_config s "''11''"] show ?thesis by auto
qed

text \<open>The limit on the number of meters is only checked for new addresses: with a limit of one, two
  meters can be read at the same time.\<close>

theorem meter_limit_exceeded:
  assumes "mrc_concurrent_addr config = 1" and "startable env master m p" and "startable env master m' p'"
    and "sp_acq_addr p \<noteq> sp_acq_addr p'"
  shows "\<exists>s. meter_reachable env config s \<and> 2 \<le> concurrent_addr_num (cm_cache (mr_meter s))
    \<and> fst (meter_view (mr_meter s) (sp_acq_addr p)) \<and> fst (meter_view (mr_meter s) (sp_acq_addr p'))"
proof (rule request_idle [OF assms(2) _ _ _ _ meter_reachable.start])
  let ?a = "sp_acq_addr p" and ?b = "sp_acq_addr p'"
  fix s1
  assume s1: "meter_reachable env config s1"
    "meter_view (mr_meter s1) = (meter_view (mr_meter meter_run_new))
       (?a := (True, snd (meter_view (mr_meter meter_run_new) ?a)))"
    "in_flight ?a s1 = in_flight ?a meter_run_new + 1"
    "mr_metering s1 = mr_metering meter_run_new" "mr_flush s1 = mr_flush meter_run_new"
  have new: "meter_view (mr_meter meter_run_new) = (\<lambda>_. (False, []))"
    by (rule ext) (simp add: views meter_run_new_def)
  have view1: "meter_view (mr_meter s1) = (\<lambda>_. (False, []))(?a := (True, []))" using s1(2) new by simp
  have "0 < in_flight ?a s1" using s1(3) by simp
  then obtain s2 where s2: "meter_reachable env config s2"
    "meter_view (mr_meter s2) = (meter_view (mr_meter s1))(?a := (False, []))"
    "mr_metering s2 = mr_metering s1" "mr_flush s2 = mr_flush s1"
    "map fst (cm_cache (mr_meter s2)) = map fst (cm_cache (mr_meter s1))"
    using finish_to_idle [OF s1(1)] view1 by (metis fun_upd_same snd_conv)
  have view2: "meter_view (mr_meter s2) = (\<lambda>_. (False, []))" using s2(2) view1 by auto
  have "map_of (cm_cache (mr_meter s1)) ?a \<noteq> None"
    using fun_cong [OF view1, of ?a] by (auto simp: views split: option.splits)
  then have cached: "map_of (cm_cache (mr_meter s2)) ?a \<noteq> None"
    using s2(5) by (metis map_of_eq_None_iff image_set)
  have keys: "distinct (map fst (cm_cache (mr_meter s2)))"
    using reachable_meter_ok [OF s2(1)] by (simp add: meter_run_ok_def)
  have none: "concurrent_addr_num (cm_cache (mr_meter s2)) = 0"
    by (rule no_active_addresses) (use view2 keys in \<open>simp_all add: meter_view_def\<close>)
  have idle: "\<not> mr_metering s2" "\<not> mr_flush s2"
    using s1(4,5) s2(3,4) by (simp_all add: meter_run_new_def)
  obtain s3 where s3: "meter_reachable env config s3"
    "meter_view (mr_meter s3) = (\<lambda>_. (False, []))(?b := (True, []))"
    "mr_metering s3 = mr_metering s2" "mr_flush s3 = mr_flush s2"
    "map_of (cm_cache (mr_meter s3)) ?a \<noteq> None"
    by (rule request_idle [OF assms(3) _ idle _ s2(1)]) (use view2 none assms(1) cached in auto)
  obtain s4 where s4: "meter_reachable env config s4"
    "meter_view (mr_meter s4) = (\<lambda>_. (False, []))(?b := (True, []), ?a := (True, []))"
    by (rule request_idle [OF assms(2) _ _ _ _ s3(1)]) (use s3 idle assms(4) in auto)
  have "length [?a, ?b] \<le> concurrent_addr_num (cm_cache (mr_meter s4))"
    by (rule concurrent_addr_num_ge) (use s4(2) assms(4) in \<open>auto simp: meter_view_def\<close>)
  with s4 assms(4) show ?thesis by (intro exI [of _ s4]) auto
qed (simp_all add: meter_run_new_def views assms(1) concurrent_addr_num_def)

theorem meter_limit_exceeded_witness:
  "\<exists>s. meter_reachable sample_env sample_config s
     \<and> mrc_concurrent_addr sample_config < concurrent_addr_num (cm_cache (mr_meter s))"
  using meter_limit_exceeded [OF _ reading_message_startable [of address_default "''11''"]
      reading_message_startable [of address_default "''22''"], of sample_config]
  by (force simp: sample_config_def sample_reading_def)

end
