(* ===== verification/Mqtt_Queue.thy ===== *)
theory Mqtt_Queue
  imports Requests "HOL-Library.Multiset"
begin

text \<open>
  src/src/mqtt_handler.rs and src/src/schema_check.rs: the queue between the thread that receives MQTT
  messages and the one that handles them.

  \<^item> \<open>heap_push\<close> and \<open>heap_pop\<close> are \<^verbatim>\<open>BinaryHeap::push\<close> and \<^verbatim>\<open>pop\<close> of the standard library on its array,
    for any comparison; the locale \<open>ordered_heap\<close> says what they do when the comparison is a total
    order on what is stored.
  \<^item> \<open>priority_cmp\<close> is the comparison of the code, which is no such order in general; it is one on
    messages of the same priority, where it is interpreted.
  \<^item> \<open>receive_message\<close> is one turn of the receiving thread. The topic filters of paho and the schemas
    are parameters: which filter matches a topic, and the first violation a schema finds in a value.
\<close>

section \<open>The binary heap of the standard library\<close>

text \<open>The element \<open>x\<close> moves up from the hole at \<open>pos\<close>.\<close>

function sift_up :: "('a \<Rightarrow> 'a \<Rightarrow> bool) \<Rightarrow> 'a list \<Rightarrow> 'a \<Rightarrow> nat \<Rightarrow> 'a list" where
  "sift_up le xs x pos =
     (if pos = 0 then xs[pos := x]
      else (let parent = (pos - 1) div 2 in
            if le x (xs ! parent) then xs[pos := x]
            else sift_up le (xs[pos := xs ! parent]) x parent))"
  by pat_completeness auto
termination
  by (relation "measure (\<lambda>(le, xs, x, pos). pos)") auto

declare sift_up.simps [simp del]

text \<open>The hole moves down to a leaf, the greater child moving up; the result is the array and the leaf.\<close>

definition greater_child :: "('a \<Rightarrow> 'a \<Rightarrow> bool) \<Rightarrow> 'a list \<Rightarrow> nat \<Rightarrow> nat" where
  "greater_child le xs child = (if le (xs ! child) (xs ! (child + 1)) then child + 1 else child)"

lemma greater_child_range: "greater_child le xs c = c \<or> greater_child le xs c = c + 1"
  by (simp add: greater_child_def)

function sift_down_to_bottom :: "('a \<Rightarrow> 'a \<Rightarrow> bool) \<Rightarrow> 'a list \<Rightarrow> nat \<Rightarrow> 'a list \<times> nat" where
  "sift_down_to_bottom le xs pos =
     (if 2 * pos + 2 < length xs
      then sift_down_to_bottom le (xs[pos := xs ! greater_child le xs (2 * pos + 1)])
             (greater_child le xs (2 * pos + 1))
      else if 2 * pos + 2 = length xs then (xs[pos := xs ! (2 * pos + 1)], 2 * pos + 1)
      else (xs, pos))"
  by pat_completeness auto
termination
  by (relation "measure (\<lambda>(le, xs, pos). length xs - pos)") (auto simp: greater_child_def)

declare sift_down_to_bottom.simps [simp del]

lemma sift_down_step:
  "2 * pos + 2 < length xs \<Longrightarrow> sift_down_to_bottom le xs pos =
     sift_down_to_bottom le (xs[pos := xs ! greater_child le xs (2 * pos + 1)])
       (greater_child le xs (2 * pos + 1))"
  by (subst sift_down_to_bottom.simps) simp

lemma sift_down_last:
  "2 * pos + 2 = length xs \<Longrightarrow>
     sift_down_to_bottom le xs pos = (xs[pos := xs ! (2 * pos + 1)], 2 * pos + 1)"
  by (subst sift_down_to_bottom.simps) simp

lemma sift_down_none: "length xs < 2 * pos + 2 \<Longrightarrow> sift_down_to_bottom le xs pos = (xs, pos)"
  by (subst sift_down_to_bottom.simps) simp

definition heap_push :: "('a \<Rightarrow> 'a \<Rightarrow> bool) \<Rightarrow> 'a list \<Rightarrow> 'a \<Rightarrow> 'a list" where
  "heap_push le xs x = sift_up le (xs @ [x]) x (length xs)"

definition heap_pop :: "('a \<Rightarrow> 'a \<Rightarrow> bool) \<Rightarrow> 'a list \<Rightarrow> ('a \<times> 'a list) option" where
  "heap_pop le xs =
     (if xs = [] then None
      else (let item = last xs; rest = butlast xs in
            if rest = [] then Some (item, [])
            else (case sift_down_to_bottom le rest 0 of
                    (ys, pos) \<Rightarrow> Some (hd rest, sift_up le ys item pos))))"

section \<open>Heaps for total orders\<close>

definition is_heap :: "('a \<Rightarrow> 'a \<Rightarrow> bool) \<Rightarrow> 'a list \<Rightarrow> bool" where
  "is_heap le xs \<longleftrightarrow> (\<forall>i < length xs. 0 < i \<longrightarrow> le (xs ! i) (xs ! ((i - 1) div 2)))"

text \<open>A heap but for the hole at \<open>pos\<close>: whatever does not touch it is in order, and the children of the
  hole are below its parent.\<close>

definition heap_but :: "('a \<Rightarrow> 'a \<Rightarrow> bool) \<Rightarrow> 'a list \<Rightarrow> nat \<Rightarrow> bool" where
  "heap_but le xs pos \<longleftrightarrow> pos < length xs
     \<and> (\<forall>i < length xs. 0 < i \<longrightarrow> i \<noteq> pos \<longrightarrow> (i - 1) div 2 \<noteq> pos \<longrightarrow> le (xs ! i) (xs ! ((i - 1) div 2)))
     \<and> (\<forall>i < length xs. 0 < i \<longrightarrow> (i - 1) div 2 = pos \<longrightarrow> 0 < pos \<longrightarrow> le (xs ! i) (xs ! ((pos - 1) div 2)))"

lemma mset_hole_move:
  assumes "pos < length xs" and "q < length xs" and "q \<noteq> pos"
  shows "mset (xs[pos := xs ! q, q := x]) = mset (xs[pos := x])"
  using assms by (simp add: mset_update)

lemma length_sift_up [simp]: "length (sift_up le xs x pos) = length xs"
proof (induction le xs x pos rule: sift_up.induct)
  case (1 le xs x pos)
  then show ?case by (subst sift_up.simps) (simp add: Let_def)
qed

lemma mset_sift_up: "pos < length xs \<Longrightarrow> mset (sift_up le xs x pos) = mset (xs[pos := x])"
proof (induction le xs x pos rule: sift_up.induct)
  case (1 le xs x pos)
  show ?case
  proof (cases "pos = 0 \<or> le x (xs ! ((pos - 1) div 2))")
    case True
    then show ?thesis by (subst sift_up.simps) (auto simp: Let_def)
  next
    case False
    with 1 have "mset (sift_up le (xs[pos := xs ! ((pos - 1) div 2)]) x ((pos - 1) div 2))
      = mset (xs[pos := xs ! ((pos - 1) div 2), (pos - 1) div 2 := x])" by simp
    also have "\<dots> = mset (xs[pos := x])" using False 1(2) by (intro mset_hole_move) auto
    finally show ?thesis using False by (subst sift_up.simps) (simp add: Let_def)
  qed
qed

lemma sift_down_leaf:
  assumes "sift_down_to_bottom le xs pos = (ys, q)" and "pos < length xs"
  shows "length ys = length xs \<and> q < length xs \<and> length xs \<le> 2 * q + 1
    \<and> (\<forall>x. mset (ys[q := x]) = mset (xs[pos := x]))"
  using assms
proof (induction le xs pos rule: sift_down_to_bottom.induct)
  case (1 le xs pos)
  let ?c = "greater_child le xs (2 * pos + 1)"
  consider "2 * pos + 2 < length xs" | "2 * pos + 2 = length xs" | "length xs < 2 * pos + 2" by linarith
  then show ?case
  proof cases
    case 1
    have run: "sift_down_to_bottom le (xs[pos := xs ! ?c]) ?c = (ys, q)"
      using "1.prems"(1) by (simp only: sift_down_step [OF 1])
    have c: "?c < length xs" "?c \<noteq> pos"
      using 1 greater_child_range [of le xs "2 * pos + 1"] by linarith+
    from "1.IH" [OF 1 run] c(1) have "length ys = length xs \<and> q < length xs \<and> length xs \<le> 2 * q + 1
      \<and> (\<forall>x. mset (ys[q := x]) = mset (xs[pos := xs ! ?c, ?c := x]))" by simp
    then show ?thesis using mset_hole_move [OF "1.prems"(2) c] by simp
  next
    case 2
    then have "ys = xs[pos := xs ! (2 * pos + 1)]" "q = 2 * pos + 1"
      using "1.prems"(1) sift_down_last [OF 2] by auto
    with 2 "1.prems"(2) mset_hole_move [of pos xs "2 * pos + 1"] show ?thesis by simp
  next
    case 3
    with "1.prems" sift_down_none [OF 3] show ?thesis by auto
  qed
qed

locale ordered_heap =
  fixes le :: "'a \<Rightarrow> 'a \<Rightarrow> bool" and S :: "'a set"
  assumes total: "\<lbrakk>x \<in> S; y \<in> S\<rbrakk> \<Longrightarrow> le x y \<or> le y x"
    and trans: "\<lbrakk>x \<in> S; y \<in> S; z \<in> S; le x y; le y z\<rbrakk> \<Longrightarrow> le x z"
begin

lemma refl: "x \<in> S \<Longrightarrow> le x x"
  using total by blast

lemma heap_root: "is_heap le xs \<Longrightarrow> set xs \<subseteq> S \<Longrightarrow> i < length xs \<Longrightarrow> le (xs ! i) (xs ! 0)"
proof (induction i rule: less_induct)
  case (less i)
  show ?case
  proof (cases "i = 0")
    case True
    with less.prems show ?thesis by (auto intro!: refl)
  next
    case False
    let ?p = "(i - 1) div 2"
    have p: "?p < i" using False by auto
    with less have "le (xs ! ?p) (xs ! 0)" by simp
    moreover have "le (xs ! i) (xs ! ?p)" using less.prems False by (auto simp: is_heap_def)
    ultimately show ?thesis
      using less.prems p trans [of "xs ! i" "xs ! ?p" "xs ! 0"] by (metis dual_order.strict_trans nth_mem subsetD gr_zeroI)
  qed
qed

lemma sift_up_heap:
  assumes "heap_but le xs pos" and "\<And>i. i < length xs \<Longrightarrow> 0 < i \<Longrightarrow> (i - 1) div 2 = pos \<Longrightarrow> le (xs ! i) x"
    and "x \<in> S" and "\<And>i. i < length xs \<Longrightarrow> i \<noteq> pos \<Longrightarrow> xs ! i \<in> S"
  shows "is_heap le (sift_up le xs x pos)"
  using assms
proof (induction pos arbitrary: xs rule: less_induct)
  case (less pos)
  note but = less.prems(1) and below = less.prems(2) and x = less.prems(3) and elems = less.prems(4)
  show ?case
  proof (cases "pos = 0 \<or> le x (xs ! ((pos - 1) div 2))")
    case True
    then have stop: "sift_up le xs x pos = xs[pos := x]" by (subst sift_up.simps) (auto simp: Let_def)
    show ?thesis unfolding is_heap_def stop
    proof (intro allI impI)
      fix i
      assume i: "i < length (xs[pos := x])" "0 < i"
      consider "i = pos" | "i \<noteq> pos" "(i - 1) div 2 = pos" | "i \<noteq> pos" "(i - 1) div 2 \<noteq> pos" by blast
      then show "le (xs[pos := x] ! i) (xs[pos := x] ! ((i - 1) div 2))"
      proof cases
        case 1
        then have "(i - 1) div 2 \<noteq> pos" using i by auto
        with 1 True i show ?thesis by simp
      next
        case 2
        with below [of i] i show ?thesis by auto
      next
        case 3
        with but i show ?thesis by (simp add: heap_but_def)
      qed
    qed
  next
    case False
    let ?p = "(pos - 1) div 2" and ?ys = "xs[pos := xs ! ((pos - 1) div 2)]"
    have pos: "0 < pos" "pos < length xs" "?p < pos" using False but by (auto simp: heap_but_def)
    have p: "xs ! ?p \<in> S" using elems pos by simp
    have up: "le (xs ! ?p) x" using total [OF x p] False by blast
    have child: "le (xs ! i) (xs ! ?p)" if "i < length xs" "0 < i" "i \<noteq> pos" "(i - 1) div 2 = ?p" for i
      using but that pos(3) by (auto simp: heap_but_def)
    have grand: "le (xs ! ?p) (xs ! ((?p - 1) div 2))" if "0 < ?p"
      using but that pos by (auto simp: heap_but_def)
    have "heap_but le ?ys ?p"
      unfolding heap_but_def
    proof (intro conjI allI impI, goal_cases)
      case 1
      then show ?case using pos by simp
    next
      case (2 i)
      consider "i = pos" | "i \<noteq> pos" "(i - 1) div 2 = pos" | "i \<noteq> pos" "(i - 1) div 2 \<noteq> pos" by blast
      then show ?case
      proof cases
        case inner: 1
        with 2 show ?thesis by simp
      next
        case inner: 2
        with but 2 pos show ?thesis by (auto simp: heap_but_def)
      next
        case inner: 3
        with but 2 pos show ?thesis by (auto simp: heap_but_def)
      qed
    next
      case (3 i)
      show ?case
      proof (cases "i = pos")
        case True
        with 3 grand pos show ?thesis by auto
      next
        case False
        with 3 child [of i] have "le (xs ! i) (xs ! ?p)" by simp
        moreover have pp: "(?p - 1) div 2 \<noteq> pos" "(?p - 1) div 2 < length xs" using pos by auto
        then have "xs ! ((?p - 1) div 2) \<in> S" using elems by blast
        moreover have "xs ! i \<in> S" using elems 3 False by simp
        ultimately have "le (xs ! i) (xs ! ((?p - 1) div 2))" using trans p grand 3 by blast
        with 3 False pp show ?thesis by simp
      qed
    qed
    moreover have "le (?ys ! i) x" if i: "i < length ?ys" "0 < i" "(i - 1) div 2 = ?p" for i
    proof (cases "i = pos")
      case True
      with up pos show ?thesis by simp
    next
      case False
      with child [of i] up i trans [of "xs ! i" "xs ! ?p" x] elems [of i] p x show ?thesis by simp
    qed
    moreover have "?ys ! i \<in> S" if "i < length ?ys" "i \<noteq> ?p" for i
      using that elems p pos by (cases "i = pos") auto
    ultimately have "is_heap le (sift_up le ?ys x ?p)"
      using less.IH [OF pos(3)] x by blast
    with False show ?thesis by (subst sift_up.simps) (simp add: Let_def)
  qed
qed

lemma hole_down:
  assumes but: "heap_but le xs pos" and c: "c < length xs" "0 < c" "(c - 1) div 2 = pos"
    and sibling: "\<And>i. i < length xs \<Longrightarrow> 0 < i \<Longrightarrow> (i - 1) div 2 = pos \<Longrightarrow> i \<noteq> c \<Longrightarrow> le (xs ! i) (xs ! c)"
  shows "heap_but le (xs[pos := xs ! c]) c"
  unfolding heap_but_def
proof (intro conjI allI impI, goal_cases)
  case 1
  then show ?case using c by simp
next
  case (2 i)
  consider "i = pos" | "i \<noteq> pos" "(i - 1) div 2 = pos" | "i \<noteq> pos" "(i - 1) div 2 \<noteq> pos" by blast
  then show ?case
  proof cases
    case inner: 1
    then have "(i - 1) div 2 \<noteq> pos" using 2 by auto
    with inner but c 2 show ?thesis by (auto simp: heap_but_def)
  next
    case inner: 2
    with sibling [of i] 2 show ?thesis by auto
  next
    case inner: 3
    with but 2 show ?thesis by (auto simp: heap_but_def)
  qed
next
  case (3 i)
  have "c \<noteq> pos" using c by auto
  moreover have "i \<noteq> pos" using 3 c by auto
  ultimately have "le (xs ! i) (xs ! c)" using but 3 by (auto simp: heap_but_def)
  with 3 c \<open>i \<noteq> pos\<close> but show ?case by (auto simp: heap_but_def)
qed

lemma sift_down_heap_but:
  assumes "sift_down_to_bottom le xs pos = (ys, q)" and "heap_but le xs pos"
    and "\<And>i. i < length xs \<Longrightarrow> i \<noteq> pos \<Longrightarrow> xs ! i \<in> S"
  shows "heap_but le ys q \<and> (\<forall>i < length ys. i \<noteq> q \<longrightarrow> ys ! i \<in> S)"
  using assms
proof (induction "length xs - pos" arbitrary: xs pos rule: less_induct)
  case less
  note run = less.prems(1) and but = less.prems(2) and elems = less.prems(3)
  have pos: "pos < length xs" using but by (simp add: heap_but_def)
  consider "2 * pos + 2 < length xs" | "2 * pos + 2 = length xs" | "length xs < 2 * pos + 2" by linarith
  then show ?case
  proof cases
    case 1
    let ?c = "greater_child le xs (2 * pos + 1)"
    have c: "?c = 2 * pos + 1 \<or> ?c = 2 * pos + 2"
      using greater_child_range [of le xs "2 * pos + 1"] by simp
    then have cs: "?c < length xs" "0 < ?c" "(?c - 1) div 2 = pos" "?c \<noteq> pos" using 1 by auto
    have "le (xs ! i) (xs ! ?c)" if "i < length xs" "0 < i" "(i - 1) div 2 = pos" "i \<noteq> ?c" for i
    proof -
      from that(2,3) have i: "i = 2 * pos + 1 \<or> i = 2 * pos + 2" by linarith
      show ?thesis
      proof (cases "le (xs ! (2 * pos + 1)) (xs ! (2 * pos + 2))")
        case True
        with i that(4) show ?thesis by (auto simp: greater_child_def)
      next
        case False
        have "xs ! (2 * pos + 1) \<in> S" "xs ! (2 * pos + 2) \<in> S" using elems 1 by simp_all
        with total False have "le (xs ! (2 * pos + 2)) (xs ! (2 * pos + 1))" by blast
        with False i that(4) show ?thesis by (auto simp: greater_child_def)
      qed
    qed
    then have "heap_but le (xs[pos := xs ! ?c]) ?c" by (rule hole_down [OF but cs(1-3)])
    moreover have "xs[pos := xs ! ?c] ! i \<in> S" if "i < length (xs[pos := xs ! ?c])" "i \<noteq> ?c" for i
      using that elems [of i] elems [of ?c] cs pos by (cases "i = pos") auto
    moreover have "sift_down_to_bottom le (xs[pos := xs ! ?c]) ?c = (ys, q)"
      using run by (simp only: sift_down_step [OF 1])
    moreover have "length (xs[pos := xs ! ?c]) - ?c < length xs - pos" using c cs by auto
    ultimately show ?thesis using less.hyps by blast
  next
    case 2
    let ?c = "2 * pos + 1"
    have out: "ys = xs[pos := xs ! ?c]" "q = ?c"
      using HOL.trans [OF run [symmetric] sift_down_last [OF 2]] by blast+
    have "heap_but le (xs[pos := xs ! ?c]) ?c"
      by (rule hole_down [OF but]) (use 2 in auto)
    moreover have "xs[pos := xs ! ?c] ! i \<in> S" if "i < length xs" "i \<noteq> ?c" for i
      using that elems [of i] elems [of ?c] 2 pos by (cases "i = pos") auto
    ultimately show ?thesis using out by simp
  next
    case 3
    with run but elems show ?thesis by (auto simp: sift_down_none [OF 3])
  qed
qed

lemma heap_push_ok:
  assumes "is_heap le xs" and "set xs \<subseteq> S" and "x \<in> S"
  shows "is_heap le (heap_push le xs x) \<and> mset (heap_push le xs x) = add_mset x (mset xs)"
proof -
  have "heap_but le (xs @ [x]) (length xs)"
    using assms(1) unfolding heap_but_def is_heap_def by (auto simp: nth_append)
  moreover have "(xs @ [x]) ! i \<in> S" if "i < length (xs @ [x])" "i \<noteq> length xs" for i
    using that assms(2) by (auto simp: nth_append)
  ultimately have "is_heap le (heap_push le xs x)"
    unfolding heap_push_def by (intro sift_up_heap) (use assms(3) in auto)
  then show ?thesis by (simp add: heap_push_def mset_sift_up)
qed

lemma is_heap_butlast: "is_heap le xs \<Longrightarrow> is_heap le (butlast xs)"
  unfolding is_heap_def by (auto simp: nth_butlast)

lemma heap_pop_ok:
  assumes heap: "is_heap le xs" and S: "set xs \<subseteq> S" and pop: "heap_pop le xs = Some (x, ys)"
  shows "is_heap le ys \<and> mset xs = add_mset x (mset ys) \<and> (\<forall>y \<in> set xs. le y x)"
proof -
  have ne: "xs \<noteq> []" using pop by (auto simp: heap_pop_def)
  then have split: "xs = butlast xs @ [last xs]" by simp
  then have content: "mset xs = add_mset (last xs) (mset (butlast xs))" by (metis mset_append mset_single_iff_right
    add_mset_add_single mset.simps(1) mset.simps(2))
  show ?thesis
  proof (cases "butlast xs = []")
    case True
    with pop ne have "x = last xs" "ys = []" by (auto simp: heap_pop_def Let_def)
    moreover have "xs = [last xs]" using split True by simp
    moreover from this have "last xs \<in> S" using S by (metis list.set_intros(1) subsetD)
    ultimately show ?thesis by (metis content True empty_iff is_heap_def length_0_conv list.set(1) not_less0
        refl set_ConsD mset.simps(1))
  next
    case False
    let ?rest = "butlast xs"
    obtain zs q where down: "sift_down_to_bottom le ?rest 0 = (zs, q)" by fastforce
    with pop ne False have x: "x = hd ?rest" and ys: "ys = sift_up le zs (last xs) q"
      by (auto simp: heap_pop_def Let_def)
    have rest_S: "set ?rest \<subseteq> S" and last_S: "last xs \<in> S"
      using S ne by (auto dest: in_set_butlastD)
    have "heap_but le ?rest 0"
      using is_heap_butlast [OF heap] False unfolding heap_but_def is_heap_def
      by (auto simp del: length_butlast)
    moreover have "?rest ! i \<in> S" if "i < length ?rest" for i using that rest_S nth_mem by blast
    ultimately have but: "heap_but le zs q" "\<And>i. i < length zs \<Longrightarrow> i \<noteq> q \<Longrightarrow> zs ! i \<in> S"
      using sift_down_heap_but [OF down] by blast+
    have leaf: "length zs = length ?rest" "q < length ?rest" "length ?rest \<le> 2 * q + 1"
      "mset (zs[q := last xs]) = mset (?rest[0 := last xs])"
      using sift_down_leaf [OF down] False by (auto simp del: length_butlast)
    have "is_heap le ys"
      unfolding ys by (rule sift_up_heap [OF but(1) _ last_S but(2)]) (use leaf in auto)
    moreover have "mset ys = mset (?rest[0 := last xs])"
      using leaf by (simp add: ys mset_sift_up)
    then have "add_mset x (mset ys) = mset xs"
      using False content by (cases ?rest) (auto simp: x)
    moreover have "le y x" if "y \<in> set xs" for y
    proof -
      from that obtain i where "i < length xs" "y = xs ! i" by (metis in_set_conv_nth)
      moreover have "xs ! 0 = x" using False nth_butlast [of 0 xs] by (simp add: x hd_conv_nth del: length_butlast)
      ultimately show ?thesis using heap_root [OF heap S] by metis
    qed
    ultimately show ?thesis by simp
  qed
qed

end

section \<open>Priorities\<close>

datatype ordering = Less | Equal | Greater

fun ordering_rank :: "ordering \<Rightarrow> nat" where
  "ordering_rank Less = 0"
| "ordering_rank Equal = 1"
| "ordering_rank Greater = 2"

definition ordering_of :: "'a::linorder \<Rightarrow> 'a \<Rightarrow> ordering" where
  "ordering_of x y = (if x < y then Less else if x = y then Equal else Greater)"

fun reverse_ordering :: "ordering \<Rightarrow> ordering" where
  "reverse_ordering Less = Greater"
| "reverse_ordering Equal = Equal"
| "reverse_ordering Greater = Less"

definition cmp_ordering :: "ordering \<Rightarrow> ordering \<Rightarrow> ordering" where
  "cmp_ordering x y = ordering_of (ordering_rank x) (ordering_rank y)"

record priority_message =
  pm_priority :: u64
  pm_sequence :: u64
  pm_message :: mqtt_message

definition priority_cmp :: "priority_message \<Rightarrow> priority_message \<Rightarrow> ordering" where
  "priority_cmp x y =
     cmp_ordering (reverse_ordering (ordering_of (pm_priority x) (pm_priority y)))
       (reverse_ordering (ordering_of (pm_sequence x) (pm_sequence y)))"

definition priority_eq :: "priority_message \<Rightarrow> priority_message \<Rightarrow> bool" where
  "priority_eq x y \<longleftrightarrow> pm_priority x = pm_priority y \<and> pm_sequence x = pm_sequence y"

definition priority_le :: "priority_message \<Rightarrow> priority_message \<Rightarrow> bool" where
  "priority_le x y \<longleftrightarrow> priority_cmp x y \<noteq> Greater"

definition priority_message_new :: "u64 \<Rightarrow> mqtt_message \<Rightarrow> (priority_message \<times> u64) result" where
  "priority_message_new SEQUENCE m =
     andThen (get_priority m) (\<lambda>p.
     Ok (\<lparr>pm_priority = of_nat p, pm_sequence = SEQUENCE, pm_message = m\<rparr>, SEQUENCE + 1))"

definition queue_push :: "priority_message list \<Rightarrow> priority_message \<Rightarrow> priority_message list" where
  "queue_push q m = heap_push priority_le q m"

text \<open>\<open>None\<close>: the thread waits for a message.\<close>

definition queue_pop :: "priority_message list \<Rightarrow> (priority_message \<times> priority_message list) option" where
  "queue_pop q = heap_pop priority_le q"

lemma priority_cmp_Greater:
  "priority_cmp x y = Greater \<longleftrightarrow>
     pm_priority x < pm_priority y \<and> pm_sequence y \<le> pm_sequence x
     \<or> pm_priority x = pm_priority y \<and> pm_sequence y < pm_sequence x"
  by (auto simp: priority_cmp_def cmp_ordering_def ordering_of_def)

lemma priority_le_same: "pm_priority x = pm_priority y \<Longrightarrow> priority_le x y \<longleftrightarrow> pm_sequence x \<le> pm_sequence y"
  by (auto simp: priority_le_def priority_cmp_Greater)

interpretation same_priority: ordered_heap priority_le "{m. pm_priority m = p}" for p
  by unfold_locales (auto simp: priority_le_same)

text \<open>The queue after some pushes and pops of messages of one priority.\<close>

inductive queue_run :: "u64 \<Rightarrow> priority_message list \<Rightarrow> bool" for p where
  empty: "queue_run p []"
| push: "queue_run p q \<Longrightarrow> pm_priority m = p \<Longrightarrow> queue_run p (queue_push q m)"
| pop: "queue_run p q \<Longrightarrow> queue_pop q = Some (m, q') \<Longrightarrow> queue_run p q'"

lemma queue_run_heap: "queue_run p q \<Longrightarrow> is_heap priority_le q \<and> set q \<subseteq> {m. pm_priority m = p}"
proof (induction rule: queue_run.induct)
  case empty
  show ?case by (simp add: is_heap_def)
next
  case (push q m)
  then show ?case
    using same_priority.heap_push_ok [of q p m]
    by (auto simp: queue_push_def simp flip: set_mset_mset)
next
  case (pop q m q')
  then have "is_heap priority_le q' \<and> mset q = add_mset m (mset q')"
    using same_priority.heap_pop_ok [of q p m q'] by (simp add: queue_pop_def)
  with pop show ?case by (metis insert_subset set_mset_add_mset_insert set_mset_mset)
qed

section \<open>The threads\<close>

datatype mqtt_topic_type =
    T_GetModuleInfo | T_GetMasterIdInfo | T_GetHplcFreq | T_GetModeInfo | T_GetMasterAddress
  | T_SetMasterAddress | T_AddAcqFiles | T_GetAcqFiles | T_GetAcqFilesNum | T_DelAcqFiles | T_ClearAcqFiles
  | T_ConcurrentMeter | T_GetChipInfo | T_GetNodeLineInfo | T_GetIdInfo | T_GetSlaveModuleId
  | T_GetNetTopology | T_GetMultiNet | T_GetNetworkSize | T_GetNodeVersion | T_SendDebugFrame
  | T_DeviceInfo | T_MonitorNode | T_MonitorNodeDelay | T_PauseMetering | T_RestartMetering
  | T_ResumeMetering | T_BroadcastDelay | T_BroadcastCmd | T_DataTransfer | T_MeteringState
  | T_IdentifyArea | T_EnableSearchMeter | T_DisableSearchMeter | T_HplcFrequency
  | T_RefuseSlaveReport | T_DataInit | T_FileUpgrade | T_UpgradeState

text \<open>A compiled schema answers the text of the first violation it finds.\<close>

type_synonym schema = "json \<Rightarrow> string option"

record mqtt_topic_filter =
  tf_topic :: string
  tf_mqtt_topic_type :: mqtt_topic_type
  tf_schema :: "schema option"

definition schema_check :: "schema \<Rightarrow> json option \<Rightarrow> unit result" where
  "schema_check schema payload =
     (case payload of
        None \<Rightarrow> Err (Message ''parse payload failed'')
      | Some v \<Rightarrow> (case schema v of Some e \<Rightarrow> Err (Message e) | None \<Rightarrow> Ok ()))"

definition find_filter ::
    "(string \<Rightarrow> string \<Rightarrow> bool) \<Rightarrow> mqtt_topic_filter list \<Rightarrow> string \<Rightarrow> mqtt_topic_filter option" where
  "find_filter matches filters topic = find (\<lambda>f. matches (tf_topic f) topic) filters"

definition topic_schema ::
    "(string \<Rightarrow> string \<Rightarrow> bool) \<Rightarrow> mqtt_topic_filter list \<Rightarrow> string \<Rightarrow> schema option" where
  "topic_schema matches filters topic =
     (case find_filter matches filters topic of None \<Rightarrow> None | Some f \<Rightarrow> tf_schema f)"

text \<open>One turn of the thread \<^verbatim>\<open>msg_handle\<close>.\<close>

definition receive_message ::
    "env \<Rightarrow> (string \<Rightarrow> string \<Rightarrow> bool) \<Rightarrow> mqtt_topic_filter list \<Rightarrow> mqtt_message \<Rightarrow> u64
       \<Rightarrow> priority_message list \<Rightarrow> (action list \<times> priority_message list \<times> u64) result" where
  "receive_message env matches filters m SEQUENCE queue =
     (let check = (case topic_schema matches filters (mm_topic m) of
                     None \<Rightarrow> Ok () | Some schema \<Rightarrow> schema_check schema (mm_payload m)) in
      case check of
        Err e \<Rightarrow>
          andThen (new_with_msg_status_reason env m Failure
                     (error_text env (MqttResponseErr (InvalidJson (error_text env e))))) (\<lambda>reply.
          Ok ([ToMqtt reply], queue, SEQUENCE))
      | Panic p \<Rightarrow> Panic p
      | Ok u \<Rightarrow>
          andThen (priority_message_new SEQUENCE m) (\<lambda>(pm, SEQUENCE').
          Ok ([], queue_push queue pm, SEQUENCE')))"

text \<open>\<^verbatim>\<open>Handler::mqtt_msg_handler\<close>: an available module's messages are passed on, the others answered.\<close>

definition mqtt_msg_handler :: "env \<Rightarrow> bool \<Rightarrow> mqtt_message \<Rightarrow> mqtt_message option result \<times> mqtt_message list" where
  "mqtt_msg_handler env available m =
     (if \<not> available
      then (andThen (new_with_msg_status_reason env m Failure (error_text env (MqttResponseErr ModelOffline)))
              (\<lambda>reply. Ok (Some reply)), [])
      else (Ok None, [m]))"

lemma message_new_no_body [simp]: "\<not> panics (mqtt_message_new topic (mqtt_payload_new env token st r None))"
  by (simp add: mqtt_message_new_def mqtt_payload_to_json_def mqtt_payload_new_def)

lemma get_token_panics:
  "panics (get_token m) \<longleftrightarrow> (\<forall>v. mm_payload m = Some v \<longrightarrow> as_str (json_index v ''token'') = None)"
  by (auto simp: get_token_def)

lemma status_reason_panics:
  "panics (new_with_msg_status_reason env m st r) \<longleftrightarrow>
     \<not> is_ok (mqtt_topic_try_from (mm_topic m)) \<or> panics (get_token m)"
  by (auto simp: new_with_msg_status_reason_def is_ok_iff)

section \<open>Properties\<close>

text \<open>C32: The queue serves the newest message first. Among messages of one priority, which is all of them
  when the field is a string as the schemas require, each pop returns the one received last, not the one
  received first, and leaves the others.\<close>

theorem queue_newest_first:
  assumes "queue_run p q" and "queue_pop q = Some (m, q')"
  shows "mset q = add_mset m (mset q') \<and> (\<forall>n \<in> set q. pm_sequence n \<le> pm_sequence m)
    \<and> (json_index v ''prio'' = JStr s \<longrightarrow> get_priority \<lparr>mm_topic = t, mm_payload = Some v\<rparr> = Ok 0)"
proof -
  from queue_run_heap [OF assms(1)] have heap: "is_heap priority_le q" and all: "set q \<subseteq> {m. pm_priority m = p}"
    by auto
  from same_priority.heap_pop_ok [OF heap all] assms(2)
  have "mset q = add_mset m (mset q')" and max: "\<forall>n \<in> set q. priority_le n m"
    by (simp_all add: queue_pop_def)
  moreover from this have "m \<in> set q" by (metis union_single_eq_member set_mset_mset)
  ultimately show ?thesis
    using all by (auto simp: priority_le_same get_priority_def subset_iff)
qed

theorem queue_newest_first_witness:
  "\<exists>q m q'. queue_run 0 q \<and> queue_pop q = Some (m, q') \<and> pm_sequence m = 1 \<and> length q' = 1"
proof -
  define a where "a = \<lparr>pm_priority = 0, pm_sequence = 0, pm_message = \<lparr>mm_topic = [], mm_payload = None\<rparr>\<rparr>"
  define b where "b = \<lparr>pm_priority = 0, pm_sequence = 1, pm_message = \<lparr>mm_topic = [], mm_payload = None\<rparr>\<rparr>"
  let ?q = "queue_push (queue_push [] a) b"
  have run: "queue_run 0 ?q" by (intro queue_run.push queue_run.empty) (simp_all add: a_def b_def)
  have content: "mset ?q = {#a, b#}"
    using same_priority.heap_push_ok [of "[]" 0 a] same_priority.heap_push_ok [of "queue_push [] a" 0 b]
      queue_run_heap [OF queue_run.push [OF queue_run.empty, of a 0]]
    by (simp add: queue_push_def is_heap_def a_def b_def add_mset_commute)
  then have "?q \<noteq> []" by (metis mset_zero_iff add_mset_not_empty)
  then obtain m q' where pop: "queue_pop ?q = Some (m, q')"
    by (cases "queue_pop ?q") (auto simp: queue_pop_def heap_pop_def Let_def split: if_splits prod.splits)
  note first = queue_newest_first [OF run pop, THEN conjunct1]
    queue_newest_first [OF run pop, THEN conjunct2, THEN conjunct1]
  have "set ?q = {a, b}" using content by (metis set_mset_add_mset_insert set_mset_empty set_mset_mset)
  with first(2) have "pm_sequence b \<le> pm_sequence m" by simp
  moreover have "m \<in> {a, b}" using first(1) \<open>set ?q = {a, b}\<close> by (metis set_mset_mset union_single_eq_member)
  ultimately have "pm_sequence m = 1" by (auto simp: a_def b_def)
  moreover have "length q' = 1" using first(1) content by (metis One_nat_def Suc_eq_plus1 add_left_cancel
    size_add_mset size_mset size_single plus_1_eq_Suc)
  ultimately show ?thesis using run pop by blast
qed

text \<open>The comparison is no order: an urgent message can be overtaken by a later one of lower priority.
  After two messages of low priority around an urgent one, and a second urgent one, the second urgent
  one comes first, then the later one of low priority, while the first urgent one still waits.\<close>

theorem urgent_message_overtaken:
  assumes "pm_priority A = u" "pm_priority Z = u" "pm_priority P = l" "pm_priority B = l" "u < l"
    and "pm_sequence P < pm_sequence A" "pm_sequence A < pm_sequence B" "pm_sequence B < pm_sequence Z"
  shows "\<exists>q1 q2. queue_pop (queue_push (queue_push (queue_push (queue_push [] P) A) B) Z) = Some (Z, q1)
    \<and> queue_pop q1 = Some (B, q2) \<and> set q2 = {P, A}"
proof -
  note less = assms less_trans [OF assms(6,7)] less_trans [OF assms(7,8)]
    less_trans [OF assms(6) less_trans [OF assms(7,8)]]
  have order: "\<not> priority_le A P" "priority_le B A" "\<not> priority_le Z P" "\<not> priority_le Z A" "priority_le A B"
    "priority_le P A" "\<not> priority_le B P"  "priority_le P B"
    using less by (auto simp: priority_le_def priority_cmp_Greater)
  have push: "queue_push (queue_push (queue_push (queue_push [] P) A) B) Z = [Z, A, B, P]"
    by (simp add: queue_push_def heap_push_def sift_up.simps Let_def order)
  have "queue_pop [Z, A, B, P] = Some (Z, [B, A, P])"
    by (simp add: queue_pop_def heap_pop_def sift_up.simps sift_down_to_bottom.simps greater_child_def
        Let_def order)
  moreover have "queue_pop [B, A, P] = Some (B, [A, P])"
    by (simp add: queue_pop_def heap_pop_def sift_up.simps sift_down_to_bottom.simps greater_child_def
        Let_def order)
  ultimately show ?thesis using push by auto
qed

theorem urgent_message_overtaken_witness:
  "\<exists>A B q q1 q2. pm_priority A = 0 \<and> pm_priority B = 5 \<and> pm_sequence A < pm_sequence B
     \<and> queue_pop q1 = Some (B, q2) \<and> A \<in> set q2"
proof -
  define msg where "msg p s = \<lparr>pm_priority = p, pm_sequence = s, pm_message = \<lparr>mm_topic = [], mm_payload = None\<rparr>\<rparr>"
    for p s
  show ?thesis
    using urgent_message_overtaken [of "msg 0 1" 0 "msg 0 3" "msg 5 0" 5 "msg 5 2"]
    by (intro exI [of _ "msg 0 1"] exI [of _ "msg 5 2"]) (auto simp: msg_def)
qed

text \<open>C33: A message can stop the receiving thread, and with it the service: exactly one that is no JSON,
  or one its schema rejects whose topic is not the service's or which has no token of type string.\<close>

theorem receive_message_panics_iff:
  "panics (receive_message env matches filters m SEQUENCE queue) \<longleftrightarrow>
     mm_payload m = None
     \<or> (\<exists>schema v e. topic_schema matches filters (mm_topic m) = Some schema \<and> mm_payload m = Some v
          \<and> schema v = Some e
          \<and> \<not> (is_ok (mqtt_topic_try_from (mm_topic m)) \<and> as_str (json_index v ''token'') \<noteq> None))"
  by (cases "mm_payload m"; cases "topic_schema matches filters (mm_topic m)")
     (auto simp: receive_message_def Let_def schema_check_def status_reason_panics get_token_panics
        priority_message_new_def get_priority_def split: option.splits)

end
