(* ===== verification/Service_Threads.thy ===== *)
theory Service_Threads
  imports Requests
begin

text \<open>
  What the services of src/src/service share: programs that wait for the module's answers, and the
  readers of request bodies.

  A service operation runs on one thread, and between two waits it holds the lock of its component
  (or touches nothing another thread reads). So an operation is a \<open>prog\<close>: from the component's state it
  sends messages, changes the state, and either is finished or waits on the condition variable.
  \<open>Waiting f\<close> holds the rest: \<open>f (late, w)\<close> is \<open>None\<close> while the thread stays blocked in state \<open>w\<close>, and
  otherwise what it does next; \<open>late\<close> says that the duration of a timed wait is over. Meanwhile the
  other threads change the state; \<open>deliver\<close> is one such change followed by a wake-up of the thread.

  \<open>statics\<close> holds the two counters all services share: \<^verbatim>\<open>SEQ\<close>, the number of the next frame
  (src/src/protocol/frame.rs), and \<^verbatim>\<open>TOKEN\<close>, that of the next own message (src/src/mqtt_message.rs).
\<close>

section \<open>Programs that wait\<close>

record statics =
  SEQ :: u8
  TOKEN :: u64

datatype ('s, 'a) run =
    Finished "'a result"
  | Waiting "bool \<times> 's \<times> statics \<Rightarrow> (action list \<times> ('s \<times> statics) \<times> ('s, 'a) run) option"

type_synonym ('s, 'a) turn = "action list \<times> ('s \<times> statics) \<times> ('s, 'a) run"
type_synonym ('s, 'a) prog = "'s \<times> statics \<Rightarrow> ('s, 'a) turn"

definition give :: "'a result \<Rightarrow> ('s, 'a) prog" where
  "give r w = ([], w, Finished r)"

definition send :: "action list \<Rightarrow> ('s, unit) prog" where
  "send acts w = (acts, w, Finished (Ok ()))"

definition ask :: "('s \<Rightarrow> 'a) \<Rightarrow> ('s, 'a) prog" where
  "ask f w = ([], w, Finished (Ok (f (fst w))))"

definition change :: "('s \<Rightarrow> 's) \<Rightarrow> ('s, unit) prog" where
  "change f w = ([], (f (fst w), snd w), Finished (Ok ()))"

text \<open>An operation on the shared counters alone.\<close>

definition with_statics :: "(statics \<Rightarrow> 'a result \<times> statics) \<Rightarrow> ('s, 'a) prog" where
  "with_statics f w = (case f (snd w) of (r, g) \<Rightarrow> ([], (fst w, g), Finished r))"

fun sending :: "action list \<Rightarrow> ('s, 'a) turn \<Rightarrow> ('s, 'a) turn" where
  "sending acts (acts', w, r) = (acts @ acts', w, r)"

fun continue :: "action list \<times> ('s \<times> statics) \<times> ('s, 'a) prog \<Rightarrow> ('s, 'a) turn" where
  "continue (acts, w, p) = sending acts (p w)"

primrec run_then :: "('a \<Rightarrow> ('s, 'b) prog) \<Rightarrow> ('s, 'a) run \<Rightarrow> ('s, 'b) prog" where
  "run_then k (Finished r) =
     (\<lambda>w. case r of Ok x \<Rightarrow> k x w | Err e \<Rightarrow> ([], w, Finished (Err e)) | Panic p \<Rightarrow> ([], w, Finished (Panic p)))"
| "run_then k (Waiting f) =
     (\<lambda>w. ([], w, Waiting (\<lambda>x. map_option continue
        (map_option (map_prod id (map_prod id (run_then k))) (f x)))))"

definition andDo :: "('s, 'a) prog \<Rightarrow> ('a \<Rightarrow> ('s, 'b) prog) \<Rightarrow> ('s, 'b) prog" where
  "andDo p k w = (case p w of (acts, w', r) \<Rightarrow> sending acts (run_then k r w'))"

text \<open>\<^verbatim>\<open>Condvar::wait_while\<close> and \<^verbatim>\<open>Condvar::wait_timeout_while\<close>; the latter answers whether it timed out.\<close>

definition wait_while :: "('s \<Rightarrow> bool) \<Rightarrow> ('s, unit) prog" where
  "wait_while c w =
     ([], w,
      if c (fst w)
      then Waiting (\<lambda>(late, s, g). if c s then None else Some ([], (s, g), Finished (Ok ())))
      else Finished (Ok ()))"

definition wait_timeout_while :: "('s \<Rightarrow> bool) \<Rightarrow> ('s, bool) prog" where
  "wait_timeout_while c w =
     ([], w,
      if c (fst w)
      then Waiting (\<lambda>(late, s, g).
             if \<not> c s then Some ([], (s, g), Finished (Ok False))
             else if late then Some ([], (s, g), Finished (Ok True)) else None)
      else Finished (Ok False))"

text \<open>An operation of a component as an operation on the record that holds it.\<close>

primrec zoom_run :: "('t \<Rightarrow> 's) \<Rightarrow> ('s \<Rightarrow> 't \<Rightarrow> 't) \<Rightarrow> ('s, 'a) run \<Rightarrow> ('t, 'a) run" where
  "zoom_run get put (Finished r) = Finished r"
| "zoom_run get put (Waiting f) =
     Waiting (\<lambda>x. map_option (map_prod id (map_prod (\<lambda>(s, g). (put s (fst (snd x)), g)) id))
       (map_option (map_prod id (map_prod id (zoom_run get put)))
         (f (fst x, get (fst (snd x)), snd (snd x)))))"

definition zoom :: "('t \<Rightarrow> 's) \<Rightarrow> ('s \<Rightarrow> 't \<Rightarrow> 't) \<Rightarrow> ('s, 'a) prog \<Rightarrow> ('t, 'a) prog" where
  "zoom get put p w =
     (case p (get (fst w), snd w) of
        (acts, (s, g), r) \<Rightarrow> (acts, (put s (fst w), g), zoom_run get put r))"

text \<open>A program whose \<^verbatim>\<open>Err\<close> is a value the caller looks at.\<close>

primrec catch_run :: "('s, 'a) run \<Rightarrow> ('s, 'a result) run" where
  "catch_run (Finished r) = Finished (case r of Panic p \<Rightarrow> Panic p | Ok x \<Rightarrow> Ok (Ok x) | Err e \<Rightarrow> Ok (Err e))"
| "catch_run (Waiting f) = Waiting (\<lambda>x. map_option (map_prod id (map_prod id catch_run)) (f x))"

definition catch :: "('s, 'a) prog \<Rightarrow> ('s, 'a result) prog" where
  "catch p w = (case p w of (acts, w', r) \<Rightarrow> (acts, w', catch_run r))"

text \<open>What else happens: a change of the state by another thread, or the end of a timed wait.\<close>

fun wake :: "bool \<Rightarrow> ('s, 'a) turn \<Rightarrow> ('s, 'a) turn" where
  "wake late (acts, w, Finished r) = (acts, w, Finished r)"
| "wake late (acts, w, Waiting f) =
     (case f (late, w) of None \<Rightarrow> (acts, w, Waiting f) | Some (acts', w', r) \<Rightarrow> (acts @ acts', w', r))"

fun deliver :: "('s \<Rightarrow> 's) \<Rightarrow> ('s, 'a) turn \<Rightarrow> ('s, 'a) turn" where
  "deliver e (acts, (s, g), r) = wake False (acts, (e s, g), r)"

definition delivers :: "('s \<Rightarrow> 's) list \<Rightarrow> ('s, 'a) turn \<Rightarrow> ('s, 'a) turn" where
  "delivers es t = fold deliver es t"

text \<open>A fallible operation on a state that keeps its changes when it fails.\<close>

fun thenS :: "'a result \<times> 's \<Rightarrow> ('a \<Rightarrow> 's \<Rightarrow> 'b result \<times> 's) \<Rightarrow> 'b result \<times> 's" where
  "thenS (Ok x, s) k = k x s"
| "thenS (Err e, s) k = (Err e, s)"
| "thenS (Panic p, s) k = (Panic p, s)"

definition perform :: "('s \<Rightarrow> 'a result \<times> 's) \<Rightarrow> ('s, 'a) prog" where
  "perform f w = (case f (fst w) of (r, s) \<Rightarrow> ([], (s, snd w), Finished r))"

section \<open>Requests and errors\<close>

definition counted :: "(u8 \<Rightarrow> 'a result \<times> u8) \<Rightarrow> ('s, 'a) prog" where
  "counted f = with_statics (\<lambda>g. case f (SEQ g) of (r, n) \<Rightarrow> (r, g\<lparr>SEQ := n\<rparr>))"

definition request_frame :: "address_field option \<Rightarrow> app_data \<Rightarrow> ('s, frame) prog" where
  "request_frame address d = counted (\<lambda>n. frame_new_request n address d)"

text \<open>The senders of \<^verbatim>\<open>parse_response.rs\<close> as programs.\<close>

definition info_request :: "app_data \<Rightarrow> mqtt_req_info option \<Rightarrow> ('s, unit) prog" where
  "info_request d mqtt = andDo (counted (\<lambda>n. mqtt_info_request_uart_handler n d mqtt)) send"

definition uart_request :: "app_data \<Rightarrow> mqtt_message \<Rightarrow> ('s, unit) prog" where
  "uart_request d m = andDo (counted (\<lambda>n. mqtt_request_uart_handler n d m)) send"

definition json_request :: "(json \<Rightarrow> 'm result) \<Rightarrow> ('m \<Rightarrow> app_data) \<Rightarrow> mqtt_message \<Rightarrow> ('s, unit) prog" where
  "json_request from_json into m = andDo (counted (\<lambda>n. mqtt_request_handler n from_json into m)) send"

text \<open>\<^verbatim>\<open>to_mqtt_req_info\<close>, and the reply to a request.\<close>

definition to_mqtt_req_info :: "mqtt_message \<Rightarrow> mqtt_req_info result" where
  "to_mqtt_req_info m = andThen (get_token m) (\<lambda>token. mqtt_req_info_new (mm_topic m) token None)"

definition reply :: "mqtt_message result \<Rightarrow> ('s, unit) prog" where
  "reply r = andDo (give r) (\<lambda>m. send [ToMqtt m])"

section \<open>Bodies of requests\<close>

text \<open>A struct with \<^verbatim>\<open>#[derive(Deserialize)]\<close> is read from an object; \<open>word_field\<close> is a required field of an
  unsigned integer type.\<close>

fun word_field :: "json \<Rightarrow> string \<Rightarrow> 'a::len word result" where
  "word_field (JObj entries) key =
     (case map_of entries key of
        Some (JNum n) \<Rightarrow> if 0 \<le> n \<and> n < 2 ^ LENGTH('a) then Ok (word_of_int n) else Err InvalidJsonText
      | _ \<Rightarrow> Err InvalidJsonText)"
| "word_field _ key = Err InvalidJsonText"

text \<open>An optional field: absent and \<^verbatim>\<open>null\<close> are \<^verbatim>\<open>None\<close>.\<close>

fun optional_word_field :: "json \<Rightarrow> string \<Rightarrow> 'a::len word option result" where
  "optional_word_field (JObj entries) key =
     (case map_of entries key of
        None \<Rightarrow> Ok None
      | Some JNull \<Rightarrow> Ok None
      | Some v \<Rightarrow> andThen (word_field (JObj entries) key) (\<lambda>w. Ok (Some w)))"
| "optional_word_field _ key = Err InvalidJsonText"

fun array_field :: "(json \<Rightarrow> 'a result) \<Rightarrow> json \<Rightarrow> string \<Rightarrow> 'a list result" where
  "array_field f (JObj entries) key =
     (case map_of entries key of Some (JArr vs) \<Rightarrow> traverse f vs | _ \<Rightarrow> Err InvalidJsonText)"
| "array_field f _ key = Err InvalidJsonText"

definition message_json :: "(json \<Rightarrow> 'a result) \<Rightarrow> mqtt_message \<Rightarrow> 'a result" where
  "message_json from_json m =
     (case mm_payload m of None \<Rightarrow> Err InvalidJsonText | Some v \<Rightarrow> from_json v)"

definition hex_decode :: "env \<Rightarrow> string \<Rightarrow> u8 list result" where
  "hex_decode env s = (case env_hex_decode env s of None \<Rightarrow> Err InvalidHex | Some bs \<Rightarrow> Ok bs)"

section \<open>Laws of programs\<close>

lemma sending_Nil [simp]: "sending [] t = t"
  by (cases t) simp

lemma sending_sending [simp]: "sending xs (sending ys t) = sending (xs @ ys) t"
  by (cases t) simp

lemma andDo_give [simp]:
  "andDo (give (Ok x)) k = k x"
  "andDo (give (Err e)) k = give (Err e)"
  "andDo (give (Panic p)) k = give (Panic p)"
  by (auto simp: andDo_def give_def fun_eq_iff split: prod.splits)

lemma andDo_ask [simp]: "andDo (ask f) k w = k (f (fst w)) w"
  by (simp add: andDo_def ask_def split: prod.splits)

lemma andDo_change [simp]: "andDo (change f) k w = k () (f (fst w), snd w)"
  by (simp add: andDo_def change_def split: prod.splits)

lemma andDo_send [simp]: "andDo (send acts) k w = sending acts (k () w)"
  by (simp add: andDo_def send_def split: prod.splits)

lemma andDo_statics [simp]:
  "andDo (with_statics f) k w = (case f (snd w) of (r, g) \<Rightarrow> andDo (give r) k (fst w, g))"
  by (auto simp: andDo_def with_statics_def give_def split: prod.splits outcome.splits)

lemma andDo_perform [simp]:
  "andDo (perform f) k w = (case f (fst w) of (r, s) \<Rightarrow> andDo (give r) k (s, snd w))"
  by (auto simp: andDo_def perform_def give_def split: prod.splits outcome.splits)

lemma thenS_assoc: "thenS (thenS m f) g = thenS m (\<lambda>x s. thenS (f x s) g)"
  by (cases m; cases "fst m") auto

lemma thenS_eq_Ok:
  "thenS m k = (Ok y, s') \<longleftrightarrow> (\<exists>x s. m = (Ok x, s) \<and> k x s = (Ok y, s'))"
  by (cases m; cases "fst m") auto

lemma andDo_wait_while:
  "andDo (wait_while c) k w =
     (if c (fst w) then ([], w, Waiting (\<lambda>(late, s, g). if c s then None else Some (k () (s, g))))
      else k () w)"
  by (auto simp: andDo_def wait_while_def fun_eq_iff split: prod.splits)

lemma andDo_wait_timeout_while:
  "andDo (wait_timeout_while c) k w =
     (if c (fst w)
      then ([], w, Waiting (\<lambda>(late, s, g).
              if \<not> c s then Some (k False (s, g)) else if late then Some (k True (s, g)) else None))
      else k False w)"
  by (auto simp: andDo_def wait_timeout_while_def fun_eq_iff split: prod.splits)

fun turn_then :: "('a \<Rightarrow> ('s, 'b) prog) \<Rightarrow> ('s, 'a) turn \<Rightarrow> ('s, 'b) turn" where
  "turn_then k (acts, w, r) = sending acts (run_then k r w)"

lemma andDo_turn: "andDo p k w = turn_then k (p w)"
  by (cases "p w") (simp add: andDo_def)

lemma turn_then_sending: "turn_then k (sending acts t) = sending acts (turn_then k t)"
  by (cases t) simp

lemma turn_then_run_then: "turn_then k (run_then j r w) = run_then (\<lambda>x. andDo (j x) k) r w"
proof (induction r arbitrary: w)
  case (Finished r)
  then show ?case by (cases r) (simp_all add: andDo_turn)
next
  case (Waiting f)
  have "map_option continue (map_option (map_prod id (map_prod id (run_then k)))
          (map_option continue (map_option (map_prod id (map_prod id (run_then j))) (f x))))
      = map_option continue (map_option (map_prod id (map_prod id (run_then (\<lambda>x. andDo (j x) k)))) (f x))"
    for x
  proof (cases "f x")
    case (Some y)
    obtain acts w' r where y: "y = (acts, w', r)" by (cases y)
    obtain acts2 w2 r2 where r: "run_then j r w' = (acts2, w2, r2)" by (cases "run_then j r w'")
    have "turn_then k (run_then j r w') = run_then (\<lambda>x. andDo (j x) k) r w'"
      by (rule Waiting.IH [OF rangeI [of f x], of y "(w', r)"]) (use Some y in auto)
    with Some y r show ?thesis by (simp flip: sending_sending)
  qed simp
  then show ?case by simp
qed

lemma andDo_assoc: "andDo (andDo p j) k = andDo p (\<lambda>x. andDo (j x) k)"
proof
  fix w
  show "andDo (andDo p j) k w = andDo p (\<lambda>x. andDo (j x) k) w"
    by (cases "p w") (simp add: andDo_turn turn_then_sending turn_then_run_then)
qed

fun catch_turn :: "('s, 'a) turn \<Rightarrow> ('s, 'a result) turn" where
  "catch_turn (acts, w, r) = (acts, w, catch_run r)"

lemma catch_turn: "catch p w = catch_turn (p w)"
  by (cases "p w") (simp add: catch_def)

lemma catch_turn_sending: "catch_turn (sending acts t) = sending acts (catch_turn t)"
  by (cases t) simp

definition caught :: "('a \<Rightarrow> ('s, 'b) prog) \<Rightarrow> 'a result \<Rightarrow> ('s, 'b result) prog" where
  "caught k r = (case r of Ok x \<Rightarrow> catch (k x) | Err e \<Rightarrow> give (Ok (Err e)) | Panic p \<Rightarrow> give (Panic p))"

lemma catch_turn_run_then: "catch_turn (run_then k r w) = run_then (caught k) (catch_run r) w"
proof (induction r arbitrary: w)
  case (Finished r)
  then show ?case by (cases r) (simp_all add: caught_def catch_turn give_def)
next
  case (Waiting f)
  have "map_option (map_prod id (map_prod id catch_run)) (map_option continue
          (map_option (map_prod id (map_prod id (run_then k))) (f x)))
      = map_option continue (map_option (map_prod id (map_prod id (run_then (caught k))))
          (map_option (map_prod id (map_prod id catch_run)) (f x)))" for x
  proof (cases "f x")
    case (Some y)
    obtain acts w' r where y: "y = (acts, w', r)" by (cases y)
    obtain acts2 w2 r2 where r: "run_then k r w' = (acts2, w2, r2)" by (cases "run_then k r w'")
    have "catch_turn (run_then k r w') = run_then (caught k) (catch_run r) w'"
      by (rule Waiting.IH [OF rangeI [of f x], of y "(w', r)"]) (use Some y in auto)
    then have "run_then (caught k) (catch_run r) w' = (acts2, w2, catch_run r2)" using r by simp
    with Some y r show ?thesis by simp
  qed simp
  then show ?case by simp
qed

lemma catch_andDo: "catch (andDo p k) = andDo (catch p) (caught k)"
proof
  fix w
  show "catch (andDo p k) w = andDo (catch p) (caught k) w"
    by (cases "p w") (simp add: catch_turn andDo_turn catch_turn_sending catch_turn_run_then)
qed

lemma caught [simp]:
  "caught k (Ok x) = catch (k x)" "caught k (Err e) = give (Ok (Err e))" "caught k (Panic p) = give (Panic p)"
  by (simp_all add: caught_def)

lemma catch_give [simp]:
  "catch (give (Ok x)) = give (Ok (Ok x))" "catch (give (Err e)) = give (Ok (Err e))"
  "catch (give (Panic p)) = give (Panic p)"
  by (simp_all add: catch_def give_def fun_eq_iff)

lemma catch_ask_change [simp]:
  "catch (ask f) = andDo (ask f) (\<lambda>x. give (Ok (Ok x)))"
  "catch (change h) = andDo (change h) (\<lambda>x. give (Ok (Ok x)))"
  by (simp_all add: catch_def ask_def change_def andDo_def give_def fun_eq_iff)

lemma catch_wait_while: "catch (wait_while c) = andDo (wait_while c) (\<lambda>x. give (Ok (Ok x)))"
  by (auto simp: catch_def wait_while_def andDo_def give_def fun_eq_iff split: prod.splits)

section \<open>Requests are sent\<close>

definition new_frame :: "bool \<Rightarrow> u8 \<Rightarrow> address_field option \<Rightarrow> app_data \<Rightarrow> frame" where
  "new_frame r seq a d =
     \<lparr>fr_header = \<lparr>header_byte = HEADER, header_length = of_nat (frame_total_length a d)\<rparr>,
      fr_ctrl_field = ctrl_field_new r, fr_user_data = user_data_new seq a d,
      fr_checksum = calc_checksum
        (ctrl_field_to_u8 (ctrl_field_new r) # user_data_to_vec (user_data_new seq a d)),
      fr_tail = TAIL\<rparr>"

lemma frame_new_new_frame [simp]: "frame_new r seq a d = Ok (new_frame r seq a d)"
  by (simp add: new_frame_def frame_new_Ok)

text \<open>The message of a request with function number \<open>n\<close> and sequence number \<open>seq\<close>.\<close>

definition request_message ::
    "u8 \<Rightarrow> address_field option \<Rightarrow> app_data \<Rightarrow> u8 \<Rightarrow> mqtt_req_info option \<Rightarrow> uart_message" where
  "request_message seq a d n mqtt =
     uart_message_new
       \<lparr>ri_mqtt_req_info = mqtt, ri_frame_key = FrameKey (app_afn d) n, ri_seq_num = seq,
        ri_origin_req_key = None\<rparr> (new_frame False seq a d)"

lemma request_message_sel [simp]:
  "ri_mqtt_req_info (um_req_info (request_message seq a d n mqtt)) = mqtt"
  "ri_frame_key (um_req_info (request_message seq a d n mqtt)) = FrameKey (app_afn d) n"
  "ri_seq_num (um_req_info (request_message seq a d n mqtt)) = seq"
  "um_frame (request_message seq a d n mqtt) = new_frame False seq a d"
  "um_timeout (request_message seq a d n mqtt) = None"
  by (simp_all add: request_message_def uart_message_new_def)

lemma request_frame [simp]:
  "andDo (request_frame a d) k (s, g) = k (new_frame False (SEQ g) a d) (s, g\<lparr>SEQ := SEQ g + 1\<rparr>)"
  by (simp add: request_frame_def counted_def frame_new_request_def)

lemma req_info_new_frame:
  assumes "fn_num d = Ok n"
  shows "req_info_new (new_frame r seq a d) mqtt =
     Ok \<lparr>ri_mqtt_req_info = mqtt, ri_frame_key = FrameKey (app_afn d) n, ri_seq_num = seq,
         ri_origin_req_key = None\<rparr>"
  using frame_new_sel(3-5) [OF frame_new_new_frame [of r seq a d]] assms
  by (simp add: req_info_new_def frame_key_of_def)

lemma info_request:
  assumes "fn_num d = Ok n"
  shows "info_request d mqtt (s, g) =
     ([ToUart (request_message (SEQ g) None d n mqtt)], (s, g\<lparr>SEQ := SEQ g + 1\<rparr>), Finished (Ok ()))"
  using assms
  by (simp add: info_request_def counted_def mqtt_info_request_uart_handler_def frame_new_request_def
      req_info_new_frame request_message_def send_def)

lemma andDo_info_request:
  assumes "fn_num d = Ok n"
  shows "andDo (info_request d mqtt) k (s, g) =
     sending [ToUart (request_message (SEQ g) None d n mqtt)] (k () (s, g\<lparr>SEQ := SEQ g + 1\<rparr>))"
  by (simp add: andDo_def info_request [OF assms] split: prod.splits)

section \<open>Answers of the module\<close>

text \<open>A message of the module to a service; services read its frame and, some, its request.\<close>

definition answer_message :: "app_data \<Rightarrow> mqtt_req_info option \<Rightarrow> uart_message" where
  "answer_message d mqtt =
     uart_message_new
       \<lparr>ri_mqtt_req_info = mqtt, ri_frame_key = FrameKey (app_afn d) 1, ri_seq_num = 0,
        ri_origin_req_key = None\<rparr> (new_frame True 0 None d)"

lemma um_frame_answer [simp]: "um_frame (answer_message d mqtt) = new_frame True 0 None d"
  by (simp add: answer_message_def uart_message_new_def)

lemma new_frame_app_data [simp]: "ud_app_data (fr_user_data (new_frame r seq a d)) = d"
  by (simp add: new_frame_def user_data_new_def)

lemma frame_is_deny_new_frame [simp]:
  "fn_num d = Ok n \<Longrightarrow> frame_is_deny (new_frame r seq a d) = Ok (app_afn d = Answer \<and> n = 2)"
  by (simp add: frame_is_deny_def frame_afn_def frame_fn_num_def answer_fn_deny_def)

lemma uart_response_confirm [simp]:
  "uart_response_try_from confirm_response_try_from (new_frame r seq a (confirm_response_to_app_data c))
     = Ok (NormalResponse c)"
  by (simp add: uart_response_try_from_def confirm_response_to_app_data_def confirm.decode_Ok_iff)

lemma uart_response_deny [simp]:
  "uart_response_try_from decode (new_frame r seq a (deny_response_to_app_data e)) = Ok (DenyAnswer e)"
  by (simp add: uart_response_try_from_def deny_response_to_app_data_def deny.decode_Ok_iff)

lemma uart_response_normal [simp]:
  "fn_num d = Ok n \<Longrightarrow> app_afn d \<noteq> Answer \<Longrightarrow> decode d = Ok v \<Longrightarrow>
     uart_response_try_from decode (new_frame r seq a d) = Ok (NormalResponse v)"
  by (simp add: uart_response_try_from_def)

section \<open>Deliveries\<close>

lemma case_sending: "(case t of (acts', x) \<Rightarrow> (acts @ acts', x)) = sending acts t"
  by (cases t) simp

lemma wake_sending: "wake late (sending acts t) = sending acts (wake late t)"
  by (cases t; cases "snd (snd t)") (auto split: option.splits)

lemma deliver_sending [simp]: "deliver e (sending acts t) = sending acts (deliver e t)"
proof (cases t)
  case (fields acts' w r)
  then show ?thesis
    using wake_sending [of False acts "(acts', (e (fst w), snd w), r)"] by (cases w) simp
qed

lemma delivers_sending [simp]: "delivers es (sending acts t) = sending acts (delivers es t)"
  by (induction es arbitrary: t) (simp_all add: delivers_def)

lemma delivers_simps [simp]: "delivers [] t = t" "delivers (e # es) t = delivers es (deliver e t)"
  by (simp_all add: delivers_def)

lemma deliver_Waiting:
  "deliver e (acts, (s, g), Waiting f) =
     (case f (False, (e s, g)) of
        None \<Rightarrow> (acts, (e s, g), Waiting f) | Some t \<Rightarrow> sending acts t)"
  by (auto split: option.splits)

text \<open>Waiting is seen through what follows.\<close>

lemma deliver_turn_then:
  "deliver e (turn_then k (acts, w, Waiting f)) = turn_then k (deliver e (acts, w, Waiting f))"
  by (cases w) (auto simp: case_sending split: option.splits)

lemma reply_None [simp]:
  "new_with_req_info_body env mqtt None =
     Ok \<lparr>mm_topic = mri_topic mqtt, mm_payload = Some (JObj [(''token'', JStr (mri_token mqtt)),
       (''timestamp'', JStr (env_now env)), (''status'', JStr ''OK''), (''reason'', JStr ''OK'')])\<rparr>"
  by (simp add: new_with_req_info_body_def mqtt_message_new_def mqtt_payload_to_json_def
      mqtt_payload_new_with_token_def SUCCESS_def)

lemma andDo_reply_Ok [simp]: "andDo (reply (Ok m)) k w = sending [ToMqtt m] (k () w)"
  by (simp add: reply_def andDo_assoc)

section \<open>A request of an application\<close>

text \<open>Concrete messages for the witnesses of the services.\<close>

definition app_request :: "(string \<times> json) list \<Rightarrow> mqtt_message" where
  "app_request entries =
     \<lparr>mm_topic = ''app/get/request/PLCServiceGW/object'',
      mm_payload = Some (JObj ((''token'', JStr ''7'') # entries))\<rparr>"

definition app_req_info :: mqtt_req_info where
  "app_req_info =
     \<lparr>mri_topic = ''PLCServiceGW/get/response/app/object'', mri_token = ''7'', mri_extra_data = None\<rparr>"

lemma app_request_topic: "transfer_topic ''app/get/request/PLCServiceGW/object'' = Ok ''PLCServiceGW/get/response/app/object''"
  by (simp add: transfer_topic_def mqtt_topic_try_from_def Let_def APP_NAME_def operator_try_from_def
      info_type_try_from_def ensure_run topic_transfer_def)

lemma app_request_req_info [simp]: "to_mqtt_req_info (app_request entries) = Ok app_req_info"
  by (simp add: to_mqtt_req_info_def app_request_def get_token_def mqtt_req_info_new_def app_request_topic
      app_req_info_def)

lemma app_request_json [simp]:
  "message_json from_json (app_request entries) = from_json (JObj ((''token'', JStr ''7'') # entries))"
  by (simp add: message_json_def app_request_def)

end
