(* ===== verification/Route_Ctrl.thy ===== *)
theory Route_Ctrl
  imports Service_Threads
begin

text \<open>
  src/src/service/route_ctrl.rs: pausing and resuming the module's own metering, on request and
  automatically around other requests.

  \<open>metering_state\<close> is the record behind the lock. A \<^verbatim>\<open>Guard\<close> of the timer is a number: the callback
  with the number of the guard in \<open>ms_resume_timer\<close> is due later, unless it has run
  (\<open>ms_fired\<close>); replacing or clearing the guard cancels it.
\<close>

section \<open>State\<close>

datatype meter_state = MeterPause | MeterResume

record metering_state =
  ms_state :: meter_state
  ms_resume_timer :: "nat option"
  ms_result :: "unit result option"
  ms_fired :: "nat list"
  ms_next_guard :: nat

definition route_ctrl_new :: metering_state where
  "route_ctrl_new =
     \<lparr>ms_state = MeterResume, ms_resume_timer = None, ms_result = None, ms_fired = [], ms_next_guard = 0\<rparr>"

definition update_metering_state :: "meter_state option \<Rightarrow> metering_state \<Rightarrow> metering_state" where
  "update_metering_state m s = s\<lparr>ms_state := (case m of Some v \<Rightarrow> v | None \<Rightarrow> MeterResume)\<rparr>"

definition add_resume_timer :: "metering_state \<Rightarrow> metering_state" where
  "add_resume_timer s =
     s\<lparr>ms_resume_timer := Some (ms_next_guard s), ms_next_guard := Suc (ms_next_guard s)\<rparr>"

definition update_resume_timer :: "metering_state \<Rightarrow> metering_state" where
  "update_resume_timer s = (if ms_resume_timer s \<noteq> None then add_resume_timer s else s)"

text \<open>\<^verbatim>\<open>uart_response_update_resume_timer\<close> takes the lock first.\<close>

definition uart_response_update_resume_timer :: "metering_state \<Rightarrow> metering_state" where
  "uart_response_update_resume_timer s = update_resume_timer s"

section \<open>Operations\<close>

text \<open>The module's answer, taken out of the state.\<close>

definition wait_metering :: "(metering_state, unit result) prog" where
  "wait_metering =
     andDo (wait_while (\<lambda>s. ms_result s = None)) (\<lambda>_.
     andDo (ask ms_result) (\<lambda>r.
     andDo (change (\<lambda>s. s\<lparr>ms_result := None\<rparr>)) (\<lambda>_.
     andDo (give (unwrap_option r)) (\<lambda>result. give (Ok result)))))"

definition auto_resume_metering :: "(metering_state, unit) prog" where
  "auto_resume_metering =
     andDo (ask ms_state) (\<lambda>m.
     if m = MeterResume then give (Ok ())
     else
       andDo (info_request resume_metering_to_app_data None) (\<lambda>_.
       andDo wait_metering (\<lambda>result.
       andDo (give result) (\<lambda>_. change (update_metering_state (Some MeterResume))))))"

definition auto_pause_metering :: "(metering_state, unit) prog" where
  "auto_pause_metering =
     andDo (ask ms_state) (\<lambda>m.
     if m = MeterPause then change update_resume_timer
     else
       andDo (info_request pause_metering_to_app_data None) (\<lambda>_.
       andDo wait_metering (\<lambda>result.
       andDo (give result) (\<lambda>_.
       andDo (change (update_metering_state (Some MeterPause))) (\<lambda>_.
       change add_resume_timer)))))"

definition mqtt_operating_metering ::
    "env \<Rightarrow> app_data \<Rightarrow> mqtt_message \<Rightarrow> meter_state option \<Rightarrow> (metering_state, unit) prog" where
  "mqtt_operating_metering env request message meter_state =
     andDo (ask ms_state) (\<lambda>m.
     andDo (if meter_state = Some m then give (Ok (Ok ()))
            else
              andDo (give (to_mqtt_req_info message)) (\<lambda>mqtt.
              andDo (info_request request (Some mqtt)) (\<lambda>_. wait_metering))) (\<lambda>result.
     andDo (if is_ok result
            then andDo (change (update_metering_state meter_state)) (\<lambda>_.
                 change (\<lambda>s. s\<lparr>ms_resume_timer := None\<rparr>))
            else give (Ok ())) (\<lambda>_.
     andDo (give (to_mqtt_req_info message)) (\<lambda>mqtt.
     reply (result_into_mqtt_message env (unit_into_mqtt_message env mqtt) mqtt result)))))"

definition mqtt_resume_metering :: "env \<Rightarrow> mqtt_message \<Rightarrow> (metering_state, unit) prog" where
  "mqtt_resume_metering env message =
     mqtt_operating_metering env resume_metering_to_app_data message (Some MeterResume)"

definition mqtt_restart_metering :: "env \<Rightarrow> mqtt_message \<Rightarrow> (metering_state, unit) prog" where
  "mqtt_restart_metering env message =
     mqtt_operating_metering env restart_metering_to_app_data message None"

definition mqtt_pause_metering :: "env \<Rightarrow> mqtt_message \<Rightarrow> (metering_state, unit) prog" where
  "mqtt_pause_metering env message =
     mqtt_operating_metering env pause_metering_to_app_data message (Some MeterPause)"

definition uart_operate_metering :: "uart_message \<Rightarrow> metering_state \<Rightarrow> unit result \<times> metering_state" where
  "uart_operate_metering message s =
     (case uart_response_try_from confirm_response_try_from (um_frame message) of
        Ok response \<Rightarrow> (Ok (), s\<lparr>ms_result := Some (confirm_uart_response_to_result response)\<rparr>)
      | Err e \<Rightarrow> (Err e, s)
      | Panic p \<Rightarrow> (Panic p, s))"

text \<open>The timer's callback for guard \<open>n\<close>: the timer thread runs it unless the guard is gone.\<close>

definition timer_due :: "nat \<Rightarrow> metering_state \<Rightarrow> bool" where
  "timer_due n s \<longleftrightarrow> ms_resume_timer s = Some n \<and> n \<notin> set (ms_fired s)"

definition resume_timer_callback :: "nat \<Rightarrow> (metering_state, unit) prog" where
  "resume_timer_callback n =
     andDo (change (\<lambda>s. s\<lparr>ms_fired := n # ms_fired s\<rparr>)) (\<lambda>_. auto_resume_metering)"

section \<open>Facts\<close>

lemma metering_fn_num [simp]:
  "fn_num pause_metering_to_app_data = Ok 2" "fn_num resume_metering_to_app_data = Ok 3"
  "fn_num restart_metering_to_app_data = Ok 1"
  by (simp_all add: pause_metering_to_app_data_def resume_metering_to_app_data_def
      restart_metering_to_app_data_def)

lemma andDo_wait_metering:
  "andDo wait_metering k w =
     (if ms_result (fst w) = None
      then ([], w, Waiting (\<lambda>(late, s, g).
             case ms_result s of None \<Rightarrow> None | Some r \<Rightarrow> Some (k r (s\<lparr>ms_result := None\<rparr>, g))))
      else k (the (ms_result (fst w))) ((fst w)\<lparr>ms_result := None\<rparr>, snd w))"
  by (auto simp: wait_metering_def andDo_assoc andDo_wait_while fun_eq_iff split: option.splits)

lemma auto_pause_waits:
  assumes "ms_state s = MeterResume" and "ms_result s = None"
  shows "auto_pause_metering (s, g) =
    ([ToUart (request_message (SEQ g) None pause_metering_to_app_data 2 None)], (s, g\<lparr>SEQ := SEQ g + 1\<rparr>),
     Waiting (\<lambda>(late, s, g). case ms_result s of None \<Rightarrow> None
       | Some r \<Rightarrow> Some (andDo (give r) (\<lambda>_. andDo (change (update_metering_state (Some MeterPause)))
           (\<lambda>_. change add_resume_timer)) (s\<lparr>ms_result := None\<rparr>, g))))"
  using assms by (simp add: auto_pause_metering_def andDo_info_request andDo_wait_metering)

lemma auto_resume_waits:
  assumes "ms_state s \<noteq> MeterResume" and "ms_result s = None"
  shows "auto_resume_metering (s, g) =
    ([ToUart (request_message (SEQ g) None resume_metering_to_app_data 3 None)], (s, g\<lparr>SEQ := SEQ g + 1\<rparr>),
     Waiting (\<lambda>(late, s, g). case ms_result s of None \<Rightarrow> None
       | Some r \<Rightarrow> Some (andDo (give r) (\<lambda>_. change (update_metering_state (Some MeterResume)))
           (s\<lparr>ms_result := None\<rparr>, g))))"
  using assms by (simp add: auto_resume_metering_def andDo_info_request andDo_wait_metering)

definition answered :: "uart_message \<Rightarrow> metering_state \<Rightarrow> metering_state" where
  "answered m s = snd (uart_operate_metering m s)"

lemma answered:
  "uart_response_try_from confirm_response_try_from (um_frame m) = Ok a \<Longrightarrow>
     answered m s = s\<lparr>ms_result := Some (confirm_uart_response_to_result a)\<rparr>"
  by (simp add: answered_def uart_operate_metering_def)

section \<open>Properties\<close>

text \<open>C22: An automatic pause is undone. When the module confirms it, metering is paused and the timer of
  that pause is due; when the module then confirms the request the timer sends, metering goes on, no timer is due,
  and the next request that needs the line quiet pauses the module again, with a timer of its own. A refused
  pause changes nothing; a refused resumption leaves metering paused with no timer due.\<close>

theorem automatic_pause_is_undone:
  assumes "ms_state s = MeterResume" and "ms_result s = None"
    and "\<forall>n \<in> set (ms_fired s). n < ms_next_guard s"
    and "uart_response_try_from confirm_response_try_from (um_frame m1) = Ok a1"
    and "uart_response_try_from confirm_response_try_from (um_frame m2) = Ok a2"
  shows "case deliver (answered m1) (auto_pause_metering (s, g)) of
      (acts, (s1, g1), r) \<Rightarrow>
        acts = [ToUart (request_message (SEQ g) None pause_metering_to_app_data 2 None)]
        \<and> r = Finished (confirm_uart_response_to_result a1)
        \<and> (case a1 of
             DenyAnswer e \<Rightarrow> s1 = s
           | NormalResponse c \<Rightarrow>
               ms_state s1 = MeterPause \<and> timer_due (ms_next_guard s) s1
               \<and> (case deliver (answered m2) (resume_timer_callback (ms_next_guard s) (s1, g1)) of
                    (acts2, (s2, g2), r2) \<Rightarrow>
                      acts2 = [ToUart (request_message (SEQ g + 1) None resume_metering_to_app_data 3 None)]
                      \<and> r2 = Finished (confirm_uart_response_to_result a2)
                      \<and> ms_state s2 = (case a2 of NormalResponse c \<Rightarrow> MeterResume | DenyAnswer e \<Rightarrow> MeterPause)
                      \<and> ms_result s2 = None \<and> (\<forall>n. \<not> timer_due n s2)
                      \<and> (case a2 of
                           DenyAnswer e \<Rightarrow> True
                         | NormalResponse c \<Rightarrow>
                             (case deliver (answered m1) (auto_pause_metering (s2, g2)) of
                                (acts3, (s3, g3), r3) \<Rightarrow>
                                  acts3 = [ToUart (request_message (SEQ g + 2) None pause_metering_to_app_data 2 None)]
                                  \<and> r3 = Finished (Ok ()) \<and> ms_state s3 = MeterPause
                                  \<and> timer_due (ms_next_guard s2) s3))))"
proof -
  note simps = answered [OF assms(4)] answered [OF assms(5)] give_def change_def update_metering_state_def
    add_resume_timer_def timer_due_def resume_timer_callback_def auto_resume_waits
  show ?thesis
    using assms(1-3) by (cases a1; cases a2) (auto simp: auto_pause_waits simps add.commute)
qed

text \<open>All three requests are confirmed.\<close>

theorem automatic_pause_is_undone_witness:
  "case deliver (answered (answer_message (confirm_response_to_app_data confirm_response_default) None))
      (auto_pause_metering (route_ctrl_new, \<lparr>SEQ = 255, TOKEN = 0\<rparr>)) of
    (acts, (s1, g1), r) \<Rightarrow> r = Finished (Ok ()) \<and> ms_state s1 = MeterPause \<and> timer_due 0 s1
      \<and> (case deliver (answered (answer_message (confirm_response_to_app_data confirm_response_default) None))
             (resume_timer_callback 0 (s1, g1)) of
          (acts2, (s2, g2), r2) \<Rightarrow> r2 = Finished (Ok ()) \<and> ms_state s2 = MeterResume
            \<and> (case deliver (answered (answer_message (confirm_response_to_app_data confirm_response_default) None))
                  (auto_pause_metering (s2, g2)) of
                (acts3, (s3, g3), r3) \<Rightarrow> r3 = Finished (Ok ()) \<and> ms_state s3 = MeterPause))"
  using automatic_pause_is_undone [of route_ctrl_new
      "answer_message (confirm_response_to_app_data confirm_response_default) None"
      "NormalResponse confirm_response_default"
      "answer_message (confirm_response_to_app_data confirm_response_default) None"
      "NormalResponse confirm_response_default" "\<lparr>SEQ = 255, TOKEN = 0\<rparr>"]
  by (simp add: route_ctrl_new_def split_beta del: deliver.simps)

end
