(* ===== verification/Module_Info.thy ===== *)
theory Module_Info
  imports Service_Threads Query_Data Route_Get
begin

text \<open>
  The services that ask the module about itself and keep what it says: src/src/service/module_info.rs,
  meter_state.rs, master_address.rs and device_info.rs.

  \<^item> \<^verbatim>\<open>MODULE_INFO\<close>, written at most once, is an argument of what reads it and a result of what writes it.
  \<^item> \<open>calendar\<close> is what the service uses of chrono's dates: \<^verbatim>\<open>from_ymd_opt\<close> and the format
    \<^verbatim>\<open>%Y%m%d\<close>. A point in time is its text.
\<close>

section \<open>Replies with a body (the macro impl_into_mqtt_message)\<close>

definition into_nested :: "env \<Rightarrow> mqtt_req_info \<Rightarrow> json \<Rightarrow> mqtt_message result" where
  "into_nested env mqtt v = new_with_req_info_body env mqtt (Some (Nested v))"

definition into_flat :: "env \<Rightarrow> mqtt_req_info \<Rightarrow> json \<Rightarrow> mqtt_message result" where
  "into_flat env mqtt v = new_with_req_info_body env mqtt (Some (Flat v))"

definition json_word :: "'a::len word \<Rightarrow> json" where
  "json_word w = JNum (uint w)"

definition word_text :: "'a::len word \<Rightarrow> string" where
  "word_text w = decimal (unat w)"

record 'date calendar =
  cal_from_ymd_opt :: "int \<Rightarrow> nat \<Rightarrow> nat \<Rightarrow> 'date option"
  cal_date_to_string :: "'date \<Rightarrow> string"

section \<open>Module information (module_info.rs)\<close>

text \<open>\<^verbatim>\<open>OnceLock::get_or_init\<close>.\<close>

fun get_or_init :: "'a \<Rightarrow> 'a option \<Rightarrow> 'a option" where
  "get_or_init x None = Some x"
| "get_or_init x (Some y) = Some y"

definition slave_module_info_report ::
    "'date calendar \<Rightarrow> uart_message \<Rightarrow> ('date module_info_response \<times> action list) result" where
  "slave_module_info_report cal message =
     andThen (uart_response_try_from (module_info_response_try_from (cal_from_ymd_opt cal))
                (um_frame message)) (\<lambda>response.
     case response of
       DenyAnswer d \<Rightarrow> Panic UnreachableCode
     | NormalResponse r \<Rightarrow>
         andThen (frame_new_response (frame_get_seq (um_frame message)) None
                    (confirm_response_to_app_data confirm_response_default)) (\<lambda>f.
         andThen (req_info_new f None) (\<lambda>req.
         Ok (r, [ToUart (uart_message_new req f)]))))"

definition init_module_info_response ::
    "'date calendar \<Rightarrow> uart_message \<Rightarrow> 'date module_info_response option
       \<Rightarrow> (address \<times> 'date module_info_response option) result" where
  "init_module_info_response cal message MODULE_INFO =
     andThen (uart_response_try_from (module_info_response_try_from (cal_from_ymd_opt cal))
                (um_frame message)) (\<lambda>response.
     case response of
       DenyAnswer d \<Rightarrow> Err (deny_response_to_error d)
     | NormalResponse r \<Rightarrow> Ok (mi_main_node_addr r, get_or_init r MODULE_INFO))"

definition auto_reading_meter :: "'date module_info_response option \<Rightarrow> u8" where
  "auto_reading_meter MODULE_INFO =
     (case MODULE_INFO of None \<Rightarrow> 0 | Some info \<Rightarrow> mi_metering_mode info AND 0x10)"

definition get_module_info :: "mqtt_req_info option \<Rightarrow> ('s, unit) prog" where
  "get_module_info mqtt = info_request module_info_request_to_app_data mqtt"

definition mqtt_get_module_info :: "mqtt_message \<Rightarrow> ('s, unit) prog" where
  "mqtt_get_module_info message = uart_request module_info_request_to_app_data message"

definition mqtt_get_master_id_info :: "mqtt_message \<Rightarrow> ('s, unit) prog" where
  "mqtt_get_master_id_info message = uart_request master_id_info_request_to_app_data message"

definition mqtt_get_mode_info :: "mqtt_message \<Rightarrow> ('s, unit) prog" where
  "mqtt_get_mode_info message = uart_request comm_module_info_request_to_app_data message"

definition mqtt_get_hplc_freq :: "mqtt_message \<Rightarrow> ('s, unit) prog" where
  "mqtt_get_hplc_freq message = uart_request get_hplc_freq_request_to_app_data message"

definition mode_info_json :: "'date calendar \<Rightarrow> 'date comm_module_info_response \<Rightarrow> json" where
  "mode_info_json cal r =
     JObj [(''factory'', JStr (cmi_factory_code r)), (''moduleVendorCode'', JStr (cmi_chip_code r)),
           (''softDate'', JStr (cal_date_to_string cal (cmi_version_date r))),
           (''softVer'', JStr (cmi_version r))]"

definition uart_get_mode_info_response :: "env \<Rightarrow> 'date calendar \<Rightarrow> uart_message \<Rightarrow> action list result" where
  "uart_get_mode_info_response env cal =
     uart_response_handler env (comm_module_info_response_try_from (cal_from_ymd_opt cal))
       (mode_info_json cal) (into_nested env)"

definition hplc_frequency_json :: "get_hplc_freq_response \<Rightarrow> json" where
  "hplc_frequency_json r = JObj [(''hplcFreq'', json_word (gh_frequency r))]"

definition uart_get_hplc_freq_response :: "env \<Rightarrow> uart_message \<Rightarrow> action list result" where
  "uart_get_hplc_freq_response env =
     uart_response_handler env get_hplc_freq_response_try_from hplc_frequency_json (into_flat env)"

definition module_info_json :: "env \<Rightarrow> 'date calendar \<Rightarrow> 'date module_info_response \<Rightarrow> json" where
  "module_info_json env cal r =
     JObj [(''communicationMode'', JStr (word_text (mi_comm_mode r))),
           (''slaveMonitorOvertime'', JStr (word_text (mi_max_timeout_time r))),
           (''BroadcastMaxOvertime'', JStr (word_text (mi_broadcast_cmd_timeout_time r))),
           (''packageMaxLen'', JStr (word_text (mi_max_packet_length r))),
           (''upgradeMaxPackLen'', JStr (word_text (mi_max_packet_per_packet r))),
           (''upgradeActionWaitTime'', JStr (word_text (mi_upgrade_wait_time r))),
           (''moduleaddr'', JStr (address_to_string (env_hex_encode env) (mi_main_node_addr r))),
           (''supportMaxSlaveNum'', JStr (word_text (mi_max_node_num r))),
           (''supportSlaveNum'', JStr (word_text (mi_current_node_num r))),
           (''moduleVerInfo'', JStr (mi_factory_code r @ mi_chip_code r @ ''-''
              @ cal_date_to_string cal (mi_version_date r) @ ''-'' @ mi_version r))]"

text \<open>The reply has a further entry \<^verbatim>\<open>modulePlug\<close> beside those of the payload.\<close>

definition module_info_into_mqtt_message :: "env \<Rightarrow> mqtt_req_info \<Rightarrow> json \<Rightarrow> mqtt_message result" where
  "module_info_into_mqtt_message env mqtt v =
     andThen (mqtt_payload_to_json (mqtt_payload_new_with_token env (mri_token mqtt) (Some (Nested v))))
       (\<lambda>payload. case payload of
          JObj entries \<Rightarrow>
            Ok \<lparr>mm_topic = mri_topic mqtt,
                mm_payload = Some (JObj (entries @ [(''modulePlug'', JStr ''1'')]))\<rparr>
        | _ \<Rightarrow> Panic UnreachableCode)"

definition module_info_response_handler :: "env \<Rightarrow> 'date calendar \<Rightarrow> uart_message \<Rightarrow> action list result" where
  "module_info_response_handler env cal =
     uart_response_handler env (module_info_response_try_from (cal_from_ymd_opt cal))
       (module_info_json env cal) (module_info_into_mqtt_message env)"

definition mode_id_json :: "env \<Rightarrow> master_id_info_response \<Rightarrow> json result" where
  "mode_id_json env r =
     andThen (module_id_format_string (env_hex_encode env) (mid_module_id_format r) (mid_module_id r)) (\<lambda>t.
     Ok (JObj [(''vendorCode'', JStr (mid_factory_code r)),
               (''modeIDLen'', json_word (mid_module_id_length r)),
               (''modeIDFormat'', json_word (module_id_format_to_u8 (mid_module_id_format r))),
               (''modeIDInfo'', JStr t)]))"

definition master_id_info_response_handler :: "env \<Rightarrow> uart_message \<Rightarrow> action list result" where
  "master_id_info_response_handler env =
     uart_response_handler env master_id_info_response_try_from (mode_id_json env)
       (\<lambda>mqtt v. andThen v (into_nested env mqtt))"

section \<open>Counters (meter_state.rs)\<close>

record app_stat =
  as_last_receive_time :: string
  as_init_data_count :: u32
  as_init_param_count :: u32
  as_reset_module_count :: u32
  as_reset_router_count :: u32

definition meter_state_new :: "string \<Rightarrow> app_stat" where
  "meter_state_new now =
     \<lparr>as_last_receive_time = now, as_init_data_count = 0, as_init_param_count = 0,
      as_reset_module_count = 0, as_reset_router_count = 0\<rparr>"

definition init_data :: "app_stat \<Rightarrow> app_stat" where
  "init_data s = s\<lparr>as_init_data_count := as_init_data_count s + 1\<rparr>"

definition init_param :: "app_stat \<Rightarrow> app_stat" where
  "init_param s = s\<lparr>as_init_param_count := as_init_param_count s + 1\<rparr>"

definition reset_module :: "app_stat \<Rightarrow> app_stat" where
  "reset_module s = s\<lparr>as_reset_module_count := as_reset_module_count s + 1\<rparr>"

definition receive_message_now :: "string \<Rightarrow> app_stat \<Rightarrow> app_stat" where
  "receive_message_now now s = s\<lparr>as_last_receive_time := now\<rparr>"

definition mqtt_get_metering_state :: "mqtt_message \<Rightarrow> ('s, unit) prog" where
  "mqtt_get_metering_state message = uart_request running_status_request_to_app_data message"

definition bool_u8 :: "bool \<Rightarrow> u8" where
  "bool_u8 b = (if b then 1 else 0)"

definition metering_state_json ::
    "app_stat \<Rightarrow> 'date module_info_response option \<Rightarrow> running_status_response \<Rightarrow> json result" where
  "metering_state_json s MODULE_INFO r =
     andThen (current_status r) (\<lambda>current.
     Ok (JObj [(''lastReceived'', JStr (as_last_receive_time s)),
               (''ctrlstat'', json_word (bool_u8 (current = Metering))),
               (''searchstat'', json_word (bool_u8 (current = Searching))),
               (''autoReading'', json_word (auto_reading_meter MODULE_INFO)),
               (''initDataCount'', json_word (as_init_data_count s)),
               (''initParamCount'', json_word (as_init_data_count s)),
               (''resetModuleCount'', json_word (as_reset_module_count s)),
               (''resetRouterCount'', json_word (as_reset_router_count s)),
               (''identifyAreaStat'', json_word (ws_area_identify_status (rr_work_status r)))]))"

definition uart_metering_state_response ::
    "env \<Rightarrow> app_stat \<Rightarrow> 'date module_info_response option \<Rightarrow> uart_message \<Rightarrow> action list result" where
  "uart_metering_state_response env s MODULE_INFO message =
     andThen (uart_response_try_from running_status_response_try_from (um_frame message)) (\<lambda>response.
     andThen (unwrap_option (ri_mqtt_req_info (um_req_info message))) (\<lambda>mqtt.
     andThen (case response of
         NormalResponse r \<Rightarrow> andThen (metering_state_json s MODULE_INFO r) (into_flat env mqtt)
       | DenyAnswer d \<Rightarrow> deny_into_mqtt_message env mqtt d) (\<lambda>m.
     Ok [ToMqtt m])))"

section \<open>The service's own address (master_address.rs)\<close>

definition is_ascii_digit :: "char \<Rightarrow> bool" where
  "is_ascii_digit c \<longleftrightarrow> (48::nat) \<le> of_char c \<and> of_char c \<le> (57::nat)"

text \<open>The first twelve digits of the serial number, padded with zeros on the left.\<close>

definition esn_digits :: "string \<Rightarrow> string" where
  "esn_digits esn =
     (let addr = take 12 (filter is_ascii_digit esn) in replicate (12 - length addr) (CHR ''0'') @ addr)"

definition update_address :: "env \<Rightarrow> string \<Rightarrow> address result" where
  "update_address env esn = address_from_str (env_hex_decode env) (esn_digits esn)"

definition mqtt_get_address :: "mqtt_message \<Rightarrow> ('s, unit) prog" where
  "mqtt_get_address message = uart_request master_address_request_to_app_data message"

definition address_get_json :: "env \<Rightarrow> master_address_response \<Rightarrow> json" where
  "address_get_json env r =
     JObj [(''masterNode'', JStr (address_to_string (env_hex_encode env) (master_addr r)))]"

definition uart_get_address :: "env \<Rightarrow> uart_message \<Rightarrow> action list result" where
  "uart_get_address env =
     uart_response_handler env master_address_response_try_from (address_get_json env) (into_flat env)"

definition mqtt_address_set_request_from_json :: "json \<Rightarrow> string result" where
  "mqtt_address_set_request_from_json v = string_field v ''masterNode''"

definition mqtt_set_address :: "env \<Rightarrow> mqtt_message \<Rightarrow> ('s, unit) prog" where
  "mqtt_set_address env message =
     andDo (give (unwrap (message_json mqtt_address_set_request_from_json message))) (\<lambda>master_node.
     andDo (give (get_token message)) (\<lambda>token.
     andDo (give (address_from_str (env_hex_decode env) master_node)) (\<lambda>address.
     andDo (give (mqtt_req_info_new (mm_topic message) token (Some (ExtraAddress address)))) (\<lambda>mqtt.
     info_request (address_set_request_to_app_data address) (Some mqtt)))))"

definition init_set_address :: "address \<Rightarrow> ('s, unit) prog" where
  "init_set_address master_address =
     info_request (address_set_request_to_app_data master_address) None"

definition init_set_address_response :: "uart_message \<Rightarrow> unit result" where
  "init_set_address_response message =
     andThen (uart_response_try_from confirm_response_try_from (um_frame message))
       confirm_uart_response_to_result"

text \<open>\<^verbatim>\<open>get_extra_data().unwrap().downcast::<Address>().unwrap()\<close>.\<close>

fun address_extra :: "extra option \<Rightarrow> address result" where
  "address_extra None = Panic UnwrapOnNone"
| "address_extra (Some (ExtraAddress a)) = Ok a"
| "address_extra (Some (ExtraSample p)) = Panic UnwrapOnErr"

text \<open>Also the address kept from then on.\<close>

definition uart_set_address :: "env \<Rightarrow> uart_message \<Rightarrow> address \<Rightarrow> (action list \<times> address) result" where
  "uart_set_address env message address =
     andThen (uart_response_try_from confirm_response_try_from (um_frame message)) (\<lambda>response.
     andThen (unwrap_option (ri_mqtt_req_info (um_req_info message))) (\<lambda>mqtt.
     case response of
       NormalResponse c \<Rightarrow>
         andThen (address_extra (mri_extra_data mqtt)) (\<lambda>new_address.
         andThen (unit_into_mqtt_message env mqtt ()) (\<lambda>m. Ok ([ToMqtt m], new_address)))
     | DenyAnswer d \<Rightarrow>
         andThen (deny_into_mqtt_message env mqtt d) (\<lambda>m. Ok ([ToMqtt m], address))))"

section \<open>The serial number of the device (device_info.rs)\<close>

definition DEVICE_INFO_RETRY_COUNT :: nat where "DEVICE_INFO_RETRY_COUNT = 60"

definition own_message :: "env \<Rightarrow> string \<Rightarrow> payload_body option \<Rightarrow> ('s, mqtt_message) prog" where
  "own_message env topic body =
     with_statics (\<lambda>g. case mqtt_payload_new_with_body env (TOKEN g) body of
       (payload, n) \<Rightarrow> (mqtt_message_new topic payload, g\<lparr>TOKEN := n\<rparr>))"

definition device_info_message :: "env \<Rightarrow> string \<Rightarrow> ('s, mqtt_message) prog" where
  "device_info_message env topic = own_message env topic (Some (Nested (JArr [])))"

definition mqtt_device_info_response :: "mqtt_message \<Rightarrow> string result" where
  "mqtt_device_info_response message =
     unwrap (message_json (\<lambda>v. string_field v ''deviceESN'') message)"

text \<open>The state is the serial number; \<open>n\<close> attempts are left.\<close>

primrec device_info_loop :: "env \<Rightarrow> nat \<Rightarrow> (string, unit) prog" where
  "device_info_loop env 0 = give (Err (Message ''get device info failed''))"
| "device_info_loop env (Suc n) =
     andDo (device_info_message env (APP_NAME @ ''/get/request/osmanage/deviceInfo'')) (\<lambda>msg.
     andDo (send [ToMqtt msg]) (\<lambda>_.
     andDo (wait_timeout_while (\<lambda>esn. esn = [])) (\<lambda>timed_out.
     if timed_out then device_info_loop env n else give (Ok ()))))"

definition device_info_run :: "env \<Rightarrow> (string, unit) prog" where
  "device_info_run env = device_info_loop env DEVICE_INFO_RETRY_COUNT"

section \<open>Facts\<close>

lemma metering_mode_bits: "(drop_bit 6 x AND 3) AND 16 = (0::u8)"
  by (simp add: and.assoc)

lemma module_info_mode:
  "module_info_response_try_from ymd d = Ok r \<Longrightarrow> mi_metering_mode r AND 0x10 = 0"
  by (auto simp: module_info_response_try_from_def Let_def metering_mode_bits)

text \<open>What \<^verbatim>\<open>MODULE_INFO\<close> can hold: what an answer of the module was read as.\<close>

definition module_info_known :: "'date calendar \<Rightarrow> 'date module_info_response option \<Rightarrow> bool" where
  "module_info_known cal MODULE_INFO \<longleftrightarrow>
     (case MODULE_INFO of None \<Rightarrow> True
      | Some r \<Rightarrow> (\<exists>d. module_info_response_try_from (cal_from_ymd_opt cal) d = Ok r))"

lemma uart_response_normal_decoded:
  "uart_response_try_from decode f = Ok (NormalResponse r) \<Longrightarrow> \<exists>d. decode d = Ok r"
  by (auto simp: uart_response_try_from_def split: if_splits)

lemma init_module_info_known:
  assumes "init_module_info_response cal m info = Ok (a, info')" and "module_info_known cal info"
  shows "module_info_known cal info'"
proof -
  let ?read = "uart_response_try_from (module_info_response_try_from (cal_from_ymd_opt cal)) (um_frame m)"
  from assms(1) obtain x where x: "?read = Ok x" by (auto simp: init_module_info_response_def)
  with assms(1) obtain r where "?read = Ok (NormalResponse r)" and "info' = get_or_init r info"
    by (cases x) (auto simp: init_module_info_response_def)
  with assms(2) show ?thesis
    by (cases info) (auto simp: module_info_known_def dest!: uart_response_normal_decoded)
qed

lemma auto_reading_zero: "module_info_known cal info \<Longrightarrow> auto_reading_meter info = 0"
  by (auto simp: module_info_known_def auto_reading_meter_def module_info_mode split: option.splits)

lemma length_esn_digits [simp]: "length (esn_digits esn) = 12"
  by (simp add: esn_digits_def Let_def)

lemma esn_digits_digits: "c \<in> set (esn_digits esn) \<Longrightarrow> is_ascii_digit c"
  by (auto simp: esn_digits_def Let_def is_ascii_digit_def dest: in_set_takeD)

lemma own_message_array:
  "mqtt_message_new topic (fst (mqtt_payload_new_with_body env n (Some (Nested v)))) =
     Ok \<lparr>mm_topic = topic, mm_payload = Some (JObj [(''token'', JStr (decimal (unat n))),
       (''timestamp'', JStr (env_now env)), (''body'', v)])\<rparr>"
  by (simp add: mqtt_message_new_def mqtt_payload_to_json_def mqtt_payload_new_with_body_def)

text \<open>Hexadecimal text, on digits.\<close>

definition digit_pair :: "char \<Rightarrow> char \<Rightarrow> u8" where
  "digit_pair c d = of_nat ((of_char c - 48) * 16 + (of_char d - 48))"

fun digits_decode :: "string \<Rightarrow> u8 list option" where
  "digits_decode [] = Some []"
| "digits_decode [c] = None"
| "digits_decode (c # d # cs) =
     map_option (Cons (digit_pair c d)) (digits_decode cs)"

definition digits_env :: env where
  "digits_env = \<lparr>env_now = ''now'', env_library_text = (\<lambda>e. ''error''),
     env_hex_encode = (\<lambda>bs. concat (map lower_hex2 bs)), env_hex_decode = digits_decode\<rparr>"

lemma lower_hex2_digits:
  assumes "is_ascii_digit c" and "is_ascii_digit d"
  shows "lower_hex2 (digit_pair c d) = [c, d]"
proof -
  obtain m n :: nat where c: "of_char c = 48 + m" "m < 10" and d: "of_char d = 48 + n" "n < 10"
  proof (rule that [of "of_char c - 48" "of_char d - 48"])
  qed (use assms in \<open>simp_all add: is_ascii_digit_def less_diff_conv2\<close>)
  have "unat (of_nat (m * 16 + n) :: u8) = m * 16 + n" using c(2) d(2) by (simp only: unat_of_nat) simp
  moreover have "digit_pair c d = of_nat (m * 16 + n)" by (simp only: digit_pair_def c(1) d(1)) simp
  ultimately have "unat (digit_pair c d) = m * 16 + n" by simp
  moreover have "char_of (48 + m) = c" by (simp only: c(1) [symmetric] char_of_char)
  moreover have "char_of (48 + n) = d" by (simp only: d(1) [symmetric] char_of_char)
  ultimately show ?thesis
    using c(2) d(2) by (simp add: lower_hex2_def lower_hex_digit_def)
qed

lemma digits_decode_encode:
  "even (length t) \<Longrightarrow> \<forall>c \<in> set t. is_ascii_digit c \<Longrightarrow>
     \<exists>bs. digits_decode t = Some bs \<and> 2 * length bs = length t \<and> concat (map lower_hex2 bs) = t"
  by (induction t rule: digits_decode.induct) (auto simp: lower_hex2_digits)

section \<open>Properties\<close>

text \<open>The metering state misreports two values: automatic reading is always reported as off, whatever
  the module said, and the number of parameter initialisations is never reported, since the entry for it
  holds the number of data initialisations.\<close>

theorem metering_state_misreports:
  assumes "module_info_known cal MODULE_INFO" and "metering_state_json s MODULE_INFO r = Ok v"
  shows "json_index v ''autoReading'' = JNum 0
    \<and> json_index v ''initParamCount'' = json_index v ''initDataCount''
    \<and> metering_state_json (s\<lparr>as_init_param_count := n\<rparr>) MODULE_INFO r = Ok v"
  using assms by (auto simp: metering_state_json_def auto_reading_zero json_word_def)

theorem metering_state_misreports_witness:
  "\<exists>v. metering_state_json (init_param (meter_state_new ''now'')) (None :: unit module_info_response option)
      \<lparr>rr_running_status = running_status_from 0, rr_total_node_number = 1, rr_meter_node_number = 1,
       rr_relay_meter_node_number = 0, rr_work_status = work_status_from 0, rr_comm_speed = 0,
       rr_relay_level = [], rr_work_step = []\<rparr> = Ok v
    \<and> json_index v ''initParamCount'' = JNum 0"
proof -
  let ?s = "init_param (meter_state_new ''now'')"
  let ?r = "\<lparr>rr_running_status = running_status_from 0, rr_total_node_number = 1, rr_meter_node_number = 1,
       rr_relay_meter_node_number = 0, rr_work_status = work_status_from 0, rr_comm_speed = 0,
       rr_relay_level = [], rr_work_step = []\<rparr>"
  obtain v where v: "metering_state_json ?s (None :: unit module_info_response option) ?r = Ok v"
    by (simp add: metering_state_json_def current_status_def work_status_from_def current_status_try_from_def
        of_code_def with_codes_def)
  have "json_index v ''initDataCount'' = JNum 0"
    using v by (auto simp: metering_state_json_def json_word_def init_param_def meter_state_new_def)
  with v metering_state_misreports [of undefined None ?s ?r v 0] show ?thesis
    by (auto simp: module_info_known_def)
qed

text \<open>The service's address is the digits of the serial number: whatever the serial number, and if
  hexadecimal text of twelve digits is decoded as documented, it is set without a fault and its text is
  the first twelve digits of the serial number behind zeros.\<close>

theorem address_of_serial_number:
  assumes "\<And>t. length t = 12 \<Longrightarrow> \<forall>c \<in> set t. is_ascii_digit c \<Longrightarrow>
    \<exists>bs. env_hex_decode env t = Some bs \<and> length bs = 6 \<and> env_hex_encode env bs = t"
  shows "\<exists>a. update_address env esn = Ok a
    \<and> address_to_string (env_hex_encode env) a = esn_digits esn
    \<and> (\<exists>zeros. esn_digits esn = replicate zeros (CHR ''0'') @ take 12 (filter is_ascii_digit esn))"
proof -
  obtain bs where bs: "env_hex_decode env (esn_digits esn) = Some bs" "length bs = 6"
      "env_hex_encode env bs = esn_digits esn"
    using assms [of "esn_digits esn"] esn_digits_digits by auto
  then show ?thesis
    by (auto simp: update_address_def address_from_str_def address_to_string_def list6 esn_digits_def Let_def)
qed


theorem address_of_serial_number_witness:
  "\<exists>a. update_address digits_env ''ESN-0123456789'' = Ok a
     \<and> address_to_string (env_hex_encode digits_env) a = ''000123456789''"
proof -
  have "\<exists>bs. env_hex_decode digits_env t = Some bs \<and> length bs = 6 \<and> env_hex_encode digits_env bs = t"
    if "length t = 12" "\<forall>c \<in> set t. is_ascii_digit c" for t
    using digits_decode_encode [of t] that by (auto simp: digits_env_def)
  from address_of_serial_number [OF this, of "''ESN-0123456789''"]
  obtain a where "update_address digits_env ''ESN-0123456789'' = Ok a"
      "address_to_string (env_hex_encode digits_env) a = esn_digits ''ESN-0123456789''"
    by blast
  moreover have "esn_digits ''ESN-0123456789'' = ''000123456789''"
    by (simp add: esn_digits_def is_ascii_digit_def Let_def numeral_eq_Suc)
  ultimately show ?thesis by simp
qed

end
