(* ===== verification/File_Upgrade.thy ===== *)
theory File_Upgrade
  imports Module_Info
begin

text \<open>
  src/src/service/file_upgrade.rs: a new program for the modules. The request's thread sends the file in
  segments and waits for the answer to each; a task of the thread pool then waits until the module has
  installed it. Both use the record \<open>upgrade_state\<close> and its one field \<open>us_result\<close>.

  \<open>read_file\<close> is the file system (\<open>None\<close>: the file cannot be opened), \<open>now\<close> the text of the time.
\<close>

section \<open>State\<close>

datatype upgrade_status = UpgradeIdle | UpgradeRunning | UpgradeFinished

fun upgrade_status_to_u8 :: "upgrade_status \<Rightarrow> u8" where
  "upgrade_status_to_u8 UpgradeIdle = 0"
| "upgrade_status_to_u8 UpgradeRunning = 1"
| "upgrade_status_to_u8 UpgradeFinished = 2"

datatype upgrade_result = UpgradeSuccess | FileError | TransferFailed | OtherUpgradeError

fun upgrade_result_to_u8 :: "upgrade_result \<Rightarrow> u8" where
  "upgrade_result_to_u8 UpgradeSuccess = 0"
| "upgrade_result_to_u8 FileError = 1"
| "upgrade_result_to_u8 TransferFailed = 2"
| "upgrade_result_to_u8 OtherUpgradeError = 255"

record upgrade_state =
  us_status :: upgrade_status
  us_start_time :: string
  us_end_time :: string
  us_upgrade_result :: upgrade_result
  us_result :: "nat result option"
  us_upgrading :: bool

definition upgrade_state_default :: upgrade_state where
  "upgrade_state_default =
     \<lparr>us_status = UpgradeIdle, us_start_time = ''1970-01-01 00:00:00'',
      us_end_time = ''1970-01-01 00:00:00'', us_upgrade_result = UpgradeSuccess,
      us_result = None, us_upgrading = False\<rparr>"

definition upgrade_state_to_json :: "upgrade_state \<Rightarrow> json" where
  "upgrade_state_to_json s =
     JObj [(''upgradeStatus'', json_word (upgrade_status_to_u8 (us_status s))),
           (''starttime'', JStr (us_start_time s)), (''endtime'', JStr (us_end_time s)),
           (''result'', json_word (upgrade_result_to_u8 (us_upgrade_result s)))]"

definition start_upgrade :: "string \<Rightarrow> upgrade_state \<Rightarrow> upgrade_state" where
  "start_upgrade now s = s\<lparr>us_upgrading := True, us_status := UpgradeIdle, us_start_time := now\<rparr>"

definition finish_upgrade :: "string \<Rightarrow> upgrade_result \<Rightarrow> upgrade_state \<Rightarrow> upgrade_state" where
  "finish_upgrade now r s =
     s\<lparr>us_status := UpgradeFinished, us_end_time := now, us_upgrade_result := r, us_upgrading := False\<rparr>"

definition is_upgrading :: "upgrade_state \<Rightarrow> bool" where
  "is_upgrading s = us_upgrading s"

definition upgrade_finished :: "upgrade_state \<Rightarrow> upgrade_state" where
  "upgrade_finished s = s\<lparr>us_result := Some (Ok 0), us_status := UpgradeFinished\<rparr>"

section \<open>Sending the file\<close>

definition file_upgrade_request_from_json :: "json \<Rightarrow> (u8 \<times> string) result" where
  "file_upgrade_request_from_json v =
     andThen (word_field v ''flag'') (\<lambda>flag.
     andThen (string_field v ''filePath'') (\<lambda>file_path. Ok (flag, file_path)))"

definition request_file_flag :: "u8 \<Rightarrow> file_flag result" where
  "request_file_flag flag =
     (if flag = 0 then Ok Module
      else if flag = 1 then Ok MasterAndSlave
      else if flag = 2 then Ok SlaveFile
      else Panic UnreachableCode)"

definition UPGRADE_PREFIX_LEN :: nat where
  "UPGRADE_PREFIX_LEN = FRAME_SIZE + USER_DATA_PREFIX_SIZE + FILE_TRANSFER_PREFIX_LEN"

definition wait_segment :: "(upgrade_state, nat result) prog" where
  "wait_segment =
     andDo (wait_while (\<lambda>s. us_result s = None)) (\<lambda>_.
     andDo (ask us_result) (\<lambda>r.
     andDo (change (\<lambda>s. s\<lparr>us_result := None\<rparr>)) (\<lambda>_.
     andDo (give (unwrap_option r)) (\<lambda>result. give (Ok result)))))"

text \<open>The outcome of a segment: go on, or the result the upgrade ends with.\<close>

fun segment_verdict :: "nat \<Rightarrow> nat result \<Rightarrow> upgrade_result option" where
  "segment_verdict segment_offset (Ok segment) =
     (if (of_nat segment :: u32) = FILE_CHECK_ERROR then Some FileError
      else if segment \<noteq> segment_offset then Some TransferFailed
      else None)"
| "segment_verdict segment_offset (Err e) = Some TransferFailed"
| "segment_verdict segment_offset (Panic p) = Some TransferFailed"

text \<open>The loop over the segments from \<open>segment_offset\<close> on; the answer is whether all were accepted.\<close>

fun transfer_segments ::
    "string \<Rightarrow> file_flag \<Rightarrow> nat \<Rightarrow> mqtt_message \<Rightarrow> nat \<Rightarrow> u8 list list \<Rightarrow> (upgrade_state, bool) prog" where
  "transfer_segments now flag segment_num message segment_offset [] = give (Ok True)"
| "transfer_segments now flag segment_num message segment_offset (file_data # rest) =
     andDo (give (to_mqtt_req_info message)) (\<lambda>mqtt.
     andDo (info_request
       (file_transfer_request_to_app_data
          (file_transfer_request_new flag (of_nat segment_num) (of_nat segment_offset) file_data))
       (Some mqtt)) (\<lambda>_.
     andDo wait_segment (\<lambda>result.
     case segment_verdict segment_offset result of
       Some r \<Rightarrow> andDo (change (finish_upgrade now r)) (\<lambda>_. give (Ok False))
     | None \<Rightarrow> transfer_segments now flag segment_num message (Suc segment_offset) rest)))"

text \<open>\<^verbatim>\<open>usize::div_ceil\<close> and \<^verbatim>\<open>slice::chunks\<close> panic on a size of zero.\<close>

definition send_file ::
    "string \<Rightarrow> file_flag \<Rightarrow> mqtt_message \<Rightarrow> nat \<Rightarrow> u8 list \<Rightarrow> (upgrade_state, bool) prog" where
  "send_file now flag message file_data_size content =
     (if file_data_size = 0 then give (Panic SliceOutOfRange)
      else transfer_segments now flag ((length content + file_data_size - 1) div file_data_size) message 0
             (chunks file_data_size content))"

text \<open>The answer is the flag of the task that is started, if one is.\<close>

definition mqtt_file_upgrade ::
    "env \<Rightarrow> (string \<Rightarrow> u8 list option) \<Rightarrow> string \<Rightarrow> 'date module_info_response option \<Rightarrow> mqtt_message
       \<Rightarrow> (upgrade_state, file_flag option) prog" where
  "mqtt_file_upgrade env read_file now MODULE_INFO message =
     andDo (give (message_json file_upgrade_request_from_json message)) (\<lambda>(flag, file_path).
     andDo (give (to_mqtt_req_info message)) (\<lambda>mqtt.
     case read_file file_path of
       None \<Rightarrow>
         andDo (reply (error_into_mqtt_message env mqtt (MqttResponseErr InvalidUpgradeFile)))
           (\<lambda>_. give (Ok None))
     | Some content \<Rightarrow>
         andDo (reply (unit_into_mqtt_message env mqtt ())) (\<lambda>_.
         andDo (give (request_file_flag flag)) (\<lambda>file_flag.
         andDo (ask us_upgrading) (\<lambda>upgrading.
         if upgrading
         then andDo (reply (error_into_mqtt_message env mqtt (MqttResponseErr AlreadyUpgrading)))
                (\<lambda>_. give (Ok None))
         else
           andDo (change (start_upgrade now)) (\<lambda>_.
           andDo (give (unwrap_option MODULE_INFO)) (\<lambda>info.
           andDo (send_file now file_flag message
             (usize_sub (unat (mi_max_packet_per_packet info)) UPGRADE_PREFIX_LEN) content) (\<lambda>sent.
           give (Ok (if sent then Some file_flag else None)))))))))) "

section \<open>Waiting for the installation\<close>

text \<open>For the module itself the loop has no bound: \<open>rounds\<close> bounds it here.\<close>

primrec wait_module_upgrade :: "nat \<Rightarrow> (upgrade_state, unit) prog" where
  "wait_module_upgrade 0 = give (Panic NeverReturns)"
| "wait_module_upgrade (Suc rounds) =
     andDo (ask us_status) (\<lambda>status.
     if status \<noteq> UpgradeRunning then give (Ok ())
     else
       andDo (wait_timeout_while (\<lambda>s. us_result s = None)) (\<lambda>timed_out.
       if timed_out then give (Ok ()) else wait_module_upgrade rounds))"

definition running_status_query :: "frame_key \<Rightarrow> ('s, unit) prog" where
  "running_status_query origin =
     andDo (request_frame None running_status_request_to_app_data) (\<lambda>f.
     andDo (give (req_info_new_with_origin_req_key f origin)) (\<lambda>req.
     send [ToUart (uart_message_new req f)]))"

text \<open>For the other nodes it polls the running status; \<open>n\<close> of the \<^verbatim>\<open>wait_total_count\<close> rounds are left.\<close>

primrec poll_upgrade :: "nat \<Rightarrow> (upgrade_state, unit) prog" where
  "poll_upgrade 0 = give (Ok ())"
| "poll_upgrade (Suc n) =
     andDo (ask us_status) (\<lambda>status.
     if status \<noteq> UpgradeRunning then give (Ok ())
     else
       andDo (wait_timeout_while (\<lambda>s. us_result s = None)) (\<lambda>timed_out.
       andDo (if timed_out
              then
                andDo (running_status_query (FrameKey FileTransfer FILE_TRANSFER_METHOD)) (\<lambda>_.
                andDo wait_segment (\<lambda>result. give (Ok ())))
              else change (\<lambda>s. s\<lparr>us_result := None\<rparr>)) (\<lambda>_.
       poll_upgrade n)))"

definition SLAVE_UPGRADE_ROUNDS :: nat where "SLAVE_UPGRADE_ROUNDS = (1200 + 30 - 1) div 30"

definition end_upgrade :: "string \<Rightarrow> (upgrade_state, unit) prog" where
  "end_upgrade now =
     andDo (ask us_status) (\<lambda>status.
     change (finish_upgrade now (if status = UpgradeRunning then OtherUpgradeError else UpgradeSuccess)))"

definition upgrade_task :: "nat \<Rightarrow> string \<Rightarrow> file_flag \<Rightarrow> (upgrade_state, unit) prog" where
  "upgrade_task rounds now flag =
     andDo (change (\<lambda>s. s\<lparr>us_status := UpgradeRunning\<rparr>)) (\<lambda>_.
     andDo (if flag = Module then wait_module_upgrade rounds else poll_upgrade SLAVE_UPGRADE_ROUNDS) (\<lambda>_.
     end_upgrade now))"

section \<open>Answers of the module\<close>

definition uart_file_transfer_timeout :: "upgrade_state \<Rightarrow> upgrade_state" where
  "uart_file_transfer_timeout s = s\<lparr>us_result := Some (Err (MqttResponseErr RequestTimeout))\<rparr>"

definition uart_file_transfer_finish :: "uart_message \<Rightarrow> upgrade_state \<Rightarrow> unit result \<times> upgrade_state" where
  "uart_file_transfer_finish message s =
     (case uart_response_try_from running_status_response_try_from (um_frame message) of
        Ok response \<Rightarrow>
          (Ok (),
           (case uart_response_to_result response of
              Ok status \<Rightarrow>
                (if rs_work_flag (rr_running_status status) = 0
                 then s\<lparr>us_status := UpgradeFinished, us_result := Some (Ok 0)\<rparr>
                 else s\<lparr>us_result := Some (Ok 0)\<rparr>)
            | Err e \<Rightarrow> s\<lparr>us_result := Some (Err e)\<rparr>
            | Panic p \<Rightarrow> s))
      | Err e \<Rightarrow> (Err e, s)
      | Panic p \<Rightarrow> (Panic p, s))"

definition uart_file_transfer :: "uart_message \<Rightarrow> upgrade_state \<Rightarrow> unit result \<times> upgrade_state" where
  "uart_file_transfer message s =
     (case uart_response_try_from file_transfer_response_try_from (um_frame message) of
        Ok response \<Rightarrow>
          (Ok (), s\<lparr>us_result := Some (andThen (uart_response_to_result response)
                       (\<lambda>r. Ok (unat (segment_flag r))))\<rparr>)
      | Err e \<Rightarrow> (Err e, s)
      | Panic p \<Rightarrow> (Panic p, s))"

definition mqtt_file_upgrade_status :: "env \<Rightarrow> mqtt_message \<Rightarrow> (upgrade_state, unit) prog" where
  "mqtt_file_upgrade_status env message =
     andDo (ask upgrade_state_to_json) (\<lambda>v.
     andDo (give (to_mqtt_req_info message)) (\<lambda>mqtt.
     reply (into_flat env mqtt v)))"

section \<open>Facts\<close>

definition segment_answer :: "uart_message \<Rightarrow> upgrade_state \<Rightarrow> upgrade_state" where
  "segment_answer m s = snd (uart_file_transfer m s)"

definition answers_segment :: "nat \<Rightarrow> uart_message \<Rightarrow> bool" where
  "answers_segment k m \<longleftrightarrow>
     uart_response_try_from file_transfer_response_try_from (um_frame m)
       = Ok (NormalResponse \<lparr>segment_flag = of_nat k\<rparr>)"

lemma segment_answer:
  "answers_segment k m \<Longrightarrow> segment_answer m s = s\<lparr>us_result := Some (Ok (unat (of_nat k :: u32)))\<rparr>"
  by (simp add: segment_answer_def uart_file_transfer_def answers_segment_def)

definition segment_request :: "file_flag \<Rightarrow> nat \<Rightarrow> mqtt_req_info \<Rightarrow> u8 \<Rightarrow> nat \<Rightarrow> u8 list \<Rightarrow> action" where
  "segment_request flag segment_num mqtt seq k file_data =
     ToUart (request_message seq None
       (file_transfer_request_to_app_data
          (file_transfer_request_new flag (of_nat segment_num) (of_nat k) file_data))
       FILE_TRANSFER_METHOD (Some mqtt))"


lemma file_transfer_fn_num [simp]: "fn_num (file_transfer_request_to_app_data r) = Ok FILE_TRANSFER_METHOD"
  by (simp add: file_transfer_request_to_app_data_def)

lemma andDo_wait_segment:
  "andDo wait_segment k w =
     (if us_result (fst w) = None
      then ([], w, Waiting (\<lambda>(late, s, g).
             case us_result s of None \<Rightarrow> None | Some r \<Rightarrow> Some (k r (s\<lparr>us_result := None\<rparr>, g))))
      else k (the (us_result (fst w))) ((fst w)\<lparr>us_result := None\<rparr>, snd w))"
  by (auto simp: wait_segment_def andDo_assoc andDo_wait_while fun_eq_iff split: option.splits)

lemma transfer_step:
  assumes "to_mqtt_req_info m = Ok mqtt" and "us_result s = None"
  shows "andDo (transfer_segments now flag num m k (c # cs)) j (s, g) =
    ([segment_request flag num mqtt (SEQ g) k c], (s, g\<lparr>SEQ := SEQ g + 1\<rparr>),
     Waiting (\<lambda>(late, s, g). case us_result s of None \<Rightarrow> None
       | Some r \<Rightarrow> Some (andDo (case segment_verdict k r of
            Some r \<Rightarrow> andDo (change (finish_upgrade now r)) (\<lambda>_. give (Ok False))
          | None \<Rightarrow> transfer_segments now flag num m (Suc k) cs) j (s\<lparr>us_result := None\<rparr>, g))))"
  using assms
  by (simp add: andDo_assoc andDo_info_request andDo_wait_segment segment_request_def)




lemma transfer_prefix_less: "UPGRADE_PREFIX_LEN < n \<Longrightarrow> usize_sub n UPGRADE_PREFIX_LEN = n - UPGRADE_PREFIX_LEN"
  by (simp add: usize_sub_def)

text \<open>A request for an upgrade that is taken: its file is there and no upgrade runs.\<close>

definition upgrade_accepted ::
    "(string \<Rightarrow> u8 list option) \<Rightarrow> mqtt_message \<Rightarrow> mqtt_req_info \<Rightarrow> file_flag \<Rightarrow> u8 list \<Rightarrow> bool" where
  "upgrade_accepted read_file message mqtt file_flag content \<longleftrightarrow>
     (\<exists>flag path. message_json file_upgrade_request_from_json message = Ok (flag, path)
        \<and> request_file_flag flag = Ok file_flag \<and> read_file path = Some content)
     \<and> to_mqtt_req_info message = Ok mqtt"

definition upgrade_started :: "env \<Rightarrow> mqtt_req_info \<Rightarrow> action" where
  "upgrade_started env mqtt =
     ToMqtt \<lparr>mm_topic = mri_topic mqtt, mm_payload = Some (JObj [(''token'', JStr (mri_token mqtt)),
       (''timestamp'', JStr (env_now env)), (''status'', JStr ''OK''), (''reason'', JStr ''OK'')])\<rparr>"

lemma mqtt_file_upgrade_sends:
  assumes "upgrade_accepted read_file message mqtt file_flag content" and "\<not> us_upgrading s"
    and "MODULE_INFO = Some info" and "UPGRADE_PREFIX_LEN < unat (mi_max_packet_per_packet info)"
    and "n = unat (mi_max_packet_per_packet info) - UPGRADE_PREFIX_LEN"
  shows "mqtt_file_upgrade env read_file now MODULE_INFO message (s, g) =
    sending [upgrade_started env mqtt]
      (andDo (transfer_segments now file_flag (length (chunks n content)) message 0 (chunks n content))
         (\<lambda>sent. give (Ok (if sent then Some file_flag else None))) (start_upgrade now s, g))"
  using assms
  by (auto simp: upgrade_accepted_def mqtt_file_upgrade_def unit_into_mqtt_message_def send_file_def
      transfer_prefix_less length_chunks upgrade_started_def)

text \<open>With a result and no new status the loop for the module goes round without waiting: no bound is enough.\<close>

lemma module_loop_spins:
  "us_status s = UpgradeRunning \<Longrightarrow> us_result s = Some r \<Longrightarrow>
     andDo (wait_module_upgrade rounds) k (s, g) = ([], (s, g), Finished (Panic NeverReturns))"
proof (induction rounds)
  case (Suc rounds)
  then show ?case unfolding wait_module_upgrade.simps andDo_assoc by (simp add: andDo_assoc andDo_wait_timeout_while)
qed (simp add: give_def)

lemma upgrade_task_waits:
  assumes "us_result s = None"
  shows "upgrade_task (Suc rounds) now Module (s, g) = ([], (s\<lparr>us_status := UpgradeRunning\<rparr>, g),
    Waiting (\<lambda>(late, s, g).
      if us_result s \<noteq> None then Some (andDo (wait_module_upgrade rounds) (\<lambda>_. end_upgrade now) (s, g))
      else if late then Some (end_upgrade now (s, g)) else None))"
  using assms by (auto simp: upgrade_task_def andDo_assoc andDo_wait_timeout_while fun_eq_iff)

text \<open>What arrives while the task waits: nothing that ends the loop, or the end of the upgrade.\<close>

lemma module_waits_on:
  assumes "us_result s = None" and "us_status (f (s\<lparr>us_status := UpgradeRunning\<rparr>)) = UpgradeRunning"
    and "us_result (f (s\<lparr>us_status := UpgradeRunning\<rparr>)) = Some r"
  shows "deliver f (upgrade_task (Suc rounds) now Module (s, g)) =
    ([], (f (s\<lparr>us_status := UpgradeRunning\<rparr>), g), Finished (Panic NeverReturns))"
  using assms by (simp add: upgrade_task_waits deliver_Waiting module_loop_spins del: deliver.simps)

lemma module_installed:
  assumes "us_result s = None"
  shows "deliver upgrade_finished (upgrade_task (Suc (Suc rounds)) now Module (s, g)) =
    ([], (finish_upgrade now UpgradeSuccess (upgrade_finished (s\<lparr>us_status := UpgradeRunning\<rparr>)), g), Finished (Ok ()))"
  using assms
  by (simp add: upgrade_task_waits deliver_Waiting upgrade_finished_def andDo_assoc end_upgrade_def change_def
      del: deliver.simps)

lemma polling_goes_on:
  assumes "us_result s = None" and "us_status (f (s\<lparr>us_status := UpgradeRunning\<rparr>)) = UpgradeRunning"
    and "us_result (f (s\<lparr>us_status := UpgradeRunning\<rparr>)) = Some r" and "flag \<noteq> Module"
  shows "deliver f (upgrade_task rounds now flag (s, g)) =
    andDo (poll_upgrade 39) (\<lambda>_. end_upgrade now) ((f (s\<lparr>us_status := UpgradeRunning\<rparr>))\<lparr>us_result := None\<rparr>, g)"
proof -
  have rounds: "SLAVE_UPGRADE_ROUNDS = Suc 39" by (simp add: SLAVE_UPGRADE_ROUNDS_def)
  show ?thesis
    using assms unfolding upgrade_task_def rounds poll_upgrade.simps andDo_assoc
    by (simp add: andDo_assoc andDo_wait_timeout_while deliver_Waiting del: deliver.simps)
qed

section \<open>Properties\<close>


text \<open>A second upgrade fails. After an upgrade of the module that went well, the answer that ended it is
  still there. The next upgrade, of a file of at least two segments, takes it for the answer to its first
  segment, sends the second segment at once, and gives up when the module answers the first one.\<close>

theorem second_upgrade_fails:
  assumes "us_result s = None" and "upgrade_accepted read_file message mqtt file_flag content"
    and "UPGRADE_PREFIX_LEN < unat (mi_max_packet_per_packet info)"
    and "n = unat (mi_max_packet_per_packet info) - UPGRADE_PREFIX_LEN" and "chunks n content = c # d # rest"
    and "answers_segment 0 a"
  shows "case deliver upgrade_finished (upgrade_task (Suc (Suc rounds)) now Module (s, g)) of
      (acts1, (s1, g1), r1) \<Rightarrow>
        r1 = Finished (Ok ()) \<and> us_upgrade_result s1 = UpgradeSuccess
        \<and> (case deliver (segment_answer a) (mqtt_file_upgrade env read_file now (Some info) message (s1, g1)) of
             (acts2, (s2, g2), r2) \<Rightarrow>
               acts2 = [upgrade_started env mqtt,
                 segment_request file_flag (length (chunks n content)) mqtt (SEQ g1) 0 c,
                 segment_request file_flag (length (chunks n content)) mqtt (SEQ g1 + 1) 1 d]
               \<and> r2 = Finished (Ok None) \<and> us_upgrade_result s2 = TransferFailed \<and> \<not> us_upgrading s2)"
proof -
  from assms have info: "to_mqtt_req_info message = Ok mqtt" by (simp add: upgrade_accepted_def)
  let ?s1 = "finish_upgrade now UpgradeSuccess (upgrade_finished (s\<lparr>us_status := UpgradeRunning\<rparr>))"
  note first = module_installed [OF assms(1), of rounds now g]
  let ?num = "length (chunks n content)"
  let ?next = "\<lambda>sent. give (Ok (if sent then Some file_flag else None))"
  have "andDo (transfer_segments now file_flag ?num message 0 (c # d # rest)) ?next (start_upgrade now ?s1, g) =
      sending [segment_request file_flag ?num mqtt (SEQ g) 0 c]
        (andDo (transfer_segments now file_flag ?num message 1 (d # rest)) ?next
          ((start_upgrade now ?s1)\<lparr>us_result := None\<rparr>, g\<lparr>SEQ := SEQ g + 1\<rparr>))"
    using info
    by (simp add: andDo_assoc andDo_info_request andDo_wait_segment segment_request_def start_upgrade_def
        finish_upgrade_def upgrade_finished_def FILE_CHECK_ERROR_def)
  then have "mqtt_file_upgrade env read_file now (Some info) message (?s1, g) =
      sending [upgrade_started env mqtt, segment_request file_flag ?num mqtt (SEQ g) 0 c]
        (andDo (transfer_segments now file_flag ?num message 1 (d # rest)) ?next
          ((start_upgrade now ?s1)\<lparr>us_result := None\<rparr>, g\<lparr>SEQ := SEQ g + 1\<rparr>))"
    using mqtt_file_upgrade_sends [OF assms(2) _ refl assms(3,4), of ?s1 env now g] assms(5)
    by (simp add: finish_upgrade_def del: transfer_segments.simps)
  then show ?thesis
    using first assms(6)
    by (simp add: transfer_step [OF info] deliver_Waiting segment_answer andDo_assoc give_def change_def finish_upgrade_def
        FILE_CHECK_ERROR_def del: transfer_segments.simps deliver.simps)
qed

text \<open>C35: A late answer hangs the service. While the task waits for the module to install its own new program, the
  answer to a segment or its timeout sends the task round its loop without waiting, and no bound on the rounds is
  enough to end it: the state stays as it is, with the upgrade running and the lock held. The news that the module has
  installed the program, in the same place, ends the task within two rounds. For the other nodes the late answer is
  taken and the polling goes on.\<close>

theorem late_answer_hangs_upgrade:
  assumes "us_result s = None" and "answers_segment k a" and "late = segment_answer a \<or> late = uart_file_transfer_timeout"
  shows "deliver late (upgrade_task (Suc rounds) now Module (s, g)) =
      ([], (late (s\<lparr>us_status := UpgradeRunning\<rparr>), g), Finished (Panic NeverReturns))
    \<and> us_status (late (s\<lparr>us_status := UpgradeRunning\<rparr>)) = UpgradeRunning
    \<and> snd (snd (deliver upgrade_finished (upgrade_task (Suc (Suc rounds)) now Module (s, g)))) = Finished (Ok ())
    \<and> (\<forall>flag. flag \<noteq> Module \<longrightarrow> deliver late (upgrade_task rounds now flag (s, g)) =
         andDo (poll_upgrade 39) (\<lambda>_. end_upgrade now) ((late (s\<lparr>us_status := UpgradeRunning\<rparr>))\<lparr>us_result := None\<rparr>, g))"
proof -
  let ?s = "s\<lparr>us_status := UpgradeRunning\<rparr>"
  obtain r where late: "us_status (late ?s) = UpgradeRunning" "us_result (late ?s) = Some r"
    using assms(3) by (auto simp: segment_answer [OF assms(2)] uart_file_transfer_timeout_def)
  show ?thesis
    using module_waits_on [where f = late, OF assms(1) late] module_installed [OF assms(1)]
      polling_goes_on [where f = late, OF assms(1) late] late(1)
    by (simp del: deliver.simps)
qed

text \<open>A module that takes segments of two bytes, and its answers.\<close>

definition segment_response :: "nat \<Rightarrow> uart_message" where
  "segment_response k = answer_message (app_data_new FileTransfer FILE_TRANSFER_METHOD
     (Some (u32_to_le (of_nat k)))) (Some app_req_info)"

lemma segment_response [simp]: "answers_segment k (segment_response k)"
  by (simp add: answers_segment_def segment_response_def file_transfer.decode_Ok_iff)

definition small_module :: "unit module_info_response" where
  "small_module =
     \<lparr>mi_metering_mode = 0, mi_node_info_mode = 0, mi_route_management_mode = 0, mi_comm_mode = 0,
      mi_broadcast_cmd_mode = 0, mi_broadcast_cmd_confirm = 0, mi_fail_node_change_mode = 0,
      mi_delay_param_support = 0, mi_low_voltage_power_off = 0, mi_channel_num = 0, mi_speed_num = 0,
      mi_max_timeout_time = 0, mi_broadcast_cmd_timeout_time = 0, mi_max_packet_length = 28,
      mi_max_packet_per_packet = 28, mi_upgrade_wait_time = 10, mi_main_node_addr = address_default,
      mi_max_node_num = 0, mi_current_node_num = 0, mi_protocol_release_date = (), mi_last_record_date = (),
      mi_factory_code = [], mi_chip_code = [], mi_version_date = (), mi_version = [], mi_comm_speed = []\<rparr>"

definition upgrade_request :: mqtt_message where
  "upgrade_request = app_request [(''flag'', JNum 0), (''filePath'', JStr ''f'')]"

lemma upgrade_request: "upgrade_accepted (\<lambda>_. Some content) upgrade_request app_req_info Module content"
  by (simp add: upgrade_accepted_def upgrade_request_def file_upgrade_request_from_json_def request_file_flag_def)

lemma upgrade_prefix_value: "UPGRADE_PREFIX_LEN = 26"
  by (simp add: UPGRADE_PREFIX_LEN_def frame_sizes USER_DATA_PREFIX_SIZE_def INFO_FIELD_SIZE_def
      APP_DATA_PREFIX_SIZE_def AFN_SIZE_def DATA_FLAG_SIZE_def FILE_TRANSFER_PREFIX_LEN_def)

lemma three_bytes: "chunks 2 [a, b, c] = [[a, b], [c]]"
  by (simp add: chunks_step)

lemma small_upgrade:
  "\<not> us_upgrading upgrade_state_default" "us_result upgrade_state_default = None"
  "UPGRADE_PREFIX_LEN < unat (mi_max_packet_per_packet small_module)"
  "2 = unat (mi_max_packet_per_packet small_module) - UPGRADE_PREFIX_LEN"
  by (simp_all add: upgrade_state_default_def upgrade_prefix_value small_module_def)


theorem second_upgrade_fails_witness:
  "us_upgrade_result (fst (fst (snd (deliver upgrade_finished
     (upgrade_task (Suc (Suc 0)) ''now'' Module (upgrade_state_default, \<lparr>SEQ = 255, TOKEN = 0\<rparr>)))))) = UpgradeSuccess"
  using second_upgrade_fails [OF small_upgrade(2) upgrade_request [of "[1, 2, 3]"] small_upgrade(3,4) three_bytes
      segment_response, of digits_env "''now''" 0 "\<lparr>SEQ = 255, TOKEN = 0\<rparr>"]
  by (simp only: split_beta)

theorem late_answer_hangs_upgrade_witness:
  "\<forall>rounds. snd (snd (deliver (segment_answer (segment_response 5))
     (upgrade_task (Suc rounds) ''now'' Module (upgrade_state_default, \<lparr>SEQ = 255, TOKEN = 0\<rparr>)))) = Finished (Panic NeverReturns)"
  using late_answer_hangs_upgrade [of upgrade_state_default 5 "segment_response 5" "segment_answer (segment_response 5)", THEN conjunct1]
  by (simp add: upgrade_state_default_def del: deliver.simps)

end
