(* ===== verification/Node_Config.thy ===== *)
theory Node_Config
  imports Service_Threads "HOL-Library.AList"
begin

text \<open>
  src/src/service/node_config.rs: which meters each application has registered.

  The table shares one \<^verbatim>\<open>Arc<NodeInfo>\<close> between the applications that have the meter. \<open>nt_store\<close> is the
  heap: an \<^verbatim>\<open>Arc\<close> is the index of its node. Only the lists of the applications hold \<^verbatim>\<open>Arc\<close>s between two
  operations, so \<open>strong_count\<close> counts them there, and a \<^verbatim>\<open>Weak\<close> in \<open>nt_global\<close> can be upgraded while
  that count is positive. The \<^verbatim>\<open>HashMap\<close> of the lists is an association list.

  The table is kept in SQLite, as the service does (\<^verbatim>\<open>NodeManage::new(None)\<close>), or in a JSON file if a path is
  given. \<open>database\<close> has that path, which never changes, and what the table asks of the outside: executing a
  statement with its parameters, listing the tables like a pattern, reading the rows of a query; reading and
  writing a file, which stands for the JSON value its text denotes (the write gives the text of its error).
\<close>

section \<open>State\<close>

record acq_node =
  an_acq_addr :: string
  an_pro_type :: string

record 'db database =
  db_config_path :: "string option"
  db_execute :: "string \<Rightarrow> string list \<Rightarrow> 'db \<Rightarrow> unit result \<times> 'db"
  db_tables_like :: "string \<Rightarrow> 'db \<Rightarrow> string list result"
  db_query :: "string \<Rightarrow> 'db \<Rightarrow> acq_node list result"
  db_read_file :: "string \<Rightarrow> 'db \<Rightarrow> json result"
  db_write_file :: "string \<Rightarrow> json \<Rightarrow> 'db \<Rightarrow> string option \<times> 'db"

record 'db node_table =
  nt_store :: "acq_node list"
  nt_data :: "(string \<times> nat list) list"
  nt_global :: "string \<Rightarrow> nat option"
  nt_db :: 'db

definition node_table_new :: "'db \<Rightarrow> 'db node_table" where
  "node_table_new d = \<lparr>nt_store = [], nt_data = [], nt_global = (\<lambda>_. None), nt_db = d\<rparr>"

definition node_at :: "'db node_table \<Rightarrow> nat \<Rightarrow> acq_node" where
  "node_at t i = nt_store t ! i"

definition app_nodes :: "'db node_table \<Rightarrow> string \<Rightarrow> nat list" where
  "app_nodes t app = (case map_of (nt_data t) app of None \<Rightarrow> [] | Some ids \<Rightarrow> ids)"

definition set_app :: "string \<Rightarrow> nat list \<Rightarrow> 'db node_table \<Rightarrow> 'db node_table" where
  "set_app app ids t = t\<lparr>nt_data := AList.update app ids (nt_data t)\<rparr>"

definition strong_count :: "'db node_table \<Rightarrow> nat \<Rightarrow> nat" where
  "strong_count t i = sum_list (map (\<lambda>(app, ids). count_list ids i) (nt_data t))"

fun position :: "('a \<Rightarrow> bool) \<Rightarrow> 'a list \<Rightarrow> nat option" where
  "position p [] = None"
| "position p (x # xs) = (if p x then Some 0 else map_option Suc (position p xs))"

definition remove_at :: "nat \<Rightarrow> 'a list \<Rightarrow> 'a list" where
  "remove_at i xs = take i xs @ drop (Suc i) xs"

text \<open>A \<^verbatim>\<open>for\<close> loop whose body may return early with an error.\<close>

fun each :: "('x \<Rightarrow> 's \<Rightarrow> unit result \<times> 's) \<Rightarrow> 'x list \<Rightarrow> 's \<Rightarrow> unit result \<times> 's" where
  "each f [] s = (Ok (), s)"
| "each f (x # xs) s = thenS (f x s) (\<lambda>_. each f xs)"

text \<open>\<^verbatim>\<open>try_fold\<close> of the elements a fallible test accepts.\<close>

fun try_filter :: "('x \<Rightarrow> 's \<Rightarrow> bool result \<times> 's) \<Rightarrow> 'x list \<Rightarrow> 's \<Rightarrow> 'x list result \<times> 's" where
  "try_filter f [] s = (Ok [], s)"
| "try_filter f (x # xs) s =
     thenS (f x s) (\<lambda>accepted s.
     thenS (try_filter f xs s) (\<lambda>rest s. (Ok (if accepted then x # rest else rest), s)))"

section \<open>The database\<close>

definition SQL_TABLE_PREFIX :: string where "SQL_TABLE_PREFIX = ''plc_device_''"

definition get_sql_table_name :: "string \<Rightarrow> string" where
  "get_sql_table_name app = SQL_TABLE_PREFIX @ app"

definition execute_sql :: "'db database \<Rightarrow> string \<Rightarrow> string list \<Rightarrow> 'db node_table \<Rightarrow> unit result \<times> 'db node_table" where
  "execute_sql db sql params t =
     (case db_execute db sql params (nt_db t) of (r, d) \<Rightarrow> (r, t\<lparr>nt_db := d\<rparr>))"

definition create_sqlite_table :: "'db database \<Rightarrow> string \<Rightarrow> 'db node_table \<Rightarrow> unit result \<times> 'db node_table" where
  "create_sqlite_table db app =
     execute_sql db (''CREATE TABLE IF NOT EXISTS '' @ get_sql_table_name app
       @ '' (id INTEGER PRIMARY KEY AUTOINCREMENT, address TEXT, protocol TEXT)'') []"

definition add_sqlite_config ::
    "'db database \<Rightarrow> string \<Rightarrow> acq_node \<Rightarrow> 'db node_table \<Rightarrow> unit result \<times> 'db node_table" where
  "add_sqlite_config db app node =
     execute_sql db (''INSERT INTO '' @ get_sql_table_name app @ '' (address, protocol) VALUES (?, ?)'')
       [an_acq_addr node, an_pro_type node]"

definition del_sqlite_config ::
    "'db database \<Rightarrow> string \<Rightarrow> acq_node \<Rightarrow> 'db node_table \<Rightarrow> unit result \<times> 'db node_table" where
  "del_sqlite_config db app node =
     execute_sql db (''DELETE FROM '' @ get_sql_table_name app @ '' WHERE address = ? AND protocol = ?'')
       [an_acq_addr node, an_pro_type node]"

definition add_db_config ::
    "'db database \<Rightarrow> string \<Rightarrow> acq_node list \<Rightarrow> 'db node_table \<Rightarrow> unit result \<times> 'db node_table" where
  "add_db_config db app nodes t =
     thenS (create_sqlite_table db app t) (\<lambda>_. each (add_sqlite_config db app) nodes)"

definition del_db_config ::
    "'db database \<Rightarrow> string \<Rightarrow> acq_node list \<Rightarrow> 'db node_table \<Rightarrow> unit result \<times> 'db node_table" where
  "del_db_config db app nodes t = each (del_sqlite_config db app) nodes t"

section \<open>The file\<close>

definition acq_node_from_json :: "json \<Rightarrow> acq_node result" where
  "acq_node_from_json v =
     andThen (string_field v ''acqAddr'') (\<lambda>a.
     andThen (string_field v ''proType'') (\<lambda>p. Ok \<lparr>an_acq_addr = a, an_pro_type = p\<rparr>))"

definition acq_node_to_json :: "acq_node \<Rightarrow> json" where
  "acq_node_to_json n = JObj [(''acqAddr'', JStr (an_acq_addr n)), (''proType'', JStr (an_pro_type n))]"

definition saved_table :: "'db node_table \<Rightarrow> json" where
  "saved_table t = JObj (map (\<lambda>(app, ids). (app, JArr (map (\<lambda>i. acq_node_to_json (node_at t i)) ids))) (nt_data t))"

definition save_config_to_file ::
    "'db database \<Rightarrow> string \<Rightarrow> 'db node_table \<Rightarrow> unit result \<times> 'db node_table" where
  "save_config_to_file db config_path t =
     (case db_write_file db config_path (saved_table t) (nt_db t) of
        (Some e, d) \<Rightarrow> (Err (Message (''Failed to write config file: '' @ e)), t\<lparr>nt_db := d\<rparr>)
      | (None, d) \<Rightarrow> (Ok (), t\<lparr>nt_db := d\<rparr>))"

text \<open>One of \<^verbatim>\<open>config_path\<close> and \<^verbatim>\<open>db_conn\<close> is there, never both: \<^verbatim>\<open>unreachable!\<close> is not reached.\<close>

definition add_config ::
    "'db database \<Rightarrow> string \<Rightarrow> acq_node list \<Rightarrow> 'db node_table \<Rightarrow> unit result \<times> 'db node_table" where
  "add_config db app nodes t =
     (case db_config_path db of
        Some config_path \<Rightarrow> save_config_to_file db config_path t
      | None \<Rightarrow> add_db_config db app nodes t)"

definition del_config ::
    "'db database \<Rightarrow> string \<Rightarrow> acq_node list \<Rightarrow> 'db node_table \<Rightarrow> unit result \<times> 'db node_table" where
  "del_config db app nodes t =
     (case db_config_path db of
        Some config_path \<Rightarrow> save_config_to_file db config_path t
      | None \<Rightarrow> del_db_config db app nodes t)"

section \<open>Operations\<close>

definition get_node_info :: "'db node_table \<Rightarrow> string \<Rightarrow> nat option" where
  "get_node_info t acq_addr =
     (case nt_global t acq_addr of
        None \<Rightarrow> None
      | Some i \<Rightarrow> if 0 < strong_count t i then Some i else None)"

definition same_type :: "acq_node \<Rightarrow> acq_node \<Rightarrow> unit result" where
  "same_type existing node =
     ensure (an_pro_type existing = an_pro_type node)
       (NodeConfigErr (TypeMismatch (an_pro_type node) (an_pro_type existing)))"

definition add_node_info_exist ::
    "'db database \<Rightarrow> string \<Rightarrow> acq_node \<Rightarrow> bool \<Rightarrow> 'db node_table \<Rightarrow> bool result \<times> 'db node_table" where
  "add_node_info_exist db app node initial t0 =
     (let t = set_app app (app_nodes t0 app) t0 in
      case find (\<lambda>i. an_acq_addr (node_at t i) = an_acq_addr node) (app_nodes t app) of
        Some i \<Rightarrow> thenS (same_type (node_at t i) node, t) (\<lambda>_ t. (Ok True, t))
      | None \<Rightarrow>
          (case get_node_info t (an_acq_addr node) of
             Some i \<Rightarrow>
               thenS (same_type (node_at t i) node, t) (\<lambda>_ t.
               let t = set_app app (app_nodes t app @ [i]) t in
               thenS (if initial then (Ok (), t) else add_config db app [node] t) (\<lambda>_ t. (Ok True, t)))
           | None \<Rightarrow> (Ok False, t)))"

definition add_node_info_checked :: "string \<Rightarrow> acq_node \<Rightarrow> 'db node_table \<Rightarrow> 'db node_table" where
  "add_node_info_checked app node t =
     (let i = length (nt_store t);
          t = t\<lparr>nt_store := nt_store t @ [node], nt_global := (nt_global t)(an_acq_addr node := Some i)\<rparr>
      in set_app app (app_nodes t app @ [i]) t)"

definition add_node_info ::
    "'db database \<Rightarrow> string \<Rightarrow> acq_node \<Rightarrow> 'db node_table \<Rightarrow> unit result \<times> 'db node_table" where
  "add_node_info db app node t =
     thenS (add_node_info_exist db app node True t) (\<lambda>present t.
     (Ok (), if present then t else add_node_info_checked app node t))"

definition should_remove_node_info ::
    "'db database \<Rightarrow> string \<Rightarrow> acq_node \<Rightarrow> 'db node_table \<Rightarrow> bool result \<times> 'db node_table" where
  "should_remove_node_info db app node t =
     (case position (\<lambda>i. an_acq_addr (node_at t i) = an_acq_addr node) (app_nodes t app) of
        None \<Rightarrow> (Ok False, t)
      | Some pos \<Rightarrow>
          (let i = app_nodes t app ! pos in
           if strong_count t i = 1 then (Ok True, t)
           else
             thenS (del_config db app [node_at t i] (set_app app (remove_at pos (app_nodes t app)) t))
               (\<lambda>_ t. (Ok False, t))))"

definition remove_node_info_checked :: "string \<Rightarrow> acq_node \<Rightarrow> 'db node_table \<Rightarrow> unit result \<times> 'db node_table" where
  "remove_node_info_checked app node t =
     (case position (\<lambda>i. an_acq_addr (node_at t i) = an_acq_addr node) (app_nodes t app) of
        None \<Rightarrow> (Panic UnwrapOnNone, t)
      | Some pos \<Rightarrow>
          (let t = set_app app (remove_at pos (app_nodes t app)) t in
           case nt_global t (an_acq_addr node) of
             None \<Rightarrow> (Err (NodeConfigErr (NodeNotFound (an_acq_addr node))), t)
           | Some i \<Rightarrow> (Ok (), t\<lparr>nt_global := (nt_global t)(an_acq_addr node := None)\<rparr>)))"

definition clear_all_app :: "'db node_table \<Rightarrow> 'db node_table" where
  "clear_all_app t = t\<lparr>nt_data := [], nt_global := (\<lambda>_. None)\<rparr>"

definition get_node_infos :: "'db node_table \<Rightarrow> string \<Rightarrow> nat \<Rightarrow> nat \<Rightarrow> acq_node list" where
  "get_node_infos t app idx cnt =
     map (node_at t) (take cnt (drop (min idx (length (app_nodes t app))) (app_nodes t app)))"

definition get_all_node_infos :: "'db node_table \<Rightarrow> string \<Rightarrow> acq_node list" where
  "get_all_node_infos t app = map (node_at t) (app_nodes t app)"

definition get_node_count :: "'db node_table \<Rightarrow> string \<Rightarrow> nat" where
  "get_node_count t app = length (app_nodes t app)"

definition add_node_infos ::
    "'db database \<Rightarrow> string \<Rightarrow> acq_node list \<Rightarrow> 'db node_table \<Rightarrow> unit result \<times> 'db node_table" where
  "add_node_infos db app nodes t = each (add_node_info db app) nodes t"

definition add_node_infos_checked ::
    "'db database \<Rightarrow> string \<Rightarrow> acq_node list \<Rightarrow> 'db node_table \<Rightarrow> unit result \<times> 'db node_table" where
  "add_node_infos_checked db app nodes t =
     add_config db app nodes (fold (add_node_info_checked app) nodes t)"

definition remove_node_infos_checked ::
    "'db database \<Rightarrow> string \<Rightarrow> acq_node list \<Rightarrow> 'db node_table \<Rightarrow> unit result \<times> 'db node_table" where
  "remove_node_infos_checked db app nodes t =
     thenS (each (remove_node_info_checked app) nodes t) (\<lambda>_. del_config db app nodes)"

fun load_tables ::
    "'db database \<Rightarrow> string list \<Rightarrow> 'db node_table \<Rightarrow> (string \<times> acq_node list) list result \<times> 'db node_table" where
  "load_tables db [] t = (Ok [], t)"
| "load_tables db (table # tables) t =
     (if table = [] then load_tables db tables t
      else
        thenS (slice_from table (length SQL_TABLE_PREFIX), t) (\<lambda>app t.
        thenS (db_query db (''SELECT address, protocol FROM '' @ table) (nt_db t), t) (\<lambda>nodes t.
        thenS (add_node_infos db app nodes t) (\<lambda>_ t.
        thenS (load_tables db tables t) (\<lambda>rest t. (Ok ((app, nodes) # rest), t))))))"

definition load_config_from_db ::
    "'db database \<Rightarrow> 'db node_table \<Rightarrow> (string \<times> acq_node list) list result \<times> 'db node_table" where
  "load_config_from_db db t =
     thenS (db_tables_like db (SQL_TABLE_PREFIX @ ''%'') (nt_db t), t) (load_tables db)"

definition invalid_config_file :: "string \<Rightarrow> error" where
  "invalid_config_file config_path = Message (''Invalid config file: '' @ config_path)"

fun load_lists ::
    "'db database \<Rightarrow> string \<Rightarrow> (string \<times> json) list \<Rightarrow> 'db node_table
       \<Rightarrow> (string \<times> acq_node list) list result \<times> 'db node_table" where
  "load_lists db config_path [] t = (Ok [], t)"
| "load_lists db config_path ((app, value) # entries) t =
     (case value of
        JArr values \<Rightarrow>
          thenS (traverse acq_node_from_json values, t) (\<lambda>nodes t.
          thenS (add_node_infos db app nodes t) (\<lambda>_ t.
          thenS (load_lists db config_path entries t) (\<lambda>rest t. (Ok ((app, nodes) # rest), t))))
      | _ \<Rightarrow> (Err (invalid_config_file config_path), t))"

definition load_config_from_file ::
    "'db database \<Rightarrow> string \<Rightarrow> 'db node_table \<Rightarrow> (string \<times> acq_node list) list result \<times> 'db node_table" where
  "load_config_from_file db config_path t =
     thenS (db_read_file db config_path (nt_db t), t) (\<lambda>value t.
     case value of
       JObj entries \<Rightarrow> load_lists db config_path entries t
     | _ \<Rightarrow> (Err (invalid_config_file config_path), t))"

definition load_table ::
    "'db database \<Rightarrow> 'db node_table \<Rightarrow> (string \<times> acq_node list) list result \<times> 'db node_table" where
  "load_table db t =
     (case db_config_path db of
        Some config_path \<Rightarrow> load_config_from_file db config_path t
      | None \<Rightarrow> load_config_from_db db t)"

section \<open>The invariant of the table\<close>

text \<open>Every \<^verbatim>\<open>Arc\<close> of a list is the one registered for its address, and no list has one twice. So an
  address has one node, shared by the applications that registered it.\<close>

definition table_ok :: "'db node_table \<Rightarrow> bool" where
  "table_ok t \<longleftrightarrow>
     distinct (map fst (nt_data t))
     \<and> (\<forall>app. distinct (app_nodes t app))
     \<and> (\<forall>app. \<forall>i \<in> set (app_nodes t app).
          i < length (nt_store t) \<and> nt_global t (an_acq_addr (node_at t i)) = Some i)
     \<and> (\<forall>a i. nt_global t a = Some i \<longrightarrow> i < length (nt_store t) \<and> an_acq_addr (node_at t i) = a)"

definition known :: "'db node_table \<Rightarrow> string \<Rightarrow> bool" where
  "known t a \<longleftrightarrow> (\<exists>app. a \<in> an_acq_addr ` set (get_all_node_infos t app))"

definition db_works :: "'db database \<Rightarrow> bool" where
  "db_works db \<longleftrightarrow>
     (\<forall>sql params d. fst (db_execute db sql params d) = Ok ()) \<and> (\<forall>path v d. fst (db_write_file db path v d) = None)"

named_theorems table \<open>projections of the table's updates\<close>

lemma app_nodes_set_app [table]: "app_nodes (set_app app ids t) = (app_nodes t)(app := ids)"
  by (auto simp: app_nodes_def set_app_def update_conv')

lemma set_app_sel [table]:
  "nt_store (set_app app ids t) = nt_store t" "nt_global (set_app app ids t) = nt_global t"
  "node_at (set_app app ids t) = node_at t"
  by (auto simp: set_app_def node_at_def)

lemma set_app_keys [table]: "distinct (map fst (nt_data t)) \<Longrightarrow> distinct (map fst (nt_data (set_app app ids t)))"
  by (simp add: set_app_def distinct_update)

lemma get_all_set_app [table]:
  "get_all_node_infos (set_app app ids t) = (get_all_node_infos t)(app := map (node_at t) ids)"
  by (rule ext) (simp add: get_all_node_infos_def app_nodes_set_app set_app_sel)

lemma get_all_cong:
  "(\<And>app. app_nodes t' app = app_nodes t app) \<Longrightarrow> node_at t' = node_at t \<Longrightarrow>
     get_all_node_infos t' = get_all_node_infos t"
  by (auto simp: get_all_node_infos_def)

lemma table_okD:
  assumes "table_ok t"
  shows "distinct (map fst (nt_data t))" "distinct (app_nodes t app)"
    "i \<in> set (app_nodes t app) \<Longrightarrow> i < length (nt_store t)"
    "i \<in> set (app_nodes t app) \<Longrightarrow> nt_global t (an_acq_addr (node_at t i)) = Some i"
    "nt_global t a = Some j \<Longrightarrow> j < length (nt_store t)"
    "nt_global t a = Some j \<Longrightarrow> an_acq_addr (node_at t j) = a"
  using assms by (auto simp: table_ok_def)

lemma same_address:
  assumes "table_ok t" and "i \<in> set (app_nodes t app)" and "j \<in> set (app_nodes t app')"
    and "an_acq_addr (node_at t i) = an_acq_addr (node_at t j)"
  shows "i = j"
proof -
  have "Some i = nt_global t (an_acq_addr (node_at t j))"
    unfolding assms(4) [symmetric] by (rule table_okD(4) [OF assms(1,2), symmetric])
  also have "\<dots> = Some j" by (rule table_okD(4) [OF assms(1,3)])
  finally show ?thesis by simp
qed

lemma app_nodes_in_data: "i \<in> set (app_nodes t app) \<Longrightarrow> (app, app_nodes t app) \<in> set (nt_data t)"
  by (auto simp: app_nodes_def dest: map_of_SomeD split: option.splits)

lemma strong_count_sum:
  assumes "distinct (map fst (nt_data t))"
  shows "strong_count t i = (\<Sum>app \<in> fst ` set (nt_data t). count_list (app_nodes t app) i)"
proof -
  have "sum_list (map (\<lambda>(app, ids). count_list ids i) (nt_data t))
      = sum_list (map (\<lambda>app. count_list (app_nodes t app) i) (map fst (nt_data t)))"
    unfolding map_map
  proof (rule arg_cong [where f = sum_list], rule map_cong [OF refl])
    fix x
    assume "x \<in> set (nt_data t)"
    with assms show "(case x of (app, ids) \<Rightarrow> count_list ids i)
        = ((\<lambda>app. count_list (app_nodes t app) i) \<circ> fst) x"
      by (cases x) (auto simp: app_nodes_def)
  qed
  also have "\<dots> = (\<Sum>app \<in> set (map fst (nt_data t)). count_list (app_nodes t app) i)"
    by (rule sum_list_distinct_conv_sum_set [OF assms])
  finally show ?thesis by (simp add: strong_count_def)
qed

lemma strong_count_pos:
  assumes "table_ok t"
  shows "0 < strong_count t i \<longleftrightarrow> (\<exists>app. i \<in> set (app_nodes t app))"
proof -
  have "strong_count t i = 0 \<longleftrightarrow> (\<forall>app \<in> fst ` set (nt_data t). i \<notin> set (app_nodes t app))"
    by (simp add: strong_count_sum [OF table_okD(1) [OF assms]] count_list_0_iff)
  also have "\<dots> \<longleftrightarrow> (\<forall>app. i \<notin> set (app_nodes t app))"
    using app_nodes_in_data by (metis fst_conv image_eqI)
  finally show ?thesis by auto
qed

lemma count_list_distinct: "distinct xs \<Longrightarrow> count_list xs x = (if x \<in> set xs then 1 else 0)"
  by (induction xs) auto

lemma strong_count_one:
  assumes "table_ok t" and i: "i \<in> set (app_nodes t app)"
  shows "strong_count t i = 1 \<longleftrightarrow> (\<forall>app'. app' \<noteq> app \<longrightarrow> i \<notin> set (app_nodes t app'))"
proof -
  let ?keys = "fst ` set (nt_data t)"
  have app: "app \<in> ?keys" using app_nodes_in_data [OF i] by force
  have "count_list (app_nodes t app) i = 1"
    using i table_okD(2) [OF assms(1)] by (simp add: count_list_distinct)
  then have "strong_count t i = 1 + (\<Sum>a \<in> ?keys - {app}. count_list (app_nodes t a) i)"
    using app by (simp add: strong_count_sum [OF table_okD(1) [OF assms(1)]] sum.remove [of _ app])
  then have "strong_count t i = 1 \<longleftrightarrow> (\<forall>a \<in> ?keys - {app}. i \<notin> set (app_nodes t a))"
    by (simp add: count_list_0_iff)
  also have "\<dots> \<longleftrightarrow> (\<forall>app'. app' \<noteq> app \<longrightarrow> i \<notin> set (app_nodes t app'))"
    using app_nodes_in_data by (metis DiffD2 DiffI fst_conv image_eqI insertI1 singletonD)
  finally show ?thesis .
qed

lemma table_ok_set_app:
  assumes "table_ok t" and "distinct ids"
    and "\<And>i. i \<in> set ids \<Longrightarrow> \<exists>app. i \<in> set (app_nodes t app)"
  shows "table_ok (set_app app ids t)"
  using assms unfolding table_ok_def table
  by (auto simp: table dest!: assms(3))

text \<open>The database does not touch the lists.\<close>

lemma execute_sql_works:
  "db_works db \<Longrightarrow> \<exists>d. execute_sql db sql params t = (Ok (), t\<lparr>nt_db := d\<rparr>)"
  by (auto simp: db_works_def execute_sql_def split: prod.split) (metis fst_conv)

lemma each_sql_works:
  assumes "\<And>x t. \<exists>d. f x t = (Ok (), t\<lparr>nt_db := d\<rparr>)"
  shows "\<exists>d. each f xs t = (Ok (), t\<lparr>nt_db := d\<rparr>)"
proof (induction xs arbitrary: t)
  case Nil
  show ?case by (rule exI [of _ "nt_db t"]) simp
next
  case (Cons x xs)
  obtain d where "f x t = (Ok (), t\<lparr>nt_db := d\<rparr>)" using assms by blast
  moreover obtain e where "each f xs (t\<lparr>nt_db := d\<rparr>) = (Ok (), t\<lparr>nt_db := d\<rparr>\<lparr>nt_db := e\<rparr>)"
    using Cons.IH by blast
  ultimately show ?case by (auto intro!: exI [of _ e])
qed

lemma db_config_works:
  assumes "db_works db"
  shows "\<exists>d. add_db_config db app nodes t = (Ok (), t\<lparr>nt_db := d\<rparr>)"
    and "\<exists>d. del_db_config db app nodes t = (Ok (), t\<lparr>nt_db := d\<rparr>)"
proof -
  obtain d where "create_sqlite_table db app t = (Ok (), t\<lparr>nt_db := d\<rparr>)"
    using execute_sql_works [OF assms] unfolding create_sqlite_table_def by blast
  moreover have "\<exists>e. each (add_sqlite_config db app) nodes (t\<lparr>nt_db := d\<rparr>)
      = (Ok (), t\<lparr>nt_db := d\<rparr>\<lparr>nt_db := e\<rparr>)"
    by (rule each_sql_works) (simp add: add_sqlite_config_def execute_sql_works [OF assms])
  ultimately show "\<exists>d. add_db_config db app nodes t = (Ok (), t\<lparr>nt_db := d\<rparr>)"
    by (auto simp: add_db_config_def)
  show "\<exists>d. del_db_config db app nodes t = (Ok (), t\<lparr>nt_db := d\<rparr>)"
    unfolding del_db_config_def
    by (rule each_sql_works) (simp add: del_sqlite_config_def execute_sql_works [OF assms])
qed

lemma save_file_works: "db_works db \<Longrightarrow> \<exists>d. save_config_to_file db path t = (Ok (), t\<lparr>nt_db := d\<rparr>)"
proof -
  assume "db_works db"
  then have "fst (db_write_file db path (saved_table t) (nt_db t)) = None" by (simp add: db_works_def)
  then show ?thesis
    by (cases "db_write_file db path (saved_table t) (nt_db t)") (auto simp: save_config_to_file_def)
qed

lemma config_works:
  assumes "db_works db"
  shows "\<exists>d. add_config db app nodes t = (Ok (), t\<lparr>nt_db := d\<rparr>)"
    and "\<exists>d. del_config db app nodes t = (Ok (), t\<lparr>nt_db := d\<rparr>)"
  using db_config_works [OF assms, of app nodes t] save_file_works [OF assms, of _ t]
  by (auto simp: add_config_def del_config_def split: option.split)

lemma nt_db_update [table]:
  "app_nodes (t\<lparr>nt_db := d\<rparr>) = app_nodes t" "node_at (t\<lparr>nt_db := d\<rparr>) = node_at t"
  "get_all_node_infos (t\<lparr>nt_db := d\<rparr>) = get_all_node_infos t" "table_ok (t\<lparr>nt_db := d\<rparr>) = table_ok t"
  "known (t\<lparr>nt_db := d\<rparr>) = known t"
  by (simp_all add: app_nodes_def node_at_def get_all_node_infos_def table_ok_def known_def fun_eq_iff)

lemma find_Some: "find p xs = Some x \<Longrightarrow> x \<in> set xs \<and> p x"
  by (induction xs) (auto split: if_splits)

lemma find_None: "find p xs = None \<longleftrightarrow> (\<forall>x \<in> set xs. \<not> p x)"
  by (induction xs) auto

lemma known_ids: "known t a \<longleftrightarrow> (\<exists>app. \<exists>i \<in> set (app_nodes t app). an_acq_addr (node_at t i) = a)"
  by (auto simp: known_def get_all_node_infos_def image_iff)

lemma get_node_info_known:
  assumes "table_ok t"
  shows "get_node_info t a = None \<longleftrightarrow> \<not> known t a"
    and "get_node_info t a = Some i \<Longrightarrow> an_acq_addr (node_at t i) = a \<and> (\<exists>app. i \<in> set (app_nodes t app))"
  using table_okD(4,6) [OF assms] strong_count_pos [OF assms]
  by (auto simp: get_node_info_def known_ids split: option.splits if_splits) (metis option.inject option.distinct(1))+

text \<open>A node an application asks for agrees with the table when it has the type registered for its address.\<close>

definition agrees :: "'db node_table \<Rightarrow> acq_node \<Rightarrow> bool" where
  "agrees t n \<longleftrightarrow> (\<forall>app. \<forall>m \<in> set (get_all_node_infos t app). an_acq_addr m = an_acq_addr n \<longrightarrow> m = n)"

lemma add_exist_spec:
  assumes ok: "table_ok t" and db: "db_works db" and agrees: "agrees t n"
  obtains t' where "add_node_info_exist db app n initial t = (Ok (known t (an_acq_addr n)), t')"
    and "table_ok t'"
    and "get_all_node_infos t' =
      (if known t (an_acq_addr n) \<and> n \<notin> set (get_all_node_infos t app)
       then (get_all_node_infos t)(app := get_all_node_infos t app @ [n]) else get_all_node_infos t)"
proof -
  let ?t = "set_app app (app_nodes t app) t"
  let ?same = "\<lambda>i. an_acq_addr (node_at t i) = an_acq_addr n"
  have nodes: "app_nodes ?t = app_nodes t" "node_at ?t = node_at t" "get_all_node_infos ?t = get_all_node_infos t"
    by (simp_all add: table fun_upd_idem) (simp add: get_all_node_infos_def fun_upd_idem)
  have ok': "table_ok ?t" by (rule table_ok_set_app [OF ok]) (use table_okD(2) [OF ok] in auto)
  have eq: "node_at t i = n" if "i \<in> set (app_nodes t a)" "?same i" for i a
    using agrees that by (auto simp: agrees_def get_all_node_infos_def)
  show ?thesis
  proof (cases "find ?same (app_nodes t app)")
    case (Some i)
    from find_Some [OF this] have i: "i \<in> set (app_nodes t app)" "?same i" by simp_all
    from eq [OF this] have "node_at t i = n" .
    moreover have "n \<in> set (get_all_node_infos t app)"
      using i eq by (auto simp: get_all_node_infos_def image_iff)
    moreover have "known t (an_acq_addr n)" using i by (auto simp: known_ids)
    ultimately show ?thesis
      using Some ok' by (intro that [of ?t]) (simp_all add: add_node_info_exist_def Let_def nodes same_type_def)
  next
    case None
    then have notin: "n \<notin> set (get_all_node_infos t app)" "\<And>i. i \<in> set (app_nodes t app) \<Longrightarrow> \<not> ?same i"
      by (auto simp: find_None get_all_node_infos_def)
    show ?thesis
    proof (cases "get_node_info ?t (an_acq_addr n)")
      case none: None
      then have "\<not> known ?t (an_acq_addr n)" by (simp add: get_node_info_known(1) [OF ok'])
      then have "\<not> known t (an_acq_addr n)" by (simp add: known_def nodes)
      then show ?thesis
        using None none ok' by (intro that [of ?t]) (simp_all add: add_node_info_exist_def Let_def nodes)
    next
      case (Some i)
      from get_node_info_known(2) [OF ok' this] obtain a where i: "?same i" "i \<in> set (app_nodes t a)"
        by (auto simp: nodes)
      from eq [OF i(2,1)] have n: "node_at t i = n" .
      let ?t2 = "set_app app (app_nodes t app @ [i]) ?t"
      have "table_ok ?t2"
        by (rule table_ok_set_app [OF ok'])
          (use table_okD(2) [OF ok] notin i in \<open>auto simp: nodes\<close>)
      obtain d where d: "(if initial then (Ok (), ?t2) else add_config db app [n] ?t2) = (Ok (), ?t2\<lparr>nt_db := d\<rparr>)"
        using config_works(1) [OF db, of app "[n]" ?t2] by (cases initial) (auto intro: that [of "nt_db ?t2"])
      have is_known: "known t (an_acq_addr n)" using i by (auto simp: known_ids)
      show ?thesis
      proof (rule that [of "?t2\<lparr>nt_db := d\<rparr>"])
        show "add_node_info_exist db app n initial t = (Ok (known t (an_acq_addr n)), ?t2\<lparr>nt_db := d\<rparr>)"
          using None Some n is_known d
          by (cases initial) (simp_all add: add_node_info_exist_def Let_def nodes same_type_def)
        show "table_ok (?t2\<lparr>nt_db := d\<rparr>)" using \<open>table_ok ?t2\<close> by (simp add: table)
        show "get_all_node_infos (?t2\<lparr>nt_db := d\<rparr>) =
          (if known t (an_acq_addr n) \<and> n \<notin> set (get_all_node_infos t app)
           then (get_all_node_infos t)(app := get_all_node_infos t app @ [n]) else get_all_node_infos t)"
          using is_known notin(1) n by (simp add: table) (simp add: get_all_node_infos_def)
      qed
    qed
  qed
qed

lemma agrees_known: "agrees t n \<Longrightarrow> n \<notin> set (get_all_node_infos t app) \<Longrightarrow>
    an_acq_addr n \<notin> an_acq_addr ` set (get_all_node_infos t app)"
  by (auto simp: agrees_def)

text \<open>The first half of a registration: which nodes are new, while the others are shared at once.\<close>

lemma register_spec:
  assumes "table_ok t" and db: "db_works db" and "distinct (map an_acq_addr nodes)"
    and "\<forall>n \<in> set nodes. agrees t n"
  obtains t' where
    "try_filter (\<lambda>n t. thenS (add_node_info_exist db app n initial t) (\<lambda>p t. (Ok (\<not> p), t))) nodes t
       = (Ok (filter (\<lambda>n. \<not> known t (an_acq_addr n)) nodes), t')"
    and "table_ok t'"
    and "get_all_node_infos t' = (get_all_node_infos t)(app := get_all_node_infos t app
       @ filter (\<lambda>n. known t (an_acq_addr n) \<and> n \<notin> set (get_all_node_infos t app)) nodes)"
  using assms(1,3,4)
proof (induction nodes arbitrary: t thesis)
  case Nil
  show ?case by (rule Nil.prems(1) [of t]) (simp_all add: Nil.prems(2))
next
  case (Cons n ns)
  let ?exist = "\<lambda>n t. thenS (add_node_info_exist db app n initial t) (\<lambda>p t. (Ok (\<not> p), t))"
  from Cons.prems have "agrees t n" by simp
  then obtain t1 where t1: "add_node_info_exist db app n initial t = (Ok (known t (an_acq_addr n)), t1)"
      "table_ok t1" and view: "get_all_node_infos t1 =
      (if known t (an_acq_addr n) \<and> n \<notin> set (get_all_node_infos t app)
       then (get_all_node_infos t)(app := get_all_node_infos t app @ [n]) else get_all_node_infos t)"
    using add_exist_spec [OF Cons.prems(2) db, of n app initial] by blast
  have known: "known t1 a = known t a" for a
    by (cases "known t (an_acq_addr n) \<and> n \<notin> set (get_all_node_infos t app)")
      (auto simp: known_def view)
  have agrees1: "agrees t1 m" if "m \<in> set ns" for m
    using Cons.prems(3,4) that by (auto simp: agrees_def view image_iff split: if_splits)
  have fresh: "m \<in> set (get_all_node_infos t1 app) \<longleftrightarrow> m \<in> set (get_all_node_infos t app)" if "m \<in> set ns" for m
    using Cons.prems(3) that by (auto simp: view)
  obtain t2 where t2: "try_filter ?exist ns t1 = (Ok (filter (\<lambda>n. \<not> known t1 (an_acq_addr n)) ns), t2)"
      "table_ok t2" and view2: "get_all_node_infos t2 = (get_all_node_infos t1)(app := get_all_node_infos t1 app
       @ filter (\<lambda>n. known t1 (an_acq_addr n) \<and> n \<notin> set (get_all_node_infos t1 app)) ns)"
  proof (rule Cons.IH [OF _ t1(2)])
    show "distinct (map an_acq_addr ns)" using Cons.prems(3) by simp
    show "\<forall>n\<in>set ns. agrees t1 n" using agrees1 by blast
  qed
  have same: "filter (\<lambda>n. known t (an_acq_addr n) \<and> n \<notin> set (get_all_node_infos t1 app)) ns
      = filter (\<lambda>n. known t (an_acq_addr n) \<and> n \<notin> set (get_all_node_infos t app)) ns"
    using fresh by (auto intro: filter_cong)
  show ?case
  proof (rule Cons.prems(1) [OF _ t2(2)])
    show "try_filter ?exist (n # ns) t = (Ok (filter (\<lambda>n. \<not> known t (an_acq_addr n)) (n # ns)), t2)"
      using t1(1) t2(1) by (simp add: known)
    show "get_all_node_infos t2 = (get_all_node_infos t)(app := get_all_node_infos t app
       @ filter (\<lambda>n. known t (an_acq_addr n) \<and> n \<notin> set (get_all_node_infos t app)) (n # ns))"
      unfolding view2 known same by (auto simp: view)
  qed
qed

lemma add_checked_sel:
  "nt_store (add_node_info_checked app n t) = nt_store t @ [n]"
  "nt_global (add_node_info_checked app n t) = (nt_global t)(an_acq_addr n := Some (length (nt_store t)))"
  "app_nodes (add_node_info_checked app n t) = (app_nodes t)(app := app_nodes t app @ [length (nt_store t)])"
  "i < length (nt_store t) \<Longrightarrow> node_at (add_node_info_checked app n t) i = node_at t i"
  "node_at (add_node_info_checked app n t) (length (nt_store t)) = n"
  by (simp_all add: add_node_info_checked_def Let_def table node_at_def nth_append)
     (simp add: app_nodes_def fun_eq_iff)

lemma add_checked_keys:
  "distinct (map fst (nt_data t)) \<Longrightarrow> distinct (map fst (nt_data (add_node_info_checked app n t)))"
  by (simp add: add_node_info_checked_def Let_def set_app_keys)

text \<open>The second half, after the module's answer.\<close>

lemma add_checked_spec:
  assumes ok: "table_ok t" and new: "\<not> known t (an_acq_addr n)"
  shows "table_ok (add_node_info_checked app n t)"
    and "get_all_node_infos (add_node_info_checked app n t) =
      (get_all_node_infos t)(app := get_all_node_infos t app @ [n])"
proof -
  let ?t = "add_node_info_checked app n t" and ?i = "length (nt_store t)"
  note sel = add_checked_sel [where app = app and n = n and t = t]
  have old: "node_at ?t i = node_at t i" "i < ?i" "nt_global t (an_acq_addr (node_at t i)) = Some i"
    "an_acq_addr (node_at t i) \<noteq> an_acq_addr n" if "i \<in> set (app_nodes t a)" for i a
    using table_okD(3,4) [OF ok that] sel(4) new that by (auto simp: known_ids)
  have "distinct (app_nodes ?t a)" for a
    using table_okD(2) [OF ok, of a] old(2) [of ?i a] by (auto simp: sel(3))
  moreover have "i < Suc ?i \<and> nt_global ?t (an_acq_addr (node_at ?t i)) = Some i"
    if "i \<in> set (app_nodes ?t a)" for i a
  proof (cases "i = ?i")
    case True
    then show ?thesis by (simp add: sel)
  next
    case False
    with that have "i \<in> set (app_nodes t a)" by (auto simp: sel(3) split: if_splits)
    note old [OF this]
    then show ?thesis by (simp add: sel(2))
  qed
  moreover have "i < Suc ?i \<and> an_acq_addr (node_at ?t i) = a" if "nt_global ?t a = Some i" for a i
    using that table_okD(5,6) [OF ok, of a i] by (auto simp: sel split: if_splits)
  ultimately show "table_ok ?t"
    using add_checked_keys [OF table_okD(1) [OF ok]] by (simp add: table_ok_def sel(1))
  show "get_all_node_infos ?t = (get_all_node_infos t)(app := get_all_node_infos t app @ [n])"
    using old(1) by (auto simp: get_all_node_infos_def sel(3,5) fun_eq_iff)
qed

lemma add_infos_checked_spec:
  assumes "table_ok t" and "distinct (map an_acq_addr nodes)" and "\<forall>n \<in> set nodes. \<not> known t (an_acq_addr n)"
  shows "table_ok (fold (add_node_info_checked app) nodes t)"
    and "get_all_node_infos (fold (add_node_info_checked app) nodes t) =
      (get_all_node_infos t)(app := get_all_node_infos t app @ nodes)"
proof -
  have "table_ok (fold (add_node_info_checked app) nodes t)
    \<and> get_all_node_infos (fold (add_node_info_checked app) nodes t) =
      (get_all_node_infos t)(app := get_all_node_infos t app @ nodes)"
    using assms
  proof (induction nodes arbitrary: t)
    case (Cons n ns)
    note step = add_checked_spec [OF Cons.prems(1), of n app]
    have "known (add_node_info_checked app n t) a = (a = an_acq_addr n \<or> known t a)" for a
      using Cons.prems(3) step(2) by (auto simp: known_def)
    moreover have "an_acq_addr m \<noteq> an_acq_addr n" if "m \<in> set ns" for m
      using Cons.prems(2) imageI [OF that, of an_acq_addr] by (metis distinct.simps(2) list.simps(9) list.set_map)
    ultimately show ?case using Cons.IH [of "add_node_info_checked app n t"] Cons.prems step by auto
  qed simp
  then show "table_ok (fold (add_node_info_checked app) nodes t)"
    and "get_all_node_infos (fold (add_node_info_checked app) nodes t) =
      (get_all_node_infos t)(app := get_all_node_infos t app @ nodes)" by blast+
qed

section \<open>Removal\<close>

lemma position_Some:
  "position p xs = Some i \<Longrightarrow> i < length xs \<and> p (xs ! i)"
  by (induction xs arbitrary: i) (auto split: if_splits)

lemma position_None: "position p xs = None \<longleftrightarrow> (\<forall>x \<in> set xs. \<not> p x)"
  by (induction xs) auto

lemma remove_at_position:
  "position p xs = Some i \<Longrightarrow> distinct xs \<Longrightarrow> (\<And>x y. x \<in> set xs \<Longrightarrow> y \<in> set xs \<Longrightarrow> p x \<Longrightarrow> p y \<Longrightarrow> x = y) \<Longrightarrow>
     remove_at i xs = filter (\<lambda>x. \<not> p x) xs"
proof (induction xs arbitrary: i)
  case (Cons x xs)
  show ?case
  proof (cases "p x")
    case True
    with Cons.prems(2,3) have "\<not> p y" if "y \<in> set xs" for y using that by auto
    with True Cons.prems(1) show ?thesis by (auto simp: remove_at_def)
  next
    case False
    with Cons.prems(1) obtain j where "i = Suc j" "position p xs = Some j" by auto
    with False Cons.IH [of j] Cons.prems show ?thesis by (simp add: remove_at_def)
  qed
qed simp

text \<open>The applications other than \<open>app\<close> that have an address.\<close>

definition elsewhere :: "'db node_table \<Rightarrow> string \<Rightarrow> string \<Rightarrow> bool" where
  "elsewhere t app a \<longleftrightarrow> (\<exists>app'. app' \<noteq> app \<and> a \<in> an_acq_addr ` set (get_all_node_infos t app'))"

definition without :: "string set \<Rightarrow> acq_node list \<Rightarrow> acq_node list" where
  "without as ns = filter (\<lambda>n. an_acq_addr n \<notin> as) ns"

text \<open>Deleting the one node with an address from the list of an application.\<close>

lemma remove_one:
  assumes ok: "table_ok t" and pos: "position (\<lambda>i. an_acq_addr (node_at t i) = a) (app_nodes t app) = Some pos"
  defines "t' \<equiv> set_app app (remove_at pos (app_nodes t app)) t"
  shows "table_ok t'" and "get_all_node_infos t' = (get_all_node_infos t)(app := without {a} (get_all_node_infos t app))"
    and "a \<in> an_acq_addr ` set (get_all_node_infos t app)"
    and "strong_count t (app_nodes t app ! pos) = 1 \<longleftrightarrow> \<not> elsewhere t app a"
    and "nt_global t' a = Some (app_nodes t app ! pos)"
proof -
  note at = position_Some [OF pos]
  have rem: "remove_at pos (app_nodes t app) = filter (\<lambda>i. an_acq_addr (node_at t i) \<noteq> a) (app_nodes t app)"
    by (rule remove_at_position [OF pos table_okD(2) [OF ok]]) (auto intro: same_address [OF ok])
  show "table_ok t'"
    unfolding t'_def rem by (rule table_ok_set_app [OF ok]) (use table_okD(2) [OF ok] in auto)
  show "get_all_node_infos t' = (get_all_node_infos t)(app := without {a} (get_all_node_infos t app))"
    unfolding t'_def rem by (simp add: table without_def get_all_node_infos_def filter_map o_def)
  let ?i = "app_nodes t app ! pos"
  have i: "?i \<in> set (app_nodes t app)" and a: "an_acq_addr (node_at t ?i) = a" using at by simp_all
  then show "a \<in> an_acq_addr ` set (get_all_node_infos t app)" by (auto simp: get_all_node_infos_def)
  have "?i \<in> set (app_nodes t app') \<longleftrightarrow> a \<in> an_acq_addr ` set (get_all_node_infos t app')" for app'
  proof
    assume "a \<in> an_acq_addr ` set (get_all_node_infos t app')"
    then obtain j where j: "j \<in> set (app_nodes t app')" "an_acq_addr (node_at t j) = a"
      by (auto simp: get_all_node_infos_def)
    from same_address [OF ok i j(1)] a j show "?i \<in> set (app_nodes t app')" by simp
  qed (auto simp: get_all_node_infos_def a [symmetric])
  then show "strong_count t ?i = 1 \<longleftrightarrow> \<not> elsewhere t app a"
    using strong_count_one [OF ok i] by (auto simp: elsewhere_def)
  show "nt_global t' a = Some ?i" using table_okD(4) [OF ok i] a by (simp add: t'_def table)
qed

lemma listed_address:
  "i \<in> set (app_nodes t app) \<Longrightarrow> an_acq_addr (node_at t i) \<in> an_acq_addr ` set (get_all_node_infos t app)"
  by (auto simp: get_all_node_infos_def)

text \<open>The addresses only \<open>app\<close> has: those the module has to delete.\<close>

definition mine :: "'db node_table \<Rightarrow> string \<Rightarrow> string \<Rightarrow> bool" where
  "mine t app a \<longleftrightarrow> a \<in> an_acq_addr ` set (get_all_node_infos t app) \<and> \<not> elsewhere t app a"

lemma should_remove_spec:
  assumes ok: "table_ok t" and db: "db_works db"
  obtains t' where "should_remove_node_info db app n t = (Ok (mine t app (an_acq_addr n)), t')"
    and "table_ok t'"
    and "get_all_node_infos t' = (get_all_node_infos t)(app :=
       without {a. a = an_acq_addr n \<and> elsewhere t app a} (get_all_node_infos t app))"
proof (cases "position (\<lambda>i. an_acq_addr (node_at t i) = an_acq_addr n) (app_nodes t app)")
  case None
  then have none: "an_acq_addr m \<noteq> an_acq_addr n" if "m \<in> set (get_all_node_infos t app)" for m
    using that by (auto simp: position_None get_all_node_infos_def)
  then have "without {a. a = an_acq_addr n \<and> elsewhere t app a} (get_all_node_infos t app) = get_all_node_infos t app"
    by (auto simp: without_def)
  moreover have "\<not> mine t app (an_acq_addr n)" using none by (metis imageE mine_def)
  ultimately show ?thesis
    using None ok by (intro that [of t]) (simp_all add: should_remove_node_info_def)
next
  case (Some pos)
  note one = remove_one [OF ok Some]
  let ?i = "app_nodes t app ! pos"
  show ?thesis
  proof (cases "elsewhere t app (an_acq_addr n)")
    case False
    then show ?thesis
      using Some one(3,4) ok
      by (intro that [of t]) (simp_all add: should_remove_node_info_def Let_def mine_def without_def fun_eq_iff)
  next
    case True
    then have "{a. a = an_acq_addr n \<and> elsewhere t app a} = {an_acq_addr n}" by auto
    moreover obtain d where
      "del_config db app [node_at t ?i] (set_app app (remove_at pos (app_nodes t app)) t)
         = (Ok (), set_app app (remove_at pos (app_nodes t app)) t\<lparr>nt_db := d\<rparr>)"
      using config_works(2) [OF db] by blast
    ultimately show ?thesis
      using Some True one(1,2,4)
      by (intro that [of "set_app app (remove_at pos (app_nodes t app)) t\<lparr>nt_db := d\<rparr>"])
        (simp_all add: should_remove_node_info_def Let_def mine_def nt_db_update)
  qed
qed

lemma without_without: "without as (without bs ns) = without (as \<union> bs) ns"
  by (auto simp: without_def intro: filter_cong)

lemma set_without [simp]: "n \<in> set (without as ns) \<longleftrightarrow> n \<in> set ns \<and> an_acq_addr n \<notin> as"
  by (auto simp: without_def)

lemma unregister_spec:
  assumes "table_ok t" and db: "db_works db"
  obtains t' where
    "try_filter (should_remove_node_info db app) nodes t = (Ok (filter (\<lambda>n. mine t app (an_acq_addr n)) nodes), t')"
    and "table_ok t'"
    and "get_all_node_infos t' = (get_all_node_infos t)(app :=
       without {a \<in> an_acq_addr ` set nodes. elsewhere t app a} (get_all_node_infos t app))"
  using assms(1)
proof (induction nodes arbitrary: t thesis)
  case Nil
  show ?case by (rule Nil.prems(1) [of t]) (simp_all add: Nil.prems(2) without_def)
next
  case (Cons n ns)
  let ?S = "{a. a = an_acq_addr n \<and> elsewhere t app a}"
  obtain t1 where t1: "should_remove_node_info db app n t = (Ok (mine t app (an_acq_addr n)), t1)" "table_ok t1"
    and view: "get_all_node_infos t1 = (get_all_node_infos t)(app := without ?S (get_all_node_infos t app))"
    using should_remove_spec [OF Cons.prems(2) db, of app n] by blast
  have else1: "elsewhere t1 app a = elsewhere t app a" for a by (auto simp: elsewhere_def view)
  have mine1: "mine t1 app a = mine t app a" for a
    by (auto simp: mine_def else1 view image_iff)
  obtain t2 where t2: "try_filter (should_remove_node_info db app) ns t1
      = (Ok (filter (\<lambda>n. mine t1 app (an_acq_addr n)) ns), t2)" "table_ok t2"
    and view2: "get_all_node_infos t2 = (get_all_node_infos t1)(app :=
       without {a \<in> an_acq_addr ` set ns. elsewhere t1 app a} (get_all_node_infos t1 app))"
    using Cons.IH [OF _ t1(2)] by blast
  show ?case
  proof (rule Cons.prems(1) [OF _ t2(2)])
    show "try_filter (should_remove_node_info db app) (n # ns) t
        = (Ok (filter (\<lambda>n. mine t app (an_acq_addr n)) (n # ns)), t2)"
      using t1(1) t2(1) by (simp add: mine1)
    have "{a \<in> an_acq_addr ` set ns. elsewhere t app a} \<union> ?S
        = {a \<in> an_acq_addr ` set (n # ns). elsewhere t app a}" by auto
    then show "get_all_node_infos t2 = (get_all_node_infos t)(app :=
       without {a \<in> an_acq_addr ` set (n # ns). elsewhere t app a} (get_all_node_infos t app))"
      unfolding view2 else1 by (simp add: view without_without)
  qed
qed

lemma remove_checked_spec:
  assumes ok: "table_ok t" and mine: "mine t app (an_acq_addr n)"
  obtains t' where "remove_node_info_checked app n t = (Ok (), t')" and "table_ok t'"
    and "get_all_node_infos t' =
      (get_all_node_infos t)(app := without {an_acq_addr n} (get_all_node_infos t app))"
proof -
  let ?a = "an_acq_addr n"
  from mine obtain pos where pos: "position (\<lambda>i. an_acq_addr (node_at t i) = ?a) (app_nodes t app) = Some pos"
    by (cases "position (\<lambda>i. an_acq_addr (node_at t i) = ?a) (app_nodes t app)")
      (auto simp: mine_def position_None get_all_node_infos_def)
  note one = remove_one [OF ok pos]
  let ?t = "set_app app (remove_at pos (app_nodes t app)) t"
  let ?t' = "?t\<lparr>nt_global := (nt_global ?t)(?a := None)\<rparr>"
  have nodes: "app_nodes ?t' = app_nodes ?t" "node_at ?t' = node_at ?t"
    by (auto simp: app_nodes_def node_at_def)
  then have view: "get_all_node_infos ?t' = get_all_node_infos ?t" by (intro get_all_cong) simp_all
  have "?a \<notin> an_acq_addr ` set (get_all_node_infos ?t app')" for app'
    using mine by (auto simp: one(2) mine_def elsewhere_def)
  then have "an_acq_addr (node_at ?t i) \<noteq> ?a" if "i \<in> set (app_nodes ?t app')" for i app'
    using that by (metis listed_address)
  then have "table_ok ?t'"
    using one(1) unfolding table_ok_def nodes by (auto split: if_splits)
  then show ?thesis
    using pos one(2,5) by (intro that [of ?t']) (simp_all add: remove_node_info_checked_def Let_def view)
qed

lemma remove_infos_checked_spec:
  assumes "table_ok t" and "distinct (map an_acq_addr nodes)" and "\<forall>n \<in> set nodes. mine t app (an_acq_addr n)"
  obtains t' where "each (remove_node_info_checked app) nodes t = (Ok (), t')" and "table_ok t'"
    and "get_all_node_infos t' =
      (get_all_node_infos t)(app := without (an_acq_addr ` set nodes) (get_all_node_infos t app))"
  using assms
proof (induction nodes arbitrary: t thesis)
  case Nil
  show ?case by (rule Nil.prems(1) [of t]) (simp_all add: Nil.prems(2) without_def)
next
  case (Cons n ns)
  obtain t1 where t1: "remove_node_info_checked app n t = (Ok (), t1)" "table_ok t1"
    and view: "get_all_node_infos t1 = (get_all_node_infos t)(app := without {an_acq_addr n} (get_all_node_infos t app))"
    using remove_checked_spec [OF Cons.prems(2), of app n] Cons.prems(4) by auto
  have "mine t1 app (an_acq_addr m)" if "m \<in> set ns" for m
  proof -
    have "an_acq_addr m \<noteq> an_acq_addr n"
      using Cons.prems(3) imageI [OF that, of an_acq_addr] by (metis distinct.simps(2) list.simps(9) list.set_map)
    moreover have "mine t app (an_acq_addr m)" using Cons.prems(4) that by simp
    ultimately show ?thesis by (auto simp: mine_def elsewhere_def view image_iff)
  qed
  then obtain t2 where t2: "each (remove_node_info_checked app) ns t1 = (Ok (), t2)" "table_ok t2"
    and view2: "get_all_node_infos t2 = (get_all_node_infos t1)(app := without (an_acq_addr ` set ns) (get_all_node_infos t1 app))"
    using Cons.IH [OF _ t1(2)] Cons.prems(3) by (metis distinct.simps(2) list.simps(9))
  show ?case
    by (rule Cons.prems(1) [OF _ t2(2)])
      (simp_all add: t1 t2 view view2 without_without insert_is_Un [symmetric] Un_commute)
qed

section \<open>What loading gives\<close>

text \<open>Nodes that are added without an error are there afterwards, and nothing else is.\<close>

definition gains :: "'db node_table \<Rightarrow> (string \<times> acq_node list) list \<Rightarrow> 'db node_table \<Rightarrow> bool" where
  "gains t tables t' \<longleftrightarrow> table_ok t'
     \<and> (\<forall>app. set (get_all_node_infos t' app) = set (get_all_node_infos t app) \<union> (\<Union>ns \<in> {ns. (app, ns) \<in> set tables}. set ns))"

lemma gains_nothing: "table_ok t \<Longrightarrow> gains t [] t"
  by (simp add: gains_def)

lemma gains_more:
  "gains t xs t1 \<Longrightarrow> gains t1 ys t2 \<Longrightarrow> gains t (xs @ ys) t2"
  by (auto simp: gains_def)

lemma gains_cons: "gains t [(app, n # ns)] t' = gains t [(app, [n]), (app, ns)] t'"
proof -
  have "(\<Union>ms \<in> {ms. (a, ms) \<in> set [(app, n # ns)]}. set ms) = (\<Union>ms \<in> {ms. (a, ms) \<in> set [(app, [n]), (app, ns)]}. set ms)" for a
  proof (cases "a = app")
    case True
    then have "{ms. (a, ms) \<in> set [(app, [n]), (app, ns)]} = {[n], ns}" by auto
    with True show ?thesis by simp
  qed simp
  then show ?thesis by (simp only: gains_def)
qed

lemma same_type_Ok: "same_type m n = Ok () \<longleftrightarrow> an_pro_type m = an_pro_type n"
  by (simp add: same_type_def ensure_def)

lemma add_node_info_gains:
  assumes ok: "table_ok t" and run: "add_node_info db app n t = (Ok (), t')"
  shows "gains t [(app, [n])] t'"
proof -
  let ?t = "set_app app (app_nodes t app) t"
  let ?same = "\<lambda>i. an_acq_addr (node_at t i) = an_acq_addr n"
  have nodes: "app_nodes ?t = app_nodes t" "node_at ?t = node_at t" "get_all_node_infos ?t = get_all_node_infos t"
    by (simp_all add: table fun_upd_idem) (simp add: get_all_node_infos_def fun_upd_idem)
  have ok': "table_ok ?t" by (rule table_ok_set_app [OF ok]) (use table_okD(2) [OF ok] in auto)
  show ?thesis
  proof (cases "find ?same (app_nodes t app)")
    case (Some i)
    with run have "same_type (node_at t i) n = Ok ()" "t' = ?t"
      by (cases "same_type (node_at t i) n"; simp add: add_node_info_def add_node_info_exist_def Let_def nodes)+
    moreover from this(1) find_Some [OF Some] have "n \<in> set (get_all_node_infos t app)"
      by (auto simp: same_type_Ok get_all_node_infos_def image_iff intro!: bexI [of _ i])
    ultimately show ?thesis using ok' by (auto simp: gains_def nodes)
  next
    case absent: None
    show ?thesis
    proof (cases "get_node_info ?t (an_acq_addr n)")
      case None
      then have "\<not> known ?t (an_acq_addr n)" by (simp add: get_node_info_known(1) [OF ok'])
      note checked = add_checked_spec [OF ok' this, of app]
      from absent None run have "t' = add_node_info_checked app n ?t"
        by (simp add: add_node_info_def add_node_info_exist_def Let_def nodes)
      with checked show ?thesis by (auto simp: gains_def nodes)
    next
      case (Some i)
      from get_node_info_known(2) [OF ok' this] obtain a where i: "?same i" "i \<in> set (app_nodes t a)"
        by (auto simp: nodes)
      let ?t2 = "set_app app (app_nodes t app @ [i]) ?t"
      have "same_type (node_at t i) n = Ok ()" "t' = ?t2"
        using absent Some run
        by (cases "same_type (node_at t i) n"; simp add: add_node_info_def add_node_info_exist_def Let_def nodes)+
      moreover from this(1) i(1) have "node_at t i = n" by (simp add: same_type_Ok)
      moreover have "table_ok ?t2"
        by (rule table_ok_set_app [OF ok'])
          (use table_okD(2) [OF ok] absent i in \<open>auto simp: nodes find_None\<close>)
      ultimately show ?thesis
        by (auto simp: gains_def table) (auto simp: get_all_node_infos_def)
    qed
  qed
qed

lemma add_node_infos_gains:
  "table_ok t \<Longrightarrow> add_node_infos db app ns t = (Ok (), t') \<Longrightarrow> gains t [(app, ns)] t'"
  unfolding add_node_infos_def
proof (induction ns arbitrary: t)
  case Nil
  then show ?case by (simp add: gains_def)
next
  case (Cons n ns)
  obtain r t1 where one: "add_node_info db app n t = (r, t1)" by fastforce
  with Cons.prems(2) have "r = Ok ()" and rest: "each (add_node_info db app) ns t1 = (Ok (), t')"
    by (cases r; simp)+
  with add_node_info_gains [OF Cons.prems(1)] one have first: "gains t [(app, [n])] t1" by blast
  then have "table_ok t1" by (simp add: gains_def)
  from gains_more [OF first Cons.IH [OF this rest]] show ?case by (simp add: gains_cons)
qed

lemma thenS_Ok: "thenS p k = (Ok y, s) \<Longrightarrow> \<exists>x s1. p = (Ok x, s1) \<and> k x s1 = (Ok y, s)"
  by (cases p; cases "fst p") auto

lemma load_tables_gains:
  "table_ok t \<Longrightarrow> load_tables db names t = (Ok tables, t') \<Longrightarrow> gains t tables t'"
proof (induction names arbitrary: t tables)
  case Nil
  then show ?case by (simp add: gains_nothing)
next
  case (Cons name names)
  show ?case
  proof (cases "name = []")
    case True
    with Cons show ?thesis by simp
  next
    case False
    with Cons.prems(2) obtain app nodes rest t1 where add: "add_node_infos db app nodes t = (Ok (), t1)"
      and rest: "load_tables db names t1 = (Ok rest, t')" "tables = (app, nodes) # rest"
      by (auto dest!: thenS_Ok)
    note first = add_node_infos_gains [OF Cons.prems(1) add]
    then have "table_ok t1" by (simp add: gains_def)
    from gains_more [OF first Cons.IH [OF this rest(1)]] rest(2) show ?thesis by simp
  qed
qed

lemma load_lists_gains:
  "table_ok t \<Longrightarrow> load_lists db path entries t = (Ok tables, t') \<Longrightarrow> gains t tables t'"
proof (induction entries arbitrary: t tables)
  case Nil
  then show ?case by (simp add: gains_nothing)
next
  case (Cons entry entries)
  obtain app v where entry: "entry = (app, v)" by (cases entry)
  from Cons.prems(2) obtain nodes rest t1 where add: "add_node_infos db app nodes t = (Ok (), t1)"
    and rest: "load_lists db path entries t1 = (Ok rest, t')" "tables = (app, nodes) # rest"
    unfolding entry by (cases v) (auto dest!: thenS_Ok)
  note first = add_node_infos_gains [OF Cons.prems(1) add]
  then have "table_ok t1" by (simp add: gains_def)
  from gains_more [OF first Cons.IH [OF this rest(1)]] rest(2) show ?case by simp
qed

lemma cleared_table:
  "table_ok (clear_all_app t)" "get_all_node_infos (clear_all_app t) = (\<lambda>_. [])" "nt_db (clear_all_app t) = nt_db t"
proof -
  have empty: "app_nodes (clear_all_app t) = (\<lambda>_. [])" by (simp add: app_nodes_def clear_all_app_def fun_eq_iff)
  show "table_ok (clear_all_app t)" unfolding table_ok_def empty by (simp add: clear_all_app_def)
  show "get_all_node_infos (clear_all_app t) = (\<lambda>_. [])" by (simp add: get_all_node_infos_def empty fun_eq_iff)
qed (simp add: clear_all_app_def)

lemma load_table_gains:
  assumes "load_table db (clear_all_app t) = (Ok tables, t')"
  shows "table_ok t'" and "set (get_all_node_infos t' app) = (\<Union>ns \<in> {ns. (app, ns) \<in> set tables}. set ns)"
proof -
  note ok = cleared_table(1) [of t]
  have "gains (clear_all_app t) tables t'"
  proof (cases "db_config_path db")
    case None
    with assms obtain names where "load_tables db names (clear_all_app t) = (Ok tables, t')"
      by (auto simp: load_table_def load_config_from_db_def dest!: thenS_Ok)
    then show ?thesis by (rule load_tables_gains [OF ok])
  next
    case (Some path)
    with assms obtain v where "(case v of JObj entries \<Rightarrow> load_lists db path entries (clear_all_app t)
        | _ \<Rightarrow> (Err (invalid_config_file path), clear_all_app t)) = (Ok tables, t')"
      by (auto simp: load_table_def load_config_from_file_def dest!: thenS_Ok)
    then show ?thesis using load_lists_gains [OF ok] by (cases v) auto
  qed
  then show "table_ok t'" and "set (get_all_node_infos t' app) = (\<Union>ns \<in> {ns. (app, ns) \<in> set tables}. set ns)"
    by (simp_all add: gains_def cleared_table(2))
qed

end
