(* ===== verification/Node_Manage.thy ===== *)
theory Node_Manage
  imports Node_Config Module_Info
begin

text \<open>
  src/src/service/node_manage.rs: applications register and delete meters. A request is worked off in
  chunks of ten; of each chunk the module is asked about the nodes that no application has yet, or that
  only this one has, and the thread waits for its answer before the table follows.

  \<open>db\<close> is the storage of the table of \<open>Node_Config\<close>. The order in which \<^verbatim>\<open>load_config\<close> goes through the
  \<^verbatim>\<open>HashMap\<close> of the applications is the argument \<open>hash_order\<close>.
\<close>

section \<open>State\<close>

record 'db node_manage =
  nm_node_config :: "'db node_table"
  nm_operation_result :: "unit result option"

definition node_manage_new :: "'db \<Rightarrow> 'db node_manage" where
  "node_manage_new d = \<lparr>nm_node_config = node_table_new d, nm_operation_result = None\<rparr>"

definition on_config ::
    "('db node_table \<Rightarrow> 'a result \<times> 'db node_table) \<Rightarrow> 'db node_manage \<Rightarrow> 'a result \<times> 'db node_manage" where
  "on_config f s = (case f (nm_node_config s) of (r, t) \<Rightarrow> (r, s\<lparr>nm_node_config := t\<rparr>))"

section \<open>The three operations\<close>

datatype acq_operation = AddAcqFiles | DelAcqFiles | ClearAcqFiles

definition del_acq_file_from_json :: "json \<Rightarrow> acq_node result" where
  "del_acq_file_from_json v =
     andThen (string_field v ''acqAddr'') (\<lambda>a. Ok \<lparr>an_acq_addr = a, an_pro_type = ''0''\<rparr>)"

fun parse_node_infos ::
    "acq_operation \<Rightarrow> 'db node_table \<Rightarrow> mqtt_message \<Rightarrow> string \<Rightarrow> acq_node list result" where
  "parse_node_infos AddAcqFiles t message app =
     message_json (\<lambda>v. array_field acq_node_from_json v ''body'') message"
| "parse_node_infos DelAcqFiles t message app =
     message_json (\<lambda>v. array_field del_acq_file_from_json v ''body'') message"
| "parse_node_infos ClearAcqFiles t message app = Ok (get_all_node_infos t app)"

fun operate_node_infos ::
    "'db database \<Rightarrow> acq_operation \<Rightarrow> string \<Rightarrow> acq_node list \<Rightarrow> bool \<Rightarrow> 'db node_table
       \<Rightarrow> acq_node list result \<times> 'db node_table" where
  "operate_node_infos db AddAcqFiles app nodes initial t =
     (if initial then (Ok nodes, t)
      else try_filter (\<lambda>n t. thenS (add_node_info_exist db app n initial t) (\<lambda>p t. (Ok (\<not> p), t))) nodes t)"
| "operate_node_infos db DelAcqFiles app nodes initial t =
     try_filter (should_remove_node_info db app) nodes t"
| "operate_node_infos db ClearAcqFiles app nodes initial t =
     try_filter (should_remove_node_info db app) nodes t"

definition to_uart_node_info :: "env \<Rightarrow> acq_node \<Rightarrow> node_info result" where
  "to_uart_node_info env n =
     andThen (address_from_str (env_hex_decode env) (an_acq_addr n)) (\<lambda>a.
     andThen (unwrap (parse_u8 (an_pro_type n))) (\<lambda>p.
     Ok \<lparr>ni_src_addr = a, ni_protocol_type = p\<rparr>))"

fun create_uart_request :: "env \<Rightarrow> acq_operation \<Rightarrow> acq_node list \<Rightarrow> app_data result" where
  "create_uart_request env AddAcqFiles nodes =
     andThen (traverse (to_uart_node_info env) nodes) (\<lambda>ns. Ok (add_node_request_to_app_data ns))"
| "create_uart_request env DelAcqFiles nodes =
     andThen (traverse (address_from_str (env_hex_decode env) \<circ> an_acq_addr) nodes) (\<lambda>as.
     Ok (del_node_request_to_app_data as))"
| "create_uart_request env ClearAcqFiles nodes =
     andThen (traverse (address_from_str (env_hex_decode env) \<circ> an_acq_addr) nodes) (\<lambda>as.
     Ok (del_node_request_to_app_data as))"

fun update_node_config ::
    "'db database \<Rightarrow> acq_operation \<Rightarrow> string \<Rightarrow> acq_node list \<Rightarrow> 'db node_table
       \<Rightarrow> unit result \<times> 'db node_table" where
  "update_node_config db AddAcqFiles app nodes t = add_node_infos_checked db app nodes t"
| "update_node_config db DelAcqFiles app nodes t = remove_node_infos_checked db app nodes t"
| "update_node_config db ClearAcqFiles app nodes t = remove_node_infos_checked db app nodes t"

section \<open>Requests\<close>

definition ACQ_FILES_CHUNK_SIZE :: nat where "ACQ_FILES_CHUNK_SIZE = 10"

definition wait_operation_result :: "('db node_manage, unit) prog" where
  "wait_operation_result =
     andDo (change (\<lambda>s. s\<lparr>nm_operation_result := None\<rparr>)) (\<lambda>_.
     andDo (wait_while (\<lambda>s. nm_operation_result s = None)) (\<lambda>_.
     andDo (ask nm_operation_result) (\<lambda>r.
     andDo (change (\<lambda>s. s\<lparr>nm_operation_result := None\<rparr>)) (\<lambda>_.
     andDo (give (unwrap_option r)) give))))"

definition operate_chunk_acq_files ::
    "env \<Rightarrow> 'db database \<Rightarrow> acq_operation \<Rightarrow> string \<Rightarrow> mqtt_req_info option \<Rightarrow> acq_node list
       \<Rightarrow> ('db node_manage, nat) prog" where
  "operate_chunk_acq_files env db operation app mqtt nodes =
     andDo (perform (on_config (operate_node_infos db operation app nodes (mqtt = None)))) (\<lambda>operate_nodes.
     if operate_nodes = [] then give (Ok 0)
     else
       andDo (give (create_uart_request env operation operate_nodes)) (\<lambda>d.
       andDo (info_request d mqtt) (\<lambda>_.
       andDo wait_operation_result (\<lambda>_.
       andDo (if mqtt = None then give (Ok ())
              else perform (on_config (update_node_config db operation app operate_nodes))) (\<lambda>_.
       give (Ok (length operate_nodes)))))))"

text \<open>The request of a chunk carries the reply topic put through \<^verbatim>\<open>MqttReqInfo::new\<close> once more.\<close>

definition chunk_req_info :: "mqtt_req_info option \<Rightarrow> mqtt_req_info option result" where
  "chunk_req_info mqtt =
     (case mqtt of None \<Rightarrow> Ok None
      | Some m \<Rightarrow> andThen (mqtt_req_info_new (mri_topic m) (mri_token m) None) (\<lambda>m'. Ok (Some m')))"

fun operate_chunks ::
    "env \<Rightarrow> 'db database \<Rightarrow> acq_operation \<Rightarrow> string \<Rightarrow> mqtt_req_info option \<Rightarrow> acq_node list list
       \<Rightarrow> ('db node_manage, unit) prog" where
  "operate_chunks env db operation app mqtt [] = give (Ok ())"
| "operate_chunks env db operation app mqtt (nodes # rest) =
     andDo (give (chunk_req_info mqtt)) (\<lambda>mqtt'.
     andDo (operate_chunk_acq_files env db operation app mqtt' nodes) (\<lambda>_.
     operate_chunks env db operation app mqtt rest))"

definition operate_acq_files ::
    "env \<Rightarrow> 'db database \<Rightarrow> acq_operation \<Rightarrow> string \<Rightarrow> mqtt_req_info option \<Rightarrow> acq_node list
       \<Rightarrow> ('db node_manage, unit) prog" where
  "operate_acq_files env db operation app mqtt nodes =
     operate_chunks env db operation app mqtt (chunks ACQ_FILES_CHUNK_SIZE nodes)"

definition mqtt_opration_acq_files ::
    "env \<Rightarrow> 'db database \<Rightarrow> acq_operation \<Rightarrow> mqtt_message \<Rightarrow> ('db node_manage, unit) prog" where
  "mqtt_opration_acq_files env db operation message =
     andDo (give (get_app (mm_topic message))) (\<lambda>app.
     andDo (ask nm_node_config) (\<lambda>t.
     case parse_node_infos operation t message app of
       Err e \<Rightarrow>
         andDo (reply (new_with_msg_status_reason env message Failure (error_text env e)))
           (\<lambda>_. give (Err e))
     | Panic p \<Rightarrow> give (Panic p)
     | Ok nodes \<Rightarrow>
         andDo (give (to_mqtt_req_info message)) (\<lambda>mqtt.
         andDo (catch (operate_acq_files env db operation app (Some mqtt) nodes)) (\<lambda>result.
         reply (result_into_mqtt_message env (unit_into_mqtt_message env mqtt) mqtt result)))))"

section \<open>Answers of the module\<close>

definition uart_operate_acq_files :: "uart_message \<Rightarrow> 'db node_manage \<Rightarrow> unit result \<times> 'db node_manage" where
  "uart_operate_acq_files message s =
     (case uart_response_try_from confirm_response_try_from (um_frame message) of
        Ok response \<Rightarrow> (Ok (), s\<lparr>nm_operation_result := Some (confirm_uart_response_to_result response)\<rparr>)
      | Err e \<Rightarrow> (Err e, s)
      | Panic p \<Rightarrow> (Panic p, s))"

definition uart_operate_acq_files_timeout :: "'db node_manage \<Rightarrow> 'db node_manage" where
  "uart_operate_acq_files_timeout s = s\<lparr>nm_operation_result := Some (Err (MqttResponseErr RequestTimeout))\<rparr>"

definition uart_clear_acq_files :: "uart_message \<Rightarrow> 'db node_manage \<Rightarrow> unit result \<times> 'db node_manage" where
  "uart_clear_acq_files message s =
     uart_operate_acq_files message (s\<lparr>nm_node_config := clear_all_app (nm_node_config s)\<rparr>)"

section \<open>Initialisation\<close>

definition init_clear_acq_files :: "('db node_manage, unit) prog" where
  "init_clear_acq_files =
     andDo (info_request (init_request_to_app_data Params) None) (\<lambda>_. wait_operation_result)"

definition dedup :: "acq_node list \<Rightarrow> acq_node list" where
  "dedup nodes = fold (\<lambda>n uart_nodes. if n \<in> set uart_nodes then uart_nodes else uart_nodes @ [n]) nodes []"

definition load_config ::
    "env \<Rightarrow> 'db database \<Rightarrow> ((string \<times> acq_node list) list \<Rightarrow> (string \<times> acq_node list) list)
       \<Rightarrow> ('db node_manage, unit) prog" where
  "load_config env db hash_order =
     andDo (perform (on_config (load_table db))) (\<lambda>nodes.
     operate_acq_files env db AddAcqFiles [] None (dedup (concat (map snd (hash_order nodes)))))"

section \<open>Queries\<close>

definition asks_module :: "u8 option \<Rightarrow> bool" where
  "asks_module query_cco = (case query_cco of None \<Rightarrow> False | Some q \<Rightarrow> q \<noteq> 0)"

definition node_info_request_from_json :: "json \<Rightarrow> (string \<times> string \<times> u8 option) result" where
  "node_info_request_from_json v =
     andThen (string_field v ''startIndex'') (\<lambda>start_index.
     andThen (string_field v ''curMeterNum'') (\<lambda>cur_meter_num.
     andThen (optional_word_field v ''query_cco'') (\<lambda>query_cco. Ok (start_index, cur_meter_num, query_cco))))"

definition mqtt_get_acq_files :: "env \<Rightarrow> mqtt_message \<Rightarrow> ('db node_manage, unit) prog" where
  "mqtt_get_acq_files env message =
     andDo (give (message_json node_info_request_from_json message)) (\<lambda>(start, cur, query_cco).
     andDo (give (parse_usize start)) (\<lambda>start_index.
     andDo (give (parse_usize cur)) (\<lambda>cur_meter_num.
     andDo (give (get_app (mm_topic message))) (\<lambda>app.
     if asks_module query_cco
     then
       andDo (give (to_mqtt_req_info message)) (\<lambda>mqtt.
       info_request (query_node_info_request_to_app_data
         \<lparr>pg_start = of_nat start_index, pg_node_number = of_nat cur_meter_num\<rparr>) (Some mqtt))
     else
       andDo (ask (\<lambda>s. get_node_infos (nm_node_config s) app start_index cur_meter_num)) (\<lambda>nodes.
       reply (new_with_msg_body env message (Some (Nested (JArr (map acq_node_to_json nodes))))))))))"

definition acq_node_from_detail :: "env \<Rightarrow> node_detail \<Rightarrow> acq_node" where
  "acq_node_from_detail env n =
     \<lparr>an_acq_addr = address_to_string (env_hex_encode env) (nd_src_addr n),
      an_pro_type = lower_hex2 (nd_comm_protocol_type n)\<rparr>"

definition mqtt_node_info_response_json :: "env \<Rightarrow> query_node_info_response \<Rightarrow> json" where
  "mqtt_node_info_response_json env r =
     JObj [(''body'', JArr (map (acq_node_to_json \<circ> acq_node_from_detail env) (qi_node_infos r)))]"

definition uart_get_acq_files :: "env \<Rightarrow> uart_message \<Rightarrow> action list result" where
  "uart_get_acq_files env =
     uart_response_handler env query_node_info_response_try_from (mqtt_node_info_response_json env) (into_flat env)"

definition acq_num_json :: "nat \<Rightarrow> json" where
  "acq_num_json n = JObj [(''acqNum'', JStr (decimal n))]"

definition mqtt_get_acq_files_number :: "env \<Rightarrow> mqtt_message \<Rightarrow> ('db node_manage, unit) prog" where
  "mqtt_get_acq_files_number env message =
     andDo (give (message_json (\<lambda>v. optional_word_field v ''query_cco'') message)) (\<lambda>query_cco.
     andDo (give (get_app (mm_topic message))) (\<lambda>app.
     if asks_module query_cco
     then
       andDo (give (to_mqtt_req_info message)) (\<lambda>mqtt.
       info_request query_node_number_request_to_app_data (Some mqtt))
     else
       andDo (ask (\<lambda>s. get_node_count (nm_node_config s) app)) (\<lambda>n.
       reply (new_with_msg_body env message (Some (Flat (acq_num_json n)))))))"

definition uart_get_acq_files_number :: "env \<Rightarrow> uart_message \<Rightarrow> action list result" where
  "uart_get_acq_files_number env =
     uart_response_handler env query_node_number_response_try_from (acq_num_json \<circ> unat \<circ> qn_node_number)
       (into_flat env)"

section \<open>A chunk\<close>

text \<open>What the module's answer, or its absence, leaves for the waiting thread.\<close>

definition acq_answered :: "unit result \<Rightarrow> 'db node_manage \<Rightarrow> 'db node_manage" where
  "acq_answered r s = s\<lparr>nm_operation_result := Some r\<rparr>"

lemma uart_operate_confirmed:
  "um_frame m = new_frame r seq a (confirm_response_to_app_data c) \<Longrightarrow>
     uart_operate_acq_files m = (\<lambda>s. (Ok (), acq_answered (Ok ()) s))"
  by (simp add: uart_operate_acq_files_def acq_answered_def fun_eq_iff)

lemma uart_operate_denied:
  "um_frame m = new_frame r seq a (deny_response_to_app_data e) \<Longrightarrow>
     uart_operate_acq_files m = (\<lambda>s. (Ok (), acq_answered (Err (deny_response_to_error e)) s))"
  by (simp add: uart_operate_acq_files_def acq_answered_def fun_eq_iff)

lemma uart_operate_late: "uart_operate_acq_files_timeout = acq_answered (Err (MqttResponseErr RequestTimeout))"
  by (simp add: uart_operate_acq_files_timeout_def acq_answered_def fun_eq_iff)

lemma andDo_wait_operation_result:
  "andDo wait_operation_result k (s, g) =
     ([], (s\<lparr>nm_operation_result := None\<rparr>, g),
      Waiting (\<lambda>(late, s, g). if nm_operation_result s = None then None
        else Some (andDo (give (the (nm_operation_result s))) k (s\<lparr>nm_operation_result := None\<rparr>, g))))"
  by (auto simp: wait_operation_result_def andDo_assoc andDo_wait_while fun_eq_iff)

text \<open>The request of an application whose nodes \<open>new\<close> the module is asked about.\<close>

lemma chunk_step:
  assumes "operate_node_infos db operation app nodes False (nm_node_config s) = (Ok new, t)" and "new \<noteq> []"
    and "create_uart_request env operation new = Ok (app_data_new a n u)"
  shows "deliver (acq_answered r) (operate_chunk_acq_files env db operation app (Some mqtt) nodes (s, g)) =
    sending [ToUart (request_message (SEQ g) None (app_data_new a n u) n (Some mqtt))]
      (andDo (give r) (\<lambda>_. andDo (perform (on_config (update_node_config db operation app new)))
         (\<lambda>_. give (Ok (length new))))
       (\<lparr>nm_node_config = t, nm_operation_result = None\<rparr>, g\<lparr>SEQ := SEQ g + 1\<rparr>))"
  using assms
  by (cases s)
    (simp add: operate_chunk_acq_files_def on_config_def andDo_info_request andDo_wait_operation_result
        deliver_Waiting acq_answered_def del: deliver.simps)

lemma create_uart_request_Ok:
  assumes "create_uart_request env operation nodes = Ok d"
  obtains a n u where "d = app_data_new a n u"
  using assms by (cases operation)
    (auto simp: add_node_request_to_app_data_def del_node_request_to_app_data_def intro: that)

section \<open>Registration\<close>

text \<open>The contract: each application sees a list of nodes. A registration appends the nodes it does not
  have yet, first those another application has, which are shared at once, then the new ones.\<close>

definition has_address :: "acq_node list \<Rightarrow> string \<Rightarrow> bool" where
  "has_address ns a \<longleftrightarrow> a \<in> an_acq_addr ` set ns"

definition shared_nodes :: "(string \<Rightarrow> acq_node list) \<Rightarrow> string \<Rightarrow> acq_node list \<Rightarrow> acq_node list" where
  "shared_nodes v app nodes =
     filter (\<lambda>n. (\<exists>app'. has_address (v app') (an_acq_addr n)) \<and> n \<notin> set (v app)) nodes"

definition new_nodes :: "(string \<Rightarrow> acq_node list) \<Rightarrow> acq_node list \<Rightarrow> acq_node list" where
  "new_nodes v nodes = filter (\<lambda>n. \<forall>app'. \<not> has_address (v app') (an_acq_addr n)) nodes"

lemma known_view: "known t a \<longleftrightarrow> (\<exists>app. has_address (get_all_node_infos t app) a)"
  by (simp add: known_def has_address_def)

lemma register_nodes:
  assumes "table_ok t" and "db_works db" and "distinct (map an_acq_addr nodes)" and "\<forall>n \<in> set nodes. agrees t n"
  obtains t' where
    "operate_node_infos db AddAcqFiles app nodes False t = (Ok (new_nodes (get_all_node_infos t) nodes), t')"
    and "table_ok t'"
    and "get_all_node_infos t' = (get_all_node_infos t)(app := get_all_node_infos t app
       @ shared_nodes (get_all_node_infos t) app nodes)"
proof (rule register_spec [OF assms(1,2,3,4), of app False])
  fix t'
  assume "try_filter (\<lambda>n t. thenS (add_node_info_exist db app n False t) (\<lambda>p t. (Ok (\<not> p), t))) nodes t
      = (Ok (filter (\<lambda>n. \<not> known t (an_acq_addr n)) nodes), t')"
    and "table_ok t'" and "get_all_node_infos t' = (get_all_node_infos t)(app := get_all_node_infos t app
       @ filter (\<lambda>n. known t (an_acq_addr n) \<and> n \<notin> set (get_all_node_infos t app)) nodes)"
  then show thesis by (intro that [of t']) (simp_all add: new_nodes_def shared_nodes_def known_view)
qed

text \<open>C9: The registration of a chunk refines its contract. The module is asked in one request about exactly
  the nodes no application has; when it confirms, the application's list has gained the shared nodes and the
  new ones and nothing else has changed; when it denies or does not answer, only the shared ones.\<close>

theorem registration_refines:
  fixes s :: "'db node_manage"
  defines "v \<equiv> get_all_node_infos (nm_node_config s)"
  assumes "table_ok (nm_node_config s)" and "db_works db"
    and "distinct (map an_acq_addr nodes)" and "\<forall>n \<in> set nodes. agrees (nm_node_config s) n"
    and "new_nodes v nodes \<noteq> []" and "traverse (to_uart_node_info env) (new_nodes v nodes) = Ok ns"
    and "r = Ok () \<or> r = Err e"
  shows "\<exists>s'. deliver (acq_answered r) (operate_chunk_acq_files env db AddAcqFiles app (Some mqtt) nodes (s, g)) =
      ([ToUart (request_message (SEQ g) None (add_node_request_to_app_data ns) (route_set_to_u8 AddNode) (Some mqtt))],
       (s', g\<lparr>SEQ := SEQ g + 1\<rparr>), Finished (andThen r (\<lambda>_. Ok (length (new_nodes v nodes)))))
    \<and> table_ok (nm_node_config s')
    \<and> get_all_node_infos (nm_node_config s') =
      v(app := v app @ shared_nodes v app nodes @ (if r = Ok () then new_nodes v nodes else []))"
proof -
  let ?new = "new_nodes v nodes"
  obtain t where t: "operate_node_infos db AddAcqFiles app nodes False (nm_node_config s) = (Ok ?new, t)" "table_ok t"
    and view: "get_all_node_infos t = v(app := v app @ shared_nodes v app nodes)"
    using register_nodes [OF assms(2-5), of app] unfolding v_def by blast
  have "create_uart_request env AddAcqFiles ?new = Ok (app_data_new RouteSet (route_set_to_u8 AddNode)
      (Some (of_nat (length ns) # concat (map node_info_to_vec ns))))"
    using assms(7) by (simp add: add_node_request_to_app_data_def)
  note step = chunk_step [OF t(1) assms(6) this, of r mqtt g, folded add_node_request_to_app_data_def]
  show ?thesis
  proof (cases "r = Ok ()")
    case True
    have fresh: "\<forall>n \<in> set ?new. \<not> known t (an_acq_addr n)"
    proof
      fix n
      assume n: "n \<in> set ?new"
      have "\<exists>app''. has_address (v app'') a" if "has_address (get_all_node_infos t app') a" for app' a
        using that by (auto simp: view shared_nodes_def has_address_def split: if_splits)
      with n show "\<not> known t (an_acq_addr n)" unfolding known_view new_nodes_def by auto
    qed
    have "distinct (map an_acq_addr ?new)" using assms(4) by (simp add: new_nodes_def distinct_map_filter)
    note checked = add_infos_checked_spec [OF t(2) this fresh, of app]
    obtain d where "add_node_infos_checked db app ?new t = (Ok (), fold (add_node_info_checked app) ?new t\<lparr>nt_db := d\<rparr>)"
      unfolding add_node_infos_checked_def using config_works(1) [OF assms(3)] by blast
    then show ?thesis
      using step checked True
      by (intro exI [of _ "\<lparr>nm_node_config = fold (add_node_info_checked app) ?new t\<lparr>nt_db := d\<rparr>, nm_operation_result = None\<rparr>"])
        (simp add: on_config_def give_def nt_db_update view)
  next
    case False
    then show ?thesis
      using step assms(8) t(2) view
      by (intro exI [of _ "\<lparr>nm_node_config = t, nm_operation_result = None\<rparr>"]) (auto simp: give_def)
  qed
qed

section \<open>Deletion\<close>

definition only_here :: "(string \<Rightarrow> acq_node list) \<Rightarrow> string \<Rightarrow> acq_node list \<Rightarrow> acq_node list" where
  "only_here v app nodes =
     filter (\<lambda>n. has_address (v app) (an_acq_addr n) \<and> (\<forall>app'. app' \<noteq> app \<longrightarrow> \<not> has_address (v app') (an_acq_addr n))) nodes"

lemma only_here_mine: "only_here (get_all_node_infos t) app nodes = filter (\<lambda>n. mine t app (an_acq_addr n)) nodes"
  by (auto simp: only_here_def mine_def elsewhere_def has_address_def intro: filter_cong)

lemma only_here_addr:
  "a \<in> an_acq_addr ` set (only_here (get_all_node_infos t) app nodes) \<longleftrightarrow> a \<in> an_acq_addr ` set nodes \<and> mine t app a"
  by (auto simp: only_here_mine)

lemma operate_delete:
  "operation \<noteq> AddAcqFiles \<Longrightarrow>
     operate_node_infos db operation app nodes initial t = try_filter (should_remove_node_info db app) nodes t"
  "operation \<noteq> AddAcqFiles \<Longrightarrow> update_node_config db operation app nodes t = remove_node_infos_checked db app nodes t"
  "operation \<noteq> AddAcqFiles \<Longrightarrow> create_uart_request env operation nodes = create_uart_request env DelAcqFiles nodes"
  by (cases operation; simp)+

lemma without_cong: "(\<And>n. n \<in> set ns \<Longrightarrow> an_acq_addr n \<in> as \<longleftrightarrow> an_acq_addr n \<in> bs) \<Longrightarrow> without as ns = without bs ns"
  by (auto simp: without_def intro: filter_cong)

text \<open>C10: The deletion of a chunk refines its contract. The module is asked to delete exactly the nodes this
  application has and no other; when it confirms, the list of the application has lost every node with a
  requested address and nothing else has changed.\<close>

theorem deletion_refines:
  fixes s :: "'db node_manage"
  defines "v \<equiv> get_all_node_infos (nm_node_config s)"
  assumes "table_ok (nm_node_config s)" and "db_works db" and "operation \<noteq> AddAcqFiles"
    and "distinct (map an_acq_addr nodes)" and "only_here v app nodes \<noteq> []"
    and "traverse (address_from_str (env_hex_decode env) \<circ> an_acq_addr) (only_here v app nodes) = Ok as"
  shows "\<exists>s'. deliver (acq_answered (Ok ())) (operate_chunk_acq_files env db operation app (Some mqtt) nodes (s, g)) =
      ([ToUart (request_message (SEQ g) None (del_node_request_to_app_data as) (route_set_to_u8 DelNode) (Some mqtt))],
       (s', g\<lparr>SEQ := SEQ g + 1\<rparr>), Finished (Ok (length (only_here v app nodes))))
    \<and> table_ok (nm_node_config s')
    \<and> get_all_node_infos (nm_node_config s') = v(app := without (an_acq_addr ` set nodes) (v app))"
proof -
  let ?old = "only_here v app nodes"
  obtain t where t: "try_filter (should_remove_node_info db app) nodes (nm_node_config s) = (Ok ?old, t)" "table_ok t"
    and view: "get_all_node_infos t = v(app := without {a \<in> an_acq_addr ` set nodes. elsewhere (nm_node_config s) app a} (v app))"
    using unregister_spec [OF assms(2,3), of app nodes] unfolding v_def only_here_mine by blast
  have "create_uart_request env operation ?old = Ok (app_data_new RouteSet (route_set_to_u8 DelNode)
      (Some (of_nat (length as) # concat (map address_to_vec as))))"
    using assms(7) by (simp add: operate_delete(3) [OF assms(4)] del_node_request_to_app_data_def)
  moreover have "operate_node_infos db operation app nodes False (nm_node_config s) = (Ok ?old, t)"
    using t(1) by (simp add: operate_delete(1) [OF assms(4)])
  ultimately have step: "deliver (acq_answered (Ok ())) (operate_chunk_acq_files env db operation app (Some mqtt) nodes (s, g)) =
    sending [ToUart (request_message (SEQ g) None (del_node_request_to_app_data as) (route_set_to_u8 DelNode) (Some mqtt))]
      (andDo (perform (on_config (update_node_config db operation app ?old)))
         (\<lambda>_. give (Ok (length ?old))) (\<lparr>nm_node_config = t, nm_operation_result = None\<rparr>, g\<lparr>SEQ := SEQ g + 1\<rparr>))"
    unfolding del_node_request_to_app_data_def by (simp only: chunk_step [OF _ assms(6)] andDo_give)
  have else_t: "elsewhere t app a = elsewhere (nm_node_config s) app a" for a
    by (auto simp: elsewhere_def view v_def)
  have still: "\<forall>n \<in> set ?old. mine t app (an_acq_addr n)"
    by (auto simp: v_def only_here_mine mine_def else_t view image_iff)
  have "distinct (map an_acq_addr ?old)" using assms(5) by (simp add: only_here_def distinct_map_filter)
  then obtain t2 where t2: "each (remove_node_info_checked app) ?old t = (Ok (), t2)" "table_ok t2"
    and view2: "get_all_node_infos t2 = (get_all_node_infos t)(app := without (an_acq_addr ` set ?old) (get_all_node_infos t app))"
    using remove_infos_checked_spec [OF t(2) _ still] by blast
  obtain d where d: "remove_node_infos_checked db app ?old t = (Ok (), t2\<lparr>nt_db := d\<rparr>)"
    unfolding remove_node_infos_checked_def t2(1) thenS.simps using config_works(2) [OF assms(3)] by blast
  have "without (an_acq_addr ` set ?old \<union> {a \<in> an_acq_addr ` set nodes. elsewhere (nm_node_config s) app a}) (v app)
      = without (an_acq_addr ` set nodes) (v app)"
    by (rule without_cong) (simp add: v_def only_here_addr mine_def, blast)
  then have "get_all_node_infos t2 = v(app := without (an_acq_addr ` set nodes) (v app))"
    by (simp add: view2 view without_without)
  then show ?thesis
    using step t2(2) d
    by (intro exI [of _ "\<lparr>nm_node_config = t2\<lparr>nt_db := d\<rparr>, nm_operation_result = None\<rparr>"])
      (simp add: on_config_def give_def nt_db_update operate_delete(2) [OF assms(4)])
qed

lemma sending_result: "snd (snd (sending acts t)) = snd (snd t)"
  by (cases t) simp

text \<open>A deletion that names a meter twice kills its thread. When the application is the last to have the
  meter, both entries pass the test, and after the module's confirmation the second one is looked up in vain
  with the lock of the table held.\<close>

theorem repeated_deletion_panics:
  assumes "table_ok (nm_node_config s)" and "db_works db"
    and "only_here (get_all_node_infos (nm_node_config s)) app [n] \<noteq> []"
    and "address_from_str (env_hex_decode env) (an_acq_addr n) = Ok a"
  shows "snd (snd (deliver (acq_answered (Ok ())) (operate_chunk_acq_files env db DelAcqFiles app (Some mqtt) [n, n] (s, g))))
    = Finished (Panic UnwrapOnNone)"
proof -
  let ?t = "nm_node_config s"
  have mine: "mine ?t app (an_acq_addr n)" using assms(3) by (auto simp: only_here_mine split: if_splits)
  then have both: "filter (\<lambda>m. mine ?t app (an_acq_addr m)) [n, n] = [n, n]" by simp
  obtain t where t: "try_filter (should_remove_node_info db app) [n, n] ?t = (Ok [n, n], t)" "table_ok t"
    and view: "get_all_node_infos t = (get_all_node_infos ?t)(app :=
       without {a \<in> an_acq_addr ` set [n, n]. elsewhere ?t app a} (get_all_node_infos ?t app))"
    using unregister_spec [OF assms(1,2), of app "[n, n]"] unfolding both by blast
  have "{a \<in> an_acq_addr ` set [n, n]. elsewhere ?t app a} = {}" using mine by (auto simp: mine_def)
  with view have "get_all_node_infos t = get_all_node_infos ?t" by (simp add: without_def)
  with mine have "mine t app (an_acq_addr n)" by (simp add: mine_def elsewhere_def)
  from remove_checked_spec [OF t(2) this] obtain t1 where t1: "remove_node_info_checked app n t = (Ok (), t1)"
    and view1: "get_all_node_infos t1 = (get_all_node_infos t)(app := without {an_acq_addr n} (get_all_node_infos t app))"
    by blast
  have "an_acq_addr (node_at t1 i) \<noteq> an_acq_addr n" if "i \<in> set (app_nodes t1 app)" for i
    using listed_address [OF that] by (auto simp: view1)
  then have "position (\<lambda>i. an_acq_addr (node_at t1 i) = an_acq_addr n) (app_nodes t1 app) = None"
    by (auto simp: position_None)
  then have "remove_node_info_checked app n t1 = (Panic UnwrapOnNone, t1)"
    by (simp add: remove_node_info_checked_def)
  with t1 have "remove_node_infos_checked db app [n, n] t = (Panic UnwrapOnNone, t1)"
    by (simp add: remove_node_infos_checked_def)
  then have "snd (perform (on_config (update_node_config db DelAcqFiles app [n, n])) (\<lparr>nm_node_config = t, nm_operation_result = None\<rparr>, g'))
      = ((\<lparr>nm_node_config = t1, nm_operation_result = None\<rparr>, g'), Finished (Panic UnwrapOnNone))" for g'
    by (simp add: perform_def on_config_def)
  then have dead: "snd (snd (andDo (perform (on_config (update_node_config db DelAcqFiles app [n, n]))) k
      (\<lparr>nm_node_config = t, nm_operation_result = None\<rparr>, g'))) = Finished (Panic UnwrapOnNone)" for k :: "unit \<Rightarrow> ('a node_manage, nat) prog" and g'
    using \<open>remove_node_infos_checked db app [n, n] t = (Panic UnwrapOnNone, t1)\<close>
    by (simp add: on_config_def give_def)
  have create: "create_uart_request env DelAcqFiles [n, n] = Ok (app_data_new RouteSet (route_set_to_u8 DelNode)
      (Some (of_nat (length [a, a]) # concat (map address_to_vec [a, a]))))"
    by (simp only: create_uart_request.simps traverse.simps o_apply assms(4) andThen.simps
        del_node_request_to_app_data_def)
  have operate: "operate_node_infos db DelAcqFiles app [n, n] False ?t = (Ok [n, n], t)"
    unfolding operate_node_infos.simps by (rule t(1))
  show ?thesis
    unfolding chunk_step [OF operate list.distinct(2) create] andDo_give
    by (simp only: sending_result dead)
qed

section \<open>Witnesses\<close>

text \<open>A database that stores nothing, a meter, and the table of an application that has it.\<close>

definition null_db :: "unit database" where
  "null_db = \<lparr>db_config_path = None, db_execute = (\<lambda>sql params d. (Ok (), d)), db_tables_like = (\<lambda>p d. Ok []),
     db_query = (\<lambda>sql d. Ok []), db_read_file = (\<lambda>p d. Err (Message [])), db_write_file = (\<lambda>p v d. (None, d))\<rparr>"

definition sample_meter :: acq_node where
  "sample_meter = \<lparr>an_acq_addr = ''000000000001'', an_pro_type = ''2''\<rparr>"

definition sample_node :: node_info where
  "sample_node = \<lparr>ni_src_addr = Address 0 0 0 0 0 1, ni_protocol_type = 2\<rparr>"

definition one_meter :: "unit node_manage" where
  "one_meter = \<lparr>nm_node_config = add_node_info_checked ''app'' sample_meter (node_table_new ()), nm_operation_result = None\<rparr>"

lemma null_db_works: "db_works null_db"
  by (simp add: db_works_def null_db_def)

lemma sample_node_info:
  "to_uart_node_info digits_env sample_meter = Ok sample_node"
  "address_from_str (env_hex_decode digits_env) (an_acq_addr sample_meter) = Ok (Address 0 0 0 0 0 1)"
  by code_simp+

lemma empty_table: "table_ok (node_table_new d)" "get_all_node_infos (node_table_new d) = (\<lambda>app. [])"
  by (simp_all add: table_ok_def node_table_new_def app_nodes_def get_all_node_infos_def fun_eq_iff)

lemma empty_agrees: "agrees (node_table_new d) n" "\<not> known (node_table_new d) a"
  by (simp_all add: agrees_def known_def empty_table)

lemma one_meter: "table_ok (nm_node_config one_meter)"
    "get_all_node_infos (nm_node_config one_meter) = (\<lambda>app. [])(''app'' := [sample_meter])"
  using add_checked_spec [OF empty_table(1) [of "()"] empty_agrees(2), of "''app''" sample_meter]
  by (simp_all add: one_meter_def empty_table(2))

theorem registration_refines_witness:
  "\<exists>s' :: unit node_manage. get_all_node_infos (nm_node_config s') = (\<lambda>app. [])(''app'' := [sample_meter])
     \<and> fst (snd (deliver (acq_answered (Ok ()))
         (operate_chunk_acq_files digits_env null_db AddAcqFiles ''app'' (Some app_req_info) [sample_meter]
            (node_manage_new (), \<lparr>SEQ = 5, TOKEN = 0\<rparr>)))) = (s', \<lparr>SEQ = 6, TOKEN = 0\<rparr>)"
proof -
  have "table_ok (nm_node_config (node_manage_new ()))"
    "distinct (map an_acq_addr [sample_meter])" "\<forall>n \<in> set [sample_meter]. agrees (nm_node_config (node_manage_new ())) n"
    "new_nodes (get_all_node_infos (nm_node_config (node_manage_new ()))) [sample_meter] \<noteq> []"
    "traverse (to_uart_node_info digits_env)
       (new_nodes (get_all_node_infos (nm_node_config (node_manage_new ()))) [sample_meter]) = Ok [sample_node]"
    by (simp_all add: node_manage_new_def empty_table empty_agrees new_nodes_def has_address_def sample_node_info)
  note registration_refines [OF this(1) null_db_works this(2-5) disjI1 [OF refl], of "''app''" app_req_info
      "\<lparr>SEQ = 5, TOKEN = 0\<rparr>"]
  then obtain s' where "fst (snd (deliver (acq_answered (Ok ()))
         (operate_chunk_acq_files digits_env null_db AddAcqFiles ''app'' (Some app_req_info) [sample_meter]
            (node_manage_new (), \<lparr>SEQ = 5, TOKEN = 0\<rparr>)))) = (s', \<lparr>SEQ = 6, TOKEN = 0\<rparr>)"
    "get_all_node_infos (nm_node_config s') = (\<lambda>app. [])(''app'' := [sample_meter])"
    by (auto simp: node_manage_new_def empty_table new_nodes_def shared_nodes_def has_address_def)
  then show ?thesis by blast
qed

lemma one_meter_only:
  "only_here (get_all_node_infos (nm_node_config one_meter)) ''app'' [sample_meter] = [sample_meter]"
  by (simp add: only_here_def one_meter(2) has_address_def)

theorem deletion_refines_witness:
  "\<exists>s' :: unit node_manage. get_all_node_infos (nm_node_config s') = (\<lambda>app. [])
     \<and> fst (snd (deliver (acq_answered (Ok ()))
         (operate_chunk_acq_files digits_env null_db DelAcqFiles ''app'' (Some app_req_info) [sample_meter]
            (one_meter, \<lparr>SEQ = 5, TOKEN = 0\<rparr>)))) = (s', \<lparr>SEQ = 6, TOKEN = 0\<rparr>)"
proof -
  have "DelAcqFiles \<noteq> AddAcqFiles" "distinct (map an_acq_addr [sample_meter])"
    "only_here (get_all_node_infos (nm_node_config one_meter)) ''app'' [sample_meter] \<noteq> []"
    "traverse (address_from_str (env_hex_decode digits_env) \<circ> an_acq_addr)
       (only_here (get_all_node_infos (nm_node_config one_meter)) ''app'' [sample_meter]) = Ok [Address 0 0 0 0 0 1]"
    unfolding one_meter_only by (simp_all add: sample_node_info(2))
  note deletion_refines [OF one_meter(1) null_db_works this, of app_req_info "\<lparr>SEQ = 5, TOKEN = 0\<rparr>"]
  then obtain s' where "fst (snd (deliver (acq_answered (Ok ()))
         (operate_chunk_acq_files digits_env null_db DelAcqFiles ''app'' (Some app_req_info) [sample_meter]
            (one_meter, \<lparr>SEQ = 5, TOKEN = 0\<rparr>)))) = (s', \<lparr>SEQ = 6, TOKEN = 0\<rparr>)"
    "get_all_node_infos (nm_node_config s') = (\<lambda>app. [])"
    by (auto simp: one_meter(2) without_def fun_upd_idem)
  then show ?thesis by blast
qed

theorem repeated_deletion_panics_witness:
  "snd (snd (deliver (acq_answered (Ok ())) (operate_chunk_acq_files digits_env null_db DelAcqFiles ''app''
     (Some app_req_info) [sample_meter, sample_meter] (one_meter, \<lparr>SEQ = 5, TOKEN = 0\<rparr>)))) = Finished (Panic UnwrapOnNone)"
proof -
  have "only_here (get_all_node_infos (nm_node_config one_meter)) ''app'' [sample_meter] \<noteq> []"
    unfolding one_meter_only by simp
  from repeated_deletion_panics [OF one_meter(1) null_db_works this sample_node_info(2), of app_req_info
      "\<lparr>SEQ = 5, TOKEN = 0\<rparr>"]
  show ?thesis .
qed

end
