(* ===== verification/Node_Storage.thy ===== *)
theory Node_Storage
  imports Node_Manage
begin

text \<open>
  The table of the registered meters and its database (node_config.rs, node_manage.rs). \<open>sql_database\<close> is what the
  service relies on of SQLite: the meaning of the statements of \<open>Node_Config\<close> for \<open>rows\<close>, the rows of each table
  of the file. Under it, registrations and clearings keep the rows equal to the lists of the table (\<open>stored\<close>), and
  loading restores the table from them; a deletion does not, as it looks for rows of the wrong type.

  Names of applications are limited to lower-case letters, digits and underscores: they become part of the
  statements unquoted, and SQLite does not distinguish cases.
\<close>

section \<open>The database\<close>

definition plain_name :: "string \<Rightarrow> bool" where
  "plain_name app \<longleftrightarrow>
     list_all (\<lambda>c. c = CHR ''_'' \<or> (48::nat) \<le> of_char c \<and> of_char c \<le> (57::nat) \<or> (97::nat) \<le> of_char c \<and> of_char c \<le> (122::nat)) app"

text \<open>The statements for one application.\<close>

definition create_sql :: "string \<Rightarrow> string" where
  "create_sql app = ''CREATE TABLE IF NOT EXISTS '' @ get_sql_table_name app
     @ '' (id INTEGER PRIMARY KEY AUTOINCREMENT, address TEXT, protocol TEXT)''"

definition insert_sql :: "string \<Rightarrow> string" where
  "insert_sql app = ''INSERT INTO '' @ get_sql_table_name app @ '' (address, protocol) VALUES (?, ?)''"

definition delete_sql :: "string \<Rightarrow> string" where
  "delete_sql app = ''DELETE FROM '' @ get_sql_table_name app @ '' WHERE address = ? AND protocol = ?''"

definition select_sql :: "string \<Rightarrow> string" where
  "select_sql app = ''SELECT address, protocol FROM '' @ get_sql_table_name app"

lemma statements:
  "create_sqlite_table db app = execute_sql db (create_sql app) []"
  "add_sqlite_config db app n = execute_sql db (insert_sql app) [an_acq_addr n, an_pro_type n]"
  "del_sqlite_config db app n = execute_sql db (delete_sql app) [an_acq_addr n, an_pro_type n]"
  by (simp_all add: create_sqlite_table_def add_sqlite_config_def del_sqlite_config_def create_sql_def insert_sql_def
      delete_sql_def)

definition sql_database :: "'db database \<Rightarrow> ('db \<Rightarrow> string \<Rightarrow> acq_node list option) \<Rightarrow> bool" where
  "sql_database db rows \<longleftrightarrow>
     db_works db \<and> db_config_path db = None
     \<and> (\<forall>app d. plain_name app \<longrightarrow> rows (snd (db_execute db (create_sql app) [] d)) =
            (case rows d (get_sql_table_name app) of
               None \<Rightarrow> (rows d)(get_sql_table_name app \<mapsto> []) | Some rs \<Rightarrow> rows d))
     \<and> (\<forall>app d rs a p. plain_name app \<longrightarrow> rows d (get_sql_table_name app) = Some rs \<longrightarrow>
            rows (snd (db_execute db (insert_sql app) [a, p] d)) =
              (rows d)(get_sql_table_name app \<mapsto> rs @ [\<lparr>an_acq_addr = a, an_pro_type = p\<rparr>]))
     \<and> (\<forall>app d rs a p. plain_name app \<longrightarrow> rows d (get_sql_table_name app) = Some rs \<longrightarrow>
            rows (snd (db_execute db (delete_sql app) [a, p] d)) =
              (rows d)(get_sql_table_name app \<mapsto> filter (\<lambda>n. n \<noteq> \<lparr>an_acq_addr = a, an_pro_type = p\<rparr>) rs))
     \<and> (\<forall>app d rs. plain_name app \<longrightarrow> rows d (get_sql_table_name app) = Some rs \<longrightarrow>
            db_query db (select_sql app) d = Ok rs)
     \<and> (\<forall>d. \<exists>names. db_tables_like db (SQL_TABLE_PREFIX @ ''%'') d = Ok names \<and> distinct names
          \<and> (\<forall>name \<in> set names. rows d name \<noteq> None)
          \<and> (\<forall>app. rows d (get_sql_table_name app) \<noteq> None \<longrightarrow> get_sql_table_name app \<in> set names))"

definition rows_of :: "('db \<Rightarrow> string \<Rightarrow> acq_node list option) \<Rightarrow> 'db node_table \<Rightarrow> string \<Rightarrow> acq_node list" where
  "rows_of rows t app = (case rows (nt_db t) (get_sql_table_name app) of None \<Rightarrow> [] | Some rs \<Rightarrow> rs)"

text \<open>The file holds the lists of the applications, and no table of anything else.\<close>

definition stored :: "('db \<Rightarrow> string \<Rightarrow> acq_node list option) \<Rightarrow> 'db node_table \<Rightarrow> bool" where
  "stored rows t \<longleftrightarrow>
     (\<forall>name. rows (nt_db t) name \<noteq> None \<longrightarrow> (\<exists>app. plain_name app \<and> name = get_sql_table_name app))
     \<and> (\<forall>app. rows_of rows t app = get_all_node_infos t app)"

lemma same_node:
  assumes "table_ok t" and "m \<in> set (get_all_node_infos t a)" and "n \<in> set (get_all_node_infos t b)"
    and "an_acq_addr m = an_acq_addr n"
  shows "m = n"
  using assms(2-) same_address [OF assms(1)] by (auto simp: get_all_node_infos_def)

lemma table_name_inject [simp]: "get_sql_table_name a = get_sql_table_name b \<longleftrightarrow> a = b"
  by (simp add: get_sql_table_name_def)

lemma acq_node_of_fields [simp]: "\<lparr>an_acq_addr = an_acq_addr n, an_pro_type = an_pro_type n\<rparr> = n"
  by simp


lemma sql_laws:
  assumes "sql_database db rows"
  shows "db_works db"
    and "plain_name app \<Longrightarrow> rows (snd (db_execute db (create_sql app) [] d)) =
      (rows d)(get_sql_table_name app \<mapsto> (case rows d (get_sql_table_name app) of None \<Rightarrow> [] | Some rs \<Rightarrow> rs))"
    and "plain_name app \<Longrightarrow> rows d (get_sql_table_name app) = Some rs \<Longrightarrow>
      rows (snd (db_execute db (insert_sql app) [an_acq_addr n, an_pro_type n] d)) = (rows d)(get_sql_table_name app \<mapsto> rs @ [n])"
    and "plain_name app \<Longrightarrow> rows d (get_sql_table_name app) = Some rs \<Longrightarrow>
      rows (snd (db_execute db (delete_sql app) [an_acq_addr n, an_pro_type n] d)) =
        (rows d)(get_sql_table_name app \<mapsto> filter (\<lambda>m. m \<noteq> n) rs)"
    and "plain_name app \<Longrightarrow> rows d (get_sql_table_name app) = Some rs \<Longrightarrow> db_query db (select_sql app) d = Ok rs"
    and "add_config db = add_db_config db" and "del_config db = del_db_config db" and "load_table db = load_config_from_db db"
  using assms unfolding sql_database_def
  by (simp_all add: fun_upd_idem add_config_def del_config_def load_table_def fun_eq_iff split: option.split)

lemma execute_sql_rows:
  "db_works db \<Longrightarrow> execute_sql db q ps t = (Ok (), t\<lparr>nt_db := snd (db_execute db q ps (nt_db t))\<rparr>)"
  unfolding db_works_def execute_sql_def by (cases "db_execute db q ps (nt_db t)") (simp, metis fst_conv)

text \<open>Adding rows to the table of an application, and deleting some from it.\<close>

lemma insert_rows:
  assumes "sql_database db rows" and "plain_name app" and "rows (nt_db t) (get_sql_table_name app) = Some rs"
  shows "\<exists>d. each (add_sqlite_config db app) nodes t = (Ok (), t\<lparr>nt_db := d\<rparr>)
    \<and> rows d = (rows (nt_db t))(get_sql_table_name app \<mapsto> rs @ nodes)"
  using assms(3)
proof (induction nodes arbitrary: t rs)
  case Nil
  then show ?case by (intro exI [of _ "nt_db t"]) (simp add: fun_upd_idem)
next
  case (Cons n ns)
  let ?d = "snd (db_execute db (insert_sql app) [an_acq_addr n, an_pro_type n] (nt_db t))"
  note step = sql_laws(3) [OF assms(1,2) Cons.prems, of n]
  have one: "add_sqlite_config db app n t = (Ok (), t\<lparr>nt_db := ?d\<rparr>)"
    by (simp add: statements execute_sql_rows [OF sql_laws(1) [OF assms(1)]])
  have "rows (nt_db (t\<lparr>nt_db := ?d\<rparr>)) (get_sql_table_name app) = Some (rs @ [n])" using step by simp
  from Cons.IH [OF this] obtain d where
    "each (add_sqlite_config db app) ns (t\<lparr>nt_db := ?d\<rparr>) = (Ok (), t\<lparr>nt_db := ?d\<rparr>\<lparr>nt_db := d\<rparr>)"
    "rows d = (rows (nt_db (t\<lparr>nt_db := ?d\<rparr>)))(get_sql_table_name app \<mapsto> (rs @ [n]) @ ns)"
    by blast
  then show ?case
    using step one by (intro exI [of _ d]) simp
qed

lemma delete_rows:
  assumes "sql_database db rows" and "plain_name app" and "rows (nt_db t) (get_sql_table_name app) = Some rs"
  shows "\<exists>d. del_config db app nodes t = (Ok (), t\<lparr>nt_db := d\<rparr>)
    \<and> rows d = (rows (nt_db t))(get_sql_table_name app \<mapsto> filter (\<lambda>n. n \<notin> set nodes) rs)"
  using assms(3) unfolding sql_laws(7) [OF assms(1)] del_db_config_def
proof (induction nodes arbitrary: t rs)
  case Nil
  then show ?case by (intro exI [of _ "nt_db t"]) (simp add: fun_upd_idem)
next
  case (Cons n ns)
  let ?d = "snd (db_execute db (delete_sql app) [an_acq_addr n, an_pro_type n] (nt_db t))"
  note step = sql_laws(4) [OF assms(1,2) Cons.prems, of n]
  have one: "del_sqlite_config db app n t = (Ok (), t\<lparr>nt_db := ?d\<rparr>)"
    by (simp add: statements execute_sql_rows [OF sql_laws(1) [OF assms(1)]])
  have "rows (nt_db (t\<lparr>nt_db := ?d\<rparr>)) (get_sql_table_name app) = Some (filter (\<lambda>m. m \<noteq> n) rs)" using step by simp
  from Cons.IH [OF this] obtain d where
    "each (del_sqlite_config db app) ns (t\<lparr>nt_db := ?d\<rparr>) = (Ok (), t\<lparr>nt_db := ?d\<rparr>\<lparr>nt_db := d\<rparr>)"
    "rows d = (rows (nt_db (t\<lparr>nt_db := ?d\<rparr>)))(get_sql_table_name app \<mapsto>
       filter (\<lambda>m. m \<notin> set ns) (filter (\<lambda>m. m \<noteq> n) rs))"
    by blast
  then show ?case
    using step one by (intro exI [of _ d]) (simp add: conj_commute)
qed

lemma add_rows:
  assumes "sql_database db rows" and "plain_name app"
  shows "\<exists>d. add_config db app nodes t = (Ok (), t\<lparr>nt_db := d\<rparr>)
    \<and> rows d = (rows (nt_db t))(get_sql_table_name app \<mapsto> rows_of rows t app @ nodes)"
proof -
  let ?d = "snd (db_execute db (create_sql app) [] (nt_db t))"
  note created = sql_laws(2) [OF assms, of "nt_db t"]
  have "rows (nt_db (t\<lparr>nt_db := ?d\<rparr>)) (get_sql_table_name app) = Some (rows_of rows t app)"
    using created by (simp add: rows_of_def)
  from insert_rows [OF assms this] obtain d where
    "each (add_sqlite_config db app) nodes (t\<lparr>nt_db := ?d\<rparr>) = (Ok (), t\<lparr>nt_db := ?d\<rparr>\<lparr>nt_db := d\<rparr>)"
    "rows d = (rows (nt_db (t\<lparr>nt_db := ?d\<rparr>)))(get_sql_table_name app \<mapsto> rows_of rows t app @ nodes)"
    by blast
  moreover have "create_sqlite_table db app t = (Ok (), t\<lparr>nt_db := ?d\<rparr>)"
    by (simp add: statements execute_sql_rows [OF sql_laws(1) [OF assms(1)]])
  ultimately show ?thesis using created by (intro exI [of _ d]) (simp add: sql_laws(6) [OF assms(1)] add_db_config_def)
qed

section \<open>What keeps the database equal to the table\<close>

lemma nt_db_set_app [simp]: "nt_db (set_app app ids t) = nt_db t"
  by (simp add: set_app_def)

lemma stored_same: "stored rows t \<Longrightarrow> get_all_node_infos t' = get_all_node_infos t \<Longrightarrow> nt_db t' = nt_db t \<Longrightarrow> stored rows t'"
  by (simp add: stored_def rows_of_def)

lemma stored_changed:
  assumes "stored rows t" and "plain_name app"
    and "rows (nt_db t') = (rows (nt_db t))(get_sql_table_name app \<mapsto> ns)"
    and "get_all_node_infos t' = (get_all_node_infos t)(app := ns)"
  shows "stored rows t'"
  using assms unfolding stored_def rows_of_def by (auto split: if_splits)

lemma exist_stored:
  assumes sql: "sql_database db rows" and "plain_name app"
    and "table_ok t" and "stored rows t" and run: "add_node_info_exist db app n False t = (r, t')"
  shows "table_ok t' \<and> stored rows t'"
proof -
  let ?t = "set_app app (app_nodes t app) t"
  have nodes: "app_nodes ?t = app_nodes t" "node_at ?t = node_at t" "get_all_node_infos ?t = get_all_node_infos t"
    by (simp_all add: table fun_upd_idem) (simp add: get_all_node_infos_def fun_upd_idem)
  have ok: "table_ok ?t" by (rule table_ok_set_app [OF assms(3)]) (use table_okD(2) [OF assms(3)] in auto)
  have same: "stored rows ?t" by (rule stored_same [OF assms(4)]) (simp_all add: nodes)
  show ?thesis
  proof (cases "find (\<lambda>i. an_acq_addr (node_at t i) = an_acq_addr n) (app_nodes t app)")
    case (Some i)
    then have "t' = ?t"
      using run by (cases "same_type (node_at t i) n") (auto simp: add_node_info_exist_def Let_def nodes)
    with ok same show ?thesis by simp
  next
    case absent: None
    show ?thesis
    proof (cases "get_node_info ?t (an_acq_addr n)")
      case None
      then have "t' = ?t" using run absent by (auto simp: add_node_info_exist_def Let_def nodes)
      with ok same show ?thesis by simp
    next
      case (Some i)
      from get_node_info_known(2) [OF ok this] obtain a where i: "an_acq_addr (node_at t i) = an_acq_addr n" "i \<in> set (app_nodes t a)"
        by (auto simp: nodes)
      show ?thesis
      proof (cases "an_pro_type (node_at t i) = an_pro_type n")
        case False
        then have "t' = ?t"
          using run absent Some by (auto simp: add_node_info_exist_def Let_def nodes same_type_def ensure_run)
        with ok same show ?thesis by simp
      next
        case True
        with i(1) have n: "node_at t i = n" by simp
        let ?t2 = "set_app app (app_nodes t app @ [i]) ?t"
        obtain d where d: "add_config db app [n] ?t2 = (Ok (), ?t2\<lparr>nt_db := d\<rparr>)"
          "rows d = (rows (nt_db ?t2))(get_sql_table_name app \<mapsto> rows_of rows ?t2 app @ [n])"
          using add_rows [OF sql assms(2), of "[n]" ?t2] by blast
        have "table_ok ?t2"
          by (rule table_ok_set_app [OF ok])
            (use table_okD(2) [OF assms(3)] absent i in \<open>auto simp: nodes find_None\<close>)
        moreover have "t' = ?t2\<lparr>nt_db := d\<rparr>"
          using run absent Some True n d(1) by (simp add: add_node_info_exist_def Let_def nodes same_type_def)
        moreover have "stored rows (?t2\<lparr>nt_db := d\<rparr>)"
        proof (rule stored_changed [OF assms(4,2)])
          have "rows_of rows ?t2 app = get_all_node_infos t app"
            using assms(4) by (simp add: stored_def rows_of_def)
          with d(2) show "rows (nt_db (?t2\<lparr>nt_db := d\<rparr>)) =
              (rows (nt_db t))(get_sql_table_name app \<mapsto> get_all_node_infos t app @ [n])" by simp
          show "get_all_node_infos (?t2\<lparr>nt_db := d\<rparr>) = (get_all_node_infos t)(app := get_all_node_infos t app @ [n])"
            by (simp add: table n) (simp add: get_all_node_infos_def)
        qed
        ultimately show ?thesis by (simp add: table)
      qed
    qed
  qed
qed

lemma should_remove_stored:
  assumes sql: "sql_database db rows" and "plain_name app"
    and "table_ok t" and "stored rows t" and run: "should_remove_node_info db app n t = (r, t')"
  shows "table_ok t' \<and> stored rows t'"
proof (cases "position (\<lambda>i. an_acq_addr (node_at t i) = an_acq_addr n) (app_nodes t app)")
  case None
  with run assms(3,4) show ?thesis by (simp add: should_remove_node_info_def)
next
  case (Some pos)
  note one = remove_one [OF assms(3) Some] and at = position_Some [OF Some]
  let ?i = "app_nodes t app ! pos"
  let ?t = "set_app app (remove_at pos (app_nodes t app)) t"
  have mem: "node_at t ?i \<in> set (get_all_node_infos t app)" using at by (simp add: get_all_node_infos_def)
  show ?thesis
  proof (cases "strong_count t ?i = 1")
    case True
    with Some run assms(3,4) show ?thesis by (simp add: should_remove_node_info_def Let_def)
  next
    case False
    have "get_all_node_infos t app \<noteq> []" using mem by auto
    then have "rows (nt_db ?t) (get_sql_table_name app) = Some (get_all_node_infos t app)"
      using assms(4) by (auto simp: stored_def rows_of_def split: option.splits)
    from delete_rows [OF sql assms(2) this, of "[node_at t ?i]"] obtain d where
      d: "del_config db app [node_at t ?i] ?t = (Ok (), ?t\<lparr>nt_db := d\<rparr>)"
      "rows d = (rows (nt_db t))(get_sql_table_name app \<mapsto> filter (\<lambda>n. n \<noteq> node_at t ?i) (get_all_node_infos t app))"
      by auto
    have t': "t' = ?t\<lparr>nt_db := d\<rparr>"
      using Some run False d(1) by (simp add: should_remove_node_info_def Let_def)
    have "m = node_at t ?i" if "m \<in> set (get_all_node_infos t app)" "an_acq_addr m = an_acq_addr n" for m
      using that at same_node [OF assms(3) that(1) mem] by simp
    then have "filter (\<lambda>m. m \<noteq> node_at t ?i) (get_all_node_infos t app) = without {an_acq_addr n} (get_all_node_infos t app)"
      unfolding without_def using at by (intro filter_cong) auto
    with d(2) have "rows (nt_db t') = (rows (nt_db t))(get_sql_table_name app \<mapsto> without {an_acq_addr n} (get_all_node_infos t app))"
      unfolding t' by simp
    moreover have "get_all_node_infos t' = (get_all_node_infos t)(app := without {an_acq_addr n} (get_all_node_infos t app))"
      unfolding t' nt_db_update by (rule one(2))
    ultimately have "stored rows t'" by (rule stored_changed [OF assms(4,2)])
    moreover have "table_ok t'" unfolding t' using one(1) by (simp add: table)
    ultimately show ?thesis by blast
  qed
qed

text \<open>The first half of any operation, which the module does not take part in.\<close>

lemma try_filter_keeps:
  "(\<And>x s r s'. I s \<Longrightarrow> f x s = (r, s') \<Longrightarrow> I s') \<Longrightarrow> I s \<Longrightarrow> try_filter f xs s = (r, s') \<Longrightarrow> I s'"
proof (induction xs arbitrary: s r s')
  case (Cons x xs)
  obtain r1 s1 where first: "f x s = (r1, s1)" by (cases "f x s")
  have "I s1" by (rule Cons.prems(1) [OF Cons.prems(2) first])
  show ?case
  proof (cases r1)
    case (Ok accepted)
    obtain r2 s2 where rest: "try_filter f xs s1 = (r2, s2)" by (cases "try_filter f xs s1")
    have "I s2" by (rule Cons.IH [OF Cons.prems(1) \<open>I s1\<close> rest])
    then show ?thesis using Cons.prems(3) first Ok rest by (cases r2) auto
  qed (use Cons.prems(3) first \<open>I s1\<close> in auto)
qed simp

lemma operate_stored:
  assumes sql: "sql_database db rows" "plain_name app" and ok: "table_ok t" "stored rows t"
    and run: "operate_node_infos db operation app nodes False t = (r, t')"
  shows "table_ok t' \<and> stored rows t'"
proof (cases operation)
  case AddAcqFiles
  let ?exist = "\<lambda>n t. thenS (add_node_info_exist db app n False t) (\<lambda>p t. (Ok (\<not> p), t))"
  have "table_ok s' \<and> stored rows s'" if "table_ok s \<and> stored rows s" "?exist n s = (r, s')" for n s r s'
  proof -
    obtain p s1 where exist: "add_node_info_exist db app n False s = (p, s1)"
      by (cases "add_node_info_exist db app n False s")
    with that(2) have "s' = s1" by (cases p) auto
    with exist_stored [OF sql _ _ exist] that(1) show ?thesis by blast
  qed
  moreover have "try_filter ?exist nodes t = (r, t')" using run AddAcqFiles by simp
  ultimately show ?thesis
    using try_filter_keeps [where I = "\<lambda>t. table_ok t \<and> stored rows t" and f = ?exist] ok by blast
next
  case DelAcqFiles
  with run have "try_filter (should_remove_node_info db app) nodes t = (r, t')" by simp
  from try_filter_keeps [where I = "\<lambda>t. table_ok t \<and> stored rows t", OF _ _ this] ok should_remove_stored [OF sql]
  show ?thesis by blast
next
  case ClearAcqFiles
  with run have "try_filter (should_remove_node_info db app) nodes t = (r, t')" by simp
  from try_filter_keeps [where I = "\<lambda>t. table_ok t \<and> stored rows t", OF _ _ this] ok should_remove_stored [OF sql]
  show ?thesis by blast
qed

text \<open>The second half, after the confirmation of the module.\<close>

lemma nt_db_add_checked [simp]: "nt_db (fold (add_node_info_checked app) ns t) = nt_db t"
  by (induction ns arbitrary: t) (simp_all add: add_node_info_checked_def Let_def)

lemma nt_db_remove_checked: "each (remove_node_info_checked app) ns t = (r, t') \<Longrightarrow> nt_db t' = nt_db t"
proof (induction ns arbitrary: t)
  case (Cons n ns)
  obtain r1 t1 where one: "remove_node_info_checked app n t = (r1, t1)" by (cases "remove_node_info_checked app n t")
  then have "nt_db t1 = nt_db t"
    by (auto simp: remove_node_info_checked_def Let_def split: option.splits)
  with Cons one show ?case by (cases r1) auto
qed simp

lemma update_add_stored:
  assumes "sql_database db rows" "plain_name app" "table_ok t" "stored rows t"
    and "distinct (map an_acq_addr nodes)" and "\<forall>n \<in> set nodes. \<not> known t (an_acq_addr n)"
  shows "\<exists>t'. add_node_infos_checked db app nodes t = (Ok (), t') \<and> table_ok t' \<and> stored rows t'
    \<and> get_all_node_infos t' = (get_all_node_infos t)(app := get_all_node_infos t app @ nodes)"
proof -
  note spec = add_infos_checked_spec [OF assms(3,5,6), of app]
  let ?t = "fold (add_node_info_checked app) nodes t"
  obtain d where d: "add_config db app nodes ?t = (Ok (), ?t\<lparr>nt_db := d\<rparr>)"
    "rows d = (rows (nt_db ?t))(get_sql_table_name app \<mapsto> rows_of rows ?t app @ nodes)"
    using add_rows [OF assms(1,2)] by blast
  have "rows_of rows ?t app = get_all_node_infos t app" using assms(4) by (simp add: stored_def rows_of_def)
  with d(2) have "stored rows (?t\<lparr>nt_db := d\<rparr>)"
    by (intro stored_changed [OF assms(4,2)]) (simp_all add: nt_db_update spec)
  with d(1) spec show ?thesis by (simp add: add_node_infos_checked_def nt_db_update)
qed

lemma update_remove_rows:
  assumes "sql_database db rows" "plain_name app" "table_ok t" "rows_of rows t app = get_all_node_infos t app"
    and "distinct (map an_acq_addr nodes)" "\<forall>n \<in> set nodes. mine t app (an_acq_addr n)" "nodes \<noteq> []"
  shows "\<exists>t'. remove_node_infos_checked db app nodes t = (Ok (), t') \<and> table_ok t'
    \<and> get_all_node_infos t' = (get_all_node_infos t)(app := without (an_acq_addr ` set nodes) (get_all_node_infos t app))
    \<and> rows (nt_db t') = (rows (nt_db t))(get_sql_table_name app \<mapsto> filter (\<lambda>n. n \<notin> set nodes) (get_all_node_infos t app))"
proof -
  obtain t1 where t1: "each (remove_node_info_checked app) nodes t = (Ok (), t1)" "table_ok t1"
    "get_all_node_infos t1 = (get_all_node_infos t)(app := without (an_acq_addr ` set nodes) (get_all_node_infos t app))"
    using remove_infos_checked_spec [OF assms(3,5,6)] by blast
  have "get_all_node_infos t app \<noteq> []" using assms(6,7) by (cases nodes) (auto simp: mine_def)
  then have "rows (nt_db t1) (get_sql_table_name app) = Some (get_all_node_infos t app)"
    using assms(4) nt_db_remove_checked [OF t1(1)] by (auto simp: rows_of_def split: option.splits)
  from delete_rows [OF assms(1,2) this, of nodes] obtain d where
    "del_config db app nodes t1 = (Ok (), t1\<lparr>nt_db := d\<rparr>)"
    "rows d = (rows (nt_db t1))(get_sql_table_name app \<mapsto> filter (\<lambda>n. n \<notin> set nodes) (get_all_node_infos t app))"
    by blast
  with t1 show ?thesis
    using nt_db_remove_checked [OF t1(1)] by (simp add: remove_node_infos_checked_def nt_db_update)
qed

section \<open>Loading\<close>

lemma add_exist_initial_db: "nt_db (snd (add_node_info_exist db app n True t)) = nt_db t"
proof -
  have "thenS (same_type i n, u) k =
      (if an_pro_type i = an_pro_type n then k () u
       else (Err (NodeConfigErr (TypeMismatch (an_pro_type n) (an_pro_type i))), u))"
    for i and u :: "'a node_table" and k :: "unit \<Rightarrow> 'a node_table \<Rightarrow> bool result \<times> 'a node_table"
    by (simp add: same_type_def ensure_def)
  then show ?thesis by (simp add: add_node_info_exist_def Let_def split: option.split)
qed

lemma add_nodes_loaded:
  assumes db: "db_works db" and "table_ok t" and "distinct (map an_acq_addr nodes)"
    and "\<forall>n \<in> set nodes. agrees t n" and "\<forall>n \<in> set nodes. an_acq_addr n \<notin> an_acq_addr ` set (get_all_node_infos t app)"
  shows "\<exists>t'. add_node_infos db app nodes t = (Ok (), t') \<and> table_ok t' \<and> nt_db t' = nt_db t
    \<and> get_all_node_infos t' = (get_all_node_infos t)(app := get_all_node_infos t app @ nodes)"
  using assms(2-) unfolding add_node_infos_def
proof (induction nodes arbitrary: t)
  case (Cons n ns)
  obtain t1 where t1: "add_node_info_exist db app n True t = (Ok (known t (an_acq_addr n)), t1)" "table_ok t1"
    and view: "get_all_node_infos t1 = (if known t (an_acq_addr n) \<and> n \<notin> set (get_all_node_infos t app)
       then (get_all_node_infos t)(app := get_all_node_infos t app @ [n]) else get_all_node_infos t)"
    using add_exist_spec [OF Cons.prems(1) db, of n app True] Cons.prems(3) by auto
  have db1: "nt_db t1 = nt_db t" using add_exist_initial_db [of db app n t] t1(1) by simp
  have "n \<notin> set (get_all_node_infos t app)" using Cons.prems(4) by force
  obtain t2 where t2: "add_node_info db app n t = (Ok (), t2)" "table_ok t2" "nt_db t2 = nt_db t"
    and view2: "get_all_node_infos t2 = (get_all_node_infos t)(app := get_all_node_infos t app @ [n])"
  proof (cases "known t (an_acq_addr n)")
    case True
    with t1 view db1 \<open>n \<notin> set (get_all_node_infos t app)\<close> show thesis
      by (intro that [of t1]) (simp_all add: add_node_info_def)
  next
    case False
    then have "\<not> known t1 (an_acq_addr n)" by (simp add: known_def view)
    note checked = add_checked_spec [OF t1(2) this, of app]
    with False t1 view db1 nt_db_add_checked [of app "[n]" t1] show thesis
      by (intro that [of "add_node_info_checked app n t1"]) (simp_all add: add_node_info_def)
  qed
  have "agrees t2 m" if "m \<in> set ns" for m
    using Cons.prems(2,3) that by (auto simp: agrees_def view2 image_iff split: if_splits)
  moreover have "an_acq_addr m \<notin> an_acq_addr ` set (get_all_node_infos t2 app)" if "m \<in> set ns" for m
    using Cons.prems(2,4) that by (auto simp: view2 image_iff)
  moreover have "distinct (map an_acq_addr ns)" using Cons.prems(2) by simp
  ultimately obtain t' where "each (add_node_info db app) ns t2 = (Ok (), t')" "table_ok t'" "nt_db t' = nt_db t2"
    "get_all_node_infos t' = (get_all_node_infos t2)(app := get_all_node_infos t2 app @ ns)"
    using Cons.IH [OF t2(2)] by blast
  with t2 show ?case by (simp add: view2 fun_eq_iff)
qed simp

text \<open>One more list of a table, into a table whose lists are of the same one or empty.\<close>

lemma load_list:
  assumes "db_works db" and ok: "table_ok t0" and "table_ok t" and none: "get_all_node_infos t app = []"
    and lists: "\<forall>a. get_all_node_infos t a = get_all_node_infos t0 a \<or> get_all_node_infos t a = []"
  shows "\<exists>t'. add_node_infos db app (get_all_node_infos t0 app) t = (Ok (), t') \<and> table_ok t' \<and> nt_db t' = nt_db t
    \<and> get_all_node_infos t' = (get_all_node_infos t)(app := get_all_node_infos t0 app)"
proof -
  let ?ns = "get_all_node_infos t0 app"
  have "distinct (map an_acq_addr ?ns)"
  proof -
    have "inj_on (\<lambda>i. an_acq_addr (node_at t0 i)) (set (app_nodes t0 app))"
      by (auto intro: inj_onI same_address [OF ok])
    then show ?thesis using table_okD(2) [OF ok] by (simp add: get_all_node_infos_def distinct_map o_def)
  qed
  moreover have "agrees t n" if "n \<in> set ?ns" for n
    unfolding agrees_def
  proof (intro allI ballI impI)
    fix a m
    assume m: "m \<in> set (get_all_node_infos t a)" "an_acq_addr m = an_acq_addr n"
    then have "m \<in> set (get_all_node_infos t0 a)" using lists by (metis empty_iff empty_set)
    then show "m = n" using same_node [OF ok] that m(2) by blast
  qed
  ultimately show ?thesis using add_nodes_loaded [OF assms(1,3), of ?ns app] by (auto simp: none)
qed

text \<open>Loading the tables of a file that holds the lists of a table.\<close>

lemma loaded_tables:
  assumes sql: "sql_database db rows" and ok: "table_ok t0"
    and "\<forall>name \<in> set names. \<exists>app. plain_name app \<and> name = get_sql_table_name app
      \<and> rows (nt_db t) name = Some (get_all_node_infos t0 app)"
    and "distinct names" and "table_ok t"
    and "\<forall>app. get_all_node_infos t app = (if get_sql_table_name app \<in> seen then get_all_node_infos t0 app else [])"
    and "seen \<inter> set names = {}"
  shows "\<exists>tables t'. load_tables db names t = (Ok tables, t') \<and> table_ok t' \<and> nt_db t' = nt_db t
    \<and> (\<forall>app. get_all_node_infos t' app =
        (if get_sql_table_name app \<in> seen \<union> set names then get_all_node_infos t0 app else []))"
  using assms(3-)
proof (induction names arbitrary: t seen)
  case (Cons name names)
  from Cons.prems(1) obtain app where app: "plain_name app" "name = get_sql_table_name app"
    "rows (nt_db t) name = Some (get_all_node_infos t0 app)" by auto
  let ?ns = "get_all_node_infos t0 app"
  have none: "get_all_node_infos t app = []" using Cons.prems(4,5) app(2) by auto
  have "\<forall>a. get_all_node_infos t a = get_all_node_infos t0 a \<or> get_all_node_infos t a = []"
    using Cons.prems(4) by simp
  from load_list [OF sql_laws(1) [OF sql] ok Cons.prems(3) none this] obtain t1 where
    t1: "add_node_infos db app ?ns t = (Ok (), t1)" "table_ok t1" "nt_db t1 = nt_db t"
      "get_all_node_infos t1 = (get_all_node_infos t)(app := ?ns)" by blast
  have view1: "get_all_node_infos t1 a = (if get_sql_table_name a \<in> insert name seen then get_all_node_infos t0 a else [])" for a
    using Cons.prems(4) t1(4) app(2) by auto
  have "\<forall>name \<in> set names. \<exists>app. plain_name app \<and> name = get_sql_table_name app
      \<and> rows (nt_db t1) name = Some (get_all_node_infos t0 app)"
    using Cons.prems(1) t1(3) by simp
  then obtain tables t' where rest: "load_tables db names t1 = (Ok tables, t')" "table_ok t'" "nt_db t' = nt_db t1"
    "\<forall>app. get_all_node_infos t' app =
        (if get_sql_table_name app \<in> insert name seen \<union> set names then get_all_node_infos t0 app else [])"
    using Cons.IH [of t1 "insert name seen"] Cons.prems(2,5) t1(2) view1 by auto
  have query: "db_query db (''SELECT address, protocol FROM '' @ name) (nt_db t) = Ok ?ns"
    using sql_laws(5) [OF sql app(1)] app(2,3) by (simp only: select_sql_def)
  have "slice_from name (length SQL_TABLE_PREFIX) = (Ok app :: string result)" "name \<noteq> []"
    by (simp_all add: app(2) get_sql_table_name_def slice_from_def SQL_TABLE_PREFIX_def)
  then have "load_tables db (name # names) t = (Ok ((app, ?ns) # tables), t')"
    unfolding load_tables.simps using t1(1) rest(1) query by (simp only: if_False thenS.simps)
  with rest t1(3) show ?case by auto
qed auto

text \<open>The state of the table itself does not matter, only that of its database.\<close>

lemma load_restores:
  assumes sql: "sql_database db rows" and "table_ok t0" and "stored rows (t0\<lparr>nt_db := nt_db t\<rparr>)" 
  shows "\<exists>tables t'. load_table db (clear_all_app t) = (Ok tables, t') \<and> table_ok t'
    \<and> get_all_node_infos t' = get_all_node_infos t0 \<and> nt_db t' = nt_db t"
proof -
  let ?c = "clear_all_app t"
  obtain names where names: "db_tables_like db (SQL_TABLE_PREFIX @ ''%'') (nt_db t) = Ok names" "distinct names"
    "\<forall>name \<in> set names. rows (nt_db t) name \<noteq> None"
    "\<forall>app. rows (nt_db t) (get_sql_table_name app) \<noteq> None \<longrightarrow> get_sql_table_name app \<in> set names"
    using sql unfolding sql_database_def by blast
  have view: "rows_of rows t app = get_all_node_infos t0 app" for app
    using assms(3) by (simp add: stored_def rows_of_def table)
  have tables: "\<forall>name \<in> set names. \<exists>app. plain_name app \<and> name = get_sql_table_name app
      \<and> rows (nt_db ?c) name = Some (get_all_node_infos t0 app)"
  proof
    fix name
    assume "name \<in> set names"
    then obtain rs where rs: "rows (nt_db t) name = Some rs" using names(3) by auto
    then obtain app where app: "plain_name app" "name = get_sql_table_name app"
      using assms(3) by (force simp: stored_def)
    with rs view [of app] have "rs = get_all_node_infos t0 app" by (simp add: rows_of_def)
    with app rs show "\<exists>app. plain_name app \<and> name = get_sql_table_name app
        \<and> rows (nt_db ?c) name = Some (get_all_node_infos t0 app)" by (auto simp: clear_all_app_def)
  qed
  have "\<forall>app. get_all_node_infos ?c app = (if get_sql_table_name app \<in> {} then get_all_node_infos t0 app else [])"
    by (simp add: cleared_table)
  from loaded_tables [OF sql assms(2) tables names(2) cleared_table(1) this] obtain tables t' where
    loaded: "load_tables db names ?c = (Ok tables, t')" "table_ok t'" "nt_db t' = nt_db ?c"
    "\<forall>app. get_all_node_infos t' app = (if get_sql_table_name app \<in> set names then get_all_node_infos t0 app else [])"
    by auto
  have "get_all_node_infos t0 app = []" if "get_sql_table_name app \<notin> set names" for app
    using that names(4) view [of app] by (auto simp: rows_of_def split: option.splits)
  with loaded(4) have "get_all_node_infos t' = get_all_node_infos t0" by auto
  moreover have "load_table db ?c = (Ok tables, t')"
    using names(1) loaded(1) by (simp add: sql_laws(8) [OF sql] load_config_from_db_def clear_all_app_def)
  ultimately show ?thesis using loaded(2,3) by (simp add: clear_all_app_def)
qed

section \<open>Properties\<close>

text \<open>C12: The database follows the table. When an application registers meters or clears its list, then before the
  module's confirmation and after it the rows of the file are exactly the lists of the table.\<close>

theorem database_follows_table:
  assumes sql: "sql_database db rows" "plain_name app" and ok: "table_ok t" "stored rows t"
    and nodes: "distinct (map an_acq_addr nodes)"
      "operation = AddAcqFiles \<and> (\<forall>n \<in> set nodes. agrees t n)
        \<or> operation = ClearAcqFiles \<and> set nodes \<subseteq> set (get_all_node_infos t app)"
  shows "\<exists>new t1. operate_node_infos db operation app nodes False t = (Ok new, t1) \<and> table_ok t1 \<and> stored rows t1
    \<and> (new = [] \<or> (\<exists>t2. update_node_config db operation app new t1 = (Ok (), t2) \<and> table_ok t2 \<and> stored rows t2))"
  using nodes(2)
proof
  assume add: "operation = AddAcqFiles \<and> (\<forall>n \<in> set nodes. agrees t n)"
  let ?new = "new_nodes (get_all_node_infos t) nodes"
  obtain t1 where t1: "operate_node_infos db AddAcqFiles app nodes False t = (Ok ?new, t1)"
    and view: "get_all_node_infos t1 = (get_all_node_infos t)(app := get_all_node_infos t app
       @ shared_nodes (get_all_node_infos t) app nodes)"
    using register_nodes [OF ok(1) sql_laws(1) [OF sql(1)] nodes(1), of app] add by blast
  have "\<not> known t1 (an_acq_addr n)" if "n \<in> set ?new" for n
  proof -
    have "\<exists>b. has_address (get_all_node_infos t b) a" if "has_address (get_all_node_infos t1 c) a" for a c
      using that by (auto simp: view shared_nodes_def has_address_def split: if_splits)
    with that show ?thesis unfolding known_view new_nodes_def by auto
  qed
  moreover have "distinct (map an_acq_addr ?new)" using nodes(1) by (simp add: new_nodes_def distinct_map_filter)
  ultimately show ?thesis
    using operate_stored [OF sql ok t1] t1 add update_add_stored [OF sql, of t1 ?new] by auto
next
  assume clear: "operation = ClearAcqFiles \<and> set nodes \<subseteq> set (get_all_node_infos t app)"
  let ?old = "filter (\<lambda>n. mine t app (an_acq_addr n)) nodes"
  obtain t1 where t1: "operate_node_infos db ClearAcqFiles app nodes False t = (Ok ?old, t1)"
    and view: "get_all_node_infos t1 = (get_all_node_infos t)(app :=
       without {a \<in> an_acq_addr ` set nodes. elsewhere t app a} (get_all_node_infos t app))"
    using unregister_spec [OF ok(1) sql_laws(1) [OF sql(1)], of app nodes] by auto
  note stored1 = operate_stored [OF sql ok t1]
  have mine1: "\<forall>n \<in> set ?old. mine t1 app (an_acq_addr n)"
    by (auto simp: mine_def elsewhere_def view image_iff)
  have listed: "set ?old \<subseteq> set (get_all_node_infos t1 app)"
    using clear by (auto simp: view mine_def)
  have "m \<in> set ?old" if "m \<in> set (get_all_node_infos t1 app)" "an_acq_addr m \<in> an_acq_addr ` set ?old" for m
  proof -
    from that(2) obtain n where n: "n \<in> set ?old" "an_acq_addr m = an_acq_addr n" by auto
    moreover from this have "n \<in> set (get_all_node_infos t1 app)" using listed by blast
    ultimately have "m = n" using same_node [OF conjunct1 [OF stored1] that(1)] by blast
    with n(1) show ?thesis by simp
  qed
  then have exact: "filter (\<lambda>n. n \<notin> set ?old) (get_all_node_infos t1 app) =
      without (an_acq_addr ` set ?old) (get_all_node_infos t1 app)"
    unfolding without_def by (intro filter_cong) (auto simp del: set_filter)
  have dist: "distinct (map an_acq_addr ?old)" using nodes(1) by (simp add: distinct_map_filter)
  have rows1: "rows_of rows t1 app = get_all_node_infos t1 app" using stored1 by (simp add: stored_def)
  show ?thesis
  proof (cases "?old = []")
    case True
    with t1 stored1 clear show ?thesis by auto
  next
    case False
    obtain t2 where t2: "remove_node_infos_checked db app ?old t1 = (Ok (), t2)" "table_ok t2"
      and view2: "get_all_node_infos t2 = (get_all_node_infos t1)(app := without (an_acq_addr ` set ?old) (get_all_node_infos t1 app))"
      and rows2: "rows (nt_db t2) = (rows (nt_db t1))(get_sql_table_name app \<mapsto> without (an_acq_addr ` set ?old) (get_all_node_infos t1 app))"
      using update_remove_rows [OF sql conjunct1 [OF stored1] rows1 dist mine1 False] unfolding exact by blast
    have "stored rows t2" by (rule stored_changed [OF conjunct2 [OF stored1] sql(2) rows2 view2])
    with t1 t2 stored1 clear show ?thesis by auto
  qed
qed

text \<open>C13: The table survives a restart. From a file that holds the lists of a table, loading gives the same lists in
  the same order with the nodes shared as before, whatever was in memory.\<close>

theorem restart_restores_table:
  assumes "sql_database db rows" and "table_ok t" and "stored rows t" and "nt_db u = nt_db t"
  shows "\<exists>tables t'. load_table db (clear_all_app u) = (Ok tables, t') \<and> table_ok t' \<and> stored rows t'
    \<and> get_all_node_infos t' = get_all_node_infos t"
proof -
  have "stored rows (t\<lparr>nt_db := nt_db u\<rparr>)" using assms(3,4) by simp
  from load_restores [OF assms(1,2) this] obtain tables t' where
    "load_table db (clear_all_app u) = (Ok tables, t')" "table_ok t'"
    "get_all_node_infos t' = get_all_node_infos t" "nt_db t' = nt_db t"
    using assms(4) by auto
  with stored_same [OF assms(3), of t'] show ?thesis by blast
qed

text \<open>What a deletion gives as the node to delete: its type is not that of the meter.\<close>

definition deleted_node :: "acq_node \<Rightarrow> acq_node" where
  "deleted_node n = \<lparr>an_acq_addr = an_acq_addr n, an_pro_type = ''0''\<rparr>"

lemma deleted_node_parsed: "del_acq_file_from_json (JObj [(''acqAddr'', JStr (an_acq_addr n))]) = Ok (deleted_node n)"
  by (simp add: del_acq_file_from_json_def deleted_node_def)

text \<open>C34: A deleted meter comes back. When an application deletes a meter no other has, the module confirms it and
  the list loses it, but the row of the meter stays in the file, since the deletion asks for a row of type 0.
  The next initialisation registers the meter again, with everything else as before the deletion.\<close>

theorem deleted_meter_comes_back:
  assumes sql: "sql_database db rows" "plain_name app" and ok: "table_ok t" "stored rows t"
    and n: "n \<in> set (get_all_node_infos t app)" "\<not> elsewhere t app (an_acq_addr n)"
    and types: "\<forall>m \<in> set (get_all_node_infos t app). an_pro_type m \<noteq> ''0''"
  shows "del_acq_file_from_json (JObj [(''acqAddr'', JStr (an_acq_addr n))]) = Ok (deleted_node n)
    \<and> (\<exists>t1 t2 tables t3. operate_node_infos db DelAcqFiles app [deleted_node n] False t = (Ok [deleted_node n], t1)
      \<and> update_node_config db DelAcqFiles app [deleted_node n] t1 = (Ok (), t2) \<and> n \<notin> set (get_all_node_infos t2 app)
      \<and> load_table db (clear_all_app t2) = (Ok tables, t3) \<and> get_all_node_infos t3 = get_all_node_infos t)"
proof -
  have addr: "an_acq_addr (deleted_node n) = an_acq_addr n" by (simp add: deleted_node_def)
  have mine: "mine t app (an_acq_addr n)" using n by (auto simp: mine_def)
  obtain t1 where t1: "operate_node_infos db DelAcqFiles app [deleted_node n] False t = (Ok [deleted_node n], t1)"
    and view1: "get_all_node_infos t1 = (get_all_node_infos t)(app :=
       without {a \<in> an_acq_addr ` set [deleted_node n]. elsewhere t app a} (get_all_node_infos t app))"
    using unregister_spec [OF ok(1) sql_laws(1) [OF sql(1)], of app "[deleted_node n]"] mine by (auto simp: addr)
  have "{a \<in> an_acq_addr ` set [deleted_node n]. elsewhere t app a} = {}" using n(2) by (auto simp: addr)
  with view1 have same: "get_all_node_infos t1 = get_all_node_infos t" by (simp add: without_def)
  note stored1 = operate_stored [OF sql ok t1]
  have rows1: "rows_of rows t1 app = get_all_node_infos t1 app" using stored1 by (simp add: stored_def)
  have dist: "distinct (map an_acq_addr [deleted_node n])" by simp
  have mine1: "\<forall>m \<in> set [deleted_node n]. mine t1 app (an_acq_addr m)"
    using mine by (simp add: addr mine_def elsewhere_def same)
  obtain t2 where t2: "remove_node_infos_checked db app [deleted_node n] t1 = (Ok (), t2)"
    and view2: "get_all_node_infos t2 = (get_all_node_infos t1)(app :=
       without (an_acq_addr ` set [deleted_node n]) (get_all_node_infos t1 app))"
    and rows2: "rows (nt_db t2) = (rows (nt_db t1))(get_sql_table_name app \<mapsto>
       filter (\<lambda>m. m \<notin> set [deleted_node n]) (get_all_node_infos t1 app))"
    using update_remove_rows [OF sql conjunct1 [OF stored1] rows1 dist mine1] by blast
  have "filter (\<lambda>m. m \<notin> set [deleted_node n]) (get_all_node_infos t1 app) = get_all_node_infos t1 app"
  proof (rule filter_True, rule ballI)
    fix m
    assume "m \<in> set (get_all_node_infos t1 app)"
    with types have "an_pro_type m \<noteq> an_pro_type (deleted_node n)" by (simp add: same deleted_node_def)
    then show "m \<notin> set [deleted_node n]" by auto
  qed
  with rows2 have "rows (nt_db t2) = (rows (nt_db t1))(get_sql_table_name app \<mapsto> get_all_node_infos t1 app)" by simp
  then have "stored rows (t1\<lparr>nt_db := nt_db t2\<rparr>)"
    by (intro stored_changed [OF conjunct2 [OF stored1] sql(2), where ns = "get_all_node_infos t1 app"])
      (simp_all add: nt_db_update)
  from load_restores [OF sql(1) conjunct1 [OF stored1] this] obtain tables t3 where
    "load_table db (clear_all_app t2) = (Ok tables, t3)" "get_all_node_infos t3 = get_all_node_infos t"
    by (auto simp: same)
  moreover have "n \<notin> set (get_all_node_infos t2 app)" by (simp add: view2 addr)
  ultimately show ?thesis using t1 t2 deleted_node_parsed by auto
qed

section \<open>Witnesses\<close>

text \<open>A database in memory, which reads the name of the table from the statement.\<close>

definition table_name_after :: "string \<Rightarrow> string \<Rightarrow> string option" where
  "table_name_after prefix sql =
     (if take (length prefix) sql = prefix then Some (takeWhile (\<lambda>c. c \<noteq> CHR '' '') (drop (length prefix) sql)) else None)"

definition memory_rows :: "(string \<times> acq_node list) list \<Rightarrow> string \<Rightarrow> acq_node list" where
  "memory_rows d name = (case map_of d name of None \<Rightarrow> [] | Some rs \<Rightarrow> rs)"

definition row :: "string list \<Rightarrow> acq_node" where
  "row ps = \<lparr>an_acq_addr = hd ps, an_pro_type = hd (tl ps)\<rparr>"

definition memory_execute :: "string \<Rightarrow> string list \<Rightarrow> (string \<times> acq_node list) list \<Rightarrow> (string \<times> acq_node list) list" where
  "memory_execute sql ps d =
     (case table_name_after ''CREATE TABLE IF NOT EXISTS '' sql of
        Some name \<Rightarrow> AList.update name (memory_rows d name) d
      | None \<Rightarrow>
     (case table_name_after ''INSERT INTO '' sql of
        Some name \<Rightarrow> AList.update name (memory_rows d name @ [row ps]) d
      | None \<Rightarrow>
     (case table_name_after ''DELETE FROM '' sql of
        Some name \<Rightarrow> AList.update name (filter (\<lambda>n. n \<noteq> row ps) (memory_rows d name)) d
      | None \<Rightarrow> d)))"

definition memory_db :: "(string \<times> acq_node list) list database" where
  "memory_db = \<lparr>db_config_path = None, db_execute = (\<lambda>sql ps d. (Ok (), memory_execute sql ps d)),
     db_tables_like = (\<lambda>pattern d. Ok (remdups (map fst d))),
     db_query = (\<lambda>sql d. case table_name_after ''SELECT address, protocol FROM '' sql of
        None \<Rightarrow> Ok [] | Some name \<Rightarrow> Ok (memory_rows d name)),
     db_read_file = (\<lambda>path d. Err (Message ''No such file'')), db_write_file = (\<lambda>path v d. (None, d))\<rparr>"

lemma plain_no_space: "plain_name app \<Longrightarrow> CHR '' '' \<notin> set app"
  unfolding plain_name_def list_all_iff by (rule notI, drule (1) bspec) simp

lemma name_read:
  assumes "plain_name app" and "rest = [] \<or> hd rest = CHR '' ''"
  shows "table_name_after prefix (prefix @ get_sql_table_name app @ rest) = Some (get_sql_table_name app)"
proof -
  have "\<forall>c \<in> set (get_sql_table_name app). c \<noteq> CHR '' ''"
    using plain_no_space [OF assms(1)] by (simp add: get_sql_table_name_def SQL_TABLE_PREFIX_def) blast
  then have "takeWhile (\<lambda>c. c \<noteq> CHR '' '') (get_sql_table_name app @ rest)
      = get_sql_table_name app @ takeWhile (\<lambda>c. c \<noteq> CHR '' '') rest"
    by (intro takeWhile_append2) auto
  then show ?thesis using assms(2) by (cases rest) (auto simp: table_name_after_def)
qed

lemma other_statement: "c \<noteq> c' \<Longrightarrow> table_name_after (c # prefix) (c' # sql) = None"
  by (simp add: table_name_after_def)

lemma names_read:
  assumes "plain_name app"
  shows "table_name_after ''CREATE TABLE IF NOT EXISTS '' (create_sql app) = Some (get_sql_table_name app)"
    and "table_name_after ''CREATE TABLE IF NOT EXISTS '' (insert_sql app) = None"
    and "table_name_after ''CREATE TABLE IF NOT EXISTS '' (delete_sql app) = None"
    and "table_name_after ''INSERT INTO '' (insert_sql app) = Some (get_sql_table_name app)"
    and "table_name_after ''INSERT INTO '' (delete_sql app) = None"
    and "table_name_after ''DELETE FROM '' (delete_sql app) = Some (get_sql_table_name app)"
    and "table_name_after ''SELECT address, protocol FROM '' (select_sql app) = Some (get_sql_table_name app)"
proof -
  show "table_name_after ''SELECT address, protocol FROM '' (select_sql app) = Some (get_sql_table_name app)"
    using name_read [OF assms disjI1 [OF refl]] unfolding select_sql_def append_Nil2 .
  show "table_name_after ''CREATE TABLE IF NOT EXISTS '' (create_sql app) = Some (get_sql_table_name app)"
    unfolding create_sql_def by (rule name_read [OF assms disjI2]) (rule list.sel(1))
  show "table_name_after ''INSERT INTO '' (insert_sql app) = Some (get_sql_table_name app)"
    unfolding insert_sql_def by (rule name_read [OF assms disjI2]) (rule list.sel(1))
  show "table_name_after ''DELETE FROM '' (delete_sql app) = Some (get_sql_table_name app)"
    unfolding delete_sql_def by (rule name_read [OF assms disjI2]) (rule list.sel(1))
  show "table_name_after ''CREATE TABLE IF NOT EXISTS '' (insert_sql app) = None"
    "table_name_after ''CREATE TABLE IF NOT EXISTS '' (delete_sql app) = None"
    "table_name_after ''INSERT INTO '' (delete_sql app) = None"
    unfolding insert_sql_def delete_sql_def append_Cons by (rule other_statement, simp)+
qed

lemma memory_rows_Some: "map_of d name = Some rs \<Longrightarrow> memory_rows d name = rs"
  by (simp add: memory_rows_def)

lemma memory_sql: "sql_database memory_db map_of"
  unfolding sql_database_def
proof (intro conjI allI impI)
  show "db_works memory_db" "db_config_path memory_db = None" by (simp_all add: db_works_def memory_db_def)
next
  fix app d
  assume "plain_name app"
  then show "map_of (snd (db_execute memory_db (create_sql app) [] d)) =
      (case map_of d (get_sql_table_name app) of
         None \<Rightarrow> (map_of d)(get_sql_table_name app \<mapsto> []) | Some rs \<Rightarrow> map_of d)"
    by (simp add: memory_db_def memory_execute_def names_read row_def update_conv' memory_rows_def fun_upd_idem split: option.split)
next
  fix app rs a p and d :: "(string \<times> acq_node list) list"
  assume "plain_name app" and "map_of d (get_sql_table_name app) = Some rs"
  then show "map_of (snd (db_execute memory_db (insert_sql app) [a, p] d)) =
      (map_of d)(get_sql_table_name app \<mapsto> rs @ [\<lparr>an_acq_addr = a, an_pro_type = p\<rparr>])"
    by (simp add: memory_db_def memory_execute_def names_read row_def update_conv' memory_rows_Some)
next
  fix app rs a p and d :: "(string \<times> acq_node list) list"
  assume "plain_name app" and "map_of d (get_sql_table_name app) = Some rs"
  then show "map_of (snd (db_execute memory_db (delete_sql app) [a, p] d)) =
      (map_of d)(get_sql_table_name app \<mapsto> filter (\<lambda>n. n \<noteq> \<lparr>an_acq_addr = a, an_pro_type = p\<rparr>) rs)"
    by (simp add: memory_db_def memory_execute_def names_read row_def update_conv' memory_rows_Some)
next
  fix app rs and d :: "(string \<times> acq_node list) list"
  assume "plain_name app" and "map_of d (get_sql_table_name app) = Some rs"
  then show "db_query memory_db (select_sql app) d = Ok rs"
    by (simp add: memory_db_def names_read memory_rows_Some)
next
  fix d :: "(string \<times> acq_node list) list"
  show "\<exists>names. db_tables_like memory_db (SQL_TABLE_PREFIX @ ''%'') d = Ok names \<and> distinct names
      \<and> (\<forall>name \<in> set names. map_of d name \<noteq> None)
      \<and> (\<forall>app. map_of d (get_sql_table_name app) \<noteq> None \<longrightarrow> get_sql_table_name app \<in> set names)"
    by (intro exI [of _ "remdups (map fst d)"]) (simp add: memory_db_def map_of_eq_None_iff)
qed

text \<open>A table with one meter, which is in the file too.\<close>

definition stored_table :: "(string \<times> acq_node list) list node_table" where
  "stored_table = add_node_info_checked ''app'' sample_meter (node_table_new [(get_sql_table_name ''app'', [sample_meter])])"

lemma stored_table:
  "table_ok stored_table" "get_all_node_infos stored_table = (\<lambda>app. [])(''app'' := [sample_meter])"
  "nt_db stored_table = [(get_sql_table_name ''app'', [sample_meter])]"
  using nt_db_add_checked [of "''app''" "[sample_meter]" "node_table_new [(get_sql_table_name ''app'', [sample_meter])]"]
  by (simp_all add: stored_table_def add_checked_spec [OF empty_table(1) empty_agrees(2)] empty_table(2))
    (simp add: node_table_new_def)

lemma plain_app: "plain_name ''app''"
  by code_simp

lemma stored_table_stored: "stored map_of stored_table"
  using plain_app by (auto simp: stored_def rows_of_def stored_table(2,3))

theorem database_follows_table_witness:
  "\<exists>new t1 t2. operate_node_infos memory_db ClearAcqFiles ''app'' [sample_meter] False stored_table = (Ok new, t1)
     \<and> table_ok t1 \<and> stored map_of t1
     \<and> (new = [] \<or> update_node_config memory_db ClearAcqFiles ''app'' new t1 = (Ok (), t2) \<and> table_ok t2 \<and> stored map_of t2)"
proof -
  have "distinct (map an_acq_addr [sample_meter])"
    "set [sample_meter] \<subseteq> set (get_all_node_infos stored_table ''app'')" by (simp_all add: stored_table)
  from database_follows_table [OF memory_sql plain_app stored_table(1) stored_table_stored this(1) disjI2 [OF conjI [OF refl this(2)]]]
  show ?thesis by blast
qed

theorem restart_restores_table_witness:
  "\<exists>tables t'. load_table memory_db (clear_all_app (node_table_new (nt_db stored_table))) = (Ok tables, t')
     \<and> table_ok t' \<and> get_all_node_infos t' = (\<lambda>app. [])(''app'' := [sample_meter])"
  using restart_restores_table [OF memory_sql stored_table(1) stored_table_stored, of "node_table_new (nt_db stored_table)"]
  by (simp add: stored_table(2)) (auto simp: node_table_new_def)

theorem deleted_meter_comes_back_witness:
  "del_acq_file_from_json (JObj [(''acqAddr'', JStr (an_acq_addr sample_meter))]) = Ok (deleted_node sample_meter)
   \<and> (\<exists>t1 t2 tables t3.
     operate_node_infos memory_db DelAcqFiles ''app'' [deleted_node sample_meter] False stored_table = (Ok [deleted_node sample_meter], t1)
     \<and> update_node_config memory_db DelAcqFiles ''app'' [deleted_node sample_meter] t1 = (Ok (), t2)
     \<and> sample_meter \<notin> set (get_all_node_infos t2 ''app'')
     \<and> load_table memory_db (clear_all_app t2) = (Ok tables, t3)
     \<and> get_all_node_infos t3 = (\<lambda>app. [])(''app'' := [sample_meter]))"
proof -
  have "sample_meter \<in> set (get_all_node_infos stored_table ''app'')"
    "\<not> elsewhere stored_table ''app'' (an_acq_addr sample_meter)"
    "\<forall>m \<in> set (get_all_node_infos stored_table ''app''). an_pro_type m \<noteq> ''0''"
    by (auto simp: stored_table elsewhere_def sample_meter_def)
  from deleted_meter_comes_back [OF memory_sql plain_app stored_table(1) stored_table_stored this]
  show ?thesis unfolding stored_table(2) .
qed

end
