(* ===== verification/Node_File.thy ===== *)
theory Node_File
  imports Node_Storage
begin

text \<open>
  The rest of node_config.rs, which the service never calls: removing without the module, forgetting an application,
  saving the whole table, and the table that is kept in a JSON file. What is saved there is what is loaded, and
  in a file, unlike in the database, a deleted meter is gone.

  The names lose their underscores. \<^verbatim>\<open>_size\<close> and \<^verbatim>\<open>GlobalNodeConfig::_get_all_node_infos\<close>, which walk through the
  \<^verbatim>\<open>HashMap\<close> of the addresses, are left out.
\<close>

section \<open>Operations\<close>

definition global_remove_node_info :: "acq_node \<Rightarrow> 'db node_table \<Rightarrow> unit result \<times> 'db node_table" where
  "global_remove_node_info node t =
     (case nt_global t (an_acq_addr node) of
        Some _ \<Rightarrow> (Ok (), t\<lparr>nt_global := (nt_global t)(an_acq_addr node := None)\<rparr>)
      | None \<Rightarrow> (Err (NodeConfigErr (NodeNotFound (an_acq_addr node))), t))"

definition remove_node_info ::
    "'db database \<Rightarrow> string \<Rightarrow> acq_node \<Rightarrow> 'db node_table \<Rightarrow> unit result \<times> 'db node_table" where
  "remove_node_info db app node t =
     thenS (should_remove_node_info db app node t) (\<lambda>remove t.
     if remove then remove_node_info_checked app node t else (Ok (), t))"

definition remove_node_infos ::
    "'db database \<Rightarrow> string \<Rightarrow> acq_node list \<Rightarrow> 'db node_table \<Rightarrow> unit result \<times> 'db node_table" where
  "remove_node_infos db app nodes t = each (remove_node_info db app) nodes t"

definition clear_app :: "string \<Rightarrow> 'db node_table \<Rightarrow> unit result \<times> 'db node_table" where
  "clear_app app t =
     (case map_of (nt_data t) app of
        None \<Rightarrow> (Ok (), t)
      | Some ids \<Rightarrow>
          each (\<lambda>i t. global_remove_node_info (node_at t i) t) ids (t\<lparr>nt_data := AList.delete app (nt_data t)\<rparr>))"

definition app_node_info :: "'db node_table \<Rightarrow> string \<Rightarrow> nat \<Rightarrow> acq_node option" where
  "app_node_info t app idx =
     (if idx < length (app_nodes t app) then Some (node_at t (app_nodes t app ! idx)) else None)"

definition get_node_info_by_addr :: "'db node_table \<Rightarrow> string \<Rightarrow> string \<Rightarrow> acq_node option" where
  "get_node_info_by_addr t app acq_addr =
     map_option (node_at t) (find (\<lambda>i. an_acq_addr (node_at t i) = acq_addr) (app_nodes t app))"

definition get_all_app_node_infos :: "'db node_table \<Rightarrow> (string \<times> acq_node list) list" where
  "get_all_app_node_infos t = map (\<lambda>(app, ids). (app, map (node_at t) ids)) (nt_data t)"

definition drop_sqlite_table :: "'db database \<Rightarrow> string \<Rightarrow> 'db node_table \<Rightarrow> unit result \<times> 'db node_table" where
  "drop_sqlite_table db app = execute_sql db (''DROP TABLE IF EXISTS '' @ get_sql_table_name app) []"

definition save_app_to_db ::
    "'db database \<Rightarrow> string \<times> nat list \<Rightarrow> 'db node_table \<Rightarrow> unit result \<times> 'db node_table" where
  "save_app_to_db db entry t =
     thenS (drop_sqlite_table db (fst entry) t) (\<lambda>_ t.
     thenS (create_sqlite_table db (fst entry) t) (\<lambda>_.
     each (\<lambda>i t. add_sqlite_config db (fst entry) (node_at t i) t) (snd entry)))"

definition save_config_to_db :: "'db database \<Rightarrow> 'db node_table \<Rightarrow> unit result \<times> 'db node_table" where
  "save_config_to_db db t = each (save_app_to_db db) (nt_data t) t"

definition save_config :: "'db database \<Rightarrow> 'db node_table \<Rightarrow> unit result \<times> 'db node_table" where
  "save_config db t =
     (case db_config_path db of
        Some config_path \<Rightarrow> save_config_to_file db config_path t
      | None \<Rightarrow> save_config_to_db db t)"

section \<open>Removing\<close>

text \<open>One removal without the module: the application loses the address, the others keep their lists.\<close>

lemma remove_node_info_spec:
  assumes ok: "table_ok t" and db: "db_works db"
  shows "\<exists>t'. remove_node_info db app n t = (Ok (), t') \<and> table_ok t'
    \<and> get_all_node_infos t' = (get_all_node_infos t)(app := without {an_acq_addr n} (get_all_node_infos t app))"
proof -
  let ?a = "an_acq_addr n"
  obtain t1 where t1: "should_remove_node_info db app n t = (Ok (mine t app ?a), t1)" "table_ok t1"
    and view: "get_all_node_infos t1 = (get_all_node_infos t)(app :=
       without {a. a = ?a \<and> elsewhere t app a} (get_all_node_infos t app))"
    using should_remove_spec [OF ok db] by blast
  show ?thesis
  proof (cases "mine t app ?a")
    case True
    then have "{a. a = ?a \<and> elsewhere t app a} = {}" by (auto simp: mine_def)
    with view have same: "get_all_node_infos t1 = get_all_node_infos t" by (simp add: without_def)
    with True have "mine t1 app ?a" by (simp add: mine_def elsewhere_def)
    from remove_checked_spec [OF t1(2) this] obtain t2 where "remove_node_info_checked app n t1 = (Ok (), t2)" "table_ok t2"
      "get_all_node_infos t2 = (get_all_node_infos t1)(app := without {?a} (get_all_node_infos t1 app))" by blast
    with t1(1) True same show ?thesis by (simp add: remove_node_info_def)
  next
    case False
    then have "without {a. a = ?a \<and> elsewhere t app a} (get_all_node_infos t app) = without {?a} (get_all_node_infos t app)"
      unfolding without_def mine_def by (intro filter_cong) (auto simp: image_iff)
    with view t1 False show ?thesis by (simp add: remove_node_info_def)
  qed
qed

lemma remove_node_infos_spec:
  assumes "table_ok t" and "db_works db"
  shows "\<exists>t'. remove_node_infos db app nodes t = (Ok (), t') \<and> table_ok t'
    \<and> get_all_node_infos t' = (get_all_node_infos t)(app := without (an_acq_addr ` set nodes) (get_all_node_infos t app))"
  using assms(1) unfolding remove_node_infos_def
proof (induction nodes arbitrary: t)
  case Nil
  then show ?case by (simp add: without_def)
next
  case (Cons n ns)
  obtain t1 where t1: "remove_node_info db app n t = (Ok (), t1)" "table_ok t1"
    "get_all_node_infos t1 = (get_all_node_infos t)(app := without {an_acq_addr n} (get_all_node_infos t app))"
    using remove_node_info_spec [OF Cons.prems assms(2)] by blast
  from Cons.IH [OF t1(2)] obtain t2 where "each (remove_node_info db app) ns t1 = (Ok (), t2)" "table_ok t2"
    "get_all_node_infos t2 = (get_all_node_infos t1)(app := without (an_acq_addr ` set ns) (get_all_node_infos t1 app))"
    by blast
  with t1 show ?case by (simp add: without_without fun_eq_iff)
qed

text \<open>Forgetting an application drops its meters from the addresses, also those another application has: the
  table is then no longer one that shares nodes.\<close>

lemma each_global_remove:
  "each (\<lambda>i t. global_remove_node_info (node_at t i) t) ids t = (Ok (), t') \<Longrightarrow>
     nt_data t' = nt_data t \<and> nt_store t' = nt_store t
     \<and> (\<forall>a. a \<in> (\<lambda>i. an_acq_addr (node_at t i)) ` set ids \<or> nt_global t a = None \<longrightarrow> nt_global t' a = None)"
proof (induction ids arbitrary: t)
  case (Cons i ids)
  let ?t = "t\<lparr>nt_global := (nt_global t)(an_acq_addr (node_at t i) := None)\<rparr>"
  have at: "node_at ?t = node_at t" by (simp add: node_at_def fun_eq_iff)
  from Cons.prems have "each (\<lambda>i t. global_remove_node_info (node_at t i) t) ids ?t = (Ok (), t')"
    by (auto simp: global_remove_node_info_def split: option.splits)
  from Cons.IH [OF this] show ?case by (auto simp: at)
qed simp

lemma clear_app_forgets_shared:
  assumes "i \<in> set (app_nodes t a)" and "i \<in> set (app_nodes t b)" and "a \<noteq> b" and "clear_app a t = (Ok (), t')"
  shows "app_nodes t' b = app_nodes t b" and "nt_global t' (an_acq_addr (node_at t i)) = None" and "\<not> table_ok t'"
proof -
  obtain ids where ids: "map_of (nt_data t) a = Some ids" "i \<in> set ids"
    using assms(1) by (cases "map_of (nt_data t) a") (auto simp: app_nodes_def)
  let ?t = "t\<lparr>nt_data := AList.delete a (nt_data t)\<rparr>"
  have at: "node_at ?t = node_at t" by (simp add: node_at_def fun_eq_iff)
  from ids(1) assms(4) have "each (\<lambda>i t. global_remove_node_info (node_at t i) t) ids ?t = (Ok (), t')"
    by (simp add: clear_app_def)
  note removed = each_global_remove [OF this, unfolded at]
  show list: "app_nodes t' b = app_nodes t b"
    using removed assms(3) by (simp add: app_nodes_def delete_conv')
  show none: "nt_global t' (an_acq_addr (node_at t i)) = None" using removed ids(2) by auto
  have "node_at t' i = node_at t i" using removed by (simp add: node_at_def)
  with none list assms(2) show "\<not> table_ok t'" using table_okD(4) [of t' i b] by auto
qed

section \<open>The table in a file\<close>

definition json_file :: "'db database \<Rightarrow> string \<Rightarrow> bool" where
  "json_file db path \<longleftrightarrow> db_config_path db = Some path \<and> db_works db
     \<and> (\<forall>v d. db_read_file db path (snd (db_write_file db path v d)) = Ok v)"

definition file_holds :: "'db database \<Rightarrow> string \<Rightarrow> 'db node_table \<Rightarrow> bool" where
  "file_holds db path t \<longleftrightarrow> db_read_file db path (nt_db t) = Ok (saved_table t)"

lemma saved_table_db: "saved_table (t\<lparr>nt_db := d\<rparr>) = saved_table t"
  by (simp add: saved_table_def node_at_def)

lemma save_file:
  assumes "json_file db path"
  shows "\<exists>d. save_config_to_file db path t = (Ok (), t\<lparr>nt_db := d\<rparr>) \<and> file_holds db path (t\<lparr>nt_db := d\<rparr>)"
proof -
  obtain r d where written: "db_write_file db path (saved_table t) (nt_db t) = (r, d)" by fastforce
  then have "r = None" using assms [unfolded json_file_def db_works_def] by (metis fst_conv)
  moreover have "db_read_file db path d = Ok (saved_table t)"
    using assms [unfolded json_file_def] written by (metis snd_conv)
  ultimately show ?thesis using written by (intro exI [of _ d]) (simp add: save_config_to_file_def file_holds_def saved_table_db)
qed

text \<open>After a confirmed update, and after saving, the file holds the table.\<close>

lemma save_config_holds: "json_file db path \<Longrightarrow> save_config db t = (r, t') \<Longrightarrow> r = Ok () \<and> file_holds db path t'"
  using save_file [of db path t] by (auto simp: save_config_def json_file_def)

lemma add_config_holds: "json_file db path \<Longrightarrow> add_config db app nodes t = (r, t') \<Longrightarrow> r = Ok () \<and> file_holds db path t'"
  and del_config_holds: "json_file db path \<Longrightarrow> del_config db app nodes t = (r, t') \<Longrightarrow> r = Ok () \<and> file_holds db path t'"
  using save_file [of db path t] by (auto simp: add_config_def del_config_def json_file_def)

lemma update_holds:
  assumes "json_file db path" and "update_node_config db operation app nodes t = (Ok (), t')"
  shows "file_holds db path t'"
proof -
  have "file_holds db path t'" if removed: "remove_node_infos_checked db app nodes t = (Ok (), t')"
  proof -
    obtain r t1 where "each (remove_node_info_checked app) nodes t = (r, t1)" by fastforce
    with removed have "del_config db app nodes t1 = (Ok (), t')" by (cases r) (simp_all add: remove_node_infos_checked_def)
    from del_config_holds [OF assms(1) this] show ?thesis ..
  qed
  moreover have "file_holds db path t'" if "add_node_infos_checked db app nodes t = (Ok (), t')"
    using add_config_holds [OF assms(1) that [unfolded add_node_infos_checked_def]] ..
  ultimately show ?thesis using assms(2) by (cases operation) simp_all
qed

lemma node_json [simp]: "acq_node_from_json (acq_node_to_json n) = Ok n"
  by (simp add: acq_node_from_json_def acq_node_to_json_def)

lemma nodes_json [simp]: "traverse acq_node_from_json (map (\<lambda>i. acq_node_to_json (f i)) ids) = Ok (map f ids)"
  by (induction ids) simp_all

lemma loaded_lists:
  assumes db: "db_works db" and ok: "table_ok t0"
    and "set entries \<subseteq> set (nt_data t0)" and "distinct (map fst entries)" and "table_ok t"
    and "\<forall>app. get_all_node_infos t app = (if app \<in> seen then get_all_node_infos t0 app else [])"
    and "seen \<inter> fst ` set entries = {}"
  shows "\<exists>tables t'. load_lists db path
       (map (\<lambda>(app, ids). (app, JArr (map (\<lambda>i. acq_node_to_json (node_at t0 i)) ids))) entries) t = (Ok tables, t')
    \<and> table_ok t' \<and> nt_db t' = nt_db t
    \<and> (\<forall>app. get_all_node_infos t' app = (if app \<in> seen \<union> fst ` set entries then get_all_node_infos t0 app else []))"
  using assms(3-)
proof (induction entries arbitrary: t seen)
  case (Cons entry entries)
  obtain app ids where entry: "entry = (app, ids)" by (cases entry)
  have "map_of (nt_data t0) app = Some ids"
    using Cons.prems(1) table_okD(1) [OF ok] by (auto simp: entry)
  then have nodes: "map (node_at t0) ids = get_all_node_infos t0 app"
    by (simp add: get_all_node_infos_def app_nodes_def)
  have none: "get_all_node_infos t app = []" using Cons.prems(4,5) by (auto simp: entry)
  have "\<forall>a. get_all_node_infos t a = get_all_node_infos t0 a \<or> get_all_node_infos t a = []"
    using Cons.prems(4) by simp
  from load_list [OF db ok Cons.prems(3) none this] obtain t1 where
    t1: "add_node_infos db app (get_all_node_infos t0 app) t = (Ok (), t1)" "table_ok t1" "nt_db t1 = nt_db t"
      "get_all_node_infos t1 = (get_all_node_infos t)(app := get_all_node_infos t0 app)" by blast
  have "\<forall>a. get_all_node_infos t1 a = (if a \<in> insert app seen then get_all_node_infos t0 a else [])"
    using Cons.prems(4) t1(4) by auto
  then obtain tables t' where rest: "load_lists db path
       (map (\<lambda>(app, ids). (app, JArr (map (\<lambda>i. acq_node_to_json (node_at t0 i)) ids))) entries) t1 = (Ok tables, t')"
    "table_ok t'" "nt_db t' = nt_db t1"
    "\<forall>a. get_all_node_infos t' a = (if a \<in> insert app seen \<union> fst ` set entries then get_all_node_infos t0 a else [])"
    using Cons.IH [of t1 "insert app seen"] Cons.prems(1,2,5) t1(2) by (auto simp: entry)
  then show ?case using t1 by (intro exI conjI) (auto simp: entry nodes)
qed auto

theorem saved_file_restores_table:
  assumes "json_file db path" and ok: "table_ok t" and "file_holds db path t" and "nt_db u = nt_db t"
  shows "\<exists>tables t'. load_table db (clear_all_app u) = (Ok tables, t') \<and> table_ok t' \<and> nt_db t' = nt_db t
    \<and> get_all_node_infos t' = get_all_node_infos t"
proof -
  let ?c = "clear_all_app u"
  note empty = cleared_table [of u]
  have db: "db_works db" "db_config_path db = Some path" using assms(1) by (simp_all add: json_file_def)
  from loaded_lists [OF db(1) ok subset_refl table_okD(1) [OF ok] empty(1), of "{}" path] obtain tables t' where
    loaded: "load_lists db path (map (\<lambda>(app, ids). (app, JArr (map (\<lambda>i. acq_node_to_json (node_at t i)) ids))) (nt_data t)) ?c
      = (Ok tables, t')" "table_ok t'" "nt_db t' = nt_db ?c"
    "\<forall>app. get_all_node_infos t' app = (if app \<in> fst ` set (nt_data t) then get_all_node_infos t app else [])"
    by (auto simp: empty(2))
  have "get_all_node_infos t app = []" if "app \<notin> fst ` set (nt_data t)" for app
  proof -
    have "map_of (nt_data t) app = None" using that by (simp add: map_of_eq_None_iff)
    then show ?thesis by (simp add: get_all_node_infos_def app_nodes_def)
  qed
  with loaded(4) have "get_all_node_infos t' = get_all_node_infos t" by auto
  moreover have "load_table db ?c = (Ok tables, t')"
    using assms(3) loaded(1) unfolding file_holds_def saved_table_def
    by (simp add: load_table_def load_config_from_file_def db(2) empty(3) assms(4))
  ultimately show ?thesis using loaded(2,3) by (simp add: empty(3) assms(4))
qed

text \<open>In a file a confirmed deletion is final, whatever types the deleted nodes name.\<close>

corollary file_deletion_is_final:
  assumes json: "json_file db path" and ok: "table_ok t"
    and "distinct (map an_acq_addr nodes)" and "\<forall>n \<in> set nodes. mine t app (an_acq_addr n)"
  shows "\<exists>t1 tables t2. remove_node_infos_checked db app nodes t = (Ok (), t1)
    \<and> load_table db (clear_all_app t1) = (Ok tables, t2)
    \<and> get_all_node_infos t2 = (get_all_node_infos t)(app := without (an_acq_addr ` set nodes) (get_all_node_infos t app))"
proof -
  obtain t1 where t1: "each (remove_node_info_checked app) nodes t = (Ok (), t1)" "table_ok t1"
    "get_all_node_infos t1 = (get_all_node_infos t)(app := without (an_acq_addr ` set nodes) (get_all_node_infos t app))"
    using remove_infos_checked_spec [OF ok assms(3,4)] by blast
  obtain d where d: "save_config_to_file db path t1 = (Ok (), t1\<lparr>nt_db := d\<rparr>)" "file_holds db path (t1\<lparr>nt_db := d\<rparr>)"
    using save_file [OF json] by blast
  have "table_ok (t1\<lparr>nt_db := d\<rparr>)" using t1(2) by (simp add: nt_db_update)
  from saved_file_restores_table [OF json this d(2) refl] t1 d(1) json show ?thesis
    by (auto simp: remove_node_infos_checked_def del_config_def json_file_def nt_db_update)
qed

end
