(* ===== verification/Hplc_Info.thy ===== *)
theory Hplc_Info
  imports Module_Info
begin

text \<open>
  src/src/service/hplc_info.rs: queries about the network. Most are one request and one reply. The topology
  and the versions of the nodes are asked for page by page: the thread of the request keeps the entries it
  has in \<open>hi_items\<close> and waits for the answer to each page in \<open>hi_result\<close>; all such threads share the two
  fields. A \<^verbatim>\<open>Box<dyn Any>\<close> is a \<open>boxed\<close>, its \<^verbatim>\<open>downcast\<close> an inverse of a constructor.

  The loop over the pages gets a bound on its rounds; \<open>paging_collects_all\<close> shows what it does for every
  bound from the number of pages on.
\<close>

section \<open>Requests with one reply\<close>

definition hplc_info_request_from_json :: "json \<Rightarrow> page_request result" where
  "hplc_info_request_from_json v =
     andThen (word_field v ''startIndex'') (\<lambda>start_index.
     andThen (word_field v ''nodeNumber'') (\<lambda>node_number.
     Ok \<lparr>pg_start = start_index, pg_node_number = node_number\<rparr>))"

definition mqtt_get_chip_info :: "mqtt_message \<Rightarrow> ('s, unit) prog" where
  "mqtt_get_chip_info = json_request hplc_info_request_from_json chip_info_request_to_app_data"

definition mqtt_chip_info_json :: "env \<Rightarrow> chip_info_response \<Rightarrow> json" where
  "mqtt_chip_info_json env r =
     JArr (map (\<lambda>(i, c).
       JObj [(''nodeSN'', json_word (cp_start_seq r + of_nat i)),
             (''nodeAddr'', JStr (address_to_string (env_hex_encode env) (ci_address c))),
             (''devType'', json_word (ci_device_type c)),
             (''chipID'', JStr (env_hex_encode env (ci_id_info c))),
             (''chipSoftVer'', JStr (ci_software_version c))])
       (enumerate 0 (cp_chip_infos r)))"

definition chip_info_response_handler :: "env \<Rightarrow> uart_message \<Rightarrow> action list result" where
  "chip_info_response_handler env =
     uart_response_handler env (chip_info_response_try_from (env_hex_encode env)) (mqtt_chip_info_json env)
       (into_nested env)"

text \<open>\<^verbatim>\<open>{:08b}\<close> of a byte.\<close>

definition binary8 :: "u8 \<Rightarrow> string" where
  "binary8 b = map (\<lambda>i. if bit b i then CHR ''1'' else CHR ''0'') (rev [0..<8])"

definition mqtt_node_line_info_json :: "env \<Rightarrow> query_node_line_info_response \<Rightarrow> json" where
  "mqtt_node_line_info_json env r =
     JArr (map (\<lambda>(i, l).
       JObj [(''nodeSN'', json_word (ql_start_index r + of_nat i)),
             (''nodeAddr'', JStr (address_to_string (env_hex_encode env) (nl_addr l))),
             (''nodeLineInfo'', JStr (binary8 (ucast (nl_info l))))])
       (enumerate 0 (ql_line_infos r)))"

definition mqtt_get_node_line_info :: "mqtt_message \<Rightarrow> ('s, unit) prog" where
  "mqtt_get_node_line_info = json_request hplc_info_request_from_json query_node_line_info_request_to_app_data"

definition uart_node_line_info_response :: "env \<Rightarrow> uart_message \<Rightarrow> action list result" where
  "uart_node_line_info_response env =
     uart_response_handler env query_node_line_info_response_try_from (mqtt_node_line_info_json env)
       (into_nested env)"

text \<open>The address is only converted after the message has been read.\<close>

definition mqtt_id_info_request_from_json :: "env \<Rightarrow> json \<Rightarrow> id_info_request result" where
  "mqtt_id_info_request_from_json env v =
     andThen (unwrap (
       andThen (word_field v ''deviceType'') (\<lambda>device_type.
       andThen (string_field v ''nodeAddr'') (\<lambda>node_addr.
       andThen (word_field v ''idType'') (\<lambda>id_type. Ok (device_type, node_addr, id_type))))))
       (\<lambda>(device_type, node_addr, id_type).
     andThen (address_from_str (env_hex_decode env) node_addr) (\<lambda>address.
     Ok \<lparr>iiq_device_type = device_type, iiq_address = address, iiq_id_type = id_type\<rparr>))"

definition mqtt_get_id_info :: "env \<Rightarrow> mqtt_message \<Rightarrow> ('s, unit) prog" where
  "mqtt_get_id_info env = json_request (mqtt_id_info_request_from_json env) id_info_request_to_app_data"

definition mqtt_id_info_json :: "env \<Rightarrow> id_info_response \<Rightarrow> json" where
  "mqtt_id_info_json env r =
     JObj [(''deviceType'', json_word (ii_device_type r)),
           (''nodeAddr'', JStr (address_to_string (env_hex_encode env) (ii_address r))),
           (''idType'', json_word (ii_id_type r)), (''idLength'', json_word (ii_id_length r)),
           (''idInformation'', JStr (env_hex_encode env (ii_id_info r)))]"

definition uart_id_info_response :: "env \<Rightarrow> uart_message \<Rightarrow> action list result" where
  "uart_id_info_response env =
     uart_response_handler env id_info_response_try_from (mqtt_id_info_json env) (into_nested env)"

definition mqtt_slave_module_id_info_json :: "env \<Rightarrow> slave_module_id_info \<Rightarrow> json result" where
  "mqtt_slave_module_id_info_json env i =
     andThen (module_id_format_string (env_hex_encode env) (sm_id_format i) (sm_id_info i)) (\<lambda>t.
     Ok (JObj [(''nodeAddr'', JStr (address_to_string (env_hex_encode env) (sm_address i))),
               (''devType'', json_word (sm_device_type i AND 0x0F)),
               (''upgFlag'', json_word (drop_bit 7 (sm_device_type i AND 0x80))),
               (''vendorCode'', JStr (sm_factory_code i)),
               (''modeIDLen'', json_word (of_nat (length (sm_id_info i)) :: u8)),
               (''modeIDFormat'', json_word (module_id_format_to_u8 (sm_id_format i))),
               (''modeIDInfo'', JStr t)]))"

definition mqtt_slave_module_id_json :: "env \<Rightarrow> slave_module_id_response \<Rightarrow> json result" where
  "mqtt_slave_module_id_json env r =
     andThen (traverse (mqtt_slave_module_id_info_json env) (si_slave_module_id_infos r)) (\<lambda>vs. Ok (JArr vs))"

definition mqtt_get_slave_module_id_info :: "mqtt_message \<Rightarrow> ('s, unit) prog" where
  "mqtt_get_slave_module_id_info = json_request hplc_info_request_from_json slave_module_id_request_to_app_data"

definition uart_slave_module_id_info_response :: "env \<Rightarrow> uart_message \<Rightarrow> action list result" where
  "uart_slave_module_id_info_response env =
     uart_response_handler env slave_module_id_response_try_from (mqtt_slave_module_id_json env)
       (\<lambda>mqtt v. andThen v (into_nested env mqtt))"

definition mqtt_multiple_net_json :: "env \<Rightarrow> multiple_net_response \<Rightarrow> json" where
  "mqtt_multiple_net_json env r =
     JObj [(''selfNID'', JStr (word_text (mn_node_net_identity r))),
           (''selfMasterAddr'', JStr (address_to_string (env_hex_encode env) (mn_address r))),
           (''body'', JArr (map (\<lambda>n. JObj [(''nearNodeNID'', JStr (word_text n))]) (mn_multiple_net_infos r)))]"

definition mqtt_get_multiple_net_info :: "mqtt_message \<Rightarrow> ('s, unit) prog" where
  "mqtt_get_multiple_net_info message = uart_request multiple_net_request_to_app_data message"

definition uart_multiple_net_info_response :: "env \<Rightarrow> uart_message \<Rightarrow> action list result" where
  "uart_multiple_net_info_response env =
     uart_response_handler env multiple_net_response_try_from (mqtt_multiple_net_json env) (into_flat env)"

definition mqtt_network_size_json :: "network_size_response \<Rightarrow> json" where
  "mqtt_network_size_json r = JObj [(''netWorkSize'', json_word (ns_network_size r))]"

definition mqtt_get_network_size :: "mqtt_message \<Rightarrow> ('s, unit) prog" where
  "mqtt_get_network_size message = uart_request network_size_request_to_app_data message"

definition uart_network_size_response :: "env \<Rightarrow> uart_message \<Rightarrow> action list result" where
  "uart_network_size_response env =
     uart_response_handler env network_size_response_try_from mqtt_network_size_json (into_flat env)"

section \<open>Queries page by page\<close>

definition QUERY_NODE_NUMBER :: u8 where "QUERY_NODE_NUMBER = 10"

record 'a mqtt_hplc_info_response =
  hr_total_number :: u16
  hr_body :: "'a list"

definition hr_default :: "'a mqtt_hplc_info_response" where
  "hr_default = \<lparr>hr_total_number = 0, hr_body = []\<rparr>"

definition item_number :: "'a mqtt_hplc_info_response \<Rightarrow> u16" where
  "item_number r = of_nat (length (hr_body r))"

definition hr_extend :: "'a mqtt_hplc_info_response \<Rightarrow> 'a mqtt_hplc_info_response \<Rightarrow> 'a mqtt_hplc_info_response" where
  "hr_extend r item = \<lparr>hr_total_number = hr_total_number item, hr_body = hr_body r @ hr_body item\<rparr>"

definition hr_to_json :: "('a \<Rightarrow> json) \<Rightarrow> 'a mqtt_hplc_info_response \<Rightarrow> json" where
  "hr_to_json f r = JObj [(''totalNumber'', json_word (hr_total_number r)), (''body'', JArr (map f (hr_body r)))]"

record mqtt_net_topology_info =
  ti_node_addr :: string
  ti_node_flag :: u16
  ti_proxy_node_flag :: u16
  ti_node_level :: u8
  ti_node_role :: u8

definition mqtt_net_topology_info_json :: "mqtt_net_topology_info \<Rightarrow> json" where
  "mqtt_net_topology_info_json i =
     JObj [(''nodeAddr'', JStr (ti_node_addr i)), (''tei'', json_word (ti_node_flag i)),
           (''proxyTei'', json_word (ti_proxy_node_flag i)), (''nodeLevel'', json_word (ti_node_level i)),
           (''nodeRole'', json_word (ti_node_role i))]"

definition net_topology_page :: "env \<Rightarrow> net_topology_response \<Rightarrow> mqtt_net_topology_info mqtt_hplc_info_response" where
  "net_topology_page env r =
     \<lparr>hr_total_number = np_total_node_number r,
      hr_body = map (\<lambda>i. \<lparr>ti_node_addr = address_to_string (env_hex_encode env) (nt_address i),
          ti_node_flag = nt_node_flag i, ti_proxy_node_flag = nt_proxy_node_flag i,
          ti_node_level = nt_node_level i, ti_node_role = nt_node_role i\<rparr>) (np_net_topology_infos r)\<rparr>"

record mqtt_node_version_info =
  vi_node_addr :: string
  vi_soft_ver :: string
  vi_soft_date :: string
  vi_factory :: string
  vi_chip_code :: string

definition mqtt_node_version_info_json :: "mqtt_node_version_info \<Rightarrow> json" where
  "mqtt_node_version_info_json i =
     JObj [(''nodeAddr'', JStr (vi_node_addr i)), (''softVer'', JStr (vi_soft_ver i)),
           (''softDate'', JStr (vi_soft_date i)), (''factory'', JStr (vi_factory i)),
           (''chipCode'', JStr (vi_chip_code i))]"

definition mqtt_node_version_info_from :: "env \<Rightarrow> 'date calendar \<Rightarrow> 'date node_version_info \<Rightarrow> mqtt_node_version_info" where
  "mqtt_node_version_info_from env cal i =
     \<lparr>vi_node_addr = address_to_string (env_hex_encode env) (nv_address i), vi_soft_ver = nv_version i,
      vi_soft_date = cal_date_to_string cal (nv_version_date i), vi_factory = nv_factory_code i,
      vi_chip_code = nv_chip_code i\<rparr>"

definition node_version_page ::
    "env \<Rightarrow> 'date calendar \<Rightarrow> 'date network_node_info_response \<Rightarrow> mqtt_node_version_info mqtt_hplc_info_response" where
  "node_version_page env cal r =
     \<lparr>hr_total_number = nn_total_node_number r,
      hr_body = map (mqtt_node_version_info_from env cal) (nn_node_version_infos r)\<rparr>"

datatype boxed =
    TopologyBox "mqtt_net_topology_info mqtt_hplc_info_response"
  | VersionBox "mqtt_node_version_info mqtt_hplc_info_response"

fun topology_of :: "boxed \<Rightarrow> mqtt_net_topology_info mqtt_hplc_info_response option" where
  "topology_of (TopologyBox r) = Some r"
| "topology_of (VersionBox r) = None"

fun version_of :: "boxed \<Rightarrow> mqtt_node_version_info mqtt_hplc_info_response option" where
  "version_of (VersionBox r) = Some r"
| "version_of (TopologyBox r) = None"

record mqtt_hplc_info =
  hi_items :: "boxed option"
  hi_result :: "boxed result option"

definition hplc_info_new :: mqtt_hplc_info where
  "hplc_info_new = \<lparr>hi_items = None, hi_result = None\<rparr>"

text \<open>What a query is: its box and its way out, its request and the JSON of an entry.\<close>

record 'a paged_query =
  pq_box :: "'a mqtt_hplc_info_response \<Rightarrow> boxed"
  pq_unbox :: "boxed \<Rightarrow> 'a mqtt_hplc_info_response option"
  pq_request :: "page_request \<Rightarrow> app_data"
  pq_entry_json :: "'a \<Rightarrow> json"

definition net_topology_query :: "mqtt_net_topology_info paged_query" where
  "net_topology_query =
     \<lparr>pq_box = TopologyBox, pq_unbox = topology_of, pq_request = net_topology_request_to_app_data,
      pq_entry_json = mqtt_net_topology_info_json\<rparr>"

definition node_version_query :: "mqtt_node_version_info paged_query" where
  "node_version_query =
     \<lparr>pq_box = VersionBox, pq_unbox = version_of, pq_request = network_node_info_request_to_app_data,
      pq_entry_json = mqtt_node_version_info_json\<rparr>"

definition mqtt_req_info_default :: mqtt_req_info where
  "mqtt_req_info_default = \<lparr>mri_topic = [], mri_token = [], mri_extra_data = None\<rparr>"

text \<open>\<^verbatim>\<open>info.items.as_mut().unwrap().downcast_mut::<R>().unwrap()\<close>.\<close>

definition items_as :: "'a paged_query \<Rightarrow> (mqtt_hplc_info, 'a mqtt_hplc_info_response) prog" where
  "items_as q =
     andDo (ask hi_items) (\<lambda>items.
     andDo (give (unwrap_option items)) (\<lambda>b. give (unwrap_option (pq_unbox q b))))"

definition downcast :: "('b \<Rightarrow> 'a option) \<Rightarrow> 'b \<Rightarrow> 'a result" where
  "downcast unbox b = (case unbox b of Some x \<Rightarrow> Ok x | None \<Rightarrow> Panic UnwrapOnErr)"

primrec page_rounds :: "nat \<Rightarrow> env \<Rightarrow> 'a paged_query \<Rightarrow> mqtt_req_info \<Rightarrow> (mqtt_hplc_info, mqtt_message) prog" where
  "page_rounds 0 env q mqtt = give (Panic NeverReturns)"
| "page_rounds (Suc n) env q mqtt =
     andDo (items_as q) (\<lambda>items.
     andDo (info_request (pq_request q
       \<lparr>pg_start = 1 + item_number items, pg_node_number = QUERY_NODE_NUMBER\<rparr>) (Some mqtt_req_info_default)) (\<lambda>_.
     andDo (wait_while (\<lambda>s. hi_result s = None)) (\<lambda>_.
     andDo (ask hi_result) (\<lambda>result.
     andDo (change (\<lambda>s. s\<lparr>hi_result := None\<rparr>)) (\<lambda>_.
     andDo (give (unwrap_option result)) (\<lambda>result.
     case result of
       Err e \<Rightarrow> give (error_into_mqtt_message env mqtt e)
     | Panic p \<Rightarrow> give (Panic p)
     | Ok b \<Rightarrow>
         andDo (give (downcast (pq_unbox q) b)) (\<lambda>data.
         andDo (items_as q) (\<lambda>items.
         andDo (change (\<lambda>s. s\<lparr>hi_items := Some (pq_box q (hr_extend items data))\<rparr>)) (\<lambda>_.
         if item_number data = 0 \<or> hr_total_number data \<le> item_number (hr_extend items data)
         then
           andDo (change (\<lambda>s. s\<lparr>hi_items := None\<rparr>)) (\<lambda>_.
           give (into_flat env mqtt (hr_to_json (pq_entry_json q) (hr_extend items data))))
         else page_rounds n env q mqtt)))))))))"

definition mqtt_hplc_info_request :: "nat \<Rightarrow> env \<Rightarrow> 'a paged_query \<Rightarrow> mqtt_message \<Rightarrow> (mqtt_hplc_info, unit) prog" where
  "mqtt_hplc_info_request rounds env q message =
     andDo (give (to_mqtt_req_info message)) (\<lambda>mqtt.
     andDo (change (\<lambda>s. s\<lparr>hi_items := Some (pq_box q hr_default)\<rparr>)) (\<lambda>_.
     andDo (page_rounds rounds env q mqtt) (\<lambda>response. send [ToMqtt response])))"

definition uart_hplc_info_response ::
    "(app_data \<Rightarrow> 't result) \<Rightarrow> ('t \<Rightarrow> boxed) \<Rightarrow> uart_message \<Rightarrow> mqtt_hplc_info \<Rightarrow> unit result \<times> mqtt_hplc_info" where
  "uart_hplc_info_response decode box message s =
     (case uart_response_try_from decode (um_frame message) of
        Ok response \<Rightarrow>
          (Ok (), s\<lparr>hi_result := Some (andThen (uart_response_to_result response) (\<lambda>r. Ok (box r)))\<rparr>)
      | Err e \<Rightarrow> (Err e, s)
      | Panic p \<Rightarrow> (Panic p, s))"

definition uart_hplc_info_response_timeout :: "mqtt_hplc_info \<Rightarrow> mqtt_hplc_info" where
  "uart_hplc_info_response_timeout s = s\<lparr>hi_result := Some (Err (MqttResponseErr RequestTimeout))\<rparr>"

definition mqtt_net_topology_info_request :: "nat \<Rightarrow> env \<Rightarrow> mqtt_message \<Rightarrow> (mqtt_hplc_info, unit) prog" where
  "mqtt_net_topology_info_request rounds env = mqtt_hplc_info_request rounds env net_topology_query"

definition uart_net_topology_response :: "env \<Rightarrow> uart_message \<Rightarrow> mqtt_hplc_info \<Rightarrow> unit result \<times> mqtt_hplc_info" where
  "uart_net_topology_response env =
     uart_hplc_info_response net_topology_response_try_from (TopologyBox \<circ> net_topology_page env)"

definition mqtt_node_version_info_request :: "nat \<Rightarrow> env \<Rightarrow> mqtt_message \<Rightarrow> (mqtt_hplc_info, unit) prog" where
  "mqtt_node_version_info_request rounds env = mqtt_hplc_info_request rounds env node_version_query"

definition uart_node_version_response ::
    "env \<Rightarrow> 'date calendar \<Rightarrow> uart_message \<Rightarrow> mqtt_hplc_info \<Rightarrow> unit result \<times> mqtt_hplc_info" where
  "uart_node_version_response env cal =
     uart_hplc_info_response (network_node_info_response_try_from (cal_from_ymd_opt cal))
       (VersionBox \<circ> node_version_page env cal)"

section \<open>The pages of an answer\<close>

text \<open>\<open>k\<close> entries are there; each page but the last brings some and leaves the total unreached.\<close>

fun pages_from :: "nat \<Rightarrow> 'a mqtt_hplc_info_response list \<Rightarrow> bool" where
  "pages_from k [] = False"
| "pages_from k [p] \<longleftrightarrow> k + length (hr_body p) < 2 ^ 16
     \<and> (hr_body p = [] \<or> unat (hr_total_number p) \<le> k + length (hr_body p))"
| "pages_from k (p # p' # ps) \<longleftrightarrow>
     hr_body p \<noteq> [] \<and> k + length (hr_body p) < unat (hr_total_number p)
     \<and> pages_from (k + length (hr_body p)) (p' # ps)"

definition page_arrives ::
    "'a paged_query \<Rightarrow> 'a mqtt_hplc_info_response \<Rightarrow> mqtt_hplc_info \<Rightarrow> mqtt_hplc_info" where
  "page_arrives q p s = s\<lparr>hi_result := Some (Ok (pq_box q p))\<rparr>"

primrec page_requests ::
    "'a paged_query \<Rightarrow> u8 \<Rightarrow> u8 \<Rightarrow> nat \<Rightarrow> 'a mqtt_hplc_info_response list \<Rightarrow> action list" where
  "page_requests q fn seq k [] = []"
| "page_requests q fn seq k (p # ps) =
     ToUart (request_message seq None
       (pq_request q \<lparr>pg_start = 1 + of_nat k, pg_node_number = QUERY_NODE_NUMBER\<rparr>) fn (Some mqtt_req_info_default))
     # page_requests q fn (seq + 1) (k + length (hr_body p)) ps"

lemma pages_last_less: "pages_from k ps \<Longrightarrow> k + length ps \<le> 2 ^ 16"
proof (induction k ps rule: pages_from.induct)
  case (3 k p p' ps)
  then show ?case by (cases "hr_body p") auto
qed auto

lemma item_number_unat: "length (hr_body r) < 2 ^ 16 \<Longrightarrow> unat (item_number r) = length (hr_body r)"
  by (simp add: item_number_def unat_of_nat)

lemma reached_iff:
  "length (hr_body r) < 2 ^ 16 \<Longrightarrow> t \<le> item_number r \<longleftrightarrow> unat t \<le> length (hr_body r)"
  by (simp add: word_le_nat_alt item_number_unat)

lemma no_items_iff: "length (hr_body r) < 2 ^ 16 \<Longrightarrow> item_number r = 0 \<longleftrightarrow> hr_body r = []"
  using item_number_unat [of r] by (auto simp: item_number_def)

locale page_query =
  fixes q :: "'a paged_query" and fn :: u8
  assumes unbox_box: "pq_unbox q (pq_box q r) = Some r"
    and request_fn: "fn_num (pq_request q pg) = Ok fn"
begin

lemma items_as:
  "hi_items s = Some (pq_box q r) \<Longrightarrow> andDo (items_as q) k (s, g) = k r (s, g)"
  by (simp add: items_as_def andDo_assoc unbox_box)

definition ends :: "'a mqtt_hplc_info_response \<Rightarrow> 'a mqtt_hplc_info_response \<Rightarrow> bool" where
  "ends r p \<longleftrightarrow> item_number p = 0 \<or> hr_total_number p \<le> item_number (hr_extend r p)"

lemma page_step:
  assumes "hi_items s = Some (pq_box q r)" and "hi_result s = None"
  shows "deliver (page_arrives q p) (andDo (page_rounds (Suc n) env q mqtt) j (s, g)) =
    sending [ToUart (request_message (SEQ g) None
        (pq_request q \<lparr>pg_start = 1 + item_number r, pg_node_number = QUERY_NODE_NUMBER\<rparr>) fn (Some mqtt_req_info_default))]
     (if ends r p
      then andDo (give (into_flat env mqtt (hr_to_json (pq_entry_json q) (hr_extend r p)))) j
             (s\<lparr>hi_items := None\<rparr>, g\<lparr>SEQ := SEQ g + 1\<rparr>)
      else andDo (page_rounds n env q mqtt) j
             (s\<lparr>hi_items := Some (pq_box q (hr_extend r p))\<rparr>, g\<lparr>SEQ := SEQ g + 1\<rparr>))"
proof -
  have box: "downcast (pq_unbox q) (pq_box q p) = Ok p" by (simp add: downcast_def unbox_box)
  show ?thesis
    using assms
    by (cases s) (simp add: andDo_assoc items_as andDo_info_request [OF request_fn] andDo_wait_while deliver_Waiting
        page_arrives_def box ends_def del: deliver.simps)
qed

lemma collect:
  assumes "pages_from (length (hr_body r)) ps" and "length ps \<le> rounds"
    and "hi_items s = Some (pq_box q r)" and "hi_result s = None"
  shows "delivers (map (page_arrives q) ps) (andDo (page_rounds rounds env q mqtt) j (s, g)) =
    sending (page_requests q fn (SEQ g) (length (hr_body r)) ps)
      (andDo (give (into_flat env mqtt (hr_to_json (pq_entry_json q)
         \<lparr>hr_total_number = hr_total_number (last ps), hr_body = hr_body r @ concat (map hr_body ps)\<rparr>))) j
       (s\<lparr>hi_items := None\<rparr>, g\<lparr>SEQ := SEQ g + of_nat (length ps)\<rparr>))"
  using assms
proof (induction ps arbitrary: r rounds s g)
  case (Cons p ps)
  then obtain n where n: "rounds = Suc n" by (cases rounds) auto
  let ?r = "hr_extend r p"
  have body: "hr_body ?r = hr_body r @ hr_body p" "hr_total_number ?r = hr_total_number p"
    by (simp_all add: hr_extend_def)
  have total: "unat (hr_total_number p) < 2 ^ 16" by (rule order.strict_trans2 [OF unsigned_less]) simp
  have small: "length (hr_body r) + length (hr_body p) < 2 ^ 16"
    using Cons.prems(1) total by (cases ps) auto
  then have ends: "ends r p \<longleftrightarrow> hr_body p = [] \<or> unat (hr_total_number p) \<le> length (hr_body r) + length (hr_body p)"
    by (simp add: ends_def no_items_iff reached_iff body)
  have start: "1 + item_number r = 1 + of_nat (length (hr_body r))" by (simp add: item_number_def)
  note step = page_step [OF Cons.prems(3,4), of p n env mqtt j g, unfolded start]
  show ?case
  proof (cases ps)
    case Nil
    then have "ends r p" using Cons.prems(1) ends by simp
    then show ?thesis using step Nil by (simp add: n hr_extend_def del: page_rounds.simps)
  next
    case (Cons p' ps')
    then have "\<not> ends r p" "pages_from (length (hr_body ?r)) ps" using Cons.prems(1) ends body by auto
    with Cons.IH [of ?r n "s\<lparr>hi_items := Some (pq_box q ?r)\<rparr>" "g\<lparr>SEQ := SEQ g + 1\<rparr>"] Cons.prems step Cons
    show ?thesis by (simp add: n body ac_simps del: page_rounds.simps)
  qed
qed simp

end

interpretation topology: page_query net_topology_query "route_query_to_u8 NetTopology"
  by unfold_locales (simp_all add: net_topology_query_def net_topology_request_to_app_data_def)

interpretation version: page_query node_version_query "route_query_to_u8 NetworkNodeInfo"
  by unfold_locales (simp_all add: node_version_query_def network_node_info_request_to_app_data_def)

section \<open>Properties\<close>

text \<open>C19: A query of the topology collects all its pages. Whatever number of entries the module puts on a page,
  the service asks from the first one it does not have, stops at the announced total or at an empty page, and
  replies with all entries in order under the last total; there are at most 2^16 pages, and a larger bound on
  the rounds changes nothing.\<close>

theorem paging_collects_all:
  assumes "to_mqtt_req_info message = Ok mqtt" and "pages_from 0 pages" and "length pages \<le> rounds"
    and "hi_result s = None"
    and "into_flat env mqtt (hr_to_json mqtt_net_topology_info_json
      \<lparr>hr_total_number = hr_total_number (last pages), hr_body = concat (map hr_body pages)\<rparr>) = Ok response"
  shows "delivers (map (page_arrives net_topology_query) pages)
      (mqtt_net_topology_info_request rounds env message (s, g)) =
      (page_requests net_topology_query (route_query_to_u8 NetTopology) (SEQ g) 0 pages @ [ToMqtt response],
       (s\<lparr>hi_items := None\<rparr>, g\<lparr>SEQ := SEQ g + of_nat (length pages)\<rparr>), Finished (Ok ()))
    \<and> length pages \<le> 2 ^ 16"
proof -
  let ?s = "s\<lparr>hi_items := Some (pq_box net_topology_query hr_default)\<rparr>"
  have "pages_from (length (hr_body (hr_default :: mqtt_net_topology_info mqtt_hplc_info_response))) pages"
    using assms(2) by (simp add: hr_default_def)
  from topology.collect [OF this assms(3), of ?s env mqtt "\<lambda>response. send [ToMqtt response]" g]
  have "delivers (map (page_arrives net_topology_query) pages)
      (mqtt_net_topology_info_request rounds env message (s, g)) =
      sending (page_requests net_topology_query (route_query_to_u8 NetTopology) (SEQ g) 0 pages)
        (andDo (give (Ok response)) (\<lambda>response. send [ToMqtt response])
          (s\<lparr>hi_items := None\<rparr>, g\<lparr>SEQ := SEQ g + of_nat (length pages)\<rparr>))"
    using assms
    by (simp add: mqtt_net_topology_info_request_def mqtt_hplc_info_request_def hr_default_def net_topology_query_def)
  then show ?thesis using pages_last_less [OF assms(2)] by (simp add: send_def)
qed

text \<open>Two pages of a network of two nodes.\<close>

definition sample_page :: "mqtt_net_topology_info mqtt_hplc_info_response" where
  "sample_page = \<lparr>hr_total_number = 2, hr_body = [\<lparr>ti_node_addr = ''000000000001'', ti_node_flag = 1,
     ti_proxy_node_flag = 0, ti_node_level = 1, ti_node_role = 4\<rparr>]\<rparr>"

theorem paging_collects_all_witness:
  "\<exists>response. delivers (map (page_arrives net_topology_query) [sample_page, sample_page])
      (mqtt_net_topology_info_request 7 digits_env (app_request []) (hplc_info_new, \<lparr>SEQ = 5, TOKEN = 0\<rparr>)) =
      (page_requests net_topology_query (route_query_to_u8 NetTopology) 5 0 [sample_page, sample_page]
         @ [ToMqtt response], (hplc_info_new, \<lparr>SEQ = 7, TOKEN = 0\<rparr>), Finished (Ok ()))"
proof -
  have pages: "pages_from 0 [sample_page, sample_page]" "length [sample_page, sample_page] \<le> 7"
    "hi_result hplc_info_new = None"
    by (simp_all add: sample_page_def hplc_info_new_def)
  obtain response where r: "into_flat digits_env app_req_info (hr_to_json mqtt_net_topology_info_json
      \<lparr>hr_total_number = hr_total_number (last [sample_page, sample_page]),
       hr_body = concat (map hr_body [sample_page, sample_page])\<rparr>) = Ok response"
    by (simp add: into_flat_def hr_to_json_def new_with_req_info_body_def mqtt_message_new_def mqtt_payload_to_json_def
        mqtt_payload_new_with_token_def)
  have "hplc_info_new\<lparr>hi_items := None\<rparr> = hplc_info_new" by (simp add: hplc_info_new_def)
  then show ?thesis
    using paging_collects_all [OF app_request_req_info pages r, THEN conjunct1, of _ "\<lparr>SEQ = 5, TOKEN = 0\<rparr>"]
    by (intro exI [of _ response]) simp
qed

end
