(* ===== verification/Line_Services.thy ===== *)
theory Line_Services
  imports Route_Ctrl Module_Info
begin

text \<open>
  The services that pass a request on to the line: broadcast.rs, control_cmd.rs, debug_method.rs,
  event_report.rs, route_data_request.rs, monitor_node.rs and data_transfer.rs of src/src/service.

  Monitoring and data transfer block the thread of the request until the module has answered. \<open>line_state\<close>
  holds what they share: the flag \<^verbatim>\<open>metering\<close> that stops concurrent reading, the two results, and the
  metering control of \<open>Route_Ctrl\<close>, which monitoring and broadcasts pause first.
\<close>

section \<open>State\<close>

datatype monitor_node_result = MonitorDelay u16 | MonitorData string

record line_state =
  ln_route_ctrl :: metering_state
  ln_metering :: bool
  ln_monitor_response :: "monitor_node_result result option"
  ln_transfer_result :: "string result option"

definition line_state_new :: line_state where
  "line_state_new =
     \<lparr>ln_route_ctrl = route_ctrl_new, ln_metering = False, ln_monitor_response = None, ln_transfer_result = None\<rparr>"

definition on_route_ctrl :: "(metering_state, 'a) prog \<Rightarrow> (line_state, 'a) prog" where
  "on_route_ctrl = zoom ln_route_ctrl (\<lambda>r s. s\<lparr>ln_route_ctrl := r\<rparr>)"

definition line_update_resume_timer :: "line_state \<Rightarrow> line_state" where
  "line_update_resume_timer s = s\<lparr>ln_route_ctrl := uart_response_update_resume_timer (ln_route_ctrl s)\<rparr>"

section \<open>Broadcasts (broadcast.rs)\<close>

definition mqtt_broadcast_request_from_json :: "json \<Rightarrow> (u8 \<times> string) result" where
  "mqtt_broadcast_request_from_json v =
     andThen (word_field v ''proType'') (\<lambda>pro_type.
     andThen (string_field v ''data'') (\<lambda>data. Ok (pro_type, data)))"

text \<open>Reading the message and converting it, whose data has to be hexadecimal.\<close>

definition broadcast_delay_from :: "env \<Rightarrow> json \<Rightarrow> broadcast_delay_request result" where
  "broadcast_delay_from env v =
     andThen (unwrap (mqtt_broadcast_request_from_json v)) (\<lambda>(pro_type, data).
     andThen (unwrap (hex_decode env data)) (\<lambda>bs.
     Ok \<lparr>bdq_protocol_type = pro_type, bdq_message = bs\<rparr>))"

definition broadcast_cmd_from :: "env \<Rightarrow> json \<Rightarrow> broadcast_request result" where
  "broadcast_cmd_from env v =
     andThen (unwrap (mqtt_broadcast_request_from_json v)) (\<lambda>(pro_type, data).
     andThen (unwrap (hex_decode env data)) (\<lambda>bs.
     Ok \<lparr>br_protocol_type = pro_type, br_message = bs\<rparr>))"

text \<open>Metering is paused first; a refusal is the reply.\<close>

definition after_pause :: "env \<Rightarrow> mqtt_message \<Rightarrow> (line_state, unit) prog \<Rightarrow> (line_state, unit) prog" where
  "after_pause env message p =
     andDo (catch (on_route_ctrl auto_pause_metering)) (\<lambda>result.
     if \<not> is_ok result
     then
       andDo (give (to_mqtt_req_info message)) (\<lambda>mqtt.
       reply (result_into_mqtt_message env (unit_into_mqtt_message env mqtt) mqtt result))
     else p)"

definition mqtt_get_broadcast_delay :: "env \<Rightarrow> mqtt_message \<Rightarrow> (line_state, unit) prog" where
  "mqtt_get_broadcast_delay env message =
     after_pause env message (json_request (broadcast_delay_from env) broadcast_delay_request_to_app_data message)"

definition mqtt_broadcast_cmd :: "env \<Rightarrow> mqtt_message \<Rightarrow> (line_state, unit) prog" where
  "mqtt_broadcast_cmd env message =
     after_pause env message (json_request (broadcast_cmd_from env) broadcast_request_to_app_data message)"

definition broadcast_delay_json :: "broadcast_delay_response \<Rightarrow> json" where
  "broadcast_delay_json r = JObj [(''delay'', json_word (bdr_delay r))]"

definition uart_broadcast_delay_response ::
    "env \<Rightarrow> uart_message \<Rightarrow> line_state \<Rightarrow> action list result \<times> line_state" where
  "uart_broadcast_delay_response env message s =
     (uart_response_handler env broadcast_delay_response_try_from broadcast_delay_json (into_flat env) message,
      line_update_resume_timer s)"

text \<open>\<^verbatim>\<open>uart_response_handler::<ConfirmResponse, ()>\<close>, which three services use.\<close>

definition confirm_response_handler :: "env \<Rightarrow> uart_message \<Rightarrow> action list result" where
  "confirm_response_handler env =
     uart_response_handler env confirm_response_try_from (\<lambda>_. ()) (unit_into_mqtt_message env)"

definition uart_broadcast_cmd_response ::
    "env \<Rightarrow> uart_message \<Rightarrow> line_state \<Rightarrow> action list result \<times> line_state" where
  "uart_broadcast_cmd_response env message s =
     (confirm_response_handler env message, line_update_resume_timer s)"

section \<open>Control commands (control_cmd.rs)\<close>

definition mqtt_set_hplc_frequency :: "mqtt_message \<Rightarrow> ('s, unit) prog" where
  "mqtt_set_hplc_frequency = json_request (\<lambda>v. word_field v ''hplcFreq'') hplc_frequency_set_request_to_app_data"

definition mqtt_refuse_slave_report :: "mqtt_message \<Rightarrow> ('s, unit) prog" where
  "mqtt_refuse_slave_report = json_request (\<lambda>v. word_field v ''switch'') slave_report_request_to_app_data"

definition uart_hplc_frequency_response :: "env \<Rightarrow> uart_message \<Rightarrow> action list result" where
  "uart_hplc_frequency_response = confirm_response_handler"

definition uart_refuse_slave_report_response :: "env \<Rightarrow> uart_message \<Rightarrow> action list result" where
  "uart_refuse_slave_report_response = confirm_response_handler"

section \<open>Debug frames (debug_method.rs)\<close>

definition mqtt_debug_frame_request :: "env \<Rightarrow> mqtt_message \<Rightarrow> ('s, unit) prog" where
  "mqtt_debug_frame_request env message =
     andDo (give (unwrap (message_json (\<lambda>v. string_field v ''frame'') message))) (\<lambda>t.
     andDo (give (hex_decode env t)) (\<lambda>bs.
     andDo (give (frame_try_from bs)) (\<lambda>f.
     andDo (give (to_mqtt_req_info message)) (\<lambda>mqtt.
     send [ToUart (uart_message_new (req_info_new_with_key f (FrameKey Test 0) (Some mqtt)) f)]))))"

definition uart_debug_frame_response :: "env \<Rightarrow> uart_message \<Rightarrow> action list result" where
  "uart_debug_frame_response env message =
     andThen (unwrap_option (ri_mqtt_req_info (um_req_info message))) (\<lambda>mqtt.
     andThen (into_flat env mqtt
       (JObj [(''frame'', JStr (env_hex_encode env (frame_to_bytes (um_frame message))))])) (\<lambda>m.
     Ok [ToMqtt m]))"

section \<open>Events of nodes (event_report.rs)\<close>

definition mqtt_slave_node_event_json :: "env \<Rightarrow> slave_node_event \<Rightarrow> json" where
  "mqtt_slave_node_event_json env e =
     JObj [(''deviceType'', json_word (sne_device_type e)), (''protocolType'', json_word (sne_protocol_type e)),
           (''data'', JStr (env_hex_encode env (sne_data e)))]"

definition EVENT_TOPIC :: string where "EVENT_TOPIC = APP_NAME @ ''/notify/spont/*/event''"

definition uart_slave_node_event_report :: "env \<Rightarrow> uart_message \<Rightarrow> ('s, unit) prog" where
  "uart_slave_node_event_report env message =
     andDo (give (frame_new_response (frame_get_seq (um_frame message)) None
       (confirm_response_to_app_data confirm_response_default))) (\<lambda>f.
     andDo (give (req_info_new (um_frame message) None)) (\<lambda>req.
     andDo (send [ToUart (uart_message_new req f)]) (\<lambda>_.
     andDo (give (slave_node_event_try_from (ud_app_data (fr_user_data (um_frame message))))) (\<lambda>e.
     andDo (own_message env EVENT_TOPIC (Some (Nested (mqtt_slave_node_event_json env e)))) (\<lambda>m.
     send [ToMqtt m])))))"

section \<open>Monitoring a node (monitor_node.rs)\<close>

definition monitor_delay_request_from_json :: "json \<Rightarrow> (string \<times> u8 \<times> string) result" where
  "monitor_delay_request_from_json v =
     andThen (string_field v ''acqAddr'') (\<lambda>acq_addr.
     andThen (word_field v ''proType'') (\<lambda>pro_type.
     andThen (string_field v ''data'') (\<lambda>data. Ok (acq_addr, pro_type, data))))"

text \<open>A request for data has two timeouts in seconds more, of which one is used.\<close>

definition node_data_request_from_json :: "json \<Rightarrow> (string \<times> u8 \<times> u32 \<times> string) result" where
  "node_data_request_from_json v =
     andThen (string_field v ''acqAddr'') (\<lambda>acq_addr.
     andThen (word_field v ''proType'') (\<lambda>pro_type.
     andThen (word_field v ''frameTimeout'') (\<lambda>frame_timeout.
     andThen (word_field v ''charTimeout'' :: u32 result) (\<lambda>char_timeout.
     andThen (string_field v ''data'') (\<lambda>data. Ok (acq_addr, pro_type, frame_timeout, data))))))"

definition monitor_node_request_from :: "env \<Rightarrow> u8 \<Rightarrow> string \<Rightarrow> u8 \<Rightarrow> string \<Rightarrow> monitor_node_request result" where
  "monitor_node_request_from env comm_delay_flag acq_addr pro_type data =
     andThen (address_from_str (env_hex_decode env) acq_addr) (\<lambda>a.
     andThen (unwrap (hex_decode env data)) (\<lambda>bs.
     Ok \<lparr>mnq_protocol_type = pro_type, mnq_comm_delay_flag = comm_delay_flag, mnq_node_addrs = [a],
         mnq_message = bs\<rparr>))"

definition node_address_field :: "env \<Rightarrow> address \<Rightarrow> string \<Rightarrow> address_field result" where
  "node_address_field env master_address acq_addr =
     andThen (address_from_str (env_hex_decode env) acq_addr) (\<lambda>a.
     Ok \<lparr>src_address = master_address, relay_address = None, dst_address = a\<rparr>)"

definition monitor_delay_message :: "env \<Rightarrow> address \<Rightarrow> mqtt_message \<Rightarrow> ('s, uart_message) prog" where
  "monitor_delay_message env master_address message =
     andDo (give (unwrap (message_json monitor_delay_request_from_json message))) (\<lambda>(acq_addr, pro_type, data).
     andDo (give (to_mqtt_req_info message)) (\<lambda>mqtt.
     andDo (give (node_address_field env master_address acq_addr)) (\<lambda>a.
     andDo (give (monitor_node_request_from env 1 acq_addr pro_type data)) (\<lambda>request.
     andDo (request_frame (Some a) (monitor_node_request_to_app_data request)) (\<lambda>f.
     give (Ok (uart_message_new
       (req_info_new_with_key_and_origin f (FrameKey RouteDataRead ROUTE_READ_COMM_DELAY) (Some mqtt)
          (FrameKey RouteDataForward MONITOR_NODE)) f)))))))"

definition monitor_data_message :: "env \<Rightarrow> address \<Rightarrow> mqtt_message \<Rightarrow> ('s, uart_message) prog" where
  "monitor_data_message env master_address message =
     andDo (give (unwrap (message_json node_data_request_from_json message))) (\<lambda>(acq_addr, pro_type, frame_timeout, data).
     andDo (give (to_mqtt_req_info message)) (\<lambda>mqtt.
     andDo (give (node_address_field env master_address acq_addr)) (\<lambda>a.
     andDo (give (monitor_node_request_from env 0 acq_addr pro_type data)) (\<lambda>request.
     andDo (request_frame (Some a) (monitor_node_request_to_app_data request)) (\<lambda>f.
     andDo (give (req_info_new f (Some mqtt))) (\<lambda>req.
     give (Ok (uart_message_new_with_timeout req f (1000 * unat frame_timeout)))))))))"

definition wait_for_response :: "(line_state, monitor_node_result) prog" where
  "wait_for_response =
     andDo (wait_while (\<lambda>s. ln_monitor_response s = None)) (\<lambda>_.
     andDo (ask ln_monitor_response) (\<lambda>r.
     andDo (change (\<lambda>s. s\<lparr>ln_monitor_response := None\<rparr>)) (\<lambda>_.
     andDo (give (unwrap_option r)) give)))"

definition invalid_monitor_response :: error where
  "invalid_monitor_response = Message ''Invalid monitor node response''"

definition wait_delay :: "(line_state, u16) prog" where
  "wait_delay =
     andDo wait_for_response (\<lambda>r.
     case r of MonitorDelay d \<Rightarrow> give (Ok d) | MonitorData t \<Rightarrow> give (Err invalid_monitor_response))"

definition wait_data :: "(line_state, string) prog" where
  "wait_data =
     andDo wait_for_response (\<lambda>r.
     case r of MonitorData t \<Rightarrow> give (Ok t) | MonitorDelay d \<Rightarrow> give (Err invalid_monitor_response))"

definition with_metering :: "(line_state, 'a) prog \<Rightarrow> (line_state, 'a) prog" where
  "with_metering p =
     andDo (change (\<lambda>s. s\<lparr>ln_metering := True\<rparr>)) (\<lambda>_.
     andDo p (\<lambda>result.
     andDo (change (\<lambda>s. s\<lparr>ln_metering := False\<rparr>)) (\<lambda>_. give (Ok result))))"

definition mqtt_get_monitor_node_info ::
    "env \<Rightarrow> (line_state, uart_message) prog \<Rightarrow> (line_state, 'r) prog \<Rightarrow> ('r \<Rightarrow> json) \<Rightarrow> mqtt_message
       \<Rightarrow> (line_state, unit) prog" where
  "mqtt_get_monitor_node_info env into_uart_message wait_response to_json message =
     andDo (give (to_mqtt_req_info message)) (\<lambda>mqtt.
     andDo (catch (on_route_ctrl auto_pause_metering)) (\<lambda>paused.
     case paused of
       Ok _ \<Rightarrow>
         andDo (with_metering (
           andDo into_uart_message (\<lambda>m. andDo (send [ToUart m]) (\<lambda>_. catch wait_response)))) (\<lambda>result.
         reply (result_into_mqtt_message env (\<lambda>r. into_flat env mqtt (to_json r)) mqtt result))
     | Err e \<Rightarrow> reply (error_into_mqtt_message env mqtt e)
     | Panic p \<Rightarrow> give (Panic p)))"

definition delay_json :: "u16 \<Rightarrow> json" where "delay_json d = JObj [(''delay'', json_word d)]"
definition data_json :: "string \<Rightarrow> json" where "data_json t = JObj [(''data'', JStr t)]"

definition mqtt_get_monitor_node_delay :: "env \<Rightarrow> address \<Rightarrow> mqtt_message \<Rightarrow> (line_state, unit) prog" where
  "mqtt_get_monitor_node_delay env master_address message =
     mqtt_get_monitor_node_info env (monitor_delay_message env master_address message)
       (andDo wait_delay (\<lambda>delay. andDo wait_data (\<lambda>_. give (Ok delay)))) delay_json message"

definition mqtt_get_monitor_node_data :: "env \<Rightarrow> address \<Rightarrow> mqtt_message \<Rightarrow> (line_state, unit) prog" where
  "mqtt_get_monitor_node_data env master_address message =
     mqtt_get_monitor_node_info env (monitor_data_message env master_address message) wait_data data_json message"

definition uart_notify_monitor_node_dalay :: "u16 \<Rightarrow> line_state \<Rightarrow> line_state" where
  "uart_notify_monitor_node_dalay delay s = s\<lparr>ln_monitor_response := Some (Ok (MonitorDelay delay))\<rparr>"

definition uart_get_monitor_node_data :: "env \<Rightarrow> uart_message \<Rightarrow> line_state \<Rightarrow> unit result \<times> line_state" where
  "uart_get_monitor_node_data env message s =
     (case uart_response_try_from monitor_node_response_try_from (um_frame message) of
        Ok response \<Rightarrow>
          (Ok (), line_update_resume_timer
             (s\<lparr>ln_monitor_response := Some (andThen (uart_response_to_result response)
                  (\<lambda>r. Ok (MonitorData (env_hex_encode env (mnr_message r)))))\<rparr>))
      | Err e \<Rightarrow> (Err e, s)
      | Panic p \<Rightarrow> (Panic p, s))"

definition uart_monitor_node_timeout :: "line_state \<Rightarrow> line_state" where
  "uart_monitor_node_timeout s = s\<lparr>ln_monitor_response := Some (Err (MqttResponseErr RequestTimeout))\<rparr>"

section \<open>Requests of the router (route_data_request.rs)\<close>

definition uart_clock_data_response :: "clock \<Rightarrow> uart_message \<Rightarrow> action list result" where
  "uart_clock_data_response now message =
     andThen (frame_new_response (frame_get_seq (um_frame message)) None (clock_data_response_to_app_data now)) (\<lambda>f.
     andThen (req_info_new (um_frame message) None) (\<lambda>req.
     Ok [ToUart (uart_message_new req f)]))"

definition uart_route_delay_response :: "uart_message \<Rightarrow> line_state \<Rightarrow> action list result \<times> line_state" where
  "uart_route_delay_response message s =
     (case (case ri_origin_req_key (um_req_info message) of
              None \<Rightarrow> Err (Message ''no original request key'')
            | Some origin \<Rightarrow>
                andThen (frame_new_response (frame_get_seq (um_frame message)) None
                  (comm_delay_response_to_app_data (comm_delay_response_new []))) (\<lambda>f.
                andThen (comm_delay_request_try_from (ud_app_data (fr_user_data (um_frame message)))) (\<lambda>request.
                Ok (origin, f, request)))) of
        Err e \<Rightarrow> (Err e, s)
      | Panic p \<Rightarrow> (Panic p, s)
      | Ok (origin, f, request) \<Rightarrow>
          if origin = FrameKey RouteDataForward 1
          then (Ok [ToUart (uart_message_new
                  (req_info_new_with_key_and_origin (um_frame message) origin None origin) f)],
                uart_notify_monitor_node_dalay (cdq_delay request) s)
          else (Panic UnreachableCode, s))"

section \<open>Data transfer (data_transfer.rs)\<close>

definition transfer_frame_request_from :: "env \<Rightarrow> u8 \<Rightarrow> string \<Rightarrow> transfer_frame_request result" where
  "transfer_frame_request_from env pro_type data =
     andThen (unwrap (hex_decode env data)) (\<lambda>bs. Ok \<lparr>tfq_protocol_type = pro_type, tfq_message = bs\<rparr>)"

definition mqtt_data_transfer :: "env \<Rightarrow> address \<Rightarrow> mqtt_message \<Rightarrow> (line_state, unit) prog" where
  "mqtt_data_transfer env master_address message =
     andDo (give (unwrap (message_json node_data_request_from_json message))) (\<lambda>(acq_addr, pro_type, frame_timeout, data).
     andDo (give (to_mqtt_req_info message)) (\<lambda>mqtt.
     andDo (give (node_address_field env master_address acq_addr)) (\<lambda>a.
     andDo (give (transfer_frame_request_from env pro_type data)) (\<lambda>request.
     andDo (request_frame (Some a) (transfer_frame_request_to_app_data request)) (\<lambda>f.
     andDo (give (req_info_new f (Some mqtt))) (\<lambda>req.
     with_metering (
       andDo (send [ToUart (uart_message_new_with_timeout req f (1000 * unat frame_timeout))]) (\<lambda>_.
       andDo (wait_while (\<lambda>s. ln_transfer_result s = None)) (\<lambda>_.
       andDo (ask ln_transfer_result) (\<lambda>r.
       andDo (change (\<lambda>s. s\<lparr>ln_transfer_result := None\<rparr>)) (\<lambda>_.
       andDo (give (unwrap_option r)) (\<lambda>result.
       andDo (give (to_mqtt_req_info message)) (\<lambda>mqtt.
       reply (result_into_mqtt_message env (\<lambda>t. into_flat env mqtt (data_json t)) mqtt result))))))))))))))"

definition transfer_notify :: "string result \<Rightarrow> line_state \<Rightarrow> line_state" where
  "transfer_notify result s = s\<lparr>ln_transfer_result := Some result\<rparr>"

definition uart_data_transfer_response :: "env \<Rightarrow> uart_message \<Rightarrow> line_state \<Rightarrow> unit result \<times> line_state" where
  "uart_data_transfer_response env message s =
     (case uart_response_try_from transfer_frame_response_try_from (um_frame message) of
        Ok response \<Rightarrow>
          (Ok (), transfer_notify (andThen (uart_response_to_result response)
             (\<lambda>r. Ok (env_hex_encode env (tfr_message r)))) s)
      | Err e \<Rightarrow> (Err e, s)
      | Panic p \<Rightarrow> (Panic p, s))"

definition uart_data_transfer_timeout :: "line_state \<Rightarrow> line_state" where
  "uart_data_transfer_timeout = transfer_notify (Err (MqttResponseErr RequestTimeout))"

section \<open>Pausing first\<close>

text \<open>The state once the module has answered the pause with \<open>r\<close>.\<close>

definition paused :: "unit result \<Rightarrow> line_state \<Rightarrow> line_state" where
  "paused r s =
     s\<lparr>ln_route_ctrl :=
       (let m = (ln_route_ctrl s)\<lparr>ms_result := None\<rparr> in
        if is_ok r then add_resume_timer (update_metering_state (Some MeterPause) m) else m)\<rparr>"

definition pause_answered :: "unit result \<Rightarrow> line_state \<Rightarrow> line_state" where
  "pause_answered r s = s\<lparr>ln_route_ctrl := (ln_route_ctrl s)\<lparr>ms_result := Some r\<rparr>\<rparr>"

lemma auto_pause_first:
  assumes "ms_state (ln_route_ctrl s) = MeterResume" and "ms_result (ln_route_ctrl s) = None" and "\<not> panics r"
  shows "deliver (pause_answered r) (andDo (catch (on_route_ctrl auto_pause_metering)) k (s, g)) =
    sending [ToUart (request_message (SEQ g) None pause_metering_to_app_data 2 None)]
      (k r (paused r s, g\<lparr>SEQ := SEQ g + 1\<rparr>))"
  using assms
  by (cases r) (simp_all add: andDo_def catch_def on_route_ctrl_def zoom_def auto_pause_waits deliver_Waiting
      pause_answered_def paused_def give_def change_def Let_def del: deliver.simps split: prod.splits)

lemma paused_sel [simp]:
  "ln_metering (paused r s) = ln_metering s" "ln_monitor_response (paused r s) = ln_monitor_response s"
  "ln_transfer_result (paused r s) = ln_transfer_result s"
  by (simp_all add: paused_def)

section \<open>Waiting for the node\<close>

lemma wait_for_response:
  "wait_for_response (s, g) =
     (case ln_monitor_response s of
        Some r \<Rightarrow> ([], (s\<lparr>ln_monitor_response := None\<rparr>, g), Finished r)
      | None \<Rightarrow> ([], (s, g), Waiting (\<lambda>(late, s, g). case ln_monitor_response s of None \<Rightarrow> None
          | Some r \<Rightarrow> Some ([], (s\<lparr>ln_monitor_response := None\<rparr>, g), Finished r))))"
  by (auto simp: wait_for_response_def andDo_wait_while fun_eq_iff give_def split: option.splits)

lemma andDo_wait_for_response:
  "andDo wait_for_response k (s, g) =
     (case ln_monitor_response s of
        Some r \<Rightarrow> andDo (give r) k (s\<lparr>ln_monitor_response := None\<rparr>, g)
      | None \<Rightarrow> ([], (s, g), Waiting (\<lambda>(late, s, g). case ln_monitor_response s of None \<Rightarrow> None
          | Some r \<Rightarrow> Some (andDo (give r) k (s\<lparr>ln_monitor_response := None\<rparr>, g)))))"
  by (auto simp: andDo_turn wait_for_response give_def fun_eq_iff split: option.splits)

text \<open>A request to monitor the delay of a node, as it goes to the module.\<close>

definition delay_query :: "mqtt_req_info \<Rightarrow> address \<Rightarrow> address \<Rightarrow> u8 \<Rightarrow> u8 list \<Rightarrow> u8 \<Rightarrow> uart_message" where
  "delay_query mqtt master a pro_type bs seq =
     (let f = new_frame False seq (Some \<lparr>src_address = master, relay_address = None, dst_address = a\<rparr>)
        (monitor_node_request_to_app_data
           \<lparr>mnq_protocol_type = pro_type, mnq_comm_delay_flag = 1, mnq_node_addrs = [a], mnq_message = bs\<rparr>)
      in uart_message_new (req_info_new_with_key_and_origin f (FrameKey RouteDataRead ROUTE_READ_COMM_DELAY)
           (Some mqtt) (FrameKey RouteDataForward MONITOR_NODE)) f)"

definition is_delay_request :: "env \<Rightarrow> mqtt_message \<Rightarrow> mqtt_req_info \<Rightarrow> address \<Rightarrow> u8 \<Rightarrow> u8 list \<Rightarrow> bool" where
  "is_delay_request env message mqtt a pro_type bs \<longleftrightarrow>
     (\<exists>acq_addr data. message_json monitor_delay_request_from_json message = Ok (acq_addr, pro_type, data)
        \<and> address_from_str (env_hex_decode env) acq_addr = Ok a \<and> hex_decode env data = Ok bs)
     \<and> to_mqtt_req_info message = Ok mqtt"

lemma monitor_delay_message:
  "is_delay_request env message mqtt a pro_type bs \<Longrightarrow>
     andDo (monitor_delay_message env master message) k (s, g) =
       k (delay_query mqtt master a pro_type bs (SEQ g)) (s, g\<lparr>SEQ := SEQ g + 1\<rparr>)"
  by (auto simp: is_delay_request_def monitor_delay_message_def andDo_assoc node_address_field_def
      monitor_node_request_from_def delay_query_def Let_def)

lemma andDo_catch_wait:
  "andDo (catch wait_for_response) k (s, g) =
     (case ln_monitor_response s of
        Some r \<Rightarrow> andDo (catch (give r)) k (s\<lparr>ln_monitor_response := None\<rparr>, g)
      | None \<Rightarrow> ([], (s, g), Waiting (\<lambda>(late, s, g). case ln_monitor_response s of None \<Rightarrow> None
          | Some r \<Rightarrow> Some (andDo (catch (give r)) k (s\<lparr>ln_monitor_response := None\<rparr>, g)))))"
  by (auto simp: andDo_turn catch_turn wait_for_response give_def fun_eq_iff split: option.splits)

section \<open>Properties\<close>

text \<open>The reports of the module that a delay query waits for.\<close>

definition delay_arrives :: "u16 \<Rightarrow> line_state \<Rightarrow> line_state" where
  "delay_arrives = uart_notify_monitor_node_dalay"

definition data_arrives :: "env \<Rightarrow> uart_message \<Rightarrow> line_state \<Rightarrow> line_state" where
  "data_arrives env m s = snd (uart_get_monitor_node_data env m s)"

lemma data_arrives:
  "uart_response_try_from monitor_node_response_try_from (um_frame m) = Ok (NormalResponse r) \<Longrightarrow>
     data_arrives env m s = line_update_resume_timer
       (s\<lparr>ln_monitor_response := Some (Ok (MonitorData (env_hex_encode env (mnr_message r))))\<rparr>)"
  by (simp add: data_arrives_def uart_get_monitor_node_data_def)

lemma line_update_sel [simp]:
  "ln_metering (line_update_resume_timer s) = ln_metering s"
  "ln_monitor_response (line_update_resume_timer s) = ln_monitor_response s"
  "ms_state (ln_route_ctrl (line_update_resume_timer s)) = ms_state (ln_route_ctrl s)"
  by (simp_all add: line_update_resume_timer_def uart_response_update_resume_timer_def update_resume_timer_def
      add_resume_timer_def)

lemma delay_query_waits:
  assumes "ms_state (ln_route_ctrl s) = MeterResume" and "ms_result (ln_route_ctrl s) = None"
    and "is_delay_request env message mqtt a pro_type bs"
  shows "deliver (pause_answered (Ok ())) (mqtt_get_monitor_node_delay env master message (s, g)) =
    sending [ToUart (request_message (SEQ g) None pause_metering_to_app_data 2 None),
        ToUart (delay_query mqtt master a pro_type bs (SEQ g + 1))]
     (andDo (catch wait_for_response) (\<lambda>r.
        andDo (caught (\<lambda>r. case r of
            MonitorDelay d \<Rightarrow> andDo wait_data (\<lambda>_. give (Ok d))
          | MonitorData t \<Rightarrow> give (Err invalid_monitor_response)) r) (\<lambda>result.
        andDo (change (\<lambda>s. s\<lparr>ln_metering := False\<rparr>)) (\<lambda>_.
        reply (result_into_mqtt_message env (\<lambda>r. into_flat env mqtt (delay_json r)) mqtt result))))
      ((paused (Ok ()) s)\<lparr>ln_metering := True\<rparr>, g\<lparr>SEQ := SEQ g + 1 + 1\<rparr>))"
proof -
  have mqtt: "to_mqtt_req_info message = Ok mqtt" using assms(3) by (simp add: is_delay_request_def)
  have "andDo wait_delay (\<lambda>delay. andDo wait_data (\<lambda>_. give (Ok delay)))
      = andDo wait_for_response (\<lambda>r. case r of
            MonitorDelay d \<Rightarrow> andDo wait_data (\<lambda>_. give (Ok d))
          | MonitorData t \<Rightarrow> give (Err invalid_monitor_response))"
    unfolding wait_delay_def andDo_assoc by (rule arg_cong [where f = "andDo wait_for_response"])
      (auto split: monitor_node_result.splits)
  then show ?thesis
    using assms(1,2)
    by (simp add: mqtt_get_monitor_node_delay_def mqtt_get_monitor_node_info_def mqtt auto_pause_first
        with_metering_def andDo_assoc monitor_delay_message [OF assms(3)] catch_andDo del: deliver.simps)
qed

lemma into_flat_Obj: "\<exists>m. into_flat env mqtt (JObj entries) = Ok m"
  by (simp add: into_flat_def new_with_req_info_body_def mqtt_message_new_def mqtt_payload_to_json_def
      mqtt_payload_new_with_token_def)

lemma reply_Ok: "reply (Ok m) w = ([ToMqtt m], w, Finished (Ok ()))"
  by (simp add: reply_def send_def)

text \<open>Monitoring the delay of a node pauses metering, asks the node, and keeps concurrent reading off until
  it is over: after the module's confirmation the query is sent with the flag set; when the delay and then the
  node's data have come, the delay is the reply, the flag is cleared and no report is left behind.\<close>

theorem monitor_delay_replies:
  assumes "ms_state (ln_route_ctrl s) = MeterResume" and "ms_result (ln_route_ctrl s) = None"
    and "ln_monitor_response s = None" and "is_delay_request env message mqtt a pro_type bs"
    and "uart_response_try_from monitor_node_response_try_from (um_frame m) = Ok (NormalResponse r)"
    and "into_flat env mqtt (delay_json d) = Ok response"
  shows "case deliver (pause_answered (Ok ())) (mqtt_get_monitor_node_delay env master message (s, g)) of
      (acts, (s1, g1), run1) \<Rightarrow>
        acts = [ToUart (request_message (SEQ g) None pause_metering_to_app_data 2 None),
          ToUart (delay_query mqtt master a pro_type bs (SEQ g + 1))]
        \<and> ln_metering s1 \<and> ms_state (ln_route_ctrl s1) = MeterPause
        \<and> (case delivers [delay_arrives d, data_arrives env m] (acts, (s1, g1), run1) of
             (acts', (s2, g2), run2) \<Rightarrow>
               acts' = acts @ [ToMqtt response] \<and> run2 = Finished (Ok ())
               \<and> \<not> ln_metering s2 \<and> ln_monitor_response s2 = None \<and> ms_state (ln_route_ctrl s2) = MeterPause)"
proof -
  have state: "ms_state (ln_route_ctrl (paused (Ok ()) s)) = MeterPause"
    by (simp add: paused_def Let_def add_resume_timer_def update_metering_state_def)
  show ?thesis
    using assms(3,6) state
    by (simp add: delay_query_waits [OF assms(1,2,4)] andDo_catch_wait deliver_Waiting delay_arrives_def
        uart_notify_monitor_node_dalay_def wait_data_def catch_andDo data_arrives [OF assms(5)] andDo_assoc
        reply_Ok del: deliver.simps)
qed

text \<open>A delay is lost when the node's data follow before the waiting thread has run. There is one place for
  both reports, so the data overwrite the delay, and the reply is an error although both have arrived.\<close>

theorem delay_overtaken:
  assumes "ms_state (ln_route_ctrl s) = MeterResume" and "ms_result (ln_route_ctrl s) = None"
    and "ln_monitor_response s = None" and "is_delay_request env message mqtt a pro_type bs"
    and "uart_response_try_from monitor_node_response_try_from (um_frame m) = Ok (NormalResponse r)"
    and "error_into_mqtt_message env mqtt invalid_monitor_response = Ok response"
  shows "case delivers [pause_answered (Ok ()), data_arrives env m \<circ> delay_arrives d]
      (mqtt_get_monitor_node_delay env master message (s, g)) of
      (acts, (s2, g2), run) \<Rightarrow>
        acts = [ToUart (request_message (SEQ g) None pause_metering_to_app_data 2 None),
          ToUart (delay_query mqtt master a pro_type bs (SEQ g + 1)), ToMqtt response]
        \<and> run = Finished (Ok ()) \<and> \<not> ln_metering s2"
  using assms(3,6)
  by (simp add: delay_query_waits [OF assms(1,2,4)] andDo_catch_wait deliver_Waiting delay_arrives_def
      uart_notify_monitor_node_dalay_def data_arrives [OF assms(5)] andDo_assoc reply_Ok del: deliver.simps)

text \<open>A query for the delay of a node and the node's answer.\<close>

definition delay_request :: mqtt_message where
  "delay_request = app_request [(''acqAddr'', JStr ''000000000001''), (''proType'', JNum 2), (''data'', JStr ''68'')]"

definition node_answer :: uart_message where
  "node_answer = answer_message (app_data_new RouteDataForward MONITOR_NODE (Some [0, 0, 2, 1, 0x68])) None"

lemma delay_request:
  "is_delay_request digits_env delay_request app_req_info (Address 0 0 0 0 0 1) 2 [0x68]"
proof -
  have "address_from_str (env_hex_decode digits_env) ''000000000001'' = Ok (Address 0 0 0 0 0 1)"
    "hex_decode digits_env ''68'' = Ok [0x68]"
    by code_simp+
  then show ?thesis
    by (simp add: is_delay_request_def delay_request_def monitor_delay_request_from_json_def)
qed

lemma node_answer:
  "uart_response_try_from monitor_node_response_try_from (um_frame node_answer)
     = Ok (NormalResponse \<lparr>mnr_up_time = 0, mnr_protocol_type = 2, mnr_message_len = 1, mnr_message = [0x68]\<rparr>)"
proof -
  have "monitor_node_response_try_from (app_data_new RouteDataForward MONITOR_NODE (Some [0, 0, 2, 1, 0x68]))
      = Ok \<lparr>mnr_up_time = 0, mnr_protocol_type = 2, mnr_message_len = 1, mnr_message = [0x68]\<rparr>"
    by (simp add: monitor_node.decode_Ok_iff u16_to_le_def)
  then show ?thesis by (simp add: node_answer_def)
qed

lemma idle_line: "ms_state (ln_route_ctrl line_state_new) = MeterResume" "ms_result (ln_route_ctrl line_state_new) = None"
    "ln_monitor_response line_state_new = None"
  by (simp_all add: line_state_new_def route_ctrl_new_def)

theorem monitor_delay_replies_witness:
  "\<exists>response. fst (delivers [pause_answered (Ok ()), delay_arrives 9, data_arrives digits_env node_answer]
      (mqtt_get_monitor_node_delay digits_env address_default delay_request (line_state_new, \<lparr>SEQ = 5, TOKEN = 0\<rparr>))) =
     [ToUart (request_message 5 None pause_metering_to_app_data 2 None),
      ToUart (delay_query app_req_info address_default (Address 0 0 0 0 0 1) 2 [0x68] 6), ToMqtt response]"
proof -
  obtain response where r: "into_flat digits_env app_req_info (delay_json 9) = Ok response"
    unfolding delay_json_def using into_flat_Obj by blast
  show ?thesis
    using monitor_delay_replies [OF idle_line delay_request node_answer r, where master = address_default and g = "\<lparr>SEQ = 5, TOKEN = 0\<rparr>"]
    by (intro exI [of _ response]) (auto simp del: deliver.simps split: prod.splits)
qed

theorem delay_overtaken_witness:
  "\<exists>response. fst (delivers [pause_answered (Ok ()), data_arrives digits_env node_answer \<circ> delay_arrives 9]
      (mqtt_get_monitor_node_delay digits_env address_default delay_request (line_state_new, \<lparr>SEQ = 5, TOKEN = 0\<rparr>))) =
     [ToUart (request_message 5 None pause_metering_to_app_data 2 None),
      ToUart (delay_query app_req_info address_default (Address 0 0 0 0 0 1) 2 [0x68] 6), ToMqtt response]
     \<and> error_into_mqtt_message digits_env app_req_info invalid_monitor_response = Ok response"
proof -
  obtain response where r: "error_into_mqtt_message digits_env app_req_info invalid_monitor_response = Ok response"
    by (simp add: error_into_mqtt_message_def new_with_req_info_status_reason_def mqtt_message_new_def
        mqtt_payload_to_json_def mqtt_payload_new_def)
  from delay_overtaken [OF idle_line delay_request node_answer r, where d = 9 and master = address_default and g = "\<lparr>SEQ = 5, TOKEN = 0\<rparr>"] r
  show ?thesis by (intro exI [of _ response]) (auto simp del: deliver.simps split: prod.splits)
qed

end
