(* ===== verification/Identify_Area.thy ===== *)
theory Identify_Area
  imports Line_Services File_Upgrade Active_Report
begin

text \<open>
  src/src/service/identify_area.rs: the search for meters behind the module, and the switch for area
  identification. A search runs as a task of the thread pool over \<open>identify_area_info\<close>, the record behind its
  lock; reports of the module and answers to its queries come in while it waits.

  The loop of the task gets a bound on its rounds, one per wake-up; \<open>search_forwards_reports\<close> holds for every
  bound at least two above the number of wake-ups. \<open>parse_from_str\<close> is chrono's parser for
  \<^verbatim>\<open>%Y-%m-%d %H:%M:%S\<close>.
\<close>

section \<open>State\<close>

datatype identify_area_state = SearchRunning | SearchFinished | SearchCanceled | NoSearch

record identify_area_info =
  ia_report_info :: "report_node_info_and_device_type list"
  ia_result :: "unit result option"
  ia_state :: identify_area_state

definition identify_area_new :: identify_area_info where
  "identify_area_new = \<lparr>ia_report_info = [], ia_result = None, ia_state = NoSearch\<rparr>"

section \<open>Area identification\<close>

definition mqtt_identify_area_set :: "mqtt_message \<Rightarrow> ('s, unit) prog" where
  "mqtt_identify_area_set = json_request (\<lambda>v. word_field v ''switch'') identify_area_set_request_to_app_data"

definition uart_identify_area_set :: "env \<Rightarrow> uart_message \<Rightarrow> action list result" where
  "uart_identify_area_set = confirm_response_handler"

section \<open>Searching for meters\<close>

definition enable_search_meter_from_json :: "json \<Rightarrow> (string \<times> string \<times> u16 \<times> u8 \<times> u8) result" where
  "enable_search_meter_from_json v =
     andThen (string_field v ''starttime'') (\<lambda>start_time.
     andThen (string_field v ''schUnit'') (\<lambda>unit.
     andThen (word_field v ''schValue'') (\<lambda>duration.
     andThen (word_field v ''retry'') (\<lambda>retry.
     andThen (word_field v ''slice'') (\<lambda>random_wait_count.
     Ok (start_time, unit, duration, retry, random_wait_count))))))"

definition active_node_register_request_try_from ::
    "(string \<Rightarrow> naive_date_time result) \<Rightarrow> string \<times> string \<times> u16 \<times> u8 \<times> u8 \<Rightarrow> active_node_register_request result" where
  "active_node_register_request_try_from parse_from_str request =
     (case request of (start_time, unit, duration, retry, random_wait_count) \<Rightarrow>
        andThen (parse_from_str start_time) (\<lambda>t.
        Ok \<lparr>anr_start_time = t, anr_duration = (if unit = ''hour'' then duration * 60 else duration),
            anr_retry_count = retry, anr_random_wait_count = random_wait_count\<rparr>))"

text \<open>The thread of the request: the answer is what the task is started with, if it is. A refused pause ends
  it without a reply.\<close>

definition mqtt_active_slave_node_register ::
    "env \<Rightarrow> (string \<Rightarrow> naive_date_time result) \<Rightarrow> mqtt_message
       \<Rightarrow> (line_state, active_node_register_request \<times> mqtt_req_info \<times> string) prog" where
  "mqtt_active_slave_node_register env parse_from_str message =
     andDo (give (unwrap (message_json enable_search_meter_from_json message))) (\<lambda>request.
     andDo (give (to_mqtt_req_info message)) (\<lambda>mqtt.
     andDo (give (get_app (mm_topic message))) (\<lambda>app.
     case active_node_register_request_try_from parse_from_str request of
       Ok r \<Rightarrow>
         andDo (on_route_ctrl auto_pause_metering) (\<lambda>_.
         give (Ok (r, mqtt, APP_NAME @ ''/notify/spont/'' @ app @ ''/searchMeter'')))
     | Err e \<Rightarrow>
         andDo (reply (error_into_mqtt_message env mqtt (MqttResponseErr (InvalidJson (error_text env e)))))
           (\<lambda>_. give (Err e))
     | Panic p \<Rightarrow> give (Panic p))))"

text \<open>\<^verbatim>\<open>MqttSearchMeterResponse\<close> is a list of one entry.\<close>

definition search_meter_json :: "env \<Rightarrow> report_node_info_and_device_type \<Rightarrow> json" where
  "search_meter_json env r =
     JArr [JObj [(''acqAddr'', JStr (address_to_string (env_hex_encode env) (rnd_address (rnt_node_info r)))),
                 (''proType'', json_word (rnd_protocol_type (rnt_node_info r))),
                 (''deviceType'', json_word (rnt_device_type r))]]"

definition wait_search_result :: "(identify_area_info, unit result) prog" where
  "wait_search_result =
     andDo (wait_while (\<lambda>s. ia_result s = None)) (\<lambda>_.
     andDo (ask ia_result) (\<lambda>r.
     andDo (change (\<lambda>s. s\<lparr>ia_result := None\<rparr>)) (\<lambda>_.
     andDo (give (unwrap_option r)) (\<lambda>result. give (Ok result)))))"

primrec search_rounds :: "nat \<Rightarrow> env \<Rightarrow> string \<Rightarrow> (identify_area_info, unit) prog" where
  "search_rounds 0 env report_topic = give (Panic NeverReturns)"
| "search_rounds (Suc n) env report_topic =
     andDo (ask ia_state) (\<lambda>state.
     if state \<noteq> SearchRunning then change (\<lambda>s. s\<lparr>ia_state := NoSearch\<rparr>)
     else
       andDo (wait_timeout_while (\<lambda>s. ia_report_info s = [] \<and> ia_result s = None)) (\<lambda>timed_out.
       andDo (ask ia_report_info) (\<lambda>reports.
       andDo (if timed_out
              then
                andDo (running_status_query (FrameKey RouteSet (route_set_to_u8 ActiveNodeRegister))) (\<lambda>_.
                andDo wait_search_result (\<lambda>result. give (Ok ())))
              else if reports \<noteq> []
              then
                andDo (change (\<lambda>s. s\<lparr>ia_report_info := []\<rparr>)) (\<lambda>_.
                andDo (own_message env report_topic (Some (Nested (JArr (map (search_meter_json env) reports))))) (\<lambda>m.
                send [ToMqtt m]))
              else change (\<lambda>s. s\<lparr>ia_result := None\<rparr>)) (\<lambda>_.
       search_rounds n env report_topic))))"

definition already_running :: error where
  "already_running = Message ''search meter already running''"

definition search_task ::
    "nat \<Rightarrow> env \<Rightarrow> mqtt_message \<Rightarrow> active_node_register_request \<Rightarrow> mqtt_req_info \<Rightarrow> string
       \<Rightarrow> (identify_area_info, unit) prog" where
  "search_task rounds env message request mqtt report_topic =
     andDo (ask ia_state) (\<lambda>state.
     if state = SearchRunning then reply (error_into_mqtt_message env mqtt already_running)
     else
       andDo (change (\<lambda>s. s\<lparr>ia_state := SearchRunning\<rparr>)) (\<lambda>_.
       andDo (uart_request (active_node_register_request_to_app_data request) message) (\<lambda>_.
       andDo wait_search_result (\<lambda>result.
       andDo (reply (result_into_mqtt_message env (unit_into_mqtt_message env mqtt) mqtt result)) (\<lambda>_.
       if \<not> is_ok result then change (\<lambda>s. s\<lparr>ia_state := NoSearch\<rparr>)
       else search_rounds rounds env report_topic)))))"

section \<open>Reports and answers of the module\<close>

definition search_notify :: "unit result \<Rightarrow> identify_area_info \<Rightarrow> identify_area_info" where
  "search_notify result s = s\<lparr>ia_result := Some result\<rparr>"

definition notify_state :: "unit result \<Rightarrow> identify_area_state \<Rightarrow> identify_area_info \<Rightarrow> identify_area_info" where
  "notify_state result state s = s\<lparr>ia_result := Some result, ia_state := state\<rparr>"

definition uart_active_slave_node_register_timeout :: "identify_area_info \<Rightarrow> identify_area_info" where
  "uart_active_slave_node_register_timeout s = s\<lparr>ia_result := Some (Err (MqttResponseErr RequestTimeout))\<rparr>"

definition mqtt_stop_slave_node_register :: "mqtt_message \<Rightarrow> ('s, unit) prog" where
  "mqtt_stop_slave_node_register message = uart_request stop_node_register_request_to_app_data message"

definition uart_active_slave_node_register ::
    "uart_message \<Rightarrow> identify_area_info \<Rightarrow> unit result \<times> identify_area_info" where
  "uart_active_slave_node_register message s =
     (case uart_response_try_from confirm_response_try_from (um_frame message) of
        Ok response \<Rightarrow> (Ok (), search_notify (confirm_uart_response_to_result response) s)
      | Err e \<Rightarrow> (Err e, s)
      | Panic p \<Rightarrow> (Panic p, s))"

definition uart_search_meter_running_status ::
    "uart_message \<Rightarrow> identify_area_info \<Rightarrow> unit result \<times> identify_area_info" where
  "uart_search_meter_running_status message s =
     (case uart_response_try_from running_status_response_try_from (um_frame message) of
        Ok response \<Rightarrow>
          (Ok (),
           (case uart_response_to_result response of
              Ok status \<Rightarrow>
                (if rs_work_flag (rr_running_status status) = 0 then notify_state (Ok ()) SearchFinished s
                 else search_notify (Ok ()) s)
            | Err e \<Rightarrow> search_notify (Err e) s
            | Panic p \<Rightarrow> s))
      | Err e \<Rightarrow> (Err e, s)
      | Panic p \<Rightarrow> (Panic p, s))"

definition uart_stop_slave_node_register ::
    "env \<Rightarrow> uart_message \<Rightarrow> identify_area_info \<Rightarrow> action list result \<times> identify_area_info" where
  "uart_stop_slave_node_register env message s =
     (confirm_response_handler env message, notify_state (Ok ()) SearchCanceled s)"

text \<open>A report is confirmed before it is read.\<close>

definition confirm_report :: "uart_message \<Rightarrow> action list result" where
  "confirm_report message =
     andThen (frame_new_response (frame_get_seq (um_frame message)) None
       (confirm_response_to_app_data confirm_response_default)) (\<lambda>f.
     andThen (req_info_new (um_frame message) None) (\<lambda>req.
     Ok [ToUart (uart_message_new req f)]))"

definition uart_slave_node_info_report :: "uart_message \<Rightarrow> unit result" where
  "uart_slave_node_info_report message = Panic TodoCode"

definition uart_slave_work_status_report :: "uart_message \<Rightarrow> (identify_area_info, unit) prog" where
  "uart_slave_work_status_report message =
     andDo (give (confirm_report message)) (\<lambda>acts.
     andDo (send acts) (\<lambda>_.
     andDo (give (report_work_status_try_from (ud_app_data (fr_user_data (um_frame message))))) (\<lambda>status.
     if rws_work_status_type status = Search then change (notify_state (Ok ()) SearchFinished)
     else give (Ok ()))))"

definition uart_slave_node_info_and_device_report :: "uart_message \<Rightarrow> (identify_area_info, unit) prog" where
  "uart_slave_node_info_and_device_report message =
     andDo (give (confirm_report message)) (\<lambda>acts.
     andDo (send acts) (\<lambda>_.
     andDo (give (report_node_info_and_device_type_try_from (ud_app_data (fr_user_data (um_frame message))))) (\<lambda>report.
     change (\<lambda>s. s\<lparr>ia_report_info := ia_report_info s @ [report]\<rparr>))))"

section \<open>Facts\<close>

lemma uart_request_info:
  "to_mqtt_req_info m = Ok mqtt \<Longrightarrow> uart_request d m = info_request d (Some mqtt)"
  by (auto simp: uart_request_def info_request_def mqtt_request_uart_handler_def to_mqtt_req_info_def)

lemma register_fn_num [simp]: "fn_num (active_node_register_request_to_app_data r) = Ok 5"
  by (simp add: active_node_register_request_to_app_data_def Let_def)

text \<open>The request for a search, as it goes to the module.\<close>

definition search_request :: "active_node_register_request \<Rightarrow> mqtt_req_info \<Rightarrow> u8 \<Rightarrow> action" where
  "search_request request mqtt seq =
     ToUart (request_message seq None (active_node_register_request_to_app_data request)
       (route_set_to_u8 ActiveNodeRegister) (Some mqtt))"

text \<open>The notification of all the reports the task finds when it wakes up, under the next own token.\<close>

definition search_message :: "env \<Rightarrow> string \<Rightarrow> u64 \<Rightarrow> report_node_info_and_device_type list \<Rightarrow> mqtt_message" where
  "search_message env topic token rs =
     \<lparr>mm_topic = topic, mm_payload = Some (JObj [(''token'', JStr (decimal (unat token))),
       (''timestamp'', JStr (env_now env)), (''body'', JArr (map (search_meter_json env) rs))])\<rparr>"

primrec search_messages :: "env \<Rightarrow> string \<Rightarrow> u64 \<Rightarrow> report_node_info_and_device_type list list \<Rightarrow> action list" where
  "search_messages env topic token [] = []"
| "search_messages env topic token (rs # rss) =
     ToMqtt (search_message env topic token rs) # search_messages env topic (token + 1) rss"

lemma own_search_message:
  "andDo (own_message env topic (Some (Nested (JArr (map (search_meter_json env) rs))))) k (s, g) =
     k (search_message env topic (TOKEN g) rs) (s, g\<lparr>TOKEN := TOKEN g + 1\<rparr>)"
  by (simp add: own_message_def mqtt_payload_new_with_body_def mqtt_message_new_def mqtt_payload_to_json_def
      search_message_def)

text \<open>One report, and some that all come in before the task gets the lock again.\<close>

definition report_arrives :: "report_node_info_and_device_type \<Rightarrow> identify_area_info \<Rightarrow> identify_area_info" where
  "report_arrives r s = s\<lparr>ia_report_info := ia_report_info s @ [r]\<rparr>"

definition reports_arrive :: "report_node_info_and_device_type list \<Rightarrow> identify_area_info \<Rightarrow> identify_area_info" where
  "reports_arrive rs = fold report_arrives rs"

lemma reports_arrive: "reports_arrive rs s = s\<lparr>ia_report_info := ia_report_info s @ rs\<rparr>"
  unfolding reports_arrive_def by (induction rs arbitrary: s) (simp_all add: report_arrives_def)

definition searching :: identify_area_info where
  "searching = \<lparr>ia_report_info = [], ia_result = None, ia_state = SearchRunning\<rparr>"

lemma delivers_append: "delivers (es @ fs) t = delivers fs (delivers es t)"
  by (simp add: delivers_def)

lemma search_waits:
  "search_rounds (Suc n) env topic (searching, g) =
     ([], (searching, g), Waiting (\<lambda>(late, s, g).
        if ia_report_info s \<noteq> [] \<or> ia_result s \<noteq> None
        then Some (andDo (ask ia_report_info) (\<lambda>reports.
          andDo (if reports \<noteq> []
              then
                andDo (change (\<lambda>s. s\<lparr>ia_report_info := []\<rparr>)) (\<lambda>_.
                andDo (own_message env topic (Some (Nested (JArr (map (search_meter_json env) reports))))) (\<lambda>m.
                send [ToMqtt m]))
              else change (\<lambda>s. s\<lparr>ia_result := None\<rparr>)) (\<lambda>_. search_rounds n env topic)) (s, g))
        else if late
        then Some (andDo (running_status_query (FrameKey RouteSet (route_set_to_u8 ActiveNodeRegister))) (\<lambda>_.
                andDo wait_search_result (\<lambda>result. search_rounds n env topic)) (s, g))
        else None))"
  by (auto simp: searching_def andDo_wait_timeout_while andDo_assoc fun_eq_iff)

lemma search_report:
  "rs \<noteq> [] \<Longrightarrow> deliver (reports_arrive rs) (search_rounds (Suc n) env topic (searching, g)) =
     sending [ToMqtt (search_message env topic (TOKEN g) rs)]
       (search_rounds n env topic (searching, g\<lparr>TOKEN := TOKEN g + 1\<rparr>))"
  unfolding search_waits
  by (simp add: deliver_Waiting reports_arrive andDo_assoc own_search_message searching_def
      del: deliver.simps search_rounds.simps)

lemma search_reports:
  "length rss \<le> n \<Longrightarrow> [] \<notin> set rss \<Longrightarrow>
     delivers (map reports_arrive rss) (search_rounds n env topic (searching, g)) =
     sending (search_messages env topic (TOKEN g) rss)
       (search_rounds (n - length rss) env topic (searching, g\<lparr>TOKEN := TOKEN g + of_nat (length rss)\<rparr>))"
proof (induction rss arbitrary: n g)
  case (Cons rs rss)
  then obtain m where n: "n = Suc m" by (cases n) auto
  from Cons.prems(2) have "rs \<noteq> []" by auto
  with Cons n show ?case by (simp add: search_report ac_simps del: search_rounds.simps)
qed simp

text \<open>The end, with the reports that came in just before it.\<close>

definition search_left :: "report_node_info_and_device_type list \<Rightarrow> identify_area_info" where
  "search_left rest = identify_area_new\<lparr>ia_result := (if rest = [] then None else Some (Ok ()))\<rparr>"

definition batch :: "report_node_info_and_device_type list \<Rightarrow> report_node_info_and_device_type list list" where
  "batch rest = (if rest = [] then [] else [rest])"

lemma search_ends:
  "state \<noteq> SearchRunning \<Longrightarrow>
     deliver (notify_state (Ok ()) state \<circ> reports_arrive rest) (search_rounds (Suc (Suc n)) env topic (searching, g)) =
     (search_messages env topic (TOKEN g) (batch rest),
      (search_left rest, g\<lparr>TOKEN := TOKEN g + of_nat (length (batch rest))\<rparr>), Finished (Ok ()))"
  unfolding search_waits
  by (simp add: deliver_Waiting notify_state_def reports_arrive searching_def identify_area_new_def change_def andDo_assoc
      own_search_message search_left_def batch_def del: deliver.simps)

lemma search_messages_append:
  "search_messages env topic token (rss @ qss) =
     search_messages env topic token rss @ search_messages env topic (token + of_nat (length rss)) qss"
  by (induction rss arbitrary: token) (simp_all add: ac_simps)

lemma concat_batch: "concat (batch rest) = rest" "[] \<notin> set (batch rest)"
  by (simp_all add: batch_def)

section \<open>Properties\<close>

text \<open>C21: A search forwards its reports, however they come in. Between two turns of the task any number of reports can
  arrive: \<open>rss\<close> are the reports of each wake-up and \<open>rest\<close> those that come in together with the end. When the module
  confirms the search, the application gets the confirmation; each wake-up makes one notification of all its
  reports under the next own token, so that no report is lost or reordered, and the pending ones are passed on
  before the task ends. It leaves the state in which a new search can start, except that the result of the end is
  left behind exactly when reports were pending then.\<close>

theorem search_forwards_reports:
  assumes "to_mqtt_req_info message = Ok mqtt" and "unit_into_mqtt_message env mqtt () = Ok response"
    and "state \<noteq> SearchRunning" and "[] \<notin> set rss" and "length rss + 2 \<le> rounds"
  shows "delivers (search_notify (Ok ()) # map reports_arrive rss @ [notify_state (Ok ()) state \<circ> reports_arrive rest])
      (search_task rounds env message request mqtt topic (identify_area_new, g)) =
    (search_request request mqtt (SEQ g) # ToMqtt response # search_messages env topic (TOKEN g) (rss @ batch rest),
     (identify_area_new\<lparr>ia_result := (if rest = [] then None else Some (Ok ()))\<rparr>,
      g\<lparr>SEQ := SEQ g + 1, TOKEN := TOKEN g + of_nat (length (rss @ batch rest))\<rparr>), Finished (Ok ()))
    \<and> concat (rss @ batch rest) = concat rss @ rest"
proof -
  let ?g = "g\<lparr>SEQ := SEQ g + 1\<rparr>"
  obtain j where "rounds = length rss + 2 + j" using le_Suc_ex [OF assms(5)] by blast
  then have k: "rounds - length rss = Suc (Suc j)" and enough: "length rss \<le> rounds" by simp_all
  have start: "deliver (search_notify (Ok ())) (search_task rounds env message request mqtt topic (identify_area_new, g)) =
    sending [search_request request mqtt (SEQ g), ToMqtt response] (search_rounds rounds env topic (searching, ?g))"
    using assms(2)
    by (simp add: search_request_def search_task_def identify_area_new_def uart_request_info [OF assms(1)] andDo_info_request
        wait_search_result_def andDo_assoc andDo_wait_while deliver_Waiting search_notify_def searching_def
        del: deliver.simps search_rounds.simps)
  show ?thesis
    using search_reports [OF enough assms(4), of env topic ?g, unfolded k]
    by (simp add: start delivers_append search_ends [OF assms(3)] search_messages_append search_left_def ac_simps concat_batch(1)
        del: deliver.simps search_rounds.simps)
qed

text \<open>A search can be confirmed before it is. When a search is stopped that does not run, the answer leaves a
  result behind; the next search takes it for the module's confirmation, tells the application so and goes on
  to wait for reports, and when the module then refuses the search nothing happens.\<close>

theorem stopping_confirms_next_search:
  assumes "to_mqtt_req_info message = Ok mqtt" and "unit_into_mqtt_message env mqtt () = Ok response"
    and "ia_report_info s = []"
  shows "search_task (Suc n) env message request mqtt topic (snd (uart_stop_slave_node_register env stop_answer s), g) =
      sending [search_request request mqtt (SEQ g), ToMqtt response]
        (search_rounds (Suc n) env topic (searching, g\<lparr>SEQ := SEQ g + 1\<rparr>))
    \<and> deliver (search_notify (Err e)) (search_task (Suc n) env message request mqtt topic
        (snd (uart_stop_slave_node_register env stop_answer s), g)) =
      sending [search_request request mqtt (SEQ g), ToMqtt response]
        (search_rounds n env topic (searching, g\<lparr>SEQ := SEQ g + 1\<rparr>))"
proof -
  have start: "search_task (Suc n) env message request mqtt topic (snd (uart_stop_slave_node_register env stop_answer s), g) =
      sending [search_request request mqtt (SEQ g), ToMqtt response]
        (search_rounds (Suc n) env topic (searching, g\<lparr>SEQ := SEQ g + 1\<rparr>))"
    using assms(2,3)
    by (cases s)
      (simp add: search_request_def uart_stop_slave_node_register_def notify_state_def search_task_def
        uart_request_info [OF assms(1)] andDo_info_request wait_search_result_def andDo_assoc andDo_wait_while
        searching_def del: search_rounds.simps)
  have "deliver (search_notify (Err e)) (search_rounds (Suc n) env topic (searching, g')) =
      search_rounds n env topic (searching, g')" for g'
    unfolding search_waits
    by (simp add: deliver_Waiting search_notify_def searching_def del: deliver.simps search_rounds.simps)
  with start show ?thesis by (simp del: deliver.simps search_rounds.simps)
qed

text \<open>A search request, its application and a report.\<close>

definition sample_search :: active_node_register_request where
  "sample_search =
     \<lparr>anr_start_time = \<lparr>dt_second = 0, dt_minute = 30, dt_hour = 8, dt_day = 1, dt_month = 6, dt_year = 2024\<rparr>,
      anr_duration = 60, anr_retry_count = 1, anr_random_wait_count = 4\<rparr>"

definition sample_report :: report_node_info_and_device_type where
  "sample_report =
     \<lparr>rnt_node_number = 1,
      rnt_node_info = \<lparr>rnd_address = Address 0 0 0 0 0 1, rnd_protocol_type = 2, rnd_seq_num = 7\<rparr>,
      rnt_device_type = 0, rnt_slave_node_count = 0, rnt_slave_node_number = 0, rnt_slave_node_comm_infos = []\<rparr>"

lemma unit_reply: "\<exists>m. unit_into_mqtt_message env mqtt () = Ok m"
  by (simp add: unit_into_mqtt_message_def)

text \<open>Two reports before one wake-up, a third together with the end.\<close>

theorem search_forwards_reports_witness:
  "\<exists>response. \<exists>w. delivers [search_notify (Ok ()), reports_arrive [sample_report, sample_report],
        notify_state (Ok ()) SearchFinished \<circ> reports_arrive [sample_report]]
      (search_task 3 digits_env (app_request []) sample_search app_req_info ''t'' (identify_area_new, \<lparr>SEQ = 5, TOKEN = 8\<rparr>)) =
    ([search_request sample_search app_req_info 5, ToMqtt response,
      ToMqtt (search_message digits_env ''t'' 8 [sample_report, sample_report]),
      ToMqtt (search_message digits_env ''t'' 9 [sample_report])], w, Finished (Ok ()))
    \<and> ia_result (fst w) = Some (Ok ())"
proof -
  obtain response where r: "unit_into_mqtt_message digits_env app_req_info () = Ok response" using unit_reply by blast
  have "length [[sample_report, sample_report]] + 2 \<le> 3" "SearchFinished \<noteq> SearchRunning"
    "[] \<notin> set [[sample_report, sample_report]]" by simp_all
  note search_forwards_reports [where g = "\<lparr>SEQ = 5, TOKEN = 8\<rparr>" and request = sample_search and topic = "''t''"
      and rest = "[sample_report]", OF app_request_req_info r this(2,3,1), THEN conjunct1]
  then show ?thesis
    by (intro exI [of _ response]) (simp add: batch_def del: deliver.simps)
qed

theorem stopping_confirms_next_search_witness:
  "\<exists>response. fst (search_task 3 digits_env (app_request []) sample_search app_req_info ''t''
      (notify_state (Ok ()) SearchCanceled identify_area_new, \<lparr>SEQ = 5, TOKEN = 8\<rparr>)) =
    [search_request sample_search app_req_info 5, ToMqtt response]"
proof -
  obtain response where r: "unit_into_mqtt_message digits_env app_req_info () = Ok response" using unit_reply by blast
  have "ia_report_info identify_area_new = []" by (simp add: identify_area_new_def)
  from stopping_confirms_next_search [where g = "\<lparr>SEQ = 5, TOKEN = 8\<rparr>" and request = sample_search and topic = "''t''" and n = 2,
      OF app_request_req_info r this, THEN conjunct1]
  show ?thesis
    by (intro exI [of _ response]) (simp add: uart_stop_slave_node_register_def search_waits numeral_3_eq_3 numeral_2_eq_2
        del: deliver.simps search_rounds.simps)
qed

end
