(* ===== verification/Kept.thy ===== *)
theory Kept
  imports Service_Threads
begin

text \<open>
  The logic of the services' programs.

  \<open>keeps I p\<close> says that \<open>p\<close> and everything it does after its waits preserve \<open>I\<close>, whatever preserving \<open>I\<close>
  happens meanwhile; the collection \<open>kept\<close> has a rule for every construct. The locale \<open>component\<close> is the
  part of a state that a program works on with \<open>zoom\<close>: such a program keeps whatever does not look at its
  part, and its laws turn it into a program on the whole state.
\<close>

section \<open>What programs keep\<close>

named_theorems kept \<open>what programs keep\<close>

primrec keeps_run :: "('s \<Rightarrow> bool) \<Rightarrow> ('s, 'a) run \<Rightarrow> bool" where
  "keeps_run I (Finished r) = True"
| "keeps_run I (Waiting f) =
     (\<forall>x. I (fst (snd x)) \<longrightarrow>
        pred_option (\<lambda>t. I (fst (fst (snd t))) \<and> snd (snd t))
          (map_option (map_prod id (map_prod id (keeps_run I))) (f x)))"

definition keeps_turn :: "('s \<Rightarrow> bool) \<Rightarrow> ('s, 'a) turn \<Rightarrow> bool" where
  "keeps_turn I t \<longleftrightarrow> I (fst (fst (snd t))) \<and> keeps_run I (snd (snd t))"

definition keeps :: "('s \<Rightarrow> bool) \<Rightarrow> ('s, 'a) prog \<Rightarrow> bool" where
  "keeps I p \<longleftrightarrow> (\<forall>s g. I s \<longrightarrow> keeps_turn I (p (s, g)))"

lemma keeps_run_Waiting:
  "keeps_run I (Waiting f) \<longleftrightarrow> (\<forall>late s g t. I s \<longrightarrow> f (late, s, g) = Some t \<longrightarrow> keeps_turn I t)"
proof -
  have eq: "pred_option (\<lambda>t. I (fst (fst (snd t))) \<and> snd (snd t)) (map_option (map_prod id (map_prod id (keeps_run I))) y)
      \<longleftrightarrow> (\<forall>t. y = Some t \<longrightarrow> keeps_turn I t)" for y
    by (cases y) (auto simp: keeps_turn_def)
  show ?thesis unfolding keeps_run.simps eq by auto
qed

declare keeps_run.simps(2) [simp del]

lemma keeps_turn_simps [simp]:
  "keeps_turn I (acts, (s, g), r) \<longleftrightarrow> I s \<and> keeps_run I r"
  "keeps_turn I (sending acts t) \<longleftrightarrow> keeps_turn I t"
  by (auto simp: keeps_turn_def) (cases t; simp)+

lemma keepsD: "keeps I p \<Longrightarrow> I (fst w) \<Longrightarrow> keeps_turn I (p w)"
  by (cases w) (simp add: keeps_def)

lemma keeps_simple [kept]:
  "keeps I (give r)" "keeps I (send acts)" "keeps I (ask f)" "keeps I (with_statics h)"
  by (auto simp: keeps_def give_def send_def ask_def with_statics_def split: prod.splits)

lemma keeps_change [kept]: "(\<And>s. I s \<Longrightarrow> I (f s)) \<Longrightarrow> keeps I (change f)"
  by (simp add: keeps_def change_def)

lemma keeps_perform [kept]: "(\<And>s. I s \<Longrightarrow> I (snd (f s))) \<Longrightarrow> keeps I (perform f)"
  by (auto simp: keeps_def perform_def split: prod.splits) (metis snd_conv)

lemma keeps_waits [kept]: "keeps I (wait_while c)" "keeps I (wait_timeout_while c)"
  by (auto simp: keeps_def wait_while_def wait_timeout_while_def keeps_run_Waiting split: if_splits)

lemma keeps_run_then:
  assumes "\<And>x. keeps I (k x)" and "keeps_run I r" and "I (fst w)"
  shows "keeps_turn I (run_then k r w)"
  using assms(2,3)
proof (induction r arbitrary: w)
  case (Finished r)
  then show ?case using assms(1) by (cases w; cases r) (simp_all add: keepsD)
next
  case (Waiting f)
  obtain s g where w: "w = (s, g)" by (cases w)
  have "keeps_turn I t" if "I s" and t: "map_option continue
      (map_option (map_prod id (map_prod id (run_then k))) (f (late, s, g))) = Some t" for late s g t
  proof -
    from t obtain acts w' r where f: "f (late, s, g) = Some (acts, w', r)"
        and t: "t = sending acts (run_then k r w')"
      by auto
    have "keeps_turn I (acts, w', r)"
      using Waiting.prems(1) that(1) f unfolding keeps_run_Waiting by blast
    then have kept: "keeps_run I r" "I (fst w')" by (simp_all add: keeps_turn_def)
    have "keeps_turn I (run_then k r w')"
      by (rule Waiting.IH [OF rangeI [of f "(late, s, g)"] _ _ _ kept, of "(acts, w', r)" "(w', r)"]) (use f in auto)
    with t show ?thesis by simp
  qed
  with Waiting.prems w show ?case by (simp add: keeps_run_Waiting)
qed

lemma keeps_andDo [kept]:
  assumes "keeps I p" and "\<And>x. keeps I (k x)"
  shows "keeps I (andDo p k)"
  unfolding keeps_def
proof (intro allI impI)
  fix s g
  assume "I s"
  obtain acts w r where p: "p (s, g) = (acts, w, r)" by (cases "p (s, g)")
  from keepsD [OF assms(1), of "(s, g)"] \<open>I s\<close> have "I (fst w)" "keeps_run I r"
    by (simp_all add: p keeps_turn_def)
  then show "keeps_turn I (andDo p k (s, g))"
    by (simp add: andDo_def p keeps_run_then [OF assms(2)])
qed

lemma keeps_catch_run: "keeps_run I (catch_run r) = keeps_run I r"
proof (induction r)
  case (Waiting f)
  have "(\<forall>t. map_option (map_prod id (map_prod id catch_run)) (f x) = Some t \<longrightarrow> keeps_turn I t)
      \<longleftrightarrow> (\<forall>t. f x = Some t \<longrightarrow> keeps_turn I t)" for x
  proof (cases "f x")
    case (Some t)
    obtain acts w r where t: "t = (acts, w, r)" by (cases t)
    have "keeps_run I (catch_run r) = keeps_run I r"
      by (rule Waiting.IH [OF rangeI [of f x], of t "(w, r)"]) (use Some t in auto)
    with Some t show ?thesis by (simp add: keeps_turn_def)
  qed simp
  then show ?case by (simp add: keeps_run_Waiting)
qed simp

lemma keeps_catch [kept]:
  assumes "keeps I p"
  shows "keeps I (catch p)"
  unfolding keeps_def
proof (intro allI impI)
  fix s g
  assume "I s"
  obtain acts w r where p: "p (s, g) = (acts, w, r)" by (cases "p (s, g)")
  from keepsD [OF assms, of "(s, g)"] \<open>I s\<close> p show "keeps_turn I (catch p (s, g))"
    by (simp add: keeps_turn_def catch_def keeps_catch_run)
qed

lemma keeps_all:
  fixes p :: "('s, 'a) prog"
  shows "keeps (\<lambda>_. True) p"
proof -
  have "keeps_run (\<lambda>_. True) r" for r :: "('s, 'a) run"
  proof (induction r)
    case (Waiting f)
    have "keeps_run (\<lambda>_. True) (snd (snd t))" if "f x = Some t" for x t
      by (rule Waiting.IH [OF rangeI [of f x], of t "snd t"]) (use that in \<open>cases t; auto\<close>)+
    then show ?case by (auto simp: keeps_run_Waiting keeps_turn_def)
  qed simp
  then show ?thesis by (simp add: keeps_def keeps_turn_def)
qed

lemma keeps_zoom_run:
  assumes "\<And>s. I s \<Longrightarrow> J (get s)" and "\<And>x s. I s \<Longrightarrow> J x \<Longrightarrow> I (put x s)"
  shows "keeps_run J r \<Longrightarrow> keeps_run I (zoom_run get put r)"
proof (induction r)
  case (Waiting f)
  have "keeps_turn I t" if "I s" and t: "map_option (map_prod id (map_prod (\<lambda>(x, g). (put x s, g)) id))
       (map_option (map_prod id (map_prod id (zoom_run get put))) (f (late, get s, g))) = Some t" for late s g t
  proof -
    from t obtain acts x g' r where f: "f (late, get s, g) = Some (acts, (x, g'), r)"
        and t: "t = (acts, (put x s, g'), zoom_run get put r)"
      by (auto simp: map_prod_def split: prod.splits)
    have kept: "J x" "keeps_run J r"
      using Waiting.prems assms(1) [OF that(1)] f unfolding keeps_run_Waiting by fastforce+
    have "keeps_run I (zoom_run get put r)"
      by (rule Waiting.IH [OF rangeI [of f "(late, get s, g)"] _ _ _ kept(2), of "(acts, (x, g'), r)" "((x, g'), r)"])
        (use f in auto)
    with t kept(1) assms(2) [OF that(1)] show ?thesis by simp
  qed
  then show ?case by (simp add: keeps_run_Waiting)
qed simp

lemma keeps_zoom:
  assumes "keeps J p" and "\<And>s. I s \<Longrightarrow> J (get s)" and "\<And>x s. I s \<Longrightarrow> J x \<Longrightarrow> I (put x s)"
  shows "keeps I (zoom get put p)"
  unfolding keeps_def
proof (intro allI impI)
  fix s g
  assume "I s"
  obtain acts x g' r where p: "p (get s, g) = (acts, (x, g'), r)" by (cases "p (get s, g)") auto
  from keepsD [OF assms(1), of "(get s, g)"] assms(2) [OF \<open>I s\<close>] have "J x" "keeps_run J r"
    by (simp_all add: p)
  then show "keeps_turn I (zoom get put p (s, g))"
    using assms(3) [OF \<open>I s\<close>] keeps_zoom_run [of I J get put r, OF assms(2,3)]
    by (simp add: zoom_def p)
qed

lemma keeps_if [kept]: "(b \<Longrightarrow> keeps I p) \<Longrightarrow> (\<not> b \<Longrightarrow> keeps I q) \<Longrightarrow> keeps I (if b then p else q)"
  by simp

text \<open>Requests and replies keep everything.\<close>

lemma keeps_senders [kept]:
  "keeps I (reply r)" "keeps I (info_request d mqtt)" "keeps I (uart_request d m)" "keeps I (json_request f into m)"
  "keeps I (request_frame a d)"
  unfolding reply_def info_request_def uart_request_def json_request_def counted_def request_frame_def
  by (auto intro!: kept)

section \<open>Threads that stay blocked\<close>

text \<open>A waiting thread goes on waiting while nothing that happens makes its condition false.\<close>

lemma stays_blocked:
  assumes "\<And>late s g. c s \<Longrightarrow> f (late, s, g) = None" and "\<forall>e \<in> set es. \<forall>s. c s \<longrightarrow> c (e s)" and "c s"
  shows "delivers es (acts, (s, g), Waiting f) = (acts, (fold id es s, g), Waiting f) \<and> c (fold id es s)"
  using assms(2,3)
proof (induction es arbitrary: s)
  case (Cons e es)
  then show ?case using Cons.IH [of "e s"] by (simp add: deliver_Waiting assms(1) del: deliver.simps)
qed simp

section \<open>Components of a state\<close>

locale component =
  fixes get :: "'t \<Rightarrow> 's" and put :: "'s \<Rightarrow> 't \<Rightarrow> 't"
  assumes get_put [simp]: "get (put x s) = x"
    and put_get [simp]: "put (get s) s = s"
    and put_put [simp]: "put x (put y s) = put x s"
begin

fun zoom_turn :: "'t \<Rightarrow> ('s, 'a) turn \<Rightarrow> ('t, 'a) turn" where
  "zoom_turn s (acts, (x, g), r) = (acts, (put x s, g), zoom_run get put r)"

lemma zoom_turn: "zoom get put p (s, g) = zoom_turn s (p (get s, g))"
  by (cases "p (get s, g)") (auto simp: zoom_def split: prod.splits)

lemma zoom_turn_put [simp]: "zoom_turn (put y s) t = zoom_turn s t"
  by (cases t) auto

lemma zoom_turn_sending: "zoom_turn s (sending acts t) = sending acts (zoom_turn s t)"
  by (cases t) auto

lemma zoom_run_Waiting:
  "zoom_run get put (Waiting f) = Waiting (\<lambda>(late, s, g). map_option (zoom_turn s) (f (late, get s, g)))"
proof -
  have "map_prod id (map_prod (\<lambda>(x, g). (put x s, g)) id) (map_prod id (map_prod id (zoom_run get put)) t) = zoom_turn s t"
    for s and t :: "('s, 'a) turn"
    by (cases t) auto
  then show ?thesis by (auto simp: fun_eq_iff option.map_comp o_def)
qed

lemma zoom_run_then:
  "zoom_turn s (run_then k r (x, g)) = run_then (\<lambda>a. zoom get put (k a)) (zoom_run get put r) (put x s, g)"
proof (induction r arbitrary: x s g)
  case (Finished r)
  then show ?case by (cases r) (auto simp: zoom_turn)
next
  case (Waiting f)
  have "map_option (zoom_turn s1) (map_option continue (map_option (map_prod id (map_prod id (run_then k))) (f (late, get s1, g1))))
      = map_option continue (map_option (map_prod id (map_prod id (run_then (\<lambda>a. zoom get put (k a)))))
          (map_option (zoom_turn s1) (f (late, get s1, g1))))" for late s1 g1
  proof (cases "f (late, get s1, g1)")
    case (Some t)
    obtain acts y g2 r where t: "t = (acts, (y, g2), r)" by (cases t) auto
    have "zoom_turn s1 (run_then k r (y, g2)) =
        run_then (\<lambda>a. zoom get put (k a)) (zoom_run get put r) (put y s1, g2)"
      by (rule Waiting.IH [OF rangeI [of f "(late, get s1, g1)"], of t "((y, g2), r)"]) (use Some t in auto)
    with Some t show ?thesis by (simp add: zoom_turn_sending)
  qed simp
  then show ?case
    by (simp add: zoom_run_Waiting fun_eq_iff case_prod_unfold del: zoom_run.simps)
qed

lemma zoom_andDo: "zoom get put (andDo p k) = andDo (zoom get put p) (\<lambda>x. zoom get put (k x))"
proof
  fix w :: "'t \<times> statics"
  obtain s g where w: "w = (s, g)" by (cases w)
  obtain acts x g' r where p: "p (get s, g) = (acts, (x, g'), r)" by (cases "p (get s, g)") auto
  show "zoom get put (andDo p k) w = andDo (zoom get put p) (\<lambda>x. zoom get put (k x)) w"
    by (simp add: w zoom_turn andDo_def p zoom_turn_sending zoom_run_then)
qed

lemma zoom_simple:
  "zoom get put (give r) = give r" "zoom get put (send acts) = send acts"
  "zoom get put (ask f) = ask (\<lambda>s. f (get s))" "zoom get put (change h) = change (\<lambda>s. put (h (get s)) s)"
  "zoom get put (with_statics j) = with_statics j"
  by (auto simp: fun_eq_iff zoom_turn give_def send_def ask_def change_def with_statics_def split: prod.splits)

lemma zoom_perform: "zoom get put (perform f) = perform (\<lambda>s. map_prod id (\<lambda>x. put x s) (f (get s)))"
  by (auto simp: fun_eq_iff zoom_turn perform_def split: prod.splits)

lemma zoom_waits:
  "zoom get put (wait_while c) = wait_while (\<lambda>s. c (get s))"
  "zoom get put (wait_timeout_while c) = wait_timeout_while (\<lambda>s. c (get s))"
  by (auto simp: fun_eq_iff zoom_turn wait_while_def wait_timeout_while_def zoom_run_Waiting simp del: zoom_run.simps(2))

lemma zoom_senders:
  "zoom get put (reply r) = reply r" "zoom get put (info_request d mqtt) = info_request d mqtt"
  "zoom get put (uart_request d m) = uart_request d m" "zoom get put (json_request j into m) = json_request j into m"
  "zoom get put (request_frame a d) = request_frame a d"
  by (simp_all add: reply_def info_request_def uart_request_def json_request_def counted_def request_frame_def
      zoom_andDo zoom_simple)

lemma zoom_if: "zoom get put (if b then p else q) = (if b then zoom get put p else zoom get put q)"
  by simp

lemmas zoom_laws = zoom_if zoom_andDo zoom_simple zoom_perform zoom_waits zoom_senders

lemma keeps_elsewhere:
  assumes "\<And>x s. I s \<Longrightarrow> I (put x s)"
  shows "keeps I (zoom get put p)"
  by (rule keeps_zoom [OF keeps_all]) (use assms in auto)

lemma keeps_inside:
  assumes "keeps J p" and "\<And>s. I s \<Longrightarrow> J (get s)" and "\<And>x s. I s \<Longrightarrow> J x \<Longrightarrow> I (put x s)"
  shows "keeps I (zoom get put p)"
  by (rule keeps_zoom [OF assms(1)]) (use assms(2,3) in blast)+

end

end
