(* ===== verification/Services.thy ===== *)
theory Services
  imports Kept Node_Manage Hplc_Info Identify_Area Concurrent_Meter Mqtt_Queue
begin

text \<open>
  The services put together: \<open>module_service\<close> is \<^verbatim>\<open>ModuleService\<close> of src/src/service/mod.rs with the
  state each service keeps behind its lock, and what \<^verbatim>\<open>PlcInit\<close> and \<^verbatim>\<open>PlcDevice\<close> add to it. An operation of
  one service is an operation of the whole (\<open>on_line\<close> and so on), and \<open>setting\<close> collects the parameters:
  what the libraries compute, the database, files and the configuration. \<open>moment\<close> is the time at which
  an operation runs, in the forms the services use.
\<close>

section \<open>State\<close>

datatype init_event = InitResult "unit result" | InitAddress address

record ('db, 'date) module_service =
  sv_master_address :: address
  sv_node_manage :: "'db node_manage"
  sv_meter_cache :: "(string \<times> sample_cache) list"
  sv_esn :: string
  sv_line :: line_state
  sv_meter_state :: app_stat
  sv_identify_area :: identify_area_info
  sv_hplc_info :: mqtt_hplc_info
  sv_file_upgrade :: upgrade_state
  sv_MODULE_INFO :: "'date module_info_response option"
  sv_init_event :: "init_event option"
  sv_init_flag :: bool
  sv_online :: bool
  sv_consecutive_timeouts :: u8

definition module_service_new :: "'db \<Rightarrow> string \<Rightarrow> ('db, 'date) module_service" where
  "module_service_new d now =
     \<lparr>sv_master_address = address_default, sv_node_manage = node_manage_new d, sv_meter_cache = [], sv_esn = [],
      sv_line = line_state_new, sv_meter_state = meter_state_new now, sv_identify_area = identify_area_new,
      sv_hplc_info = hplc_info_new, sv_file_upgrade = upgrade_state_default, sv_MODULE_INFO = None,
      sv_init_event = None, sv_init_flag = False, sv_online = False, sv_consecutive_timeouts = 0\<rparr>"

record ('db, 'date) setting =
  st_env :: env
  st_calendar :: "'date calendar"
  st_db :: "'db database"
  st_hash_order :: "(string \<times> acq_node list) list \<Rightarrow> (string \<times> acq_node list) list"
  st_parse_from_str :: "string \<Rightarrow> naive_date_time result"
  st_read_file :: "string \<Rightarrow> u8 list option"
  st_meter_reading :: meter_reading_config

record moment =
  mo_text :: string
  mo_millis :: int
  mo_clock :: clock

type_synonym ('db, 'date, 'a) service_prog = "(('db, 'date) module_service, 'a) prog"

section \<open>Operations of one service\<close>

definition on_node_manage :: "('db node_manage, 'a) prog \<Rightarrow> ('db, 'date, 'a) service_prog" where
  "on_node_manage = zoom sv_node_manage (\<lambda>x s. s\<lparr>sv_node_manage := x\<rparr>)"

definition on_line :: "(line_state, 'a) prog \<Rightarrow> ('db, 'date, 'a) service_prog" where
  "on_line = zoom sv_line (\<lambda>x s. s\<lparr>sv_line := x\<rparr>)"

definition on_identify_area :: "(identify_area_info, 'a) prog \<Rightarrow> ('db, 'date, 'a) service_prog" where
  "on_identify_area = zoom sv_identify_area (\<lambda>x s. s\<lparr>sv_identify_area := x\<rparr>)"

definition on_hplc_info :: "(mqtt_hplc_info, 'a) prog \<Rightarrow> ('db, 'date, 'a) service_prog" where
  "on_hplc_info = zoom sv_hplc_info (\<lambda>x s. s\<lparr>sv_hplc_info := x\<rparr>)"

definition on_file_upgrade :: "(upgrade_state, 'a) prog \<Rightarrow> ('db, 'date, 'a) service_prog" where
  "on_file_upgrade = zoom sv_file_upgrade (\<lambda>x s. s\<lparr>sv_file_upgrade := x\<rparr>)"

definition on_esn :: "(string, 'a) prog \<Rightarrow> ('db, 'date, 'a) service_prog" where
  "on_esn = zoom sv_esn (\<lambda>x s. s\<lparr>sv_esn := x\<rparr>)"

text \<open>Meter reading takes the number of its frames from the shared counter.\<close>

definition on_meter :: "(meter \<Rightarrow> unit result \<times> action list \<times> meter) \<Rightarrow> ('db, 'date, unit) service_prog" where
  "on_meter f w =
     (case f \<lparr>cm_cache = sv_meter_cache (fst w), cm_seq = SEQ (snd w)\<rparr> of
        (r, acts, m) \<Rightarrow>
          (acts, ((fst w)\<lparr>sv_meter_cache := cm_cache m\<rparr>, (snd w)\<lparr>SEQ := cm_seq m\<rparr>), Finished r))"

text \<open>Handlers of answers that only reply.\<close>

definition answer_with :: "action list result \<Rightarrow> ('s, unit) prog" where
  "answer_with r = andDo (give r) send"

definition answer_on :: "('s \<Rightarrow> action list result \<times> 's) \<Rightarrow> ('s, unit) prog" where
  "answer_on f = andDo (perform f) send"

interpretation node_manage:
    component "sv_node_manage :: ('db, 'date) module_service \<Rightarrow> _" "\<lambda>x s. s\<lparr>sv_node_manage := x\<rparr>"
  by unfold_locales simp_all
interpretation line:
    component "sv_line :: ('db, 'date) module_service \<Rightarrow> _" "\<lambda>x s. s\<lparr>sv_line := x\<rparr>"
  by unfold_locales simp_all
interpretation identify_area:
    component "sv_identify_area :: ('db, 'date) module_service \<Rightarrow> _" "\<lambda>x s. s\<lparr>sv_identify_area := x\<rparr>"
  by unfold_locales simp_all
interpretation hplc_info:
    component "sv_hplc_info :: ('db, 'date) module_service \<Rightarrow> _" "\<lambda>x s. s\<lparr>sv_hplc_info := x\<rparr>"
  by unfold_locales simp_all
interpretation file_upgrade:
    component "sv_file_upgrade :: ('db, 'date) module_service \<Rightarrow> _" "\<lambda>x s. s\<lparr>sv_file_upgrade := x\<rparr>"
  by unfold_locales simp_all
interpretation esn:
    component "sv_esn :: ('db, 'date) module_service \<Rightarrow> _" "\<lambda>x s. s\<lparr>sv_esn := x\<rparr>"
  by unfold_locales simp_all
interpretation route_ctrl:
    component "ln_route_ctrl :: line_state \<Rightarrow> _" "\<lambda>x s. s\<lparr>ln_route_ctrl := x\<rparr>"
  by unfold_locales simp_all

text \<open>A program of one service keeps what does not look at that service.\<close>

lemma keeps_on [kept]:
  "(\<And>x s. I s \<Longrightarrow> I (s\<lparr>sv_node_manage := x\<rparr>)) \<Longrightarrow> keeps I (on_node_manage p1)"
  "(\<And>x s. I s \<Longrightarrow> I (s\<lparr>sv_line := x\<rparr>)) \<Longrightarrow> keeps I (on_line p2)"
  "(\<And>x s. I s \<Longrightarrow> I (s\<lparr>sv_identify_area := x\<rparr>)) \<Longrightarrow> keeps I (on_identify_area p3)"
  "(\<And>x s. I s \<Longrightarrow> I (s\<lparr>sv_hplc_info := x\<rparr>)) \<Longrightarrow> keeps I (on_hplc_info p4)"
  "(\<And>x s. I s \<Longrightarrow> I (s\<lparr>sv_file_upgrade := x\<rparr>)) \<Longrightarrow> keeps I (on_file_upgrade p5)"
  "(\<And>x s. I s \<Longrightarrow> I (s\<lparr>sv_esn := x\<rparr>)) \<Longrightarrow> keeps I (on_esn p6)"
  unfolding on_node_manage_def on_line_def on_identify_area_def on_hplc_info_def on_file_upgrade_def on_esn_def
  by (rule node_manage.keeps_elsewhere line.keeps_elsewhere identify_area.keeps_elsewhere hplc_info.keeps_elsewhere
      file_upgrade.keeps_elsewhere esn.keeps_elsewhere; blast)+

lemma keeps_answers [kept]:
  "keeps I (answer_with r)" "(\<And>s. I s \<Longrightarrow> I (snd (f s))) \<Longrightarrow> keeps I (answer_on f)"
  unfolding answer_with_def answer_on_def by (auto intro!: kept)

lemma keeps_on_meter [kept]:
  assumes "\<And>s m. I s \<Longrightarrow> I (s\<lparr>sv_meter_cache := cm_cache (snd (snd (f m)))\<rparr>)"
  shows "keeps I (on_meter f)"
  using assms by (auto simp: keeps_def on_meter_def split: prod.splits) (metis snd_conv)

lemma keeps_own_message [kept]: "keeps I (own_message env t b)"
  by (simp add: own_message_def keeps_simple)

end
