(* ===== verification/Plc_Init.thy ===== *)
theory Plc_Init
  imports Services
begin

text \<open>
  src/src/service/plc_init.rs: the initialisation of the module. \<open>sv_init_event\<close> is the one slot in which
  answers, reports and timeouts leave what happened; \<open>plc_init_run\<close> waits for the module's report of
  itself, sets its address where it differs, clears the module's node table, which also empties the
  service's, and registers the nodes of the database.
\<close>

section \<open>Events\<close>

definition notify_event :: "init_event \<Rightarrow> ('db, 'date) module_service \<Rightarrow> ('db, 'date) module_service" where
  "notify_event event s = s\<lparr>sv_init_event := Some event\<rparr>"

definition init_notify :: "unit result \<Rightarrow> ('db, 'date) module_service \<Rightarrow> ('db, 'date) module_service" where
  "init_notify result = notify_event (InitResult result)"

definition init_update_address :: "address \<Rightarrow> ('db, 'date) module_service \<Rightarrow> ('db, 'date) module_service" where
  "init_update_address address = notify_event (InitAddress address)"

definition notify_timeout :: "('db, 'date) module_service \<Rightarrow> ('db, 'date) module_service" where
  "notify_timeout = notify_event (InitResult (Err (PlcInitErr InitTimeout)))"

definition take_event :: "('db, 'date, init_event) service_prog" where
  "take_event =
     andDo (ask sv_init_event) (\<lambda>event.
     andDo (change (\<lambda>s. s\<lparr>sv_init_event := None\<rparr>)) (\<lambda>_. give (unwrap_option event)))"

definition wait_for_event_timeout :: "('db, 'date, init_event) service_prog" where
  "wait_for_event_timeout =
     andDo (wait_timeout_while (\<lambda>s. sv_init_event s = None)) (\<lambda>timed_out.
     if timed_out then give (Err (PlcInitErr InitTimeout)) else take_event)"

definition wait_for_event :: "('db, 'date, init_event) service_prog" where
  "wait_for_event = andDo (wait_while (\<lambda>s. sv_init_event s = None)) (\<lambda>_. take_event)"

fun event_result :: "init_event \<Rightarrow> unit result" where
  "event_result (InitResult result) = result"
| "event_result (InitAddress address) = Err (PlcInitErr InvalidEvent)"

fun event_address :: "init_event \<Rightarrow> address result" where
  "event_address (InitAddress address) = Ok address"
| "event_address (InitResult result) = Err (PlcInitErr InvalidEvent)"

definition wait_result :: "('db, 'date, unit) service_prog" where
  "wait_result = andDo wait_for_event (\<lambda>event. give (event_result event))"

definition wait_init_address :: "('db, 'date, address) service_prog" where
  "wait_init_address = andDo wait_for_event_timeout (\<lambda>event. give (event_address event))"

definition wait_address :: "('db, 'date, address) service_prog" where
  "wait_address = andDo wait_for_event (\<lambda>event. give (event_address event))"

section \<open>Initialisation\<close>

definition GET_ADDRESS_RETRY_COUNT :: nat where "GET_ADDRESS_RETRY_COUNT = 3"

text \<open>\<open>n\<close> attempts are left; the last one passes its error on.\<close>

fun get_address_attempts :: "nat \<Rightarrow> ('db, 'date, address) service_prog" where
  "get_address_attempts 0 = give (Panic UnreachableCode)"
| "get_address_attempts (Suc n) =
     andDo (get_module_info None) (\<lambda>_.
     andDo (catch wait_address) (\<lambda>r.
     case r of
       Ok address \<Rightarrow> give (Ok address)
     | Err e \<Rightarrow> if n = 0 then give (Err e) else get_address_attempts n
     | Panic p \<Rightarrow> give (Panic p)))"

definition init_get_master_address :: "('db, 'date, address) service_prog" where
  "init_get_master_address = get_address_attempts GET_ADDRESS_RETRY_COUNT"

definition master_address_matches :: "address \<Rightarrow> ('db, 'date, bool) service_prog" where
  "master_address_matches master_address =
     andDo (catch wait_init_address) (\<lambda>r.
     case r of
       Ok address \<Rightarrow> give (Ok (master_address = address))
     | Err e \<Rightarrow> andDo init_get_master_address (\<lambda>address. give (Ok (address = master_address)))
     | Panic p \<Rightarrow> give (Panic p))"

definition plc_init_run :: "('db, 'date) setting \<Rightarrow> ('db, 'date, unit) service_prog" where
  "plc_init_run st =
     andDo (change (\<lambda>s. s\<lparr>sv_init_flag := False\<rparr>)) (\<lambda>_.
     andDo (ask sv_master_address) (\<lambda>master_address.
     andDo (master_address_matches master_address) (\<lambda>address_match.
     andDo (if address_match then give (Ok ())
            else andDo (init_set_address master_address) (\<lambda>_. wait_result)) (\<lambda>_.
     andDo (on_node_manage init_clear_acq_files) (\<lambda>_.
     andDo (change (\<lambda>s. s\<lparr>sv_meter_state := init_param (sv_meter_state s)\<rparr>)) (\<lambda>_.
     andDo (on_node_manage (load_config (st_env st) (st_db st) (st_hash_order st))) (\<lambda>_.
     change (\<lambda>s. s\<lparr>sv_init_flag := True\<rparr>))))))))"

section \<open>Initialisation of the module's data\<close>

definition mqtt_data_init :: "mqtt_message \<Rightarrow> ('db, 'date, unit) service_prog" where
  "mqtt_data_init message = uart_request (init_request_to_app_data InitData) message"

definition uart_data_init_response :: "env \<Rightarrow> uart_message \<Rightarrow> ('db, 'date, unit) service_prog" where
  "uart_data_init_response env message =
     andDo (change (\<lambda>s. s\<lparr>sv_meter_state := init_data (sv_meter_state s)\<rparr>)) (\<lambda>_.
     answer_with (confirm_response_handler env message))"

section \<open>Facts\<close>

lemma andDo_take_event:
  "andDo take_event k w =
     andDo (give (unwrap_option (sv_init_event (fst w)))) k ((fst w)\<lparr>sv_init_event := None\<rparr>, snd w)"
  by (simp add: take_event_def andDo_assoc)

lemma keeps_plc_init [kept]:
  assumes "\<And>s e. I s \<Longrightarrow> I (s\<lparr>sv_init_event := e\<rparr>)"
  shows "keeps I take_event" "keeps I wait_for_event" "keeps I wait_for_event_timeout"
    "keeps I wait_result" "keeps I wait_init_address" "keeps I wait_address"
proof -
  show event: "keeps I take_event" using assms unfolding take_event_def by (auto intro!: kept)
  show wait: "keeps I wait_for_event" "keeps I wait_for_event_timeout"
    unfolding wait_for_event_def wait_for_event_timeout_def by (auto intro!: kept event)
  show "keeps I wait_result" "keeps I wait_init_address" "keeps I wait_address"
    unfolding wait_result_def wait_init_address_def wait_address_def by (auto intro!: kept wait)
qed

text \<open>A query of the module for itself, as it goes out.\<close>

definition module_query :: "u8 \<Rightarrow> action" where
  "module_query seq = ToUart (request_message seq None module_info_request_to_app_data 10 None)"

lemma module_info_fn_num [simp]: "fn_num module_info_request_to_app_data = Ok 10"
  by (simp add: module_info_request_to_app_data_def)

lemma andDo_get_module_info:
  "andDo (get_module_info None) k (s, g) = sending [module_query (SEQ g)] (k () (s, g\<lparr>SEQ := SEQ g + 1\<rparr>))"
  by (simp add: get_module_info_def andDo_info_request module_query_def)

lemma andDo_wait_for_event:
  "andDo wait_for_event k (s, g) =
     (case sv_init_event s of
        Some e \<Rightarrow> k e (s\<lparr>sv_init_event := None\<rparr>, g)
      | None \<Rightarrow> ([], (s, g), Waiting (\<lambda>(late, s, g). case sv_init_event s of None \<Rightarrow> None
          | Some e \<Rightarrow> Some (k e (s\<lparr>sv_init_event := None\<rparr>, g)))))"
  by (auto simp: wait_for_event_def andDo_assoc andDo_wait_while andDo_take_event fun_eq_iff split: option.splits)

lemma catch_take_event: "catch (andDo take_event k) = andDo take_event (\<lambda>e. catch (k e))"
proof
  fix w
  show "catch (andDo take_event k) w = andDo take_event (\<lambda>e. catch (k e)) w"
    by (cases "sv_init_event (fst w)") (simp_all add: catch_turn [of "andDo take_event k"] andDo_take_event give_def catch_turn)
qed

lemma catch_wait_address: "catch wait_address = andDo wait_for_event (\<lambda>e. catch (give (event_address e)))"
  by (simp add: wait_address_def wait_for_event_def andDo_assoc catch_andDo [of "wait_while c" for c] catch_wait_while
      catch_take_event)

lemma andDo_catch_wait_address:
  "andDo (catch wait_address) k (s, g) =
     (case sv_init_event s of
        Some e \<Rightarrow> andDo (catch (give (event_address e))) k (s\<lparr>sv_init_event := None\<rparr>, g)
      | None \<Rightarrow> ([], (s, g), Waiting (\<lambda>(late, s, g). case sv_init_event s of None \<Rightarrow> None
          | Some e \<Rightarrow> Some (andDo (catch (give (event_address e))) k (s\<lparr>sv_init_event := None\<rparr>, g)))))"
  by (simp add: catch_wait_address andDo_assoc andDo_wait_for_event split: option.splits)

lemma catch_wait_timeout: "catch (wait_timeout_while c) = andDo (wait_timeout_while c) (\<lambda>x. give (Ok (Ok x)))"
  by (auto simp: catch_def wait_timeout_while_def andDo_def give_def fun_eq_iff split: prod.splits)

lemma catch_event_in_time:
  "catch (andDo (if late then give (Err e) else take_event) k) =
     (if late then give (Ok (Err e)) else andDo take_event (\<lambda>e. catch (k e)))"
  by (simp add: catch_take_event)

lemma catch_wait_init_address:
  "catch wait_init_address =
     andDo (wait_timeout_while (\<lambda>s. sv_init_event s = None)) (\<lambda>timed_out.
     if timed_out then give (Ok (Err (PlcInitErr InitTimeout)))
     else andDo take_event (\<lambda>e. catch (give (event_address e))))"
  by (simp add: wait_init_address_def wait_for_event_timeout_def andDo_assoc catch_wait_timeout
      catch_andDo [of "wait_timeout_while c" for c] catch_event_in_time)

lemma no_event: "sv_init_event s = None \<Longrightarrow> s\<lparr>sv_init_event := None\<rparr> = s"
  by (cases s) simp

text \<open>The module's report of itself arrives in time.\<close>

lemma init_address_arrives:
  assumes "sv_init_event s = None"
  shows "deliver (init_update_address a) (andDo (master_address_matches a) k (s, g)) = k True (s, g)"
  using assms
  by (simp add: master_address_matches_def catch_wait_init_address andDo_assoc andDo_wait_timeout_while deliver_Waiting
      andDo_take_event init_update_address_def notify_event_def no_event del: deliver.simps)

section \<open>Answers while the module is initialised\<close>

text \<open>What the dispatcher does with the module's confirmation that it has cleared its node table, or that it
  has registered some nodes: the waiting thread gets its result, and the slot of events one as well.\<close>

definition chunk_confirmed :: "('db, 'date) module_service \<Rightarrow> ('db, 'date) module_service" where
  "chunk_confirmed s = init_notify (Ok ()) (s\<lparr>sv_node_manage := acq_answered (Ok ()) (sv_node_manage s)\<rparr>)"

definition clear_confirmed :: "('db, 'date) module_service \<Rightarrow> ('db, 'date) module_service" where
  "clear_confirmed s =
     chunk_confirmed (s\<lparr>sv_node_manage := (sv_node_manage s)\<lparr>nm_node_config := clear_all_app (nm_node_config (sv_node_manage s))\<rparr>\<rparr>)"

definition with_table :: "'db node_table \<Rightarrow> ('db, 'date) module_service \<Rightarrow> ('db, 'date) module_service" where
  "with_table t s = s\<lparr>sv_node_manage := \<lparr>nm_node_config = t, nm_operation_result = None\<rparr>\<rparr>"

lemmas init_laws = node_manage.zoom_laws [folded on_node_manage_def]

lemma no_operation_result:
  "n\<lparr>nm_operation_result := None\<rparr> = \<lparr>nm_node_config = nm_node_config n, nm_operation_result = None\<rparr>"
  by (cases n) simp

lemma andDo_wait_operation:
  "andDo (on_node_manage wait_operation_result) k (s, g) =
     ([], (with_table (nm_node_config (sv_node_manage s)) s, g),
      Waiting (\<lambda>(late, s, g). if nm_operation_result (sv_node_manage s) = None then None
        else Some (andDo (give (the (nm_operation_result (sv_node_manage s)))) k
          (with_table (nm_node_config (sv_node_manage s)) s, g))))"
  by (auto simp: wait_operation_result_def init_laws andDo_assoc andDo_wait_while with_table_def no_operation_result
      fun_eq_iff)

text \<open>One chunk of the nodes of the database.\<close>

definition add_request :: "u8 \<Rightarrow> node_info list \<Rightarrow> action" where
  "add_request seq ns = ToUart (request_message seq None (add_node_request_to_app_data ns) (route_set_to_u8 AddNode) None)"

primrec add_requests :: "u8 \<Rightarrow> node_info list list \<Rightarrow> action list" where
  "add_requests seq [] = []"
| "add_requests seq (ns # rest) = add_request seq ns # add_requests (seq + 1) rest"

lemma add_node_fn_num [simp]: "fn_num (add_node_request_to_app_data ns) = Ok (route_set_to_u8 AddNode)"
  by (simp add: add_node_request_to_app_data_def)

lemma init_chunk:
  assumes "nodes \<noteq> []" and "\<forall>n \<in> set nodes. to_uart_node_info env n = Ok (u n)"
    and "nm_node_config (sv_node_manage s) = t"
  shows "deliver chunk_confirmed
      (andDo (on_node_manage (operate_chunk_acq_files env db AddAcqFiles app None nodes)) k (s, g)) =
    sending [add_request (SEQ g) (map u nodes)]
      (k (length nodes) (with_table t (init_notify (Ok ()) s), g\<lparr>SEQ := SEQ g + 1\<rparr>))"
proof -
  have "traverse (to_uart_node_info env) nodes = Ok (map u nodes)" using assms(2) by (intro traverse_Ok) simp
  then show ?thesis
    using assms(1,3)
    by (simp add: operate_chunk_acq_files_def init_laws on_config_def andDo_assoc andDo_info_request andDo_wait_operation
        add_request_def deliver_Waiting chunk_confirmed_def acq_answered_def with_table_def init_notify_def
        notify_event_def del: deliver.simps)
qed

lemma with_table_config: "with_table t s = s \<Longrightarrow> nm_node_config (sv_node_manage s) = t"
  by (cases s) (auto simp: with_table_def)

lemma init_chunks:
  assumes "\<forall>c \<in> set cs. c \<noteq> [] \<and> (\<forall>n \<in> set c. to_uart_node_info env n = Ok (u n))"
    and "with_table t s = s" and "init_notify (Ok ()) s = s"
  shows "delivers (replicate (length cs) chunk_confirmed)
      (andDo (on_node_manage (operate_chunks env db AddAcqFiles app None cs)) k (s, g)) =
    sending (add_requests (SEQ g) (map (map u) cs)) (k () (s, g\<lparr>SEQ := SEQ g + of_nat (length cs)\<rparr>))"
  using assms(1)
proof (induction cs arbitrary: g)
  case Nil
  show ?case by (simp add: init_laws)
next
  case (Cons c cs)
  note t = with_table_config [OF assms(2)]
  let ?next = "\<lambda>_. andDo (on_node_manage (operate_chunks env db AddAcqFiles app None cs)) k"
  have "andDo (on_node_manage (operate_chunks env db AddAcqFiles app None (c # cs))) k (s, g) =
      andDo (on_node_manage (operate_chunk_acq_files env db AddAcqFiles app None c)) ?next (s, g)"
    by (simp add: init_laws chunk_req_info_def andDo_assoc)
  moreover have "deliver chunk_confirmed (andDo (on_node_manage (operate_chunk_acq_files env db AddAcqFiles app None c)) ?next (s, g))
      = sending [add_request (SEQ g) (map u c)] (?next (length c) (with_table t (init_notify (Ok ()) s), g\<lparr>SEQ := SEQ g + 1\<rparr>))"
    using Cons.prems by (intro init_chunk [OF _ _ t]) simp_all
  ultimately show ?case
    using Cons assms(2,3) by (simp add: add.assoc del: deliver.simps operate_chunks.simps)
qed

lemma init_request_fn_num [simp]: "fn_num (init_request_to_app_data operation) = Ok (init_operation_to_u8 operation)"
  by (cases operation) (simp_all add: init_request_to_app_data_def)

definition clear_request :: "u8 \<Rightarrow> action" where
  "clear_request seq = ToUart (request_message seq None (init_request_to_app_data Params) 2 None)"

definition initialised :: "'db node_table \<Rightarrow> ('db, 'date) module_service \<Rightarrow> ('db, 'date) module_service" where
  "initialised t s =
     with_table t (s\<lparr>sv_init_event := Some (InitResult (Ok ())), sv_meter_state := init_param (sv_meter_state s),
       sv_init_flag := True\<rparr>)"

lemma initialised_unflagged:
  "(initialised t s)\<lparr>sv_init_flag := False\<rparr> = with_table t (s\<lparr>sv_init_flag := False,
     sv_init_event := Some (InitResult (Ok ())), sv_meter_state := init_param (sv_meter_state s)\<rparr>)"
  by (cases s) (simp add: initialised_def with_table_def)

lemma init_clears:
  assumes "sv_init_event s = None"
  shows "deliver (init_update_address (sv_master_address s)) (plc_init_run st (s, g)) =
    andDo (on_node_manage init_clear_acq_files) (\<lambda>_.
    andDo (change (\<lambda>s. s\<lparr>sv_meter_state := init_param (sv_meter_state s)\<rparr>)) (\<lambda>_.
    andDo (on_node_manage (load_config (st_env st) (st_db st) (st_hash_order st))) (\<lambda>_.
    change (\<lambda>s. s\<lparr>sv_init_flag := True\<rparr>)))) (s\<lparr>sv_init_flag := False\<rparr>, g)"
  by (simp add: plc_init_run_def init_address_arrives assms del: deliver.simps)

lemma set_dedup: "set (dedup nodes) = set nodes" and distinct_dedup: "distinct (dedup nodes)"
proof -
  have "set (fold (\<lambda>n uart_nodes. if n \<in> set uart_nodes then uart_nodes else uart_nodes @ [n]) nodes done) = set done \<union> set nodes
      \<and> (distinct done \<longrightarrow> distinct (fold (\<lambda>n uart_nodes. if n \<in> set uart_nodes then uart_nodes else uart_nodes @ [n]) nodes done))"
    for "done"
    by (induction nodes arbitrary: "done") auto
  from this [of "[]"] show "set (dedup nodes) = set nodes" "distinct (dedup nodes)" by (simp_all add: dedup_def)
qed

lemma initialisation_trace:
  assumes "sv_init_event s = None"
    and "load_table (st_db st) (clear_all_app (nm_node_config (sv_node_manage s))) = (Ok tables, t)"
    and "ns = dedup (concat (map snd (st_hash_order st tables)))" and "cs = chunks ACQ_FILES_CHUNK_SIZE ns"
    and "\<forall>n \<in> set ns. to_uart_node_info (st_env st) n = Ok (u n)"
  shows "delivers ([init_update_address (sv_master_address s), clear_confirmed] @ replicate (length cs) chunk_confirmed)
      (plc_init_run st (s, g)) =
    (clear_request (SEQ g) # add_requests (SEQ g + 1) (map (map u) cs),
     (initialised t s, g\<lparr>SEQ := SEQ g + 1 + of_nat (length cs)\<rparr>), Finished (Ok ()))"
proof -
  have chunk: "\<forall>c \<in> set cs. c \<noteq> [] \<and> (\<forall>n \<in> set c. to_uart_node_info (st_env st) n = Ok (u n))"
  proof
    fix c
    assume c: "c \<in> set cs"
    then have "c \<noteq> []" using chunks_length_le [of 10 c ns] by (auto simp: assms(4) ACQ_FILES_CHUNK_SIZE_def)
    moreover have "set c \<subseteq> set ns"
      using c concat_chunks [of 10 ns] by (auto simp: assms(4) ACQ_FILES_CHUNK_SIZE_def) (metis UN_I set_concat)
    ultimately show "c \<noteq> [] \<and> (\<forall>n \<in> set c. to_uart_node_info (st_env st) n = Ok (u n))"
      using assms(5) by blast
  qed
  let ?s = "s\<lparr>sv_init_flag := False\<rparr>" let ?g = "g\<lparr>SEQ := SEQ g + 1\<rparr>"
  let ?finish = "\<lambda>_. change (\<lambda>s. s\<lparr>sv_init_flag := True\<rparr>)"
  let ?load = "\<lambda>_. andDo (on_node_manage (load_config (st_env st) (st_db st) (st_hash_order st))) ?finish"
  let ?clear = "andDo (on_node_manage init_clear_acq_files) (\<lambda>_.
    andDo (change (\<lambda>s. s\<lparr>sv_meter_state := init_param (sv_meter_state s)\<rparr>)) ?load)"
  note init_clears [OF assms(1), of st g]
  moreover have "deliver clear_confirmed (?clear (?s, g)) =
      sending [clear_request (SEQ g)]
        (andDo (on_node_manage (operate_chunks (st_env st) (st_db st) AddAcqFiles [] None cs)) ?finish
          ((initialised t s)\<lparr>sv_init_flag := False\<rparr>, ?g))"
    using assms(2)
    by (simp add: init_clear_acq_files_def init_laws andDo_assoc andDo_info_request andDo_wait_operation deliver_Waiting
        clear_confirmed_def chunk_confirmed_def acq_answered_def clear_request_def load_config_def operate_acq_files_def
        on_config_def with_table_def initialised_unflagged init_notify_def notify_event_def assms(3,4)
        del: deliver.simps operate_chunks.simps)
  moreover have "with_table t ((initialised t s)\<lparr>sv_init_flag := False\<rparr>) = (initialised t s)\<lparr>sv_init_flag := False\<rparr>"
    "init_notify (Ok ()) ((initialised t s)\<lparr>sv_init_flag := False\<rparr>) = (initialised t s)\<lparr>sv_init_flag := False\<rparr>"
    by (simp_all add: with_table_def initialised_def init_notify_def notify_event_def)
  note init_chunks [OF chunk this, of "st_db st" "[]" ?finish ?g]
  moreover have "?finish () ((initialised t s)\<lparr>sv_init_flag := False\<rparr>, g') = ([], (initialised t s, g'), Finished (Ok ()))" for g'
    by (simp add: change_def initialised_def with_table_def)
  ultimately show ?thesis
    by (simp add: add.assoc del: deliver.simps operate_chunks.simps)
qed

section \<open>Properties\<close>

text \<open>C11: The initialisation restores the registered nodes. The map of the applications is walked through in any
  order, each entry once. When the module reports the service's address, confirms that it has cleared its table and
  then each request, the service's table holds for each application exactly what was loaded for it; the requests are
  the clearing and then, in chunks of at most ten under consecutive numbers, every node of that table once, also those
  that several applications have; and the module counts as initialised.\<close>

theorem initialisation_restores_nodes:
  assumes "sv_init_event s = None"
    and "load_table (st_db st) (clear_all_app (nm_node_config (sv_node_manage s))) = (Ok tables, t)"
    and "mset (st_hash_order st tables) = mset tables"
    and "\<forall>app. \<forall>n \<in> set (get_all_node_infos t app). to_uart_node_info (st_env st) n = Ok (u n)"
  shows "(\<forall>app. set (get_all_node_infos t app) = (\<Union>nodes \<in> {nodes. (app, nodes) \<in> set tables}. set nodes))
    \<and> (\<exists>cs. distinct (concat cs) \<and> set (concat cs) = (\<Union>app. set (get_all_node_infos t app))
      \<and> (\<forall>c \<in> set cs. 0 < length c \<and> length c \<le> 10)
      \<and> delivers ([init_update_address (sv_master_address s), clear_confirmed] @ replicate (length cs) chunk_confirmed)
          (plc_init_run st (s, g)) =
        (clear_request (SEQ g) # add_requests (SEQ g + 1) (map (map u) cs),
         (initialised t s, g\<lparr>SEQ := SEQ g + 1 + of_nat (length cs)\<rparr>), Finished (Ok ())))"
proof -
  let ?ns = "dedup (concat (map snd (st_hash_order st tables)))"
  note lists = load_table_gains(2) [OF assms(2)]
  have "set (st_hash_order st tables) = set tables" using assms(3) by (metis set_mset_mset)
  then have nodes: "set ?ns = (\<Union>app. set (get_all_node_infos t app))"
    by (force simp: set_dedup lists)
  then have units: "\<forall>n \<in> set ?ns. to_uart_node_info (st_env st) n = Ok (u n)" using assms(4) by auto
  let ?cs = "chunks ACQ_FILES_CHUNK_SIZE ?ns"
  have "concat ?cs = ?ns" by (simp add: concat_chunks ACQ_FILES_CHUNK_SIZE_def)
  moreover have "\<forall>c \<in> set ?cs. 0 < length c \<and> length c \<le> 10"
    using chunks_length_le [of 10 _ ?ns] by (simp add: ACQ_FILES_CHUNK_SIZE_def)
  moreover note initialisation_trace [OF assms(1,2) refl refl units, of g]
  ultimately show ?thesis
    using lists nodes distinct_dedup by (intro conjI allI exI [of _ ?cs]) (simp_all del: deliver.simps)
qed

text \<open>The answers of the module are always one check late. The last confirmation of the initialisation stays in the
  slot of events, so the first check of a running module takes it for an answer, sends a second query and
  takes the answer to the first; the answer to the second is then what the next check finds, which ends
  successfully before the module has had a chance to answer, and would if the module were gone.\<close>

theorem module_check_is_late:
  assumes "sv_init_event s = Some (InitResult r)"
  shows "case deliver (init_update_address a) (init_get_master_address (s, g)) of
      (acts, (s1, g1), run) \<Rightarrow>
        acts = [module_query (SEQ g), module_query (SEQ g + 1)] \<and> run = Finished (Ok a)
        \<and> init_get_master_address (init_update_address b s1, g1) =
            ([module_query (SEQ g + 2)], (s1, g1\<lparr>SEQ := SEQ g + 3\<rparr>), Finished (Ok b))"
  using assms
  by (cases s, cases g)
    (simp add: init_get_master_address_def GET_ADDRESS_RETRY_COUNT_def numeral_3_eq_3 andDo_get_module_info
      andDo_catch_wait_address deliver_Waiting init_update_address_def notify_event_def give_def ac_simps
      del: deliver.simps)

text \<open>A database with one meter of one application.\<close>

definition one_meter_db :: "unit database" where
  "one_meter_db = \<lparr>db_config_path = None, db_execute = (\<lambda>sql params d. (Ok (), d)),
     db_tables_like = (\<lambda>p d. Ok [''plc_device_app'']), db_query = (\<lambda>sql d. Ok [sample_meter]),
     db_read_file = (\<lambda>p d. Err (Message [])), db_write_file = (\<lambda>p v d. (None, d))\<rparr>"

definition sample_setting :: "(unit, unit) setting" where
  "sample_setting =
     \<lparr>st_env = digits_env, st_calendar = \<lparr>cal_from_ymd_opt = (\<lambda>y m d. Some ()), cal_date_to_string = (\<lambda>d. ''20240601'')\<rparr>,
      st_db = one_meter_db, st_hash_order = (\<lambda>tables. tables), st_parse_from_str = (\<lambda>t. Err (Message t)),
      st_read_file = (\<lambda>path. None), st_meter_reading = sample_config\<rparr>"

text \<open>A meter of two applications: it is registered once.\<close>

definition shared_setting :: "(unit, unit) setting" where
  "shared_setting = sample_setting\<lparr>st_db := one_meter_db\<lparr>db_tables_like := (\<lambda>p d. Ok [''plc_device_app'', ''plc_device_b''])\<rparr>\<rparr>"

lemma shared_tables:
  "\<exists>t. load_table (st_db shared_setting) (clear_all_app (node_table_new ())) =
     (Ok [(''app'', [sample_meter]), (''b'', [sample_meter])], t)"
  by (simp add: shared_setting_def load_table_def load_config_from_db_def one_meter_db_def SQL_TABLE_PREFIX_def slice_from_def
      add_node_infos_def add_node_info_def add_node_info_exist_def add_node_info_checked_def clear_all_app_def node_table_new_def
      set_app_def app_nodes_def get_node_info_def strong_count_def node_at_def same_type_def Let_def)

theorem initialisation_restores_nodes_witness:
  "\<exists>w. delivers [init_update_address address_default, clear_confirmed, chunk_confirmed]
      (plc_init_run shared_setting (module_service_new () ''now'', \<lparr>SEQ = 5, TOKEN = 0\<rparr>)) =
    ([clear_request 5, add_request 6 [sample_node]], w, Finished (Ok ()))"
proof -
  let ?s = "module_service_new () ''now'' :: (unit, unit) module_service"
  have new: "sv_init_event ?s = None" "sv_master_address ?s = address_default"
    "nm_node_config (sv_node_manage ?s) = node_table_new ()"
    by (simp_all add: module_service_new_def node_manage_new_def)
  obtain t where load: "load_table (st_db shared_setting) (clear_all_app (nm_node_config (sv_node_manage ?s)))
      = (Ok [(''app'', [sample_meter]), (''b'', [sample_meter])], t)"
    using shared_tables unfolding new(3) by blast
  have nodes: "set (get_all_node_infos t a) = (if a = ''app'' \<or> a = ''b'' then {sample_meter} else {})" for a
    using load_table_gains(2) [OF load, of a] by auto
  have order: "mset (st_hash_order shared_setting [(''app'', [sample_meter]), (''b'', [sample_meter])])
      = mset [(''app'', [sample_meter]), (''b'', [sample_meter])]"
    by (simp add: shared_setting_def sample_setting_def)
  have "\<forall>a. \<forall>n \<in> set (get_all_node_infos t a). to_uart_node_info (st_env shared_setting) n = Ok ((\<lambda>_. sample_node) n)"
    by (simp add: nodes shared_setting_def sample_setting_def sample_node_info)
  note restored = initialisation_restores_nodes [OF new(1) load order this, THEN conjunct2]
  have "(\<Union>a. set (get_all_node_infos t a)) = {sample_meter}" by (auto simp: nodes)
  with restored obtain cs w where
    cs: "distinct (concat cs)" "set (concat cs) = {sample_meter}" "\<forall>c \<in> set cs. 0 < length c \<and> length c \<le> 10"
    and run: "delivers ([init_update_address (sv_master_address ?s), clear_confirmed] @ replicate (length cs) chunk_confirmed)
        (plc_init_run shared_setting (?s, \<lparr>SEQ = 5, TOKEN = 0\<rparr>)) =
      (clear_request (SEQ \<lparr>SEQ = 5, TOKEN = 0\<rparr>) # add_requests (SEQ \<lparr>SEQ = 5, TOKEN = 0\<rparr> + 1)
         (map (map (\<lambda>_. sample_node)) cs), w, Finished (Ok ()))"
    by metis
  have one: "length (concat cs) = 1" using cs(1,2) distinct_card by fastforce
  then obtain y where y: "concat cs = [y]" by (auto simp: length_Suc_conv)
  with cs(2) have "concat cs = [sample_meter]" by (metis list.set(1,2) singleton_insert_inj_eq)
  moreover have "length cs \<le> length (concat cs)" using cs(3)
    by (induction cs) (auto simp del: length_greater_0_conv)
  ultimately have "length cs \<le> 1" "concat cs = [sample_meter]" using one by simp_all
  then have "cs = [[sample_meter]]" by (cases cs) auto
  with run new(2) show ?thesis by (auto simp del: deliver.simps)
qed

theorem module_check_is_late_witness:
  "case deliver (init_update_address address_default)
      (init_get_master_address (init_notify (Ok ()) (module_service_new () ''now'' :: (unit, unit) module_service),
         \<lparr>SEQ = 5, TOKEN = 0\<rparr>)) of
    (acts, (s1, g1), run) \<Rightarrow>
      acts = [module_query 5, module_query 6]
      \<and> snd (snd (init_get_master_address (init_update_address address_default s1, g1))) = Finished (Ok address_default)"
  using module_check_is_late [where s = "init_notify (Ok ()) (module_service_new () ''now'') :: (unit, unit) module_service"
      and r = "Ok ()" and a = address_default and b = address_default and g = "\<lparr>SEQ = 5, TOKEN = 0\<rparr>"]
  by (auto simp: init_notify_def notify_event_def simp del: deliver.simps)

end
