(* ===== verification/Uart_Dispatch.thy ===== *)
theory Uart_Dispatch
  imports Plc_Init
begin

text \<open>
  src/src/uart_handler.rs: which service gets an answer of the module, and which one hears of a timeout. The
  serial agent (\<open>Uart_Agent\<close>) calls \<open>uart_msg_handler\<close> on its reading thread and \<open>handle_timeout\<close> on the
  threads of the requests; a panic in either stops that thread.
\<close>

section \<open>Function numbers\<close>

definition init_operation_try_from :: "u8 \<Rightarrow> init_operation result" where
  "init_operation_try_from = of_code ''InitOperation'' (with_codes init_operation_to_u8 [Hard, Params, InitData])"

definition ctrl_cmd_try_from :: "u8 \<Rightarrow> ctrl_cmd result" where
  "ctrl_cmd_try_from =
     of_code ''CtrlCmd'' (with_codes ctrl_cmd_to_u8 [SetAddress, RefuseSlaveReport, Broadcast, IdentifyArea, HplcFrequency])"

definition query_data_try_from :: "u8 \<Rightarrow> query_data result" where
  "query_data_try_from =
     of_code ''QueryData'' (with_codes query_data_to_u8
       [CommModuleInfo, MasterAddress, BroadcastDelay, GetModuleInfo, GetMasterIdInfo, QueryHplcFrequency])"

definition route_set_try_from :: "u8 \<Rightarrow> route_set result" where
  "route_set_try_from =
     of_code ''RouteSet'' (with_codes route_set_to_u8 [AddNode, DelNode, ActiveNodeRegister, StopNodeRegister])"

definition meter_control_try_from :: "u8 \<Rightarrow> meter_control result" where
  "meter_control_try_from = of_code ''MeterControl'' (with_codes meter_control_to_u8 [Restart, Pause, Resume])"

text \<open>\<^verbatim>\<open>map_err\<close> to the dispatcher's error, and \<^verbatim>\<open>expect\<close>.\<close>

fun supported :: "afn \<Rightarrow> u8 \<Rightarrow> 'a result \<Rightarrow> 'a result" where
  "supported a n (Ok x) = Ok x"
| "supported a n (Err e) = Err (UartHandlerErr (UnsupportedAfnFn a n))"
| "supported a n (Panic p) = Panic p"

fun expected :: "'a result \<Rightarrow> 'a result" where
  "expected (Ok x) = Ok x"
| "expected (Err e) = Panic ExpectFailed"
| "expected (Panic p) = Panic p"

text \<open>An enum with a single variant.\<close>

definition only_fn :: "afn \<Rightarrow> u8 \<Rightarrow> u8 \<Rightarrow> unit result" where
  "only_fn a code n = supported a n (if n = code then Ok () else Err (InvalidPrimitive [] n))"

abbreviation message_afn :: "uart_message \<Rightarrow> afn" where
  "message_afn m \<equiv> key_afn (ri_frame_key (um_req_info m))"

abbreviation message_fn :: "uart_message \<Rightarrow> u8" where
  "message_fn m \<equiv> key_fn_num (ri_frame_key (um_req_info m))"

section \<open>Reports and requests of the module\<close>

definition uart_route_data_read_handler :: "('db, 'date) setting \<Rightarrow> moment \<Rightarrow> uart_message \<Rightarrow> ('db, 'date, unit) service_prog" where
  "uart_route_data_read_handler st now message =
     (if message_fn message = ROUTE_READ_CLOCK then answer_with (uart_clock_data_response (mo_clock now) message)
      else if message_fn message = ROUTE_READ_COMM_DELAY then on_line (answer_on (uart_route_delay_response message))
      else give (Err (UartHandlerErr (UnsupportedAfnFn (message_afn message) (message_fn message)))))"

definition uart_active_report_handler :: "('db, 'date) setting \<Rightarrow> uart_message \<Rightarrow> ('db, 'date, unit) service_prog" where
  "uart_active_report_handler st message =
     andDo (give (supported (message_afn message) (message_fn message) (active_report_try_from (message_fn message)))) (\<lambda>n.
     case n of
       SlaveNodeEvt \<Rightarrow> uart_slave_node_event_report (st_env st) message
     | ReportNode \<Rightarrow> give (uart_slave_node_info_report message)
     | NodeInfoAndDeviceType \<Rightarrow> on_identify_area (uart_slave_node_info_and_device_report message)
     | WorkStatus \<Rightarrow> on_identify_area (uart_slave_work_status_report message))"

text \<open>The report that ends an upgrade is not taken for one of the initialisation.\<close>

definition module_info_reported :: "'date module_info_response \<Rightarrow> ('db, 'date, unit) service_prog" where
  "module_info_reported response =
     andDo (ask (\<lambda>s. is_upgrading (sv_file_upgrade s))) (\<lambda>upgrading.
     if upgrading
     then
       andDo (on_file_upgrade (change upgrade_finished)) (\<lambda>_.
       change (\<lambda>s. s\<lparr>sv_MODULE_INFO := get_or_init response (sv_MODULE_INFO s)\<rparr>))
     else
       andDo (change (\<lambda>s. s\<lparr>sv_MODULE_INFO := get_or_init response (sv_MODULE_INFO s)\<rparr>)) (\<lambda>_.
       change (init_update_address (mi_main_node_addr response))))"

definition uart_slave_report_handler :: "('db, 'date) setting \<Rightarrow> moment \<Rightarrow> uart_message \<Rightarrow> ('db, 'date, unit) service_prog" where
  "uart_slave_report_handler st now message =
     (case message_afn message of
        QueryData \<Rightarrow>
          andDo (give (supported QueryData (message_fn message) (query_data_try_from (message_fn message)))) (\<lambda>n.
          if n = GetModuleInfo
          then
            (case slave_module_info_report (st_calendar st) message of
               Ok (response, acts) \<Rightarrow> andDo (send acts) (\<lambda>_. module_info_reported response)
             | Err e \<Rightarrow> give (Panic UnreachableCode)
             | Panic p \<Rightarrow> give (Panic p))
          else give (Err (UartHandlerErr (UnsupportedAfnFn QueryData (message_fn message)))))
      | RouteDataRead \<Rightarrow> uart_route_data_read_handler st now message
      | Report \<Rightarrow> uart_active_report_handler st message
      | a \<Rightarrow> give (Err (UartHandlerErr (UnsupportedAfn a))))"

section \<open>Answers to requests of applications\<close>

definition message_received :: "moment \<Rightarrow> ('db, 'date, unit) service_prog" where
  "message_received now = change (\<lambda>s. s\<lparr>sv_meter_state := receive_message_now (mo_text now) (sv_meter_state s)\<rparr>)"

definition uart_route_data_forward_handler :: "('db, 'date) setting \<Rightarrow> moment \<Rightarrow> uart_message \<Rightarrow> ('db, 'date, unit) service_prog" where
  "uart_route_data_forward_handler st now message =
     andDo (give (only_fn (message_afn message) MONITOR_NODE (message_fn message))) (\<lambda>_.
     andDo (message_received now) (\<lambda>_.
     on_line (perform (uart_get_monitor_node_data (st_env st) message))))"

definition uart_query_data_handler :: "('db, 'date) setting \<Rightarrow> uart_message \<Rightarrow> ('db, 'date, unit) service_prog" where
  "uart_query_data_handler st message =
     andDo (give (supported (message_afn message) (message_fn message) (query_data_try_from (message_fn message)))) (\<lambda>n.
     case n of
       GetModuleInfo \<Rightarrow> answer_with (module_info_response_handler (st_env st) (st_calendar st) message)
     | GetMasterIdInfo \<Rightarrow> answer_with (master_id_info_response_handler (st_env st) message)
     | BroadcastDelay \<Rightarrow> on_line (answer_on (uart_broadcast_delay_response (st_env st) message))
     | QueryHplcFrequency \<Rightarrow> answer_with (uart_get_hplc_freq_response (st_env st) message)
     | MasterAddress \<Rightarrow> answer_with (uart_get_address (st_env st) message)
     | CommModuleInfo \<Rightarrow> answer_with (uart_get_mode_info_response (st_env st) (st_calendar st) message))"

definition uart_data_forward_handler :: "('db, 'date) setting \<Rightarrow> moment \<Rightarrow> uart_message \<Rightarrow> ('db, 'date, unit) service_prog" where
  "uart_data_forward_handler st now message =
     andDo (give (only_fn (message_afn message) TRANSFER_FRAME (message_fn message))) (\<lambda>_.
     andDo (message_received now) (\<lambda>_.
     on_line (perform (uart_data_transfer_response (st_env st) message))))"

definition uart_ctrl_cmd_handler :: "('db, 'date) setting \<Rightarrow> uart_message \<Rightarrow> ('db, 'date, unit) service_prog" where
  "uart_ctrl_cmd_handler st message =
     andDo (give (supported (message_afn message) (message_fn message) (ctrl_cmd_try_from (message_fn message)))) (\<lambda>n.
     case n of
       SetAddress \<Rightarrow>
         andDo (ask sv_master_address) (\<lambda>address.
         andDo (give (uart_set_address (st_env st) message address)) (\<lambda>(acts, address').
         andDo (change (\<lambda>s. s\<lparr>sv_master_address := address'\<rparr>)) (\<lambda>_. send acts)))
     | Broadcast \<Rightarrow> on_line (answer_on (uart_broadcast_cmd_response (st_env st) message))
     | IdentifyArea \<Rightarrow> answer_with (uart_identify_area_set (st_env st) message)
     | HplcFrequency \<Rightarrow> answer_with (uart_hplc_frequency_response (st_env st) message)
     | RefuseSlaveReport \<Rightarrow> answer_with (uart_refuse_slave_report_response (st_env st) message))"

definition uart_route_set_handler :: "('db, 'date) setting \<Rightarrow> uart_message \<Rightarrow> ('db, 'date, unit) service_prog" where
  "uart_route_set_handler st message =
     andDo (give (supported (message_afn message) (message_fn message) (route_set_try_from (message_fn message)))) (\<lambda>n.
     case n of
       AddNode \<Rightarrow> on_node_manage (perform (uart_operate_acq_files message))
     | DelNode \<Rightarrow> on_node_manage (perform (uart_operate_acq_files message))
     | ActiveNodeRegister \<Rightarrow> on_identify_area (perform (uart_active_slave_node_register message))
     | StopNodeRegister \<Rightarrow> on_identify_area (answer_on (uart_stop_slave_node_register (st_env st) message)))"

definition uart_route_query_handler :: "('db, 'date) setting \<Rightarrow> uart_message \<Rightarrow> ('db, 'date, unit) service_prog" where
  "uart_route_query_handler st message =
     andDo (give (supported (message_afn message) (message_fn message) (route_query_try_from (message_fn message)))) (\<lambda>n.
     case n of
       NodeNumber \<Rightarrow> answer_with (uart_get_acq_files_number (st_env st) message)
     | NodeInfoQuery \<Rightarrow> answer_with (uart_get_acq_files (st_env st) message)
     | NodeLineInfoQuery \<Rightarrow> answer_with (uart_node_line_info_response (st_env st) message)
     | ChipInfo \<Rightarrow> answer_with (chip_info_response_handler (st_env st) message)
     | IdInfo \<Rightarrow> answer_with (uart_id_info_response (st_env st) message)
     | SlaveModuleId \<Rightarrow> answer_with (uart_slave_module_id_info_response (st_env st) message)
     | RunningStatus \<Rightarrow>
         andDo (ask (\<lambda>s. (sv_meter_state s, sv_MODULE_INFO s))) (\<lambda>(s, info).
         answer_with (uart_metering_state_response (st_env st) s info message))
     | NetTopology \<Rightarrow> on_hplc_info (perform (uart_net_topology_response (st_env st) message))
     | MultipleNet \<Rightarrow> answer_with (uart_multiple_net_info_response (st_env st) message)
     | NetworkSize \<Rightarrow> answer_with (uart_network_size_response (st_env st) message)
     | NetworkNodeInfo \<Rightarrow> on_hplc_info (perform (uart_node_version_response (st_env st) (st_calendar st) message)))"

definition operate_metering_answered :: "uart_message \<Rightarrow> ('db, 'date, unit) service_prog" where
  "operate_metering_answered message = on_line (on_route_ctrl (perform (uart_operate_metering message)))"

definition uart_route_ctrl_handler :: "uart_message \<Rightarrow> ('db, 'date, unit) service_prog" where
  "uart_route_ctrl_handler message =
     andDo (give (supported (message_afn message) (message_fn message) (meter_control_try_from (message_fn message)))) (\<lambda>n.
     operate_metering_answered message)"

definition uart_file_transfer_handler :: "uart_message \<Rightarrow> ('db, 'date, unit) service_prog" where
  "uart_file_transfer_handler message =
     andDo (give (only_fn (message_afn message) FILE_TRANSFER_METHOD (message_fn message))) (\<lambda>_.
     on_file_upgrade (perform (uart_file_transfer message)))"

definition uart_read_meter_handler :: "('db, 'date) setting \<Rightarrow> moment \<Rightarrow> uart_message \<Rightarrow> ('db, 'date, unit) service_prog" where
  "uart_read_meter_handler st now message =
     andDo (give (only_fn (message_afn message) ACTIVE_READ_METER (message_fn message))) (\<lambda>_.
     andDo (ask sv_master_address) (\<lambda>master_address.
     andDo (message_received now) (\<lambda>_.
     on_meter (uart_meter_reading (st_env st) message master_address))))"

definition uart_test_handler :: "('db, 'date) setting \<Rightarrow> uart_message \<Rightarrow> ('db, 'date, unit) service_prog" where
  "uart_test_handler st message =
     (if message_fn message = 0 then answer_with (uart_debug_frame_response (st_env st) message)
      else give (Panic UnreachableCode))"

definition uart_init_operation_handler :: "('db, 'date) setting \<Rightarrow> uart_message \<Rightarrow> ('db, 'date, unit) service_prog" where
  "uart_init_operation_handler st message =
     andDo (give (supported (message_afn message) (message_fn message) (init_operation_try_from (message_fn message)))) (\<lambda>n.
     if n = InitData then uart_data_init_response (st_env st) message else give (Panic UnreachableCode))"

definition uart_mqtt_handler :: "('db, 'date) setting \<Rightarrow> moment \<Rightarrow> uart_message \<Rightarrow> ('db, 'date, unit) service_prog" where
  "uart_mqtt_handler st now message =
     (case message_afn message of
        Init \<Rightarrow> uart_init_operation_handler st message
      | DataForward \<Rightarrow> uart_data_forward_handler st now message
      | CtrlCmd \<Rightarrow> uart_ctrl_cmd_handler st message
      | QueryData \<Rightarrow> uart_query_data_handler st message
      | RouteSet \<Rightarrow> uart_route_set_handler st message
      | RouteGet \<Rightarrow> uart_route_query_handler st message
      | RouteCtrl \<Rightarrow> uart_route_ctrl_handler message
      | RouteDataForward \<Rightarrow> uart_route_data_forward_handler st now message
      | FileTransfer \<Rightarrow> uart_file_transfer_handler message
      | CocurrentReadMeter \<Rightarrow> uart_read_meter_handler st now message
      | Test \<Rightarrow> uart_test_handler st message
      | a \<Rightarrow> give (Err (UartHandlerErr (UnsupportedAfn a))))"

section \<open>Answers to requests of the service itself\<close>

text \<open>The result of an operation, whatever it is, goes to the initialisation.\<close>

definition notify_result :: "('db, 'date, unit) service_prog \<Rightarrow> ('db, 'date, unit) service_prog" where
  "notify_result p = andDo (catch p) (\<lambda>r. change (init_notify r))"

definition init_query_data :: "('db, 'date) setting \<Rightarrow> uart_message \<Rightarrow> ('db, 'date, unit) service_prog" where
  "init_query_data st message =
     andDo (give (expected (query_data_try_from (message_fn message)))) (\<lambda>n.
     if n = GetModuleInfo
     then
       andDo (ask sv_MODULE_INFO) (\<lambda>info.
       case init_module_info_response (st_calendar st) message info of
         Ok (address, info') \<Rightarrow>
           andDo (change (\<lambda>s. s\<lparr>sv_MODULE_INFO := info'\<rparr>)) (\<lambda>_. change (init_update_address address))
       | Err e \<Rightarrow> change (init_notify (Err e))
       | Panic p \<Rightarrow> give (Panic p))
     else give (Panic UnreachableCode))"

text \<open>The arm for the service's own query of the running status looks at the two keys the wrong way round: the
  key of the request it was sent for is read as a query, and the key of the query as that of the request.\<close>

definition init_route_get :: "uart_message \<Rightarrow> ('db, 'date, unit) service_prog" where
  "init_route_get message =
     andDo (give (unwrap_option (ri_origin_req_key (um_req_info message)))) (\<lambda>origin.
     andDo (give (expected (route_query_try_from (key_fn_num origin)))) (\<lambda>n.
     if n = RunningStatus
     then
       (case message_afn message of
          RouteSet \<Rightarrow> on_identify_area (perform (uart_search_meter_running_status message))
        | FileTransfer \<Rightarrow> on_file_upgrade (perform (uart_file_transfer_finish message))
        | _ \<Rightarrow> give (Panic UnreachableCode))
     else give (Panic UnreachableCode)))"

definition uart_init_handler :: "('db, 'date) setting \<Rightarrow> moment \<Rightarrow> uart_message \<Rightarrow> ('db, 'date, unit) service_prog" where
  "uart_init_handler st now message =
     (case message_afn message of
        QueryData \<Rightarrow> init_query_data st message
      | CtrlCmd \<Rightarrow>
          andDo (give (expected (ctrl_cmd_try_from (message_fn message)))) (\<lambda>n.
          if n = SetAddress then notify_result (give (init_set_address_response message))
          else give (Panic UnreachableCode))
      | RouteSet \<Rightarrow>
          andDo (give (expected (route_set_try_from (message_fn message)))) (\<lambda>n.
          if n = AddNode then notify_result (on_node_manage (perform (uart_operate_acq_files message)))
          else give (Panic UnreachableCode))
      | Init \<Rightarrow>
          andDo (give (expected (init_operation_try_from (message_fn message)))) (\<lambda>n.
          if n = Params then notify_result (on_node_manage (perform (uart_clear_acq_files message)))
          else give (Panic UnreachableCode))
      | RouteCtrl \<Rightarrow>
          andDo (give (expected (meter_control_try_from (message_fn message)))) (\<lambda>_. operate_metering_answered message)
      | RouteGet \<Rightarrow> init_route_get message
      | RouteDataForward \<Rightarrow> uart_route_data_forward_handler st now message
      | _ \<Rightarrow> give (Panic UnreachableCode))"

definition uart_msg_handler :: "('db, 'date) setting \<Rightarrow> moment \<Rightarrow> uart_message \<Rightarrow> ('db, 'date, unit) service_prog" where
  "uart_msg_handler st now message =
     (if is_slave_report (um_frame message) then uart_slave_report_handler st now message
      else if is_init (um_req_info message) then uart_init_handler st now message
      else uart_mqtt_handler st now message)"

section \<open>Timeouts\<close>

definition mqtt_timeout_cb :: "env \<Rightarrow> mqtt_req_info \<Rightarrow> ('s, unit) prog" where
  "mqtt_timeout_cb env mqtt =
     reply (mqtt_message_new (mri_topic mqtt)
       (mqtt_payload_new env (mri_token mqtt) Failure (error_text env (MqttResponseErr RequestTimeout)) None))"

definition default_timeout_handler :: "('db, 'date) setting \<Rightarrow> req_info \<Rightarrow> ('db, 'date, unit) service_prog" where
  "default_timeout_handler st req =
     (case ri_mqtt_req_info req of
        Some mqtt \<Rightarrow> mqtt_timeout_cb (st_env st) mqtt
      | None \<Rightarrow> change notify_timeout)"

definition handle_concurrent_read_meter_timeout :: "('db, 'date) setting \<Rightarrow> u8 \<Rightarrow> req_info \<Rightarrow> ('db, 'date, unit) service_prog" where
  "handle_concurrent_read_meter_timeout st n req =
     andDo (give (only_fn CocurrentReadMeter ACTIVE_READ_METER n)) (\<lambda>_.
     andDo (ask sv_master_address) (\<lambda>master_address.
     andDo (give (unwrap_option (ri_mqtt_req_info req))) (\<lambda>mqtt.
     on_meter (uart_meter_reading_timeout (st_env st) mqtt master_address))))"

definition handle_route_set_timeout :: "('db, 'date) setting \<Rightarrow> u8 \<Rightarrow> req_info \<Rightarrow> ('db, 'date, unit) service_prog" where
  "handle_route_set_timeout st n req =
     andDo (give (supported RouteSet n (route_set_try_from n))) (\<lambda>c.
     if c = AddNode \<or> c = DelNode then on_node_manage (change uart_operate_acq_files_timeout)
     else if c = ActiveNodeRegister then on_identify_area (change uart_active_slave_node_register_timeout)
     else default_timeout_handler st req)"

definition handle_route_data_forward_timeout :: "u8 \<Rightarrow> ('db, 'date, unit) service_prog" where
  "handle_route_data_forward_timeout n =
     andDo (give (only_fn RouteDataForward MONITOR_NODE n)) (\<lambda>_. on_line (change uart_monitor_node_timeout))"

definition handle_data_forward_timeout :: "u8 \<Rightarrow> ('db, 'date, unit) service_prog" where
  "handle_data_forward_timeout n =
     andDo (give (only_fn DataForward TRANSFER_FRAME n)) (\<lambda>_. on_line (change uart_data_transfer_timeout))"

definition handle_route_data_read_timeout :: "u8 \<Rightarrow> req_info \<Rightarrow> ('db, 'date, unit) service_prog" where
  "handle_route_data_read_timeout n req =
     (if n = ROUTE_READ_CLOCK then give (Panic UnreachableCode)
      else if n = ROUTE_READ_COMM_DELAY
      then
        (case ri_origin_req_key req of
           None \<Rightarrow> give (Err (UartHandlerErr NoOriginReqKey))
         | Some (FrameKey a k) \<Rightarrow>
             if a = RouteDataForward
             then andDo (give (only_fn a MONITOR_NODE k)) (\<lambda>_. on_line (change uart_monitor_node_timeout))
             else give (Panic UnreachableCode))
      else give (Err (UartHandlerErr (UnsupportedAfnFn RouteDataRead n))))"

definition handle_route_get_timeout :: "('db, 'date) setting \<Rightarrow> u8 \<Rightarrow> req_info \<Rightarrow> ('db, 'date, unit) service_prog" where
  "handle_route_get_timeout st n req =
     andDo (give (supported RouteGet n (route_query_try_from n))) (\<lambda>c.
     if c = RunningStatus \<and> is_init req then on_identify_area (change uart_active_slave_node_register_timeout)
     else if c = NetTopology \<or> c = NetworkNodeInfo then on_hplc_info (change uart_hplc_info_response_timeout)
     else default_timeout_handler st req)"

definition handle_file_transfer_timeout :: "u8 \<Rightarrow> ('db, 'date, unit) service_prog" where
  "handle_file_transfer_timeout n =
     andDo (give (only_fn FileTransfer FILE_TRANSFER_METHOD n)) (\<lambda>_. on_file_upgrade (change uart_file_transfer_timeout))"

definition handle_timeout :: "('db, 'date) setting \<Rightarrow> req_info \<Rightarrow> ('db, 'date, unit) service_prog" where
  "handle_timeout st req =
     (case ri_frame_key req of
        FrameKey a n \<Rightarrow>
          (case a of
             CocurrentReadMeter \<Rightarrow> handle_concurrent_read_meter_timeout st n req
           | RouteSet \<Rightarrow> handle_route_set_timeout st n req
           | RouteDataForward \<Rightarrow> handle_route_data_forward_timeout n
           | DataForward \<Rightarrow> handle_data_forward_timeout n
           | RouteDataRead \<Rightarrow> handle_route_data_read_timeout n req
           | RouteGet \<Rightarrow> handle_route_get_timeout st n req
           | FileTransfer \<Rightarrow> handle_file_transfer_timeout n
           | _ \<Rightarrow> default_timeout_handler st req))"

section \<open>Facts\<close>

text \<open>A query the service sends for itself, with the key of what it is sent for.\<close>

definition status_query :: "frame_key \<Rightarrow> u8 \<Rightarrow> uart_message" where
  "status_query origin seq =
     uart_message_new
       \<lparr>ri_mqtt_req_info = None, ri_frame_key = FrameKey RouteGet (route_query_to_u8 RunningStatus), ri_seq_num = seq,
        ri_origin_req_key = Some origin\<rparr> (new_frame False seq None running_status_request_to_app_data)"

lemma running_status_query:
  "running_status_query origin (s, g) =
     ([ToUart (status_query origin (SEQ g))], (s, g\<lparr>SEQ := SEQ g + 1\<rparr>), Finished (Ok ()))"
  using frame_new_sel(3-5) [OF frame_new_new_frame [of False "SEQ g" None running_status_request_to_app_data]]
  by (simp add: running_status_query_def req_info_new_with_origin_req_key_def frame_key_of_def send_def
      status_query_def uart_message_new_def running_status_request_to_app_data_def)

lemma init_route_get_panics:
  assumes "message_afn m = RouteGet"
  shows "\<exists>p. init_route_get m w = ([], w, Finished (Panic p))"
proof (cases "ri_origin_req_key (um_req_info m)")
  case None
  then show ?thesis by (simp add: init_route_get_def give_def)
next
  case (Some origin)
  then show ?thesis
    using assms by (cases "route_query_try_from (key_fn_num origin)") (simp_all add: init_route_get_def give_def)
qed

text \<open>The service's own requests that have no timeout handler of their own.\<close>

lemma default_timeouts:
  "handle_timeout st (um_req_info (request_message seq a pause_metering_to_app_data 2 None)) = change notify_timeout"
  "handle_timeout st (um_req_info (request_message seq a (init_request_to_app_data Params) 2 None)) = change notify_timeout"
  by (simp_all add: handle_timeout_def request_message_def uart_message_new_def default_timeout_handler_def
      pause_metering_to_app_data_def init_request_to_app_data_def)

lemmas line_laws = line.zoom_laws [folded on_line_def] route_ctrl.zoom_laws [folded on_route_ctrl_def]

lemma pause_waits:
  assumes "ms_state (ln_route_ctrl (sv_line s)) = MeterResume" and "ms_result (ln_route_ctrl (sv_line s)) = None"
  shows "\<exists>h. andDo (on_line (on_route_ctrl auto_pause_metering)) k (s, g) =
    ([ToUart (request_message (SEQ g) None pause_metering_to_app_data 2 None)], (s, g\<lparr>SEQ := SEQ g + 1\<rparr>),
     Waiting (\<lambda>(late, s, g). if ms_result (ln_route_ctrl (sv_line s)) = None then None else Some (h (s, g))))"
  using assms
  by (auto simp: auto_pause_metering_def line_laws andDo_assoc andDo_info_request wait_metering_def andDo_wait_while)

lemma clear_waits:
  "\<exists>h. andDo (on_node_manage init_clear_acq_files) k (s, g) =
    ([clear_request (SEQ g)], (with_table (nm_node_config (sv_node_manage s)) s, g\<lparr>SEQ := SEQ g + 1\<rparr>),
     Waiting (\<lambda>(late, s, g). if nm_operation_result (sv_node_manage s) = None then None else Some (h (s, g))))"
  by (intro exI [of _ "\<lambda>w. andDo (give (the (nm_operation_result (sv_node_manage (fst w))))) k
        (with_table (nm_node_config (sv_node_manage (fst w))) (fst w), snd w)"])
    (simp add: init_clear_acq_files_def init_laws andDo_assoc andDo_info_request andDo_wait_operation clear_request_def
      cong del: prod.case_cong_weak if_weak_cong)

lemma blocked_while:
  assumes "\<forall>e \<in> set es. \<forall>s. c s \<longrightarrow> c (e s)" and "c s"
  shows "delivers es (acts, (s, g), Waiting (\<lambda>(late, s, g). if c s then None else Some (h (s, g)))) =
    (acts, (fold id es s, g), Waiting (\<lambda>(late, s, g). if c s then None else Some (h (s, g))))"
  using stays_blocked [of c "\<lambda>(late, s, g). if c s then None else Some (h (s, g))", OF _ assms] by simp

section \<open>Properties\<close>

text \<open>C36: The answer to the service's own query of the module's state kills the reading thread. Both the search for
  meters and the upgrade of the nodes send this query; whatever the module answers, and whatever the query
  was sent for, the dispatcher panics on it, so no later answer of the module is read.\<close>

theorem own_status_answer_panics:
  assumes "\<not> is_slave_report f"
  shows "\<exists>q p. running_status_query origin (s, g) = ([ToUart q], (s, g\<lparr>SEQ := SEQ g + 1\<rparr>), Finished (Ok ()))
    \<and> uart_msg_handler st now (q\<lparr>um_frame := f\<rparr>) w = ([], w, Finished (Panic p))"
proof -
  let ?m = "(status_query origin (SEQ g))\<lparr>um_frame := f\<rparr>"
  have key: "message_afn ?m = RouteGet" "is_init (um_req_info ?m)"
    by (simp_all add: status_query_def uart_message_new_def is_init_def)
  obtain p where "init_route_get ?m w = ([], w, Finished (Panic p))" using init_route_get_panics [OF key(1)] by blast
  then have "uart_msg_handler st now ?m w = ([], w, Finished (Panic p))"
    using assms key by (simp add: uart_msg_handler_def uart_init_handler_def)
  then show ?thesis
    by (intro exI [of _ "status_query origin (SEQ g)"]) (simp add: running_status_query)
qed

text \<open>A lost answer to a pause blocks the thread that asked for it. A pause the service makes before a broadcast, a
  search or the monitoring of a node is one of its own requests, whose timeout only tells the initialisation;
  the thread goes on waiting, whatever else happens but an answer to a pause or a resumption.\<close>

theorem lost_pause_blocks:
  assumes "ms_state (ln_route_ctrl (sv_line s)) = MeterResume" and "ms_result (ln_route_ctrl (sv_line s)) = None"
    and "\<forall>e \<in> set es. \<forall>s. ms_result (ln_route_ctrl (sv_line s)) = None \<longrightarrow> ms_result (ln_route_ctrl (sv_line (e s))) = None"
  shows "\<exists>q w f. delivers es (andDo (on_line (on_route_ctrl auto_pause_metering)) k (s, g)) = ([ToUart q], w, Waiting f)
    \<and> handle_timeout st (um_req_info q) = change notify_timeout \<and> sv_line (notify_timeout s) = sv_line s"
proof -
  let ?q = "request_message (SEQ g) None pause_metering_to_app_data 2 None"
  obtain h where h: "andDo (on_line (on_route_ctrl auto_pause_metering)) k (s, g) =
    ([ToUart ?q], (s, g\<lparr>SEQ := SEQ g + 1\<rparr>),
     Waiting (\<lambda>(late, s, g). if ms_result (ln_route_ctrl (sv_line s)) = None then None else Some (h (s, g))))"
    using pause_waits [OF assms(1,2)] by blast
  have "delivers es (andDo (on_line (on_route_ctrl auto_pause_metering)) k (s, g)) =
    ([ToUart ?q], (fold id es s, g\<lparr>SEQ := SEQ g + 1\<rparr>),
     Waiting (\<lambda>(late, s, g). if ms_result (ln_route_ctrl (sv_line s)) = None then None else Some (h (s, g))))"
    unfolding h by (rule blocked_while) (use assms in auto)
  moreover have "handle_timeout st (um_req_info ?q) = change notify_timeout" by (rule default_timeouts)
  moreover have "sv_line (notify_timeout s) = sv_line s" by (simp add: notify_timeout_def notify_event_def)
  ultimately show ?thesis by blast
qed

text \<open>A lost answer to the clearing of the node table blocks the initialisation for good: its timeout is left in the
  slot of events, and the thread waits for a result in another place. Nothing but an answer to a registration
  or deletion ends the wait, and these are refused while the module is not initialised.\<close>

theorem lost_clearing_blocks_initialisation:
  assumes "sv_init_event s = None"
    and "\<forall>e \<in> set es. \<forall>s. nm_operation_result (sv_node_manage s) = None \<longrightarrow> nm_operation_result (sv_node_manage (e s)) = None"
  shows "\<exists>q w f. delivers (init_update_address (sv_master_address s) # es) (plc_init_run st (s, g)) = ([ToUart q], w, Waiting f)
    \<and> handle_timeout st (um_req_info q) = change notify_timeout
    \<and> sv_node_manage (notify_timeout s) = sv_node_manage s"
proof -
  let ?q = "request_message (SEQ g) None (init_request_to_app_data Params) 2 None"
  let ?k = "\<lambda>_. andDo (change (\<lambda>s. s\<lparr>sv_meter_state := init_param (sv_meter_state s)\<rparr>)) (\<lambda>_.
    andDo (on_node_manage (load_config (st_env st) (st_db st) (st_hash_order st))) (\<lambda>_.
    change (\<lambda>s. s\<lparr>sv_init_flag := True\<rparr>)))"
  let ?s = "s\<lparr>sv_init_flag := False\<rparr>"
  let ?s1 = "with_table (nm_node_config (sv_node_manage ?s)) ?s"
  obtain h where h: "andDo (on_node_manage init_clear_acq_files) ?k (?s, g) =
    ([ToUart ?q], (?s1, g\<lparr>SEQ := SEQ g + 1\<rparr>),
     Waiting (\<lambda>(late, s, g). if nm_operation_result (sv_node_manage s) = None then None else Some (h (s, g))))"
    using clear_waits [of ?k ?s g] unfolding clear_request_def by blast
  have none: "nm_operation_result (sv_node_manage ?s1) = None" by (simp add: with_table_def)
  have "delivers es (andDo (on_node_manage init_clear_acq_files) ?k (?s, g)) =
    ([ToUart ?q], (fold id es ?s1, g\<lparr>SEQ := SEQ g + 1\<rparr>),
     Waiting (\<lambda>(late, s, g). if nm_operation_result (sv_node_manage s) = None then None else Some (h (s, g))))"
    unfolding h by (rule blocked_while) (use assms none in auto)
  then have "delivers (init_update_address (sv_master_address s) # es) (plc_init_run st (s, g)) =
    ([ToUart ?q], (fold id es ?s1, g\<lparr>SEQ := SEQ g + 1\<rparr>),
     Waiting (\<lambda>(late, s, g). if nm_operation_result (sv_node_manage s) = None then None else Some (h (s, g))))"
    unfolding delivers_simps init_clears [OF assms(1)] .
  moreover have "handle_timeout st (um_req_info ?q) = change notify_timeout" by (rule default_timeouts)
  moreover have "sv_node_manage (notify_timeout s) = sv_node_manage s" by (simp add: notify_timeout_def notify_event_def)
  ultimately show ?thesis by blast
qed

theorem own_status_answer_panics_witness:
  "\<forall>now w. \<exists>q p. running_status_query (FrameKey RouteSet 5) (module_service_new () ''now'', \<lparr>SEQ = 5, TOKEN = 0\<rparr>) =
      ([ToUart q], (module_service_new () ''now'' :: (unit, unit) module_service, \<lparr>SEQ = 6, TOKEN = 0\<rparr>), Finished (Ok ()))
    \<and> uart_msg_handler sample_setting now (q\<lparr>um_frame := new_frame True 5 None running_status_request_to_app_data\<rparr>) w
      = ([], w, Finished (Panic p))"
proof (intro allI)
  fix now w
  have "\<not> is_slave_report (new_frame True 5 None running_status_request_to_app_data)"
    by (simp add: is_slave_report_def new_frame_def ctrl_field_new_def)
  from own_status_answer_panics [OF this, of "FrameKey RouteSet 5" "module_service_new () ''now''" "\<lparr>SEQ = 5, TOKEN = 0\<rparr>"
      sample_setting now w]
  show "\<exists>q p. running_status_query (FrameKey RouteSet 5) (module_service_new () ''now'', \<lparr>SEQ = 5, TOKEN = 0\<rparr>) =
      ([ToUart q], (module_service_new () ''now'' :: (unit, unit) module_service, \<lparr>SEQ = 6, TOKEN = 0\<rparr>), Finished (Ok ()))
    \<and> uart_msg_handler sample_setting now (q\<lparr>um_frame := new_frame True 5 None running_status_request_to_app_data\<rparr>) w
      = ([], w, Finished (Panic p))" by simp
qed

theorem lost_pause_blocks_witness:
  "\<exists>q w f. delivers [notify_timeout, notify_timeout] (andDo (on_line (on_route_ctrl auto_pause_metering)) (\<lambda>_. give (Ok ()))
      (module_service_new () ''now'' :: (unit, unit) module_service, \<lparr>SEQ = 5, TOKEN = 0\<rparr>)) = ([ToUart q], w, Waiting f)"
  using lost_pause_blocks [of "module_service_new () ''now'' :: (unit, unit) module_service" "[notify_timeout, notify_timeout]"
      "\<lambda>_. give (Ok ())" "\<lparr>SEQ = 5, TOKEN = 0\<rparr>" sample_setting]
  by (auto simp: module_service_new_def line_state_new_def route_ctrl_new_def notify_timeout_def notify_event_def
      simp del: delivers_simps)

theorem lost_clearing_blocks_initialisation_witness:
  "\<exists>q w f. delivers [init_update_address address_default, notify_timeout, notify_timeout]
      (plc_init_run sample_setting (module_service_new () ''now'', \<lparr>SEQ = 5, TOKEN = 0\<rparr>)) = ([ToUart q], w, Waiting f)"
  using lost_clearing_blocks_initialisation [of "module_service_new () ''now'' :: (unit, unit) module_service"
      "[notify_timeout, notify_timeout]" sample_setting "\<lparr>SEQ = 5, TOKEN = 0\<rparr>"]
  by (auto simp: module_service_new_def notify_timeout_def notify_event_def simp del: delivers_simps)

end
