(* ===== verification/Mqtt_Dispatch.thy ===== *)
theory Mqtt_Dispatch
  imports Plc_Init
begin

text \<open>
  src/src/mqtt_handler.rs: the topics the services register (\<open>registered_filters\<close>, in the order of
  \<^verbatim>\<open>ModuleService::init\<close>) and the thread that takes the queued requests and calls the services
  (\<open>handle_request\<close>). Two requests go on in a pool of threads after the call: \<open>pool_task\<close> is what is left
  to do there. Whether a filter matches a topic is a parameter; \<open>topic_wildcards\<close> is what MQTT says of
  filters whose only wildcard is the plus sign.
\<close>

section \<open>Registered topics\<close>

type_synonym registration = "string \<times> string \<times> mqtt_topic_type \<times> string"

definition request_topic :: "string \<Rightarrow> string \<Rightarrow> string" where
  "request_topic operator suffix = ''+/'' @ operator @ ''/request/'' @ APP_NAME @ ''/'' @ suffix"

definition add_topic_filter ::
    "string \<Rightarrow> mqtt_topic_type \<Rightarrow> schema option \<Rightarrow> mqtt_topic_filter list \<Rightarrow> mqtt_topic_filter list" where
  "add_topic_filter topic mqtt_topic_type schema filters =
     filters @ [\<lparr>tf_topic = topic, tf_mqtt_topic_type = mqtt_topic_type, tf_schema = schema\<rparr>]"

text \<open>\<open>parse_schema\<close> is \<^verbatim>\<open>None\<close> for a file that is missing or holds no schema: such a topic is not checked.\<close>

fun register_mqtt_request_topics ::
    "(string \<Rightarrow> schema option) \<Rightarrow> registration list \<Rightarrow> mqtt_topic_filter list \<Rightarrow> mqtt_topic_filter list" where
  "register_mqtt_request_topics parse_schema [] filters = filters"
| "register_mqtt_request_topics parse_schema ((operator, suffix, mqtt_topic_type, schema_file) # rs) filters =
     register_mqtt_request_topics parse_schema rs
       (add_topic_filter (request_topic operator suffix) mqtt_topic_type (parse_schema schema_file) filters)"

definition module_info_topics :: "registration list" where
  "module_info_topics =
     [(''get'', ''moduleInfo'', T_GetModuleInfo, ''get_module_info_schema.json''),
      (''get'', ''hostModeID'', T_GetMasterIdInfo, ''get_master_id_schema.json''),
      (''get'', ''hplcFreq'', T_GetHplcFreq, ''get_hplc_freq_schema.json''),
      (''get'', ''modeInfo'', T_GetModeInfo, ''get_mode_info_schema.json'')]"

definition master_address_topics :: "registration list" where
  "master_address_topics =
     [(''set'', ''masterNode'', T_SetMasterAddress, ''set_address_schema.json''),
      (''get'', ''masterNode'', T_GetMasterAddress, ''get_address_schema.json'')]"

definition node_manage_topics :: "registration list" where
  "node_manage_topics =
     [(''set'', ''acqFiles'', T_AddAcqFiles, ''add_node_schema.json''),
      (''get'', ''acqFiles'', T_GetAcqFiles, ''query_node_schema.json''),
      (''get'', ''acqFilesNum'', T_GetAcqFilesNum, ''query_node_num_schema.json''),
      (''set'', ''delAcqFiles'', T_DelAcqFiles, ''del_node_schema.json''),
      (''set'', ''clearAcqFiles'', T_ClearAcqFiles, ''clear_node_schema.json'')]"

definition concurrent_meter_topics :: "registration list" where
  "concurrent_meter_topics = [(''get'', ''concurrent'', T_ConcurrentMeter, ''concurrent_meter_schema.json'')]"

definition hplc_info_topics :: "registration list" where
  "hplc_info_topics =
     [(''get'', ''chipInformation'', T_GetChipInfo, ''get_chip_info_schema.json''),
      (''get'', ''idInformation'', T_GetIdInfo, ''get_id_info_schema.json''),
      (''get'', ''nodeLineInformation'', T_GetNodeLineInfo, ''get_node_line_info_schema.json''),
      (''get'', ''slaveModeID'', T_GetSlaveModuleId, ''get_slave_module_id_schema.json''),
      (''get'', ''netTopoInfo'', T_GetNetTopology, ''get_net_topology_schema.json''),
      (''get'', ''multiNetInformation'', T_GetMultiNet, ''get_multi_net_schema.json''),
      (''get'', ''networkSize'', T_GetNetworkSize, ''get_network_size_schema.json''),
      (''get'', ''nodeversion'', T_GetNodeVersion, ''get_node_version_schema.json'')]"

definition debug_method_topics :: "registration list" where
  "debug_method_topics = [(''get'', ''sendFrame'', T_SendDebugFrame, ''send_debug_frame_schema.json'')]"

definition device_info_topic :: string where
  "device_info_topic = ''osmanage/get/response/'' @ APP_NAME @ ''/deviceInfo''"

definition device_info_init ::
    "(string \<Rightarrow> schema option) \<Rightarrow> mqtt_topic_filter list \<Rightarrow> mqtt_topic_filter list" where
  "device_info_init parse_schema =
     add_topic_filter device_info_topic T_DeviceInfo (parse_schema ''device_info_schema.json'')"

definition monitor_node_topics :: "registration list" where
  "monitor_node_topics =
     [(''get'', ''monitorNode'', T_MonitorNode, ''monitor_node_schema.json''),
      (''get'', ''monitorNodeDelay'', T_MonitorNodeDelay, ''monitor_node_delay_schema.json'')]"

definition route_ctrl_topics :: "registration list" where
  "route_ctrl_topics =
     [(''set'', ''pauseMetering'', T_PauseMetering, ''pause_metering_schema.json''),
      (''set'', ''resumeMetering'', T_ResumeMetering, ''resume_metering_schema.json''),
      (''set'', ''restartMetering'', T_RestartMetering, ''restart_metering_schema.json'')]"

definition broadcast_topics :: "registration list" where
  "broadcast_topics =
     [(''get'', ''BroadcastDelay'', T_BroadcastDelay, ''broadcast_delay_schema.json''),
      (''get'', ''BroadcastCmd'', T_BroadcastCmd, ''broadcast_cmd_schema.json'')]"

definition data_transfer_topics :: "registration list" where
  "data_transfer_topics = [(''get'', ''dataTrans'', T_DataTransfer, ''data_transfer_schema.json'')]"

definition meter_state_topics :: "registration list" where
  "meter_state_topics = [(''get'', ''meteringState'', T_MeteringState, ''get_metering_state_schema.json'')]"

definition identify_area_topics :: "registration list" where
  "identify_area_topics =
     [(''set'', ''identiAreaCfg'', T_IdentifyArea, ''identify_area_schema.json''),
      (''set'', ''enSearchMeter'', T_EnableSearchMeter, ''enable_search_meter_schema.json''),
      (''set'', ''disSearchMeter'', T_DisableSearchMeter, ''disable_search_meter_schema.json'')]"

definition control_cmd_topics :: "registration list" where
  "control_cmd_topics =
     [(''set'', ''hplcFreq'', T_HplcFrequency, ''hplc_frequency_schema.json''),
      (''set'', ''refuseNodeReportCfg'', T_RefuseSlaveReport, ''refuse_slave_report_schema.json'')]"

definition plc_init_topics :: "registration list" where
  "plc_init_topics = [(''set'', ''dataInit'', T_DataInit, ''data_init_schema.json'')]"

definition file_upgrade_topics :: "registration list" where
  "file_upgrade_topics =
     [(''action'', ''startFileUpgrade'', T_FileUpgrade, ''start_file_upgrade_schema.json''),
      (''get'', ''fileUpgradeState'', T_UpgradeState, ''get_file_upgrade_state_schema.json'')]"

definition registered_filters :: "(string \<Rightarrow> schema option) \<Rightarrow> mqtt_topic_filter list" where
  "registered_filters parse_schema =
     (let register = register_mqtt_request_topics parse_schema in
      (register file_upgrade_topics \<circ> register plc_init_topics \<circ> register control_cmd_topics
       \<circ> register identify_area_topics \<circ> register meter_state_topics \<circ> register data_transfer_topics
       \<circ> register broadcast_topics \<circ> register route_ctrl_topics \<circ> register monitor_node_topics
       \<circ> device_info_init parse_schema \<circ> register debug_method_topics \<circ> register hplc_info_topics
       \<circ> register concurrent_meter_topics \<circ> register node_manage_topics \<circ> register master_address_topics
       \<circ> register module_info_topics) [])"

section \<open>Requests\<close>

datatype pool_task =
    SearchTask mqtt_message active_node_register_request mqtt_req_info string
  | UpgradeTask file_flag

type_synonym ('db, 'date) request_prog = "('db, 'date, pool_task option) service_prog"

definition completes :: "('db, 'date, unit) service_prog \<Rightarrow> ('db, 'date) request_prog" where
  "completes p = andDo p (\<lambda>_. give (Ok None))"

text \<open>The end of the pages of a query: a page holds at least one entry of a 16-bit total.\<close>

definition PAGE_ROUNDS :: nat where "PAGE_ROUNDS = 2 ^ 16"

text \<open>A request that keeps readings back while it runs; the kept ones are sent when it is over.\<close>

definition then_cached_readings ::
    "('db, 'date) setting \<Rightarrow> (address \<Rightarrow> (line_state, unit) prog) \<Rightarrow> ('db, 'date, unit) service_prog" where
  "then_cached_readings st p =
     andDo (ask sv_master_address) (\<lambda>master_address.
     andDo (catch (on_line (p master_address))) (\<lambda>result.
     andDo (on_meter (handle_cache_request (st_env st) master_address)) (\<lambda>_. give result)))"

definition set_device_esn :: "mqtt_message \<Rightarrow> ('db, 'date, unit) service_prog" where
  "set_device_esn message =
     andDo (give (mqtt_device_info_response message)) (\<lambda>esn. on_esn (change (\<lambda>_. esn)))"

definition concurrent_request :: "('db, 'date) setting \<Rightarrow> moment \<Rightarrow> mqtt_message \<Rightarrow> ('db, 'date, unit) service_prog" where
  "concurrent_request st now message =
     andDo (ask (\<lambda>s. (sv_master_address s, ln_metering (sv_line s)))) (\<lambda>(master_address, metering).
     on_meter (mqtt_concurrent_meter_reading (st_env st) (st_meter_reading st) (mo_millis now) metering message
       master_address))"

definition start_search_request :: "('db, 'date) setting \<Rightarrow> mqtt_message \<Rightarrow> ('db, 'date) request_prog" where
  "start_search_request st message =
     andDo (on_line (mqtt_active_slave_node_register (st_env st) (st_parse_from_str st) message))
       (\<lambda>(request, mqtt, report_topic). give (Ok (Some (SearchTask message request mqtt report_topic))))"

definition start_upgrade_request :: "('db, 'date) setting \<Rightarrow> moment \<Rightarrow> mqtt_message \<Rightarrow> ('db, 'date) request_prog" where
  "start_upgrade_request st now message =
     andDo (ask sv_MODULE_INFO) (\<lambda>info.
     andDo (on_file_upgrade (mqtt_file_upgrade (st_env st) (st_read_file st) (mo_text now) info message))
       (\<lambda>flag. give (Ok (map_option UpgradeTask flag))))"

definition handle_request ::
    "('db, 'date) setting \<Rightarrow> moment \<Rightarrow> mqtt_topic_type \<Rightarrow> mqtt_message \<Rightarrow> ('db, 'date) request_prog" where
  "handle_request st now ty message =
     (let env = st_env st; db = st_db st in
      case ty of
        T_GetModuleInfo \<Rightarrow> completes (mqtt_get_module_info message)
      | T_GetMasterIdInfo \<Rightarrow> completes (mqtt_get_master_id_info message)
      | T_GetMasterAddress \<Rightarrow> completes (mqtt_get_address message)
      | T_SetMasterAddress \<Rightarrow> completes (mqtt_set_address env message)
      | T_AddAcqFiles \<Rightarrow> completes (on_node_manage (mqtt_opration_acq_files env db AddAcqFiles message))
      | T_DelAcqFiles \<Rightarrow> completes (on_node_manage (mqtt_opration_acq_files env db DelAcqFiles message))
      | T_ClearAcqFiles \<Rightarrow> completes (on_node_manage (mqtt_opration_acq_files env db ClearAcqFiles message))
      | T_GetAcqFiles \<Rightarrow> completes (on_node_manage (mqtt_get_acq_files env message))
      | T_GetAcqFilesNum \<Rightarrow> completes (on_node_manage (mqtt_get_acq_files_number env message))
      | T_ConcurrentMeter \<Rightarrow> completes (concurrent_request st now message)
      | T_GetChipInfo \<Rightarrow> completes (mqtt_get_chip_info message)
      | T_GetNodeLineInfo \<Rightarrow> completes (mqtt_get_node_line_info message)
      | T_GetIdInfo \<Rightarrow> completes (mqtt_get_id_info env message)
      | T_GetSlaveModuleId \<Rightarrow> completes (mqtt_get_slave_module_id_info message)
      | T_GetNetTopology \<Rightarrow> completes (on_hplc_info (mqtt_net_topology_info_request PAGE_ROUNDS env message))
      | T_GetMultiNet \<Rightarrow> completes (mqtt_get_multiple_net_info message)
      | T_SendDebugFrame \<Rightarrow> completes (mqtt_debug_frame_request env message)
      | T_DeviceInfo \<Rightarrow> completes (set_device_esn message)
      | T_MonitorNode \<Rightarrow>
          completes (then_cached_readings st (\<lambda>address. mqtt_get_monitor_node_data env address message))
      | T_MonitorNodeDelay \<Rightarrow>
          completes (then_cached_readings st (\<lambda>address. mqtt_get_monitor_node_delay env address message))
      | T_PauseMetering \<Rightarrow> completes (on_line (on_route_ctrl (mqtt_pause_metering env message)))
      | T_RestartMetering \<Rightarrow> completes (on_line (on_route_ctrl (mqtt_restart_metering env message)))
      | T_ResumeMetering \<Rightarrow> completes (on_line (on_route_ctrl (mqtt_resume_metering env message)))
      | T_BroadcastCmd \<Rightarrow> completes (on_line (mqtt_broadcast_cmd env message))
      | T_BroadcastDelay \<Rightarrow> completes (on_line (mqtt_get_broadcast_delay env message))
      | T_DataTransfer \<Rightarrow> completes (then_cached_readings st (\<lambda>address. mqtt_data_transfer env address message))
      | T_MeteringState \<Rightarrow> completes (mqtt_get_metering_state message)
      | T_IdentifyArea \<Rightarrow> completes (mqtt_identify_area_set message)
      | T_EnableSearchMeter \<Rightarrow> start_search_request st message
      | T_DisableSearchMeter \<Rightarrow> completes (mqtt_stop_slave_node_register message)
      | T_HplcFrequency \<Rightarrow> completes (mqtt_set_hplc_frequency message)
      | T_RefuseSlaveReport \<Rightarrow> completes (mqtt_refuse_slave_report message)
      | T_GetHplcFreq \<Rightarrow> completes (mqtt_get_hplc_freq message)
      | T_GetNetworkSize \<Rightarrow> completes (mqtt_get_network_size message)
      | T_DataInit \<Rightarrow> completes (mqtt_data_init message)
      | T_GetModeInfo \<Rightarrow> completes (mqtt_get_mode_info message)
      | T_GetNodeVersion \<Rightarrow> completes (on_hplc_info (mqtt_node_version_info_request PAGE_ROUNDS env message))
      | T_FileUpgrade \<Rightarrow> start_upgrade_request st now message
      | T_UpgradeState \<Rightarrow> completes (on_file_upgrade (mqtt_file_upgrade_status env message)))"

text \<open>One message of the queue; an error is only logged.\<close>

definition dispatch_request ::
    "('db, 'date) setting \<Rightarrow> moment \<Rightarrow> (string \<Rightarrow> string \<Rightarrow> bool) \<Rightarrow> mqtt_topic_filter list \<Rightarrow> mqtt_message
       \<Rightarrow> ('db, 'date) request_prog" where
  "dispatch_request st now matches filters message =
     (case find_filter matches filters (mm_topic message) of
        None \<Rightarrow> give (Ok None)
      | Some sub_topic \<Rightarrow>
          andDo (catch (handle_request st now (tf_mqtt_topic_type sub_topic) message)) (\<lambda>result.
          give (Ok (case result of Ok task \<Rightarrow> task | _ \<Rightarrow> None))))"

text \<open>What a thread of the pool does.\<close>

definition run_pool_task :: "nat \<Rightarrow> ('db, 'date) setting \<Rightarrow> moment \<Rightarrow> pool_task \<Rightarrow> ('db, 'date, unit) service_prog" where
  "run_pool_task rounds st now task =
     (case task of
        SearchTask message request mqtt report_topic \<Rightarrow>
          on_identify_area (search_task rounds (st_env st) message request mqtt report_topic)
      | UpgradeTask flag \<Rightarrow> on_file_upgrade (upgrade_task rounds (mo_text now) flag))"

section \<open>Facts\<close>

text \<open>MQTT: a plus sign as a whole level of a filter stands for any one level. Topics that begin with a dollar
  sign are left out, as wildcards do not match them.\<close>

fun levels_match :: "string list \<Rightarrow> string list \<Rightarrow> bool" where
  "levels_match [] ts = (ts = [])"
| "levels_match (f # fs) [] = False"
| "levels_match (f # fs) (t # ts) = ((f = ''+'' \<or> f = t) \<and> levels_match fs ts)"

definition plus_matches :: "string \<Rightarrow> string \<Rightarrow> bool" where
  "plus_matches f t = levels_match (split_char CHR ''/'' f) (split_char CHR ''/'' t)"

definition topic_wildcards :: "(string \<Rightarrow> string \<Rightarrow> bool) \<Rightarrow> bool" where
  "topic_wildcards matches \<longleftrightarrow>
     (\<forall>f t. CHR ''#'' \<notin> set f \<longrightarrow> take 1 t \<noteq> ''$'' \<longrightarrow> matches f t = plus_matches f t)"

definition request_of :: "string \<Rightarrow> string \<Rightarrow> string \<Rightarrow> string" where
  "request_of app operator suffix = app @ ''/'' @ operator @ ''/request/'' @ APP_NAME @ ''/'' @ suffix"

definition valid_app :: "string \<Rightarrow> bool" where
  "valid_app app \<longleftrightarrow> CHR ''/'' \<notin> set app \<and> take 1 app \<noteq> ''$''"

definition registrations :: "registration list" where
  "registrations =
     concat [module_info_topics, master_address_topics, node_manage_topics, concurrent_meter_topics, hplc_info_topics,
       debug_method_topics, monitor_node_topics, route_ctrl_topics, broadcast_topics, data_transfer_topics,
       meter_state_topics, identify_area_topics, control_cmd_topics, plc_init_topics, file_upgrade_topics]"

lemmas topics_defs = module_info_topics_def master_address_topics_def node_manage_topics_def concurrent_meter_topics_def
  hplc_info_topics_def debug_method_topics_def monitor_node_topics_def route_ctrl_topics_def broadcast_topics_def
  data_transfer_topics_def meter_state_topics_def identify_area_topics_def control_cmd_topics_def plc_init_topics_def
  file_upgrade_topics_def

definition request_filter :: "(string \<Rightarrow> schema option) \<Rightarrow> registration \<Rightarrow> mqtt_topic_filter" where
  "request_filter parse_schema r =
     (case r of (operator, suffix, ty, schema_file) \<Rightarrow>
        \<lparr>tf_topic = request_topic operator suffix, tf_mqtt_topic_type = ty, tf_schema = parse_schema schema_file\<rparr>)"

lemma register_map: "register_mqtt_request_topics parse rs filters = filters @ map (request_filter parse) rs"
  by (induction parse rs filters rule: register_mqtt_request_topics.induct)
    (simp_all add: add_topic_filter_def request_filter_def)

text \<open>The topic of the device's serial number stands among those of the requests.\<close>

lemma registered_filters_map:
  "\<exists>before after. registrations = before @ after
     \<and> registered_filters parse = map (request_filter parse) before
         @ \<lparr>tf_topic = device_info_topic, tf_mqtt_topic_type = T_DeviceInfo,
             tf_schema = parse ''device_info_schema.json''\<rparr> # map (request_filter parse) after"
  by (rule exI [of _ "concat [module_info_topics, master_address_topics, node_manage_topics, concurrent_meter_topics,
        hplc_info_topics, debug_method_topics]"],
      rule exI [of _ "concat [monitor_node_topics, route_ctrl_topics, broadcast_topics, data_transfer_topics,
        meter_state_topics, identify_area_topics, control_cmd_topics, plc_init_topics, file_upgrade_topics]"])
    (simp add: registrations_def registered_filters_def register_map device_info_init_def add_topic_filter_def Let_def)

definition plain :: "registration \<Rightarrow> bool" where
  "plain r \<longleftrightarrow> (case r of (operator, suffix, _, _) \<Rightarrow>
     list_all (\<lambda>c. c \<noteq> CHR ''/'' \<and> c \<noteq> CHR ''#'' \<and> c \<noteq> CHR ''+'') (operator @ suffix))"

lemma registrations_plain: "list_all plain registrations"
  by (simp add: registrations_def topics_defs plain_def)

lemma registrations_distinct: "distinct (map (\<lambda>(operator, suffix, _). operator @ ''/'' @ suffix) registrations)"
  by (simp add: registrations_def topics_defs)

lemma plain_levels:
  assumes "plain (operator, suffix, ty, file)" and "CHR ''/'' \<notin> set app"
  shows "split_char CHR ''/'' (request_of app operator suffix) = [app, operator, ''request'', APP_NAME, suffix]"
proof -
  have sep: "CHR ''/'' \<notin> set operator" "CHR ''/'' \<notin> set suffix"
    using assms(1) by (auto simp: plain_def list_all_iff)
  have "request_of app operator suffix =
      app @ CHR ''/'' # operator @ CHR ''/'' # ''request'' @ CHR ''/'' # APP_NAME @ CHR ''/'' # suffix"
    by (simp add: request_of_def)
  then show ?thesis
    using assms(2) sep
    by (simp add: split_char_plain [of _ _] split_char_no_sep APP_NAME_def del: append_Cons append_assoc split_char.simps)
qed

lemma request_topic_of: "request_topic = request_of ''+''"
  by (simp add: fun_eq_iff request_topic_def request_of_def)

lemma matches_request:
  assumes "topic_wildcards matches" and "valid_app app"
    and "plain (op1, suffix1, ty1, file1)" and "plain (op2, suffix2, ty2, file2)"
  shows "matches (request_topic op1 suffix1) (request_of app op2 suffix2) \<longleftrightarrow> op1 = op2 \<and> suffix1 = suffix2"
proof -
  have "CHR ''#'' \<notin> set (request_topic op1 suffix1)"
    using assms(3) by (auto simp: request_topic_def plain_def list_all_iff APP_NAME_def)
  moreover have "take 1 (request_of app op2 suffix2) \<noteq> ''$''"
    using assms(2) by (cases app) (auto simp: request_of_def valid_app_def)
  ultimately have "matches (request_topic op1 suffix1) (request_of app op2 suffix2) =
      plus_matches (request_topic op1 suffix1) (request_of app op2 suffix2)"
    using assms(1) unfolding topic_wildcards_def by blast
  moreover have "op1 \<noteq> ''+''" "suffix1 \<noteq> ''+''"
    using assms(3) by (auto simp: plain_def)
  moreover have "CHR ''/'' \<notin> set ''+''" "CHR ''/'' \<notin> set app" using assms(2) by (auto simp: valid_app_def)
  ultimately show ?thesis
    using plain_levels [OF assms(3)] plain_levels [OF assms(4)]
    by (simp add: plus_matches_def request_topic_of del: split_char.simps)
qed

lemma device_info_no_request:
  assumes "topic_wildcards matches" and "valid_app app" and "plain (operator, suffix, ty, file)"
  shows "\<not> matches device_info_topic (request_of app operator suffix)"
proof -
  have "CHR ''#'' \<notin> set device_info_topic" by (simp add: device_info_topic_def APP_NAME_def)
  moreover have "take 1 (request_of app operator suffix) \<noteq> ''$''"
    using assms(2) by (cases app) (auto simp: request_of_def valid_app_def)
  moreover have "\<not> plus_matches device_info_topic (request_of app operator suffix)"
  proof -
    have "split_char CHR ''/'' device_info_topic = [''osmanage'', ''get'', ''response'', APP_NAME, ''deviceInfo'']"
      by (simp add: device_info_topic_def APP_NAME_def)
    with plain_levels [OF assms(3)] assms(2) show ?thesis
      by (simp add: plus_matches_def valid_app_def del: split_char.simps)
  qed
  ultimately show ?thesis using assms(1) unfolding topic_wildcards_def by blast
qed

lemma find_unique:
  assumes "x \<in> set xs" and "P x" and "\<And>y. y \<in> set xs \<Longrightarrow> P y \<Longrightarrow> y = x"
  shows "find P xs = Some x"
proof (cases "find P xs")
  case None
  with assms(1,2) show ?thesis by (simp add: find_None_iff)
next
  case (Some y)
  then have "y \<in> set xs \<and> P y" by (auto simp: find_Some_iff)
  with assms(3) Some show ?thesis by simp
qed

lemma registration_unique:
  assumes "r \<in> set registrations" and "r' \<in> set registrations"
    and "fst r = fst r'" and "fst (snd r) = fst (snd r')"
  shows "r = r'"
proof -
  have "inj_on (\<lambda>(operator, suffix, _). operator @ ''/'' @ suffix) (set registrations)"
    using registrations_distinct by (simp only: distinct_map)
  then show ?thesis by (rule inj_onD) (use assms in \<open>auto split: prod.splits\<close>)
qed

text \<open>Requests whose body is read by \<^verbatim>\<open>unwrap\<close> and whose registered schema file the repository does not have.\<close>

definition unchecked_requests :: "(registration \<times> string) list" where
  "unchecked_requests =
     [((''set'', ''identiAreaCfg'', T_IdentifyArea, ''identify_area_schema.json''), ''switch''),
      ((''set'', ''hplcFreq'', T_HplcFrequency, ''hplc_frequency_schema.json''), ''hplcFreq''),
      ((''set'', ''refuseNodeReportCfg'', T_RefuseSlaveReport, ''refuse_slave_report_schema.json''), ''switch'')]"

lemma unchecked_registered: "(r, key) \<in> set unchecked_requests \<Longrightarrow> r \<in> set registrations"
  by (auto simp: unchecked_requests_def registrations_def identify_area_topics_def control_cmd_topics_def)

lemma json_request_panics:
  assumes "mm_payload m = Some (JObj entries)" and "map_of entries key = None"
  shows "json_request (\<lambda>v. word_field v key) into m w = ([], w, Finished (Panic UnwrapOnErr))"
  by (cases w)
    (simp add: json_request_def counted_def mqtt_request_handler_def assms andDo_def with_statics_def split: prod.splits)

lemma catch_panic: "p w = ([], w, Finished (Panic e)) \<Longrightarrow> andDo (catch p) k w = ([], w, Finished (Panic e))"
  by (simp add: andDo_def catch_def)

lemma unchecked_handler_panics:
  assumes "((operator, suffix, ty, file), key) \<in> set unchecked_requests"
    and "mm_payload m = Some (JObj entries)" and "map_of entries key = None"
  shows "handle_request st now ty m w = ([], w, Finished (Panic UnwrapOnErr))"
  using assms(1,3)
  by (auto simp: unchecked_requests_def handle_request_def completes_def andDo_def mqtt_identify_area_set_def
      mqtt_set_hplc_frequency_def mqtt_refuse_slave_report_def json_request_panics [OF assms(2)])

lemma requests_registered:
  assumes "topic_wildcards matches" and "valid_app app" and r: "(operator, suffix, ty, file) \<in> set registrations"
  shows "find_filter matches (registered_filters parse_schema) (request_of app operator suffix)
    = Some \<lparr>tf_topic = request_topic operator suffix, tf_mqtt_topic_type = ty, tf_schema = parse_schema file\<rparr>"
proof -
  let ?r = "(operator, suffix, ty, file)"
  obtain before after where split: "registrations = before @ after" and filters: "registered_filters parse_schema =
      map (request_filter parse_schema) before @ \<lparr>tf_topic = device_info_topic, tf_mqtt_topic_type = T_DeviceInfo,
        tf_schema = parse_schema ''device_info_schema.json''\<rparr> # map (request_filter parse_schema) after"
    using registered_filters_map by blast
  have plain: "plain r" if "r \<in> set registrations" for r
    using that registrations_plain by (simp add: list_all_iff)
  have only: "f = request_filter parse_schema ?r"
    if "f \<in> set (registered_filters parse_schema)" "matches (tf_topic f) (request_of app operator suffix)" for f
  proof -
    have "tf_topic f \<noteq> device_info_topic"
      using device_info_no_request [OF assms(1,2) plain [OF r]] that(2) by metis
    with that(1) obtain r' where r': "r' \<in> set registrations" "f = request_filter parse_schema r'"
      unfolding filters split by fastforce
    obtain op' suffix' ty' file' where r'_eq: "r' = (op', suffix', ty', file')" by (cases r')
    have "op' = operator \<and> suffix' = suffix"
      using matches_request [OF assms(1,2) plain [OF r'(1) [unfolded r'_eq]] plain [OF r]] that(2) r'(2)
      by (simp add: r'_eq request_filter_def)
    then have "r' = ?r" by (intro registration_unique r'(1) r) (simp_all add: r'_eq)
    with r'(2) show ?thesis by simp
  qed
  have "find_filter matches (registered_filters parse_schema) (request_of app operator suffix)
      = Some (request_filter parse_schema ?r)"
    unfolding find_filter_def
  proof (rule find_unique)
    show "request_filter parse_schema ?r \<in> set (registered_filters parse_schema)"
      using r unfolding filters split by auto
    show "matches (tf_topic (request_filter parse_schema ?r)) (request_of app operator suffix)"
      using matches_request [OF assms(1,2) plain [OF r] plain [OF r]] by (simp add: request_filter_def)
  qed (rule only)
  then show ?thesis by (simp add: request_filter_def)
qed

section \<open>Properties\<close>

text \<open>C23: Every request topic reaches its own service. A request of any application under a registered operator
  and name selects the entry registered for these, with its kind and the schema of its file.\<close>

theorem requests_reach_their_service:
  assumes "topic_wildcards matches" and "valid_app app" and r: "(operator, suffix, ty, file) \<in> set registrations"
  shows "find_filter matches (registered_filters parse_schema) (request_of app operator suffix)
    = Some \<lparr>tf_topic = request_topic operator suffix, tf_mqtt_topic_type = ty, tf_schema = parse_schema file\<rparr>"
  using assms by (rule requests_registered)

theorem requests_reach_their_service_witness:
  "tf_mqtt_topic_type (the (find_filter plus_matches (registered_filters (\<lambda>_. None))
     ''app/set/request/PLCServiceGW/hplcFreq'')) = T_HplcFrequency"
proof -
  let ?r = "(''set'', ''hplcFreq'', T_HplcFrequency, ''hplc_frequency_schema.json'')"
  have "?r \<in> set control_cmd_topics" by (simp add: control_cmd_topics_def)
  then have "?r \<in> set registrations" unfolding registrations_def by simp
  then have "find_filter plus_matches (registered_filters (\<lambda>_. None)) (request_of ''app'' ''set'' ''hplcFreq'')
      = Some \<lparr>tf_topic = request_topic ''set'' ''hplcFreq'', tf_mqtt_topic_type = T_HplcFrequency, tf_schema = None\<rparr>"
    by (intro requests_reach_their_service) (simp_all add: topic_wildcards_def valid_app_def)
  moreover have "request_of ''app'' ''set'' ''hplcFreq'' = ''app/set/request/PLCServiceGW/hplcFreq''"
    by (simp add: request_of_def APP_NAME_def)
  ultimately show ?thesis by simp
qed

text \<open>C37: A request without its field ends the thread of all requests. Where the registered schema file is missing the
  message is not checked but queued, and reading its body panics on the one thread that serves requests.\<close>

theorem unchecked_request_panics:
  assumes "topic_wildcards matches" and "valid_app app"
    and request: "((operator, suffix, ty, file), key) \<in> set unchecked_requests" and "parse_schema file = None"
    and m: "mm_topic m = request_of app operator suffix" "mm_payload m = Some (JObj entries)" "map_of entries key = None"
  shows "(\<exists>pm. receive_message env matches (registered_filters parse_schema) m SEQUENCE queue
        = Ok ([], queue_push queue pm, SEQUENCE + 1) \<and> pm_message pm = m)
    \<and> dispatch_request st now matches (registered_filters parse_schema) m w = ([], w, Finished (Panic UnwrapOnErr))"
proof -
  have found: "find_filter matches (registered_filters parse_schema) (mm_topic m)
    = Some \<lparr>tf_topic = request_topic operator suffix, tf_mqtt_topic_type = ty, tf_schema = None\<rparr>"
    using requests_registered [OF assms(1,2) unchecked_registered [OF request], of parse_schema] assms(4) m(1) by simp
  have "\<exists>pm. receive_message env matches (registered_filters parse_schema) m SEQUENCE queue
      = Ok ([], queue_push queue pm, SEQUENCE + 1) \<and> pm_message pm = m"
    by (simp add: receive_message_def topic_schema_def found priority_message_new_def get_priority_def m(2) Let_def)
      (intro exI conjI, rule refl, simp)
  moreover have "dispatch_request st now matches (registered_filters parse_schema) m w = ([], w, Finished (Panic UnwrapOnErr))"
    by (simp add: dispatch_request_def found catch_panic [OF unchecked_handler_panics [OF request m(2,3)]])
  ultimately show ?thesis by blast
qed

theorem unchecked_request_panics_witness:
  "\<forall>now w. dispatch_request sample_setting now plus_matches (registered_filters (\<lambda>_. None))
     \<lparr>mm_topic = request_of ''app'' ''set'' ''identiAreaCfg'', mm_payload = Some (JObj [(''token'', JStr ''1'')])\<rparr> w
   = ([], w, Finished (Panic UnwrapOnErr))"
  by (intro allI, rule unchecked_request_panics [of plus_matches "''app''" "''set''" "''identiAreaCfg''" T_IdentifyArea
        "''identify_area_schema.json''" "''switch''" "\<lambda>_. None" _ "[(''token'', JStr ''1'')]", THEN conjunct2])
    (simp_all add: topic_wildcards_def valid_app_def unchecked_requests_def)

end
