(* ===== verification/Plc_Device.thy ===== *)
theory Plc_Device
  imports Plc_Init
begin

text \<open>
  src/src/service/plc_device.rs: the thread that powers the module, checks that it is plugged in, and runs its
  initialisation. Its states are \<open>device_state\<close>, one turn of its loop is \<open>device_execute\<close>. The calls to the
  device driver are recorded in \<open>pd_calls\<close>, and what they return is taken in order from \<open>pd_results\<close>; the
  thread waits while there is no result yet, which stands for the sleeps between the calls as well.
\<close>

section \<open>State\<close>

datatype device_state = DeviceInit | CheckMid | DeviceRunning | DeviceDestroy

datatype device_call = OpenPort | PowerWrite int | ResetWrite int | MidRead

record ('db, 'date) plc_device =
  pd_services :: "('db, 'date) module_service"
  pd_results :: "int result list"
  pd_calls :: "device_call list"

type_synonym ('db, 'date, 'a) device_prog = "(('db, 'date) plc_device, 'a) prog"

definition on_services :: "('db, 'date, 'a) service_prog \<Rightarrow> ('db, 'date, 'a) device_prog" where
  "on_services = zoom pd_services (\<lambda>x s. s\<lparr>pd_services := x\<rparr>)"

definition available :: "('db, 'date) module_service \<Rightarrow> bool" where
  "available s \<longleftrightarrow> sv_online s \<and> sv_init_flag s"

section \<open>The driver\<close>

fun take_result :: "('db, 'date) plc_device \<Rightarrow> int result \<times> ('db, 'date) plc_device" where
  "take_result s =
     (case pd_results s of
        [] \<Rightarrow> (Panic UnwrapOnNone, s)
      | r # rs \<Rightarrow> (r, s\<lparr>pd_results := rs\<rparr>))"

definition driver :: "device_call \<Rightarrow> ('db, 'date, int) device_prog" where
  "driver c =
     andDo (change (\<lambda>s. s\<lparr>pd_calls := pd_calls s @ [c]\<rparr>)) (\<lambda>_.
     andDo (wait_while (\<lambda>s. pd_results s = [])) (\<lambda>_. perform take_result))"

definition DEVICE_ON :: int where "DEVICE_ON = 1"
definition DEVICE_OFF :: int where "DEVICE_OFF = 0"

datatype pin_status = PinLow | PinHigh

definition pin_status_try_from :: "int \<Rightarrow> pin_status result" where
  "pin_status_try_from n =
     (if n = 0 then Ok PinLow
      else if n = 1 then Ok PinHigh
      else Err (Message ''No discriminant in enum `PinStatus` matches the value''))"

definition plc_power_on :: "('db, 'date, unit) device_prog" where
  "plc_power_on =
     andDo (driver OpenPort) (\<lambda>_.
     andDo (driver (PowerWrite DEVICE_OFF)) (\<lambda>_.
     andDo (driver (PowerWrite DEVICE_ON)) (\<lambda>_.
     andDo (driver (ResetWrite DEVICE_OFF)) (\<lambda>_.
     andDo (driver (ResetWrite DEVICE_ON)) (\<lambda>_.
     on_services (change (\<lambda>s. s\<lparr>sv_meter_state := reset_module (sv_meter_state s)\<rparr>)))))))"

definition plc_power_off :: "('db, 'date, unit) device_prog" where
  "plc_power_off =
     andDo (driver OpenPort) (\<lambda>_. andDo (driver (PowerWrite DEVICE_OFF)) (\<lambda>_. give (Ok ())))"

definition plc_mid_check :: "('db, 'date, pin_status) device_prog" where
  "plc_mid_check =
     andDo (driver OpenPort) (\<lambda>_. andDo (driver MidRead) (\<lambda>result. give (pin_status_try_from result)))"

definition plc_device_check_status :: "pin_status \<Rightarrow> ('db, 'date, bool) device_prog" where
  "plc_device_check_status status =
     andDo plc_mid_check (\<lambda>first.
     if first = status then andDo plc_mid_check (\<lambda>second. give (Ok (second = status)))
     else give (Ok False))"

definition plc_device_on :: "('db, 'date, bool) device_prog" where
  "plc_device_on = plc_device_check_status PinLow"

section \<open>Running\<close>

definition model_plugin_notify :: "env \<Rightarrow> bool \<Rightarrow> ('s, unit) prog" where
  "model_plugin_notify env online =
     andDo (with_statics (\<lambda>g.
       case mqtt_payload_new_with_status_reason env (TOKEN g) (if online then Success else Failure)
              (if online then ''module plugin'' else ''module pullout'') of
         (payload, n) \<Rightarrow> (mqtt_message_new (APP_NAME @ ''/notify/spont/*/modePlugin'') payload, g\<lparr>TOKEN := n\<rparr>)))
       (\<lambda>m. send [ToMqtt m])"

definition CHECK_TIMES :: nat where "CHECK_TIMES = 600 div (3000 div 1000)"

text \<open>The checks with \<open>n\<close> of them left, the first of which has number \<open>i\<close>.\<close>

primrec check_rounds :: "nat \<Rightarrow> nat \<Rightarrow> ('db, 'date, unit) device_prog" where
  "check_rounds 0 i = give (Ok ())"
| "check_rounds (Suc n) i =
     andDo plc_device_on (\<lambda>on.
     if \<not> on then give (Err (Message ''plc device off''))
     else
       andDo (ask (\<lambda>s. sv_consecutive_timeouts (pd_services s))) (\<lambda>consecutive_timeouts.
       if i mod 20 = 0 \<and> 5 \<le> consecutive_timeouts
       then give (Err (Message ''plc device timeout more than 5 times''))
       else check_rounds n (i + 1)))"

definition plc_device_run :: "('db, 'date) setting \<Rightarrow> ('db, 'date, unit) device_prog" where
  "plc_device_run st =
     andDo (ask (\<lambda>s. sv_init_flag (pd_services s))) (\<lambda>initialized.
     if initialized
     then
       andDo (check_rounds CHECK_TIMES 0) (\<lambda>_.
       andDo (on_services init_get_master_address) (\<lambda>_. give (Ok ())))
     else on_services (plc_init_run st))"

section \<open>The state machine\<close>

definition CHECK_MID_RETRIES :: nat where "CHECK_MID_RETRIES = 3"

primrec check_mid :: "('db, 'date) setting \<Rightarrow> nat \<Rightarrow> ('db, 'date, device_state) device_prog" where
  "check_mid st 0 = give (Ok DeviceDestroy)"
| "check_mid st (Suc n) =
     andDo (catch plc_device_on) (\<lambda>r.
     if r = Ok True
     then
       andDo (on_services (change (\<lambda>s. s\<lparr>sv_online := True\<rparr>))) (\<lambda>_.
       andDo (model_plugin_notify (st_env st) True) (\<lambda>_. give (Ok DeviceRunning)))
     else check_mid st n)"

definition next_on :: "'a result \<Rightarrow> device_state \<Rightarrow> device_state \<Rightarrow> device_state" where
  "next_on r yes no = (if is_ok r then yes else no)"

definition device_execute :: "('db, 'date) setting \<Rightarrow> device_state \<Rightarrow> ('db, 'date, device_state) device_prog" where
  "device_execute st state =
     (case state of
        DeviceInit \<Rightarrow> andDo (catch plc_power_on) (\<lambda>r. give (Ok (next_on r CheckMid DeviceInit)))
      | CheckMid \<Rightarrow> check_mid st CHECK_MID_RETRIES
      | DeviceRunning \<Rightarrow> andDo (catch (plc_device_run st)) (\<lambda>r. give (Ok (next_on r DeviceRunning DeviceDestroy)))
      | DeviceDestroy \<Rightarrow> andDo (catch plc_power_off) (\<lambda>r. give (Ok (next_on r DeviceInit DeviceDestroy))))"

text \<open>\<open>n\<close> turns of the loop of \<^verbatim>\<open>PlcDevice::run\<close>, which begins in \<open>DeviceInit\<close>.\<close>

primrec device_turns :: "('db, 'date) setting \<Rightarrow> nat \<Rightarrow> device_state \<Rightarrow> ('db, 'date, device_state) device_prog" where
  "device_turns st 0 state = give (Ok state)"
| "device_turns st (Suc n) state = andDo (device_execute st state) (device_turns st n)"

section \<open>Facts\<close>

text \<open>The state after some calls, with the results that are left.\<close>

definition called :: "device_call list \<Rightarrow> int result list \<Rightarrow> ('db, 'date) plc_device \<Rightarrow> ('db, 'date) plc_device" where
  "called cs rs s = s\<lparr>pd_results := rs, pd_calls := pd_calls s @ cs\<rparr>"

lemma called_simps [simp]:
  "pd_results (called cs rs s) = rs" "pd_calls (called cs rs s) = pd_calls s @ cs"
  "pd_services (called cs rs s) = pd_services s"
  "called ds qs (called cs rs s) = called (cs @ ds) qs s"
  by (simp_all add: called_def)

lemma called_nothing: "called [] (pd_results s) s = s"
  by (cases s) (simp add: called_def)

lemma andDo_driver:
  assumes "pd_results s = r # rs"
  shows "andDo (driver c) k (s, g) = andDo (give r) k (called [c] rs s, g)"
  using assms by (cases s) (simp add: driver_def andDo_assoc andDo_wait_while called_def)

definition mid_calls :: "device_call list" where "mid_calls = [OpenPort, MidRead]"

lemma andDo_mid_check:
  assumes "pd_results s = Ok fd # Ok pin # rs"
  shows "andDo plc_mid_check k (s, g) = andDo (give (pin_status_try_from pin)) k (called mid_calls rs s, g)"
  by (simp add: plc_mid_check_def andDo_assoc andDo_driver [OF assms] andDo_driver mid_calls_def)

text \<open>The module is there: both readings of the pin are low. It is gone: one of them is high.\<close>

lemma andDo_device_on:
  assumes "pd_results s = Ok fd1 # Ok 0 # Ok fd2 # Ok 0 # rs"
  shows "andDo plc_device_on k (s, g) = k True (called (mid_calls @ mid_calls) rs s, g)"
  by (simp add: plc_device_on_def plc_device_check_status_def andDo_assoc andDo_mid_check [OF assms] andDo_mid_check
      pin_status_try_from_def)

lemma andDo_device_gone:
  assumes "pd_results s = Ok fd # Ok 1 # rs"
  shows "andDo plc_device_on k (s, g) = k False (called mid_calls rs s, g)"
  by (simp add: plc_device_on_def plc_device_check_status_def andDo_assoc andDo_mid_check [OF assms]
      pin_status_try_from_def)

lemma andDo_device_gone_later:
  assumes "pd_results s = Ok fd1 # Ok 0 # Ok fd2 # Ok 1 # rs"
  shows "andDo plc_device_on k (s, g) = k False (called (mid_calls @ mid_calls) rs s, g)"
  by (simp add: plc_device_on_def plc_device_check_status_def andDo_assoc andDo_mid_check [OF assms] andDo_mid_check
      pin_status_try_from_def)

definition checks_passed :: "nat \<Rightarrow> int result list" where
  "checks_passed n = concat (replicate n [Ok 3, Ok 0, Ok 3, Ok 0])"

definition check_calls :: "nat \<Rightarrow> device_call list" where
  "check_calls n = concat (replicate n (mid_calls @ mid_calls))"

lemma check_rounds_pass:
  assumes "pd_results s = checks_passed m @ rs" and "sv_consecutive_timeouts (pd_services s) < 5"
  shows "andDo (check_rounds (m + n) i) k (s, g) = andDo (check_rounds n (i + m)) k (called (check_calls m) rs s, g)"
  using assms
proof (induction m arbitrary: i s)
  case 0
  then have "rs = pd_results s" by (simp add: checks_passed_def)
  then show ?case by (simp add: check_calls_def called_nothing)
next
  case (Suc m)
  let ?s = "called (mid_calls @ mid_calls) (checks_passed m @ rs) s"
  have "pd_results s = Ok 3 # Ok 0 # Ok 3 # Ok 0 # checks_passed m @ rs"
    using Suc.prems(1) by (simp add: checks_passed_def)
  then have "andDo (check_rounds (Suc m + n) i) k (s, g) = andDo (check_rounds (m + n) (i + 1)) k (?s, g)"
    using Suc.prems(2) by (simp add: andDo_assoc andDo_device_on word_le_nat_alt word_less_nat_alt)
  also have "\<dots> = andDo (check_rounds n (i + 1 + m)) k (called (check_calls m) rs ?s, g)"
    by (rule Suc.IH) (use Suc.prems in simp_all)
  finally show ?case by (simp add: check_calls_def)
qed

lemma keeps_driver:
  assumes "\<And>s x. I s \<Longrightarrow> I (s\<lparr>pd_calls := x\<rparr>)" and "\<And>s x. I s \<Longrightarrow> I (s\<lparr>pd_results := x\<rparr>)"
  shows "keeps I (driver c)"
proof -
  have "I s \<Longrightarrow> I (snd (take_result s))" for s using assms(2) by (simp split: list.split)
  then show ?thesis using assms(1) unfolding driver_def by (intro kept)
qed

lemma andDo_finished: "p w = (acts, w', Finished (Ok x)) \<Longrightarrow> andDo p k w = sending acts (k x w')"
  by (simp add: andDo_def)

lemma andDo_catch_finished:
  "p w = (acts, w', Finished (Ok x)) \<Longrightarrow> andDo (catch p) k w = sending acts (k (Ok x) w')"
  "p w = (acts, w', Finished (Err e)) \<Longrightarrow> andDo (catch p) k w = sending acts (k (Err e) w')"
  by (simp_all add: andDo_def catch_def)

definition plugin_message :: "env \<Rightarrow> u64 \<Rightarrow> mqtt_message" where
  "plugin_message env n =
     \<lparr>mm_topic = APP_NAME @ ''/notify/spont/*/modePlugin'', mm_payload = Some (JObj [(''token'', JStr (decimal (unat n))),
       (''timestamp'', JStr (env_now env)), (''status'', JStr ''OK''), (''reason'', JStr ''module plugin'')])\<rparr>"

lemma andDo_plugin_notify:
  "andDo (model_plugin_notify env True) k (s, g) =
     sending [ToMqtt (plugin_message env (TOKEN g))] (k () (s, g\<lparr>TOKEN := TOKEN g + 1\<rparr>))"
  by (simp add: model_plugin_notify_def andDo_assoc mqtt_payload_new_with_status_reason_def mqtt_message_new_def
      mqtt_payload_to_json_def plugin_message_def)

definition power_off_calls :: "device_call list" where
  "power_off_calls = [OpenPort, PowerWrite 0]"

definition power_on_calls :: "device_call list" where
  "power_on_calls = [OpenPort, PowerWrite 0, PowerWrite 1, ResetWrite 0, ResetWrite 1]"

definition with_services ::
    "(('db, 'date) module_service \<Rightarrow> ('db, 'date) module_service) \<Rightarrow> ('db, 'date) plc_device \<Rightarrow> ('db, 'date) plc_device" where
  "with_services f s = s\<lparr>pd_services := f (pd_services s)\<rparr>"

lemma with_services_simps [simp]:
  "pd_results (with_services f s) = pd_results s" "pd_calls (with_services f s) = pd_calls s"
  "pd_services (with_services f s) = f (pd_services s)"
  "called cs rs (with_services f s) = with_services f (called cs rs s)"
  "with_services f (with_services h s) = with_services (f \<circ> h) s"
  by (cases s; simp add: with_services_def called_def)+

interpretation services:
    component "pd_services :: ('db, 'date) plc_device \<Rightarrow> _" "\<lambda>x s. s\<lparr>pd_services := x\<rparr>"
  by unfold_locales simp_all

lemmas services_laws = services.zoom_laws [folded on_services_def]

lemma andDo_on_services_change:
  "andDo (on_services (change f)) k (s, g) = k () (with_services f s, g)"
  by (simp add: services_laws with_services_def)

lemma power_off_turn:
  assumes "pd_results s = Ok a # Ok b # rs"
  shows "plc_power_off (s, g) = ([], (called power_off_calls rs s, g), Finished (Ok ()))"
  by (simp add: plc_power_off_def andDo_driver [OF assms] andDo_driver power_off_calls_def DEVICE_OFF_def give_def)

lemma power_on_turn:
  assumes "pd_results s = Ok a # Ok b # Ok c # Ok d # Ok e # rs"
  shows "plc_power_on (s, g) =
    ([], (with_services (\<lambda>s. s\<lparr>sv_meter_state := reset_module (sv_meter_state s)\<rparr>) (called power_on_calls rs s), g),
     Finished (Ok ()))"
  by (simp add: plc_power_on_def andDo_driver [OF assms] andDo_driver power_on_calls_def DEVICE_OFF_def DEVICE_ON_def
      services_laws change_def with_services_def)

lemma check_mid_passes:
  assumes "pd_results s = checks_passed 1 @ rs"
  shows "device_execute st CheckMid (s, g) =
    ([ToMqtt (plugin_message (st_env st) (TOKEN g))],
     (with_services (\<lambda>s. s\<lparr>sv_online := True\<rparr>) (called (check_calls 1) rs s), g\<lparr>TOKEN := TOKEN g + 1\<rparr>),
     Finished (Ok DeviceRunning))"
proof -
  have pins: "pd_results s = Ok 3 # Ok 0 # Ok 3 # Ok 0 # rs" using assms by (simp add: checks_passed_def)
  have "plc_device_on (s, g) = ([], (called (mid_calls @ mid_calls) rs s, g), Finished (Ok True))"
    by (simp add: plc_device_on_def plc_device_check_status_def andDo_mid_check [OF pins] andDo_mid_check
        pin_status_try_from_def) (simp add: give_def)
  then have on: "andDo (catch plc_device_on) k (s, g) = k (Ok True) (called (mid_calls @ mid_calls) rs s, g)"
    for k :: "bool result \<Rightarrow> ('a, 'b, device_state) device_prog"
    by (simp add: andDo_catch_finished(1))
  obtain n where "CHECK_MID_RETRIES = Suc n" by (cases CHECK_MID_RETRIES) (simp_all add: CHECK_MID_RETRIES_def)
  then have "device_execute st CheckMid = check_mid st (Suc n)" by (simp only: device_execute_def device_state.case)
  then show ?thesis
    by (simp add: on andDo_on_services_change andDo_plugin_notify)
      (simp add: give_def check_calls_def)
qed

section \<open>Properties\<close>

text \<open>C38: A module that is pulled out is noticed at the next check, whether its pin reads high at the first of the two
  readings or at the second: after any number of checks that found it there, the thread leaves its loop without a
  query to the module, its next turn switches the power off, and it starts over.\<close>

theorem unplugged_module_noticed:
  assumes "pd_results s = checks_passed m @ gone @ Ok a # Ok b # rs" and "m < CHECK_TIMES"
    and "gone = [Ok fd, Ok 1] \<and> readings = mid_calls \<or> gone = [Ok fd, Ok 0, Ok fd2, Ok 1] \<and> readings = mid_calls @ mid_calls"
    and "sv_init_flag (pd_services s)" and "sv_consecutive_timeouts (pd_services s) < 5"
  shows "device_execute st DeviceRunning (s, g) =
      ([], (called (check_calls m @ readings) (Ok a # Ok b # rs) s, g), Finished (Ok DeviceDestroy))
    \<and> device_turns st 2 DeviceRunning (s, g) =
      ([], (called (check_calls m @ readings @ power_off_calls) rs s, g), Finished (Ok DeviceInit))"
proof -
  obtain n where n: "CHECK_TIMES = m + Suc n" using assms(2) by (metis less_iff_Suc_add add_Suc_right)
  let ?s = "called (check_calls m) (gone @ Ok a # Ok b # rs) s"
  let ?s1 = "called (check_calls m @ readings) (Ok a # Ok b # rs) s"
  have off: "andDo plc_device_on k (?s, g) = k False (?s1, g)" for k :: "bool \<Rightarrow> ('a, 'b, unit) device_prog"
    using assms(3) andDo_device_gone [of ?s fd "Ok a # Ok b # rs" k g] andDo_device_gone_later [of ?s fd fd2 "Ok a # Ok b # rs" k g]
    by auto
  have "plc_device_run st (s, g) = ([], (?s1, g), Finished (Err (Message ''plc device off'')))"
    using assms(4)
    by (simp add: plc_device_run_def n check_rounds_pass [OF assms(1,5)] off andDo_assoc del: add_Suc_right called_simps(4))
      (simp add: give_def)
  then have first: "device_execute st DeviceRunning (s, g) = ([], (?s1, g), Finished (Ok DeviceDestroy))"
    by (simp add: device_execute_def andDo_catch_finished(2)) (simp add: next_on_def give_def)
  have "plc_power_off (?s1, g) = ([], (called (check_calls m @ readings @ power_off_calls) rs s, g), Finished (Ok ()))"
    using power_off_turn [of ?s1] by simp
  then have "device_execute st DeviceDestroy (?s1, g) =
      ([], (called (check_calls m @ readings @ power_off_calls) rs s, g), Finished (Ok DeviceInit))"
    by (simp add: device_execute_def andDo_catch_finished(1)) (simp add: next_on_def give_def)
  with first show ?thesis
    by (simp add: numeral_2_eq_2 andDo_finished) (simp add: give_def)
qed

text \<open>C39: Timeouts restart the module, and the restarted module is not initialised again: the module that lost its
  node table with its power counts as initialised, so the thread goes on to its checks and sends nothing but the
  notification that a module is plugged in.\<close>

theorem restarted_module_not_initialised:
  assumes "pd_results s = checks_passed 1 @ Ok a # Ok b # Ok c # Ok d # Ok e # Ok f # Ok h # checks_passed 1 @ rs"
    and "sv_init_flag (pd_services s)" and "5 \<le> sv_consecutive_timeouts (pd_services s)"
  shows "device_turns st 4 DeviceRunning (s, g) =
    ([ToMqtt (plugin_message (st_env st) (TOKEN g))],
     (with_services (\<lambda>s. s\<lparr>sv_meter_state := reset_module (sv_meter_state s), sv_online := True\<rparr>)
        (called (check_calls 1 @ power_off_calls @ power_on_calls @ check_calls 1) rs s), g\<lparr>TOKEN := TOKEN g + 1\<rparr>),
     Finished (Ok DeviceRunning))
    \<and> sv_init_flag (pd_services (fst (fst (snd (device_turns st 4 DeviceRunning (s, g))))))"
proof -
  let ?off = "Ok a # Ok b # Ok c # Ok d # Ok e # Ok f # Ok h # checks_passed 1 @ rs"
  let ?on = "Ok c # Ok d # Ok e # Ok f # Ok h # checks_passed 1 @ rs"
  let ?s1 = "called (check_calls 1) ?off s"
  let ?s2 = "called (check_calls 1 @ power_off_calls) ?on s"
  let ?reset = "\<lambda>s. s\<lparr>sv_meter_state := reset_module (sv_meter_state s)\<rparr>"
  let ?s3 = "with_services ?reset (called (check_calls 1 @ power_off_calls @ power_on_calls) (checks_passed 1 @ rs) s)"
  obtain n where times: "CHECK_TIMES = Suc n" by (cases CHECK_TIMES) (simp_all add: CHECK_TIMES_def)
  have first: "pd_results s = Ok 3 # Ok 0 # Ok 3 # Ok 0 # ?off" using assms(1) by (simp add: checks_passed_def)
  have calls: "check_calls (Suc 0) = mid_calls @ mid_calls" by (simp add: check_calls_def)
  have third: "pd_results ?s3 = checks_passed 1 @ rs" by simp
  have "plc_device_run st (s, g) = ([], (?s1, g), Finished (Err (Message ''plc device timeout more than 5 times'')))"
    using assms(2,3)
    by (simp add: plc_device_run_def times andDo_assoc andDo_device_on [OF first] calls) (simp add: give_def)
  then have running: "andDo (device_execute st DeviceRunning) (device_turns st n) (s, g) = device_turns st n DeviceDestroy (?s1, g)" for n
    by (simp add: device_execute_def andDo_assoc andDo_catch_finished(2)) (simp add: next_on_def)
  have "plc_power_off (?s1, g) = ([], (?s2, g), Finished (Ok ()))"
    using power_off_turn [of ?s1] by simp
  then have destroy: "andDo (device_execute st DeviceDestroy) (device_turns st n) (?s1, g) = device_turns st n DeviceInit (?s2, g)" for n
    by (simp add: device_execute_def andDo_assoc andDo_catch_finished(1)) (simp add: next_on_def)
  have "plc_power_on (?s2, g) = ([], (?s3, g), Finished (Ok ()))"
    using power_on_turn [of ?s2] by simp
  then have init: "andDo (device_execute st DeviceInit) (device_turns st n) (?s2, g) = device_turns st n CheckMid (?s3, g)" for n
    by (simp add: device_execute_def andDo_assoc andDo_catch_finished(1)) (simp add: next_on_def)
  have turns: "device_turns st 4 DeviceRunning (s, g) = device_turns st 1 CheckMid (?s3, g)"
    using running [of 3] destroy [of 2] init [of 1] by (simp add: eval_nat_numeral)
  show ?thesis
    unfolding turns using check_mid_passes [OF third, of st g] assms(2)
    by (simp add: andDo_finished comp_def) (simp add: give_def comp_def)
qed

text \<open>A device whose module counts as initialised.\<close>

definition initialised_device :: "u8 \<Rightarrow> int result list \<Rightarrow> (unit, unit) plc_device" where
  "initialised_device timeouts results =
     \<lparr>pd_services = (module_service_new () ''now'')\<lparr>sv_init_flag := True, sv_online := True,
        sv_consecutive_timeouts := timeouts\<rparr>, pd_results = results, pd_calls = []\<rparr>"

theorem unplugged_module_noticed_witness:
  "\<forall>g. device_turns sample_setting 2 DeviceRunning
      (initialised_device 0 (checks_passed 1 @ [Ok 3, Ok 0, Ok 3, Ok 1] @ [Ok 3, Ok 0]), g) =
    ([], (called (check_calls 1 @ (mid_calls @ mid_calls) @ power_off_calls) []
        (initialised_device 0 (checks_passed 1 @ [Ok 3, Ok 0, Ok 3, Ok 1] @ [Ok 3, Ok 0])), g), Finished (Ok DeviceInit))"
proof
  fix g
  let ?s = "initialised_device 0 (checks_passed 1 @ [Ok 3, Ok 0, Ok 3, Ok 1] @ [Ok 3, Ok 0])"
  have "pd_results ?s = checks_passed 1 @ [Ok 3, Ok 0, Ok 3, Ok 1] @ Ok 3 # Ok 0 # []" "1 < CHECK_TIMES"
    "sv_init_flag (pd_services ?s)" "sv_consecutive_timeouts (pd_services ?s) < 5"
    by (simp_all add: initialised_device_def CHECK_TIMES_def)
  from unplugged_module_noticed [OF this(1,2) disjI2 [OF conjI [OF refl refl]] this(3,4), THEN conjunct2]
  show "device_turns sample_setting 2 DeviceRunning (?s, g) =
    ([], (called (check_calls 1 @ (mid_calls @ mid_calls) @ power_off_calls) [] ?s, g), Finished (Ok DeviceInit))" .
qed

theorem restarted_module_not_initialised_witness:
  "\<forall>g. \<exists>acts w. device_turns sample_setting 4 DeviceRunning
      (initialised_device 5 (checks_passed 1 @ replicate 7 (Ok 3) @ checks_passed 1), g) = (acts, w, Finished (Ok DeviceRunning))
    \<and> length acts = 1"
proof
  fix g
  let ?s = "initialised_device 5 (checks_passed 1 @ replicate 7 (Ok 3) @ checks_passed 1)"
  have "pd_results ?s = checks_passed 1 @ Ok 3 # Ok 3 # Ok 3 # Ok 3 # Ok 3 # Ok 3 # Ok 3 # checks_passed 1 @ []"
    by (simp add: initialised_device_def eval_nat_numeral)
  from restarted_module_not_initialised [OF this, of sample_setting g] show "\<exists>acts w. device_turns sample_setting 4 DeviceRunning (?s, g) = (acts, w, Finished (Ok DeviceRunning)) \<and> length acts = 1"
    by (simp add: initialised_device_def)
qed

end
