(* ===== verification/Interleaving.thy ===== *)
theory Interleaving
  imports Kept
begin

text \<open>
  Threads on one state. \<open>interleaves P w0 w ts\<close> says that from \<open>w0\<close> programs of \<open>P\<close> were started, any number
  of times and at any moments, and that the state is \<open>w\<close> now and the threads \<open>ts\<close> have come as far as they
  are; between two waits a thread runs alone, as it holds the lock of what it works on. What every program
  keeps holds in each such state (\<open>interleaves_kept\<close>).
\<close>

inductive interleaves ::
    "('s, 'a) prog set \<Rightarrow> 's \<times> statics \<Rightarrow> 's \<times> statics \<Rightarrow> ('s, 'a) run list \<Rightarrow> bool" for P w0 where
  idle: "interleaves P w0 w0 []"
| spawn: "\<lbrakk>interleaves P w0 w ts; p \<in> P; p w = (acts, w', r)\<rbrakk> \<Longrightarrow> interleaves P w0 w' (r # ts)"
| resume: "\<lbrakk>interleaves P w0 (s, g) (before @ Waiting f # after); f (late, s, g) = Some (acts, w', r)\<rbrakk>
    \<Longrightarrow> interleaves P w0 w' (before @ r # after)"

lemma interleaves_kept:
  assumes "interleaves P w0 w ts" and "\<And>p. p \<in> P \<Longrightarrow> keeps I p" and "I (fst w0)"
  shows "I (fst w) \<and> (\<forall>t \<in> set ts. keeps_run I t)"
  using assms(1)
proof (induction rule: interleaves.induct)
  case idle
  with assms(3) show ?case by simp
next
  case (spawn w ts p acts w' r)
  from keepsD [OF assms(2) [OF spawn.hyps(2)], of w] spawn show ?case
    by (simp add: keeps_turn_def)
next
  case (resume s g before f after late acts w' r)
  from resume.IH have "I s" "keeps_run I (Waiting f)" by simp_all
  with resume.hyps(2) have "keeps_turn I (acts, w', r)" unfolding keeps_run_Waiting by blast
  with resume.IH show ?case by (auto simp: keeps_turn_def)
qed

section \<open>What a thread learns of the state\<close>

text \<open>A program that goes on by what the invariant says of the state.\<close>

lemma keeps_ask:
  assumes "\<And>s. I s \<Longrightarrow> keeps I (k (f s))"
  shows "keeps I (andDo (ask f) k)"
  using assms by (auto simp: keeps_def)

lemma keeps_wait_forever:
  assumes "\<And>s. I s \<Longrightarrow> c s"
  shows "keeps I (andDo (wait_while c) k)"
  using assms by (auto simp: keeps_def andDo_wait_while keeps_run_Waiting)

lemma keeps_times_out:
  assumes "\<And>s. I s \<Longrightarrow> c s" and "keeps I (k True)"
  shows "keeps I (andDo (wait_timeout_while c) k)"
proof -
  have "keeps_turn I t" if "I s" "k True (s, g) = t" for s g t
    using that keepsD [OF assms(2), of "(s, g)"] by simp
  then show ?thesis
    using assms(1) by (auto simp: keeps_def andDo_wait_timeout_while keeps_run_Waiting split: if_splits simp del: keeps_turn_simps(1))
      (simp add: keeps_run_Waiting)
qed

lemma keeps_case_result [kept]:
  assumes "\<And>x. keeps I (f x)" and "\<And>e. keeps I (g e)" and "\<And>p. keeps I (h p)"
  shows "keeps I (case r of Ok x \<Rightarrow> f x | Err e \<Rightarrow> g e | Panic p \<Rightarrow> h p)"
  using assms by (simp split: outcome.split)

lemma keeps_case_option [kept]:
  assumes "keeps I p" and "\<And>x. keeps I (f x)"
  shows "keeps I (case r of None \<Rightarrow> p | Some x \<Rightarrow> f x)"
  using assms by (simp split: option.split)

lemma keeps_case_prod [kept]: "(\<And>x y. keeps I (f x y)) \<Longrightarrow> keeps I (case p of (x, y) \<Rightarrow> f x y)"
  by (simp split: prod.split)

end
