(* ===== verification/Plc_Service.thy ===== *)
theory Plc_Service
  imports Uart_Dispatch Mqtt_Dispatch Plc_Device Interleaving
begin

text \<open>
  The service as a whole, as \<^verbatim>\<open>PlcService::run\<close> of src/src/lib.rs starts it: \<open>service_programs\<close> is everything
  that can run on the shared state, and \<open>interleaves\<close> says which states and threads that leads to.
\<close>

section \<open>What the handlers leave alone\<close>

definition flags :: "('db, 'date) module_service \<Rightarrow> string \<times> bool \<times> bool" where
  "flags s = (sv_esn s, sv_online s, sv_init_flag s)"

lemma flags_simps [simp]:
  "flags (s\<lparr>sv_master_address := x1\<rparr>) = flags s" "flags (s\<lparr>sv_node_manage := x2\<rparr>) = flags s"
  "flags (s\<lparr>sv_meter_cache := x3\<rparr>) = flags s" "flags (s\<lparr>sv_line := x4\<rparr>) = flags s"
  "flags (s\<lparr>sv_meter_state := x5\<rparr>) = flags s" "flags (s\<lparr>sv_identify_area := x6\<rparr>) = flags s"
  "flags (s\<lparr>sv_hplc_info := x7\<rparr>) = flags s" "flags (s\<lparr>sv_file_upgrade := x8\<rparr>) = flags s"
  "flags (s\<lparr>sv_MODULE_INFO := x9\<rparr>) = flags s" "flags (s\<lparr>sv_init_event := x10\<rparr>) = flags s"
  "flags (s\<lparr>sv_consecutive_timeouts := x11\<rparr>) = flags s" "flags (s\<lparr>sv_esn := x12\<rparr>) = (x12, snd (flags s))"
  by (simp_all add: flags_def)

lemma flags_events [simp]:
  "flags (notify_event e s) = flags s" "flags (init_notify r s) = flags s" "flags (init_update_address a s) = flags s"
  "flags (notify_timeout s) = flags s"
  by (simp_all add: notify_event_def init_notify_def init_update_address_def notify_timeout_def)

named_theorems flags_kept \<open>what keeps the flags\<close>

lemma flags_on [flags_kept]:
  "keeps (\<lambda>s. J (flags s)) (on_node_manage p1)" "keeps (\<lambda>s. J (flags s)) (on_line p2)"
  "keeps (\<lambda>s. J (flags s)) (on_identify_area p3)" "keeps (\<lambda>s. J (flags s)) (on_hplc_info p4)"
  "keeps (\<lambda>s. J (flags s)) (on_file_upgrade p5)" "keeps (\<lambda>s. J (flags s)) (on_meter p6)"
  by (intro kept; simp)+

lemma flags_uart_reports [flags_kept]:
  "keeps (\<lambda>s. J (flags s)) (uart_slave_report_handler st now m)"
  unfolding uart_slave_report_handler_def uart_route_data_read_handler_def uart_active_report_handler_def
    module_info_reported_def uart_slave_node_event_report_def
  by (auto intro!: kept flags_kept split: afn.split outcome.split active_report.split)

lemma flags_uart_mqtt [flags_kept]: "keeps (\<lambda>s. J (flags s)) (uart_mqtt_handler st now m)"
  unfolding uart_mqtt_handler_def uart_init_operation_handler_def uart_data_init_response_def uart_data_forward_handler_def
    uart_ctrl_cmd_handler_def uart_query_data_handler_def uart_route_set_handler_def uart_route_query_handler_def
    uart_route_ctrl_handler_def operate_metering_answered_def uart_route_data_forward_handler_def
    uart_file_transfer_handler_def uart_read_meter_handler_def uart_test_handler_def message_received_def
  by (auto intro!: kept flags_kept split: afn.split query_data.split ctrl_cmd.split route_set.split route_query.split)

lemma flags_uart_init [flags_kept]: "keeps (\<lambda>s. J (flags s)) (uart_init_handler st now m)"
  unfolding uart_init_handler_def init_query_data_def notify_result_def init_route_get_def operate_metering_answered_def
    uart_route_data_forward_handler_def message_received_def
  by (auto intro!: kept flags_kept split: afn.split outcome.split)

lemma flags_uart_handlers [flags_kept]:
  "keeps (\<lambda>s. J (flags s)) (uart_msg_handler st now m)" "keeps (\<lambda>s. J (flags s)) (handle_timeout st req)"
  unfolding uart_msg_handler_def handle_timeout_def handle_concurrent_read_meter_timeout_def handle_route_set_timeout_def
    handle_route_data_forward_timeout_def handle_data_forward_timeout_def handle_route_data_read_timeout_def
    handle_route_get_timeout_def handle_file_transfer_timeout_def default_timeout_handler_def mqtt_timeout_cb_def
  by (auto intro!: kept flags_kept split: frame_key.split afn.split option.split)

lemma flags_pool [flags_kept]: "keeps (\<lambda>s. J (flags s)) (run_pool_task rounds st now task)"
  unfolding run_pool_task_def by (auto intro!: flags_kept split: pool_task.split)

lemma keeps_change_esn: "keeps (\<lambda>s. J (sv_online s, sv_init_flag s)) (on_esn p)"
  by (intro kept; simp)

text \<open>A request changes at most the serial number.\<close>

lemma requests_keep_flags [flags_kept]: "keeps (\<lambda>s. J (sv_online s, sv_init_flag s)) (dispatch_request st now matches filters m)"
proof -
  have eq: "(\<lambda>s. J (sv_online s, sv_init_flag s)) = (\<lambda>s. (J \<circ> snd) (flags s))" by (simp add: flags_def fun_eq_iff)
  note leave = flags_kept [where J = "J \<circ> snd", folded eq]
  have "keeps (\<lambda>s. J (sv_online s, sv_init_flag s)) (handle_request st now ty m)" for ty
    unfolding handle_request_def completes_def then_cached_readings_def set_device_esn_def concurrent_request_def
      start_search_request_def start_upgrade_request_def Let_def mqtt_get_module_info_def mqtt_get_master_id_info_def mqtt_get_address_def
      mqtt_set_address_def mqtt_get_chip_info_def mqtt_get_node_line_info_def mqtt_get_id_info_def
      mqtt_get_slave_module_id_info_def mqtt_get_multiple_net_info_def mqtt_debug_frame_request_def mqtt_get_metering_state_def
      mqtt_identify_area_set_def mqtt_stop_slave_node_register_def mqtt_set_hplc_frequency_def mqtt_refuse_slave_report_def
      mqtt_get_hplc_freq_def mqtt_get_network_size_def mqtt_data_init_def mqtt_get_mode_info_def
    by (cases ty) (auto intro!: kept leave keeps_change_esn)
  then show ?thesis unfolding dispatch_request_def by (auto intro!: kept split: option.split)
qed

section \<open>The device thread\<close>

lemma keeps_on_services:
  assumes "keeps J p" and "\<And>s. I s \<longleftrightarrow> J (pd_services s) \<and> K (pd_calls s)"
  shows "keeps I (on_services p)"
  unfolding on_services_def by (rule services.keeps_inside [OF assms(1)]) (use assms(2) in auto)

lemma keeps_device_reading:
  assumes "\<And>s x. I s \<Longrightarrow> I (s\<lparr>pd_calls := x\<rparr>)" and "\<And>s x. I s \<Longrightarrow> I (s\<lparr>pd_results := x\<rparr>)"
  shows "keeps I plc_device_on" "keeps I plc_power_off"
  unfolding plc_device_on_def plc_device_check_status_def plc_mid_check_def plc_power_off_def
  using keeps_driver [OF assms] by (auto intro!: kept)

lemma keeps_get_master_address:
  assumes "\<And>s e. I s \<Longrightarrow> I (s\<lparr>sv_init_event := e\<rparr>)"
  shows "keeps I init_get_master_address"
proof -
  have "keeps I (get_address_attempts n)" for n
    by (induction n) (auto intro!: kept keeps_plc_init assms simp: get_module_info_def)
  then show ?thesis by (simp add: init_get_master_address_def)
qed

text \<open>Once the module counts as available it does so for good, whatever the device thread finds.\<close>

lemma available_kept:
  "keeps (\<lambda>d. available (pd_services d)) (on_services p1)" if "keeps available p1"
  by (rule keeps_on_services [OF that, where K = "\<lambda>_. True"]) simp

lemma available_init: "available s \<Longrightarrow> sv_init_flag s"
  by (simp add: available_def)

lemma available_updates [simp]:
  "available s \<Longrightarrow> available (s\<lparr>sv_online := True\<rparr>)" "available (s\<lparr>sv_meter_state := x\<rparr>) = available s"
  "available (s\<lparr>sv_init_event := e\<rparr>) = available s"
  by (simp_all add: available_def)

lemma available_device:
  "keeps (\<lambda>d. available (pd_services d)) (device_turns st n state)"
proof -
  note reading = keeps_device_reading [where I = "\<lambda>d. available (pd_services d)"]
    keeps_driver [where I = "\<lambda>d. available (pd_services d)"]
  have check: "keeps (\<lambda>d. available (pd_services d)) (check_rounds n i)" for n i
    by (induction n arbitrary: i) (auto intro!: kept reading)
  have address: "keeps available init_get_master_address"
    by (rule keeps_get_master_address) simp
  have run: "keeps (\<lambda>d. available (pd_services d)) (plc_device_run st)"
    unfolding plc_device_run_def
    by (rule keeps_ask) (auto intro!: kept check available_kept address dest: available_init)
  have mid: "keeps (\<lambda>d. available (pd_services d)) (check_mid st n)" for n
    by (induction n) (auto intro!: kept reading available_kept simp: model_plugin_notify_def)
  have "keeps (\<lambda>d. available (pd_services d)) (device_execute st state)" for state
    unfolding device_execute_def plc_power_on_def
    by (cases state) (auto intro!: kept reading run mid available_kept)
  then show ?thesis by (induction n arbitrary: state) (auto intro!: kept)
qed

section \<open>The service\<close>

text \<open>The device with all services, the channel from the MQTT client to the thread that queues its messages, and the
  queue with its counter.\<close>

record ('db, 'date) plc_service =
  ps_device :: "('db, 'date) plc_device"
  ps_channel :: "mqtt_message list"
  ps_queue :: "priority_message list"
  ps_SEQUENCE :: u64

type_synonym ('db, 'date) plc_prog = "(('db, 'date) plc_service, unit) prog"

record ('db, 'date) service_setting =
  ss_setting :: "('db, 'date) setting"
  ss_matches :: "string \<Rightarrow> string \<Rightarrow> bool"
  ss_parse_schema :: "string \<Rightarrow> schema option"

definition on_device :: "(('db, 'date) plc_device, 'a) prog \<Rightarrow> (('db, 'date) plc_service, 'a) prog" where
  "on_device = zoom ps_device (\<lambda>x s. s\<lparr>ps_device := x\<rparr>)"

definition plc_service_new :: "'db \<Rightarrow> string \<Rightarrow> ('db, 'date) plc_service" where
  "plc_service_new d now =
     \<lparr>ps_device = \<lparr>pd_services = module_service_new d now, pd_results = [], pd_calls = []\<rparr>,
      ps_channel = [], ps_queue = [], ps_SEQUENCE = 0\<rparr>"

text \<open>The client's thread on one message: \<^verbatim>\<open>Handler::mqtt_msg_handler\<close> passes it on or answers it.\<close>

definition client_receives :: "env \<Rightarrow> mqtt_message \<Rightarrow> ('db, 'date) plc_prog" where
  "client_receives env m =
     andDo (ask (\<lambda>s. available (pd_services (ps_device s)))) (\<lambda>is_available.
     case mqtt_msg_handler env is_available m of
       (response, passed) \<Rightarrow>
         andDo (change (\<lambda>s. s\<lparr>ps_channel := ps_channel s @ passed\<rparr>)) (\<lambda>_.
         andDo (give response) (\<lambda>reply. send (case reply of None \<Rightarrow> [] | Some r \<Rightarrow> [ToMqtt r]))))"

text \<open>One turn of \<^verbatim>\<open>msg_handle\<close>, and one of \<^verbatim>\<open>handle\<close>, which passes a task on to the pool.\<close>

definition queue_turn :: "('db, 'date) service_setting \<Rightarrow> ('db, 'date) plc_prog" where
  "queue_turn ss =
     andDo (wait_while (\<lambda>s. ps_channel s = [])) (\<lambda>_.
     andDo (ask (\<lambda>s. (hd (ps_channel s), ps_SEQUENCE s, ps_queue s))) (\<lambda>(m, SEQUENCE, queue).
     andDo (change (\<lambda>s. s\<lparr>ps_channel := tl (ps_channel s)\<rparr>)) (\<lambda>_.
     andDo (give (receive_message (st_env (ss_setting ss)) (ss_matches ss) (registered_filters (ss_parse_schema ss)) m
                    SEQUENCE queue)) (\<lambda>(acts, queue', SEQUENCE').
     andDo (change (\<lambda>s. s\<lparr>ps_queue := queue', ps_SEQUENCE := SEQUENCE'\<rparr>)) (\<lambda>_. send acts)))))"

definition request_turn :: "('db, 'date) service_setting \<Rightarrow> moment \<Rightarrow> nat \<Rightarrow> ('db, 'date) plc_prog" where
  "request_turn ss now rounds =
     andDo (wait_while (\<lambda>s. ps_queue s = [])) (\<lambda>_.
     andDo (ask (\<lambda>s. queue_pop (ps_queue s))) (\<lambda>popped.
     andDo (give (unwrap_option popped)) (\<lambda>(message, queue).
     andDo (change (\<lambda>s. s\<lparr>ps_queue := queue\<rparr>)) (\<lambda>_.
     andDo (on_device (on_services (dispatch_request (ss_setting ss) now (ss_matches ss)
              (registered_filters (ss_parse_schema ss)) (pm_message message)))) (\<lambda>task.
     case task of
       None \<Rightarrow> give (Ok ())
     | Some t \<Rightarrow> on_device (on_services (run_pool_task rounds (ss_setting ss) now t)))))))"

text \<open>\<^verbatim>\<open>PlcService::run\<close> after its threads are started: the serial number, the address, then the device thread,
  of which \<open>n\<close> turns are looked at.\<close>

definition service_start :: "('db, 'date) setting \<Rightarrow> nat \<Rightarrow> ('db, 'date) plc_prog" where
  "service_start st n =
     andDo (on_device (on_services (on_esn (device_info_run (st_env st))))) (\<lambda>_.
     andDo (on_device (on_services (ask sv_esn))) (\<lambda>esn.
     andDo (give (update_address (st_env st) esn)) (\<lambda>address.
     andDo (on_device (on_services (change (\<lambda>s. s\<lparr>sv_master_address := address\<rparr>)))) (\<lambda>_.
     andDo (on_device (device_turns st n DeviceInit)) (\<lambda>_. give (Ok ()))))))"

text \<open>Everything that runs: the client's thread, the two threads of the queue (with the pool), the serial agent's
  threads with their counter, the timers, and the start.\<close>

inductive_set service_programs :: "('db, 'date) service_setting \<Rightarrow> (('db, 'date) plc_service, unit) prog set" for ss where
  client: "client_receives (st_env (ss_setting ss)) m \<in> service_programs ss"
| queue: "queue_turn ss \<in> service_programs ss"
| request: "request_turn ss now rounds \<in> service_programs ss"
| answer: "on_device (on_services (uart_msg_handler (ss_setting ss) now um)) \<in> service_programs ss"
| timeout: "on_device (on_services (handle_timeout (ss_setting ss) req)) \<in> service_programs ss"
| timeouts: "on_device (on_services (change (\<lambda>s. s\<lparr>sv_consecutive_timeouts := n\<rparr>))) \<in> service_programs ss"
| resume: "on_device (on_services (on_line (on_route_ctrl (resume_timer_callback i)))) \<in> service_programs ss"
| aging: "on_device (on_services (on_meter (\<lambda>m. (Ok (), [], aging_queue (st_meter_reading (ss_setting ss)) t m))))
    \<in> service_programs ss"
| start: "service_start (ss_setting ss) turns \<in> service_programs ss"

section \<open>Facts\<close>

interpretation device:
    component "ps_device :: ('db, 'date) plc_service \<Rightarrow> _" "\<lambda>x s. s\<lparr>ps_device := x\<rparr>"
  by unfold_locales simp_all

lemmas start_laws = esn.zoom_laws [folded on_esn_def] services.zoom_laws [folded on_services_def]
  device.zoom_laws [folded on_device_def]

lemma keeps_on_device:
  assumes "keeps J p" and "\<And>s. I s \<longleftrightarrow> J (ps_device s) \<and> K (ps_channel s) (ps_queue s)"
  shows "keeps I (on_device p)"
  unfolding on_device_def by (rule device.keeps_inside [OF assms(1)]) (use assms(2) in auto)

text \<open>Programs that work on the services alone, for an invariant of which these are one part.\<close>

lemma keeps_deep:
  assumes "keeps (\<lambda>s. J (flags s)) p"
    and "\<And>s. I s \<longleftrightarrow> J (flags (pd_services (ps_device s))) \<and> K (pd_calls (ps_device s)) \<and> L (ps_channel s) (ps_queue s)"
  shows "keeps I (on_device (on_services p))"
  by (rule keeps_on_device [OF keeps_on_services [OF assms(1), where K = K], where K = L]) (use assms(2) in auto)

lemma available_flags: "available s \<longleftrightarrow> (\<lambda>(_, online, init). online \<and> init) (flags s)"
  by (simp add: available_def flags_def)

lemma keeps_available_deep:
  assumes "keeps (\<lambda>s. (\<lambda>(_, online, init). online \<and> init) (flags s)) p"
  shows "keeps (\<lambda>s. available (pd_services (ps_device s))) (on_device (on_services p))"
  by (rule keeps_deep [OF assms, where K = "\<lambda>_. True" and L = "\<lambda>_ _. True"]) (simp add: available_flags)

lemma available_start: "keeps (\<lambda>s. available (pd_services (ps_device s))) (service_start st n)"
proof -
  have "keeps (\<lambda>s. available (pd_services (ps_device s))) (on_device (device_turns st n DeviceInit))"
    by (rule keeps_on_device [OF available_device, where K = "\<lambda>_ _. True"]) simp
  moreover have "keeps (\<lambda>s. (\<lambda>(_, online, init). online \<and> init) (flags s)) (on_esn p)" for p
    using keeps_change_esn [of "\<lambda>(online, init). online \<and> init" p] by (simp add: flags_def)
  ultimately show ?thesis
    unfolding service_start_def by (auto intro!: kept keeps_available_deep)
qed

lemma available_programs:
  assumes "p \<in> service_programs ss"
  shows "keeps (\<lambda>s. available (pd_services (ps_device s))) p"
  using assms
proof cases
  case (client m)
  then show ?thesis unfolding client_receives_def by (auto intro!: kept split: prod.split)
next
  case queue
  then show ?thesis unfolding queue_turn_def by (auto intro!: kept split: prod.split)
next
  case (request now rounds)
  have "keeps (\<lambda>s. (\<lambda>(_, online, init). online \<and> init) (flags s)) (dispatch_request st now matches filters m)"
    for st :: "('a, 'b) setting" and now matches filters m
    using requests_keep_flags [of "\<lambda>(online, init). online \<and> init" st now matches filters m] by (simp add: flags_def)
  with request show ?thesis
    unfolding request_turn_def by (auto intro!: kept keeps_available_deep flags_kept)
next
  case (start n)
  then show ?thesis by (simp add: available_start)
qed (auto intro!: keeps_available_deep kept flags_kept)

text \<open>Before the start: no serial number, the module never touched, and no message passed on.\<close>

definition asleep :: "('db, 'date) plc_service \<Rightarrow> bool" where
  "asleep s \<longleftrightarrow> sv_esn (pd_services (ps_device s)) = [] \<and> \<not> sv_online (pd_services (ps_device s))
     \<and> pd_calls (ps_device s) = [] \<and> ps_channel s = [] \<and> ps_queue s = []"

lemma asleep_deep:
  assumes "keeps (\<lambda>s. (\<lambda>(esn, online, _). esn = [] \<and> \<not> online) (flags s)) p"
  shows "keeps asleep (on_device (on_services p))"
  by (rule keeps_deep [OF assms, where K = "\<lambda>c. c = []" and L = "\<lambda>c q. c = [] \<and> q = []"])
    (auto simp: asleep_def flags_def)

lemma asleep_device_info: "keeps asleep (andDo (on_device (on_services (on_esn (device_info_loop env n)))) k)"
proof (induction n)
  case (Suc n)
  show ?case
    unfolding device_info_loop.simps device_info_message_def own_message_def start_laws andDo_assoc
    by (rule keeps_andDo [OF keeps_simple(4)], rule keeps_andDo [OF keeps_simple(2)], rule keeps_times_out)
      (use Suc in \<open>simp_all add: asleep_def\<close>)
qed (simp add: start_laws keeps_simple)

lemma asleep_programs:
  assumes "p \<in> service_programs ss"
  shows "keeps asleep p"
  using assms
proof cases
  case (client m)
  have "keeps asleep (client_receives (st_env (ss_setting ss)) m)"
    unfolding client_receives_def
    by (rule keeps_ask) (auto intro!: kept simp: asleep_def available_def mqtt_msg_handler_def)
  with client show ?thesis by simp
next
  case queue
  have "keeps asleep (queue_turn ss)"
    unfolding queue_turn_def by (rule keeps_wait_forever) (simp add: asleep_def)
  with queue show ?thesis by simp
next
  case (request now rounds)
  have "keeps asleep (request_turn ss now rounds)"
    unfolding request_turn_def by (rule keeps_wait_forever) (simp add: asleep_def)
  with request show ?thesis by simp
next
  case (start n)
  then show ?thesis by (simp add: service_start_def device_info_run_def asleep_device_info)
qed (auto intro!: asleep_deep kept flags_kept)

lemma wakes_sending: "(wake late ^^ n) (sending acts t) = sending acts ((wake late ^^ n) t)"
  by (induction n) (simp_all add: wake_sending)

text \<open>The query for the serial number, and the start when no answer is accepted.\<close>

definition serial_query :: "env \<Rightarrow> u64 \<Rightarrow> action" where
  "serial_query env n =
     ToMqtt \<lparr>mm_topic = APP_NAME @ ''/get/request/osmanage/deviceInfo'', mm_payload = Some (JObj [(''token'', JStr (decimal (unat n))),
       (''timestamp'', JStr (env_now env)), (''body'', JArr [])])\<rparr>"

lemma start_attempt:
  assumes "sv_esn (pd_services (ps_device s)) = []"
  shows "wake True (andDo (on_device (on_services (on_esn (device_info_loop env (Suc n))))) k (s, g)) =
    sending [serial_query env (TOKEN g)]
      (andDo (on_device (on_services (on_esn (device_info_loop env n)))) k (s, g\<lparr>TOKEN := TOKEN g + 1\<rparr>))"
  using assms
  unfolding device_info_loop.simps device_info_message_def own_message_def start_laws andDo_assoc
  by (simp add: andDo_wait_timeout_while mqtt_payload_new_with_body_def mqtt_message_new_def mqtt_payload_to_json_def serial_query_def wake_sending
      split: prod.split)

primrec serial_queries :: "env \<Rightarrow> nat \<Rightarrow> u64 \<Rightarrow> action list" where
  "serial_queries env 0 token = []"
| "serial_queries env (Suc n) token = serial_query env token # serial_queries env n (token + 1)"

lemma start_attempts:
  assumes "sv_esn (pd_services (ps_device s)) = []"
  shows "(wake True ^^ n) (andDo (on_device (on_services (on_esn (device_info_loop env n)))) k (s, g)) =
    (serial_queries env n (TOKEN g), (s, g\<lparr>TOKEN := TOKEN g + of_nat n\<rparr>),
     Finished (Err (Message ''get device info failed'')))"
proof (induction n arbitrary: g)
  case 0
  show ?case by (simp add: start_laws) (simp add: give_def)
next
  case (Suc n)
  show ?case
    unfolding funpow_Suc_right o_apply start_attempt [OF assms] wakes_sending Suc.IH
    by (simp add: add.assoc)
qed

section \<open>Properties\<close>

text \<open>C17: The service never starts. The module is only powered once the serial number is known, the answer with the
  serial number is only passed on once the module is available, and it is available only once it has been
  powered. So in every state that can be reached the module has not been touched, no message of an
  application has been queued, and the start, after its sixty queries, returns with an error.\<close>

theorem service_never_starts:
  assumes "interleaves (service_programs ss) (plc_service_new d now, g0) (s, g) ts"
  shows "\<not> available (pd_services (ps_device s)) \<and> sv_esn (pd_services (ps_device s)) = []
    \<and> pd_calls (ps_device s) = [] \<and> ps_channel s = [] \<and> ps_queue s = []
    \<and> (wake True ^^ 60) (service_start st turns (s, g)) =
        (serial_queries (st_env st) 60 (TOKEN g), (s, g\<lparr>TOKEN := TOKEN g + 60\<rparr>),
         Finished (Err (Message ''get device info failed'')))"
proof -
  have "asleep (fst (plc_service_new d now, g0))"
    by (simp add: asleep_def plc_service_new_def module_service_new_def)
  then have "asleep s" using interleaves_kept [OF assms, of asleep] asleep_programs by auto
  then show ?thesis
    using start_attempts [of s 60 "st_env st"]
    by (simp add: asleep_def available_def service_start_def device_info_run_def DEVICE_INFO_RETRY_COUNT_def)
qed

text \<open>C40: A module that became available counts as available for good: neither the loss of its power nor a module that
  is pulled out nor any answer, request or timeout takes that back, so requests are passed on to a module that
  is not there.\<close>

theorem availability_never_lost:
  assumes "interleaves (service_programs ss) (s0, g0) (s, g) ts" and "available (pd_services (ps_device s0))"
  shows "available (pd_services (ps_device s))
    \<and> client_receives env m (s, g) = ([], (s\<lparr>ps_channel := ps_channel s @ [m]\<rparr>, g), Finished (Ok ()))"
proof -
  have "available (pd_services (ps_device s))"
    using interleaves_kept [OF assms(1), of "\<lambda>s. available (pd_services (ps_device s))"] available_programs assms(2)
    by auto
  then show ?thesis by (simp add: client_receives_def mqtt_msg_handler_def send_def)
qed

definition sample_service :: "(unit, unit) service_setting" where
  "sample_service = \<lparr>ss_setting = sample_setting, ss_matches = plus_matches, ss_parse_schema = \<lambda>_. None\<rparr>"

text \<open>The answer with the serial number arrives, and is not passed on.\<close>

definition serial_answer :: mqtt_message where
  "serial_answer =
     \<lparr>mm_topic = device_info_topic,
      mm_payload = Some (JObj [(''token'', JStr ''1''), (''deviceESN'', JStr ''000000000000123456789012'')])\<rparr>"

theorem service_never_starts_witness:
  "\<exists>s g ts. interleaves (service_programs sample_service) (plc_service_new () ''now'', \<lparr>SEQ = 5, TOKEN = 0\<rparr>) (s, g) ts
    \<and> length ts = 1 \<and> pd_calls (ps_device s) = []
    \<and> (\<exists>acts w. client_receives (st_env sample_setting) serial_answer (plc_service_new () ''now'', \<lparr>SEQ = 5, TOKEN = 0\<rparr>)
        = (acts, w, hd ts))"
proof -
  let ?w0 = "(plc_service_new () ''now'' :: (unit, unit) plc_service, \<lparr>SEQ = 5, TOKEN = 0\<rparr>)"
  let ?p = "client_receives (st_env (ss_setting sample_service)) serial_answer"
  obtain acts s g r where turn: "?p ?w0 = (acts, (s, g), r)" by (metis prod_cases4 surj_pair)
  have run: "interleaves (service_programs sample_service) ?w0 (s, g) [r]"
    by (rule interleaves.spawn [OF interleaves.idle service_programs.client turn])
  from service_never_starts [OF run] turn run show ?thesis by (force simp: sample_service_def)
qed

theorem availability_never_lost_witness:
  "\<exists>s g ts. interleaves (service_programs sample_service)
      ((plc_service_new () ''now'')\<lparr>ps_device := initialised_device 5 [Ok 3]\<rparr>, \<lparr>SEQ = 5, TOKEN = 0\<rparr>) (s, g) ts
    \<and> length ts = 1 \<and> available (pd_services (ps_device s))"
proof -
  let ?w0 = "((plc_service_new () ''now'')\<lparr>ps_device := initialised_device 5 [Ok 3]\<rparr>, \<lparr>SEQ = 5, TOKEN = 0\<rparr>)"
  let ?p = "service_start (ss_setting sample_service) 3"
  obtain acts s g r where turn: "?p ?w0 = (acts, (s, g), r)" by (metis prod_cases4 surj_pair)
  have run: "interleaves (service_programs sample_service) ?w0 (s, g) [r]"
    by (rule interleaves.spawn [OF interleaves.idle service_programs.start turn])
  have "available (pd_services (ps_device (fst ?w0)))" by (simp add: initialised_device_def available_def)
  with availability_never_lost [of sample_service _ _ s g "[r]" "st_env sample_setting" serial_answer] run
  show ?thesis by fastforce
qed

end
