(* ===== verification/Owned.thy ===== *)
theory Owned
  imports Interleaving
begin

text \<open>
  What a thread leaves behind in a part of the state that only it changes. \<open>ends own Q v p\<close> says that \<open>p\<close>,
  started where its part \<open>own\<close> is \<open>v\<close>, ends with \<open>Q ok u\<close> for the value \<open>u\<close> of its part then, \<open>ok\<close> saying
  whether it ended well; the other threads may change everything else while it waits. Threads that panic
  never go on. \<open>one_thread\<close> is a thread that runs one program after another.
\<close>

primrec ends_run :: "('s \<Rightarrow> 'v) \<Rightarrow> (bool \<Rightarrow> 'v \<Rightarrow> bool) \<Rightarrow> ('s, 'a) run \<Rightarrow> 'v \<Rightarrow> bool" where
  "ends_run own Q (Finished r) = (\<lambda>v. case r of Ok x \<Rightarrow> Q True v | Err e \<Rightarrow> Q False v | Panic p \<Rightarrow> True)"
| "ends_run own Q (Waiting f) =
     (\<lambda>v. \<forall>x. own (fst (snd x)) = v \<longrightarrow>
        pred_option (\<lambda>t. snd (snd t) (own (fst (fst (snd t)))))
          (map_option (map_prod id (map_prod id (ends_run own Q))) (f x)))"

definition ends_turn :: "('s \<Rightarrow> 'v) \<Rightarrow> (bool \<Rightarrow> 'v \<Rightarrow> bool) \<Rightarrow> ('s, 'a) turn \<Rightarrow> bool" where
  "ends_turn own Q t \<longleftrightarrow> ends_run own Q (snd (snd t)) (own (fst (fst (snd t))))"

definition ends :: "('s \<Rightarrow> 'v) \<Rightarrow> (bool \<Rightarrow> 'v \<Rightarrow> bool) \<Rightarrow> 'v \<Rightarrow> ('s, 'a) prog \<Rightarrow> bool" where
  "ends own Q v p \<longleftrightarrow> (\<forall>s g. own s = v \<longrightarrow> ends_turn own Q (p (s, g)))"

lemma ends_run_Waiting:
  "ends_run own Q (Waiting f) v \<longleftrightarrow> (\<forall>late s g t. own s = v \<longrightarrow> f (late, s, g) = Some t \<longrightarrow> ends_turn own Q t)"
proof -
  have eq: "pred_option (\<lambda>t. snd (snd t) (own (fst (fst (snd t))))) (map_option (map_prod id (map_prod id (ends_run own Q))) y)
      \<longleftrightarrow> (\<forall>t. y = Some t \<longrightarrow> ends_turn own Q t)" for y
    by (cases y) (auto simp: ends_turn_def)
  show ?thesis unfolding ends_run.simps eq by auto
qed

declare ends_run.simps(2) [simp del]

lemma ends_turn_simps [simp]:
  "ends_turn own Q (acts, (s, g), r) \<longleftrightarrow> ends_run own Q r (own s)"
  "ends_turn own Q (sending acts t) \<longleftrightarrow> ends_turn own Q t"
  by (auto simp: ends_turn_def) (cases t; simp)+

named_theorems ended \<open>how programs end\<close>

lemma ends_simple [ended]:
  "Q True v \<Longrightarrow> ends own Q v (send acts)" "Q True v \<Longrightarrow> ends own Q v (ask h)"
  "Q True v \<Longrightarrow> Q False v \<Longrightarrow> ends own Q v (give r)"
  "(\<And>s. own s = v \<Longrightarrow> Q True (own (f s))) \<Longrightarrow> ends own Q v (change f)"
  by (simp_all add: ends_def send_def ask_def give_def change_def split: outcome.split)

lemma ends_run_weaken: "ends_run own Q r v \<Longrightarrow> (\<And>ok u. Q ok u \<Longrightarrow> Q' ok u) \<Longrightarrow> ends_run own Q' r v"
proof (induction r arbitrary: v)
  case (Finished r)
  then show ?case by (cases r) simp_all
next
  case (Waiting f)
  have "ends_turn own Q' t" if "own s = v" and f: "f (late, s, g) = Some t" for late s g t
  proof -
    obtain acts w r where t: "t = (acts, w, r)" by (cases t)
    with Waiting.prems(1) that have "ends_turn own Q (acts, w, r)" unfolding ends_run_Waiting by blast
    then have "ends_run own Q r (own (fst w))" by (simp add: ends_turn_def)
    then have "ends_run own Q' r (own (fst w))"
      by (rule Waiting.IH [OF rangeI [of f "(late, s, g)"], of "(acts, w, r)" "(w, r)", rotated 3])
        (use f t Waiting.prems(2) in auto)
    with t show ?thesis by (simp add: ends_turn_def)
  qed
  then show ?case by (simp add: ends_run_Waiting)
qed

lemma ends_weaken: "ends own Q v p \<Longrightarrow> (\<And>ok u. Q ok u \<Longrightarrow> Q' ok u) \<Longrightarrow> ends own Q' v p"
  unfolding ends_def ends_turn_def by (blast intro: ends_run_weaken)

lemma ends_run_then:
  assumes "\<And>x u. R True u \<Longrightarrow> ends own Q u (k x)" and "\<And>u. R False u \<Longrightarrow> Q False u"
    and "ends_run own R r (own (fst w))"
  shows "ends_turn own Q (run_then k r w)"
  using assms(3)
proof (induction r arbitrary: w)
  case (Finished r)
  then show ?case using assms(1,2) by (cases w; cases r) (simp_all add: ends_def)
next
  case (Waiting f)
  obtain s0 g0 where w: "w = (s0, g0)" by (cases w)
  have "ends_turn own Q t" if "own s = own s0" and t: "map_option continue
      (map_option (map_prod id (map_prod id (run_then k))) (f (late, s, g))) = Some t" for late s g t
  proof -
    from t obtain acts w' r where f: "f (late, s, g) = Some (acts, w', r)" and t: "t = sending acts (run_then k r w')"
      by auto
    have "ends_turn own R (acts, w', r)"
      using Waiting.prems that(1) f w by (cases w') (auto simp: ends_run_Waiting)
    then have "ends_run own R r (own (fst w'))" by (simp add: ends_turn_def)
    then have "ends_turn own Q (run_then k r w')"
      by (rule Waiting.IH [OF rangeI [of f "(late, s, g)"], of "(acts, w', r)" "(w', r)", rotated 3]) (use f in auto)
    with t show ?thesis by simp
  qed
  with w show ?case by (simp add: ends_run_Waiting)
qed

lemma ends_andDo:
  assumes "ends own R v p" and "\<And>x u. R True u \<Longrightarrow> ends own Q u (k x)" and "\<And>u. R False u \<Longrightarrow> Q False u"
  shows "ends own Q v (andDo p k)"
  unfolding ends_def
proof (intro allI impI)
  fix s g
  assume "own s = v"
  obtain acts w r where p: "p (s, g) = (acts, w, r)" by (cases "p (s, g)")
  with assms(1) \<open>own s = v\<close> have "ends_turn own R (acts, w, r)" unfolding ends_def by metis
  then have "ends_run own R r (own (fst w))" by (simp add: ends_turn_def)
  with p show "ends_turn own Q (andDo p k (s, g))"
    by (simp add: andDo_def ends_run_then [OF assms(2,3)])
qed

lemma ends_run_catch: "ends_run own (\<lambda>_. Q True) r v \<Longrightarrow> ends_run own Q (catch_run r) v"
proof (induction r arbitrary: v)
  case (Finished r)
  then show ?case by (cases r) simp_all
next
  case (Waiting f)
  have "ends_turn own Q t" if "own s = v" and t: "map_option (map_prod id (map_prod id catch_run)) (f (late, s, g)) = Some t"
    for late s g t
  proof -
    from t obtain acts w r where f: "f (late, s, g) = Some (acts, w, r)" and t: "t = (acts, w, catch_run r)" by auto
    with Waiting.prems that(1) have "ends_turn own (\<lambda>_. Q True) (acts, w, r)" unfolding ends_run_Waiting by blast
    then have "ends_run own (\<lambda>_. Q True) r (own (fst w))" by (simp add: ends_turn_def)
    then have "ends_run own Q (catch_run r) (own (fst w))"
      by (rule Waiting.IH [OF rangeI [of f "(late, s, g)"], of "(acts, w, r)" "(w, r)", rotated 3]) (use f in auto)
    with t show ?thesis by (simp add: ends_turn_def)
  qed
  then show ?case by (simp add: ends_run_Waiting)
qed

lemma ends_catch [ended]:
  assumes "ends own (\<lambda>_. Q True) v p"
  shows "ends own Q v (catch p)"
  unfolding ends_def
proof (intro allI impI)
  fix s g
  assume "own s = v"
  obtain acts w r where p: "p (s, g) = (acts, w, r)" by (cases "p (s, g)")
  with assms \<open>own s = v\<close> have "ends_turn own (\<lambda>_. Q True) (acts, w, r)" unfolding ends_def by metis
  with p show "ends_turn own Q (catch p (s, g))" by (simp add: catch_def ends_turn_def ends_run_catch)
qed

text \<open>A program that keeps its part as it is.\<close>

lemma ends_run_keeps: "keeps_run (\<lambda>s. own s = v) r \<Longrightarrow> ends_run own (\<lambda>_ u. u = v) r v"
proof (induction r)
  case (Finished r)
  then show ?case by (cases r) simp_all
next
  case (Waiting f)
  have "ends_turn own (\<lambda>_ u. u = v) t" if "own s = v" and f: "f (late, s, g) = Some t" for late s g t
  proof -
    obtain acts w r where t: "t = (acts, w, r)" by (cases t)
    with Waiting.prems that have "keeps_turn (\<lambda>s. own s = v) (acts, w, r)" unfolding keeps_run_Waiting by blast
    then have kept: "own (fst w) = v" "keeps_run (\<lambda>s. own s = v) r" by (simp_all add: keeps_turn_def)
    have "ends_run own (\<lambda>_ u. u = v) r v"
      by (rule Waiting.IH [OF rangeI [of f "(late, s, g)"], of t "(w, r)"]) (use f t kept in auto)
    with kept t show ?thesis by (simp add: ends_turn_def)
  qed
  then show ?case by (simp add: ends_run_Waiting)
qed

lemma ends_keeps:
  assumes "keeps (\<lambda>s. own s = v) p"
  shows "ends own (\<lambda>_ u. u = v) v p"
  using assms by (auto simp: ends_def keeps_def keeps_turn_def ends_turn_def dest!: ends_run_keeps)

lemma ends_zoom_run:
  assumes "\<And>x s. own' (put x s) = own x" and "\<And>s. own' s = own (get s)"
  shows "ends_run own Q r v \<Longrightarrow> ends_run own' Q (zoom_run get put r) v"
proof (induction r arbitrary: v)
  case (Finished r)
  then show ?case by (cases r) simp_all
next
  case (Waiting f)
  have "ends_turn own' Q t" if "own' s = v" and t: "map_option (map_prod id (map_prod (\<lambda>(x, g). (put x s, g)) id))
       (map_option (map_prod id (map_prod id (zoom_run get put))) (f (late, get s, g))) = Some t" for late s g t
  proof -
    from t obtain acts x g' r where f: "f (late, get s, g) = Some (acts, (x, g'), r)"
        and t: "t = (acts, (put x s, g'), zoom_run get put r)"
      by (auto simp: map_prod_def split: prod.splits)
    have "own (get s) = v" using that(1) assms(2) by simp
    with Waiting.prems f have "ends_turn own Q (acts, (x, g'), r)" unfolding ends_run_Waiting by blast
    then have "ends_run own' Q (zoom_run get put r) (own x)"
      by (intro Waiting.IH [OF rangeI [of f "(late, get s, g)"], of "(acts, (x, g'), r)" "((x, g'), r)"]) (use f in auto)
    with t assms(1) show ?thesis by simp
  qed
  then show ?case by (simp add: ends_run_Waiting)
qed

lemma ends_zoom:
  assumes "ends own Q v p" and "\<And>x s. own' (put x s) = own x" and "\<And>s. own' s = own (get s)"
  shows "ends own' Q v (zoom get put p)"
  unfolding ends_def
proof (intro allI impI)
  fix s g
  assume "own' s = v"
  obtain acts x g' r where p: "p (get s, g) = (acts, (x, g'), r)" by (cases "p (get s, g)") auto
  have "own (get s) = v" using \<open>own' s = v\<close> assms(3) by simp
  with assms(1) p have "ends_turn own Q (acts, (x, g'), r)" unfolding ends_def by metis
  then show "ends_turn own' Q (zoom get put p (s, g))"
    by (simp add: zoom_def p assms(2) ends_zoom_run [of own' put own get, OF assms(2,3)])
qed

section \<open>One thread\<close>

text \<open>A thread that takes one program of \<open>P\<close> after another, and goes on to the next also after an error; whatever
  else happens leaves its part of the state alone.\<close>

inductive one_thread ::
    "('s \<Rightarrow> 'v) \<Rightarrow> ('s, 'a) prog set \<Rightarrow> 's \<times> statics \<Rightarrow> 's \<times> statics \<Rightarrow> ('s, 'a) run \<Rightarrow> bool" for own P w0 where
  ready: "one_thread own P w0 w0 (Finished (Ok x))"
| others: "one_thread own P w0 (s, g) t \<Longrightarrow> own s' = own s \<Longrightarrow> one_thread own P w0 (s', g') t"
| take: "one_thread own P w0 w (Finished r) \<Longrightarrow> \<not> panics r \<Longrightarrow> p \<in> P \<Longrightarrow> p w = (acts, w', t) \<Longrightarrow> one_thread own P w0 w' t"
| resume: "one_thread own P w0 (s, g) (Waiting f) \<Longrightarrow> f (late, s, g) = Some (acts, w', t) \<Longrightarrow> one_thread own P w0 w' t"

lemma one_thread_ends:
  assumes "one_thread own P w0 w t" and "\<And>p. p \<in> P \<Longrightarrow> ends own (\<lambda>_ u. u = v) v p" and "own (fst w0) = v"
  shows "ends_run own (\<lambda>_ u. u = v) t (own (fst w))"
  using assms(1)
proof (induction rule: one_thread.induct)
  case (ready x)
  with assms(3) show ?case by simp
next
  case (others s g t s' g')
  then show ?case by simp
next
  case (take w r p acts w' t)
  from take.IH \<open>\<not> panics r\<close> have "own (fst w) = v" by (cases r) simp_all
  with assms(2) [OF \<open>p \<in> P\<close>] \<open>p w = (acts, w', t)\<close> have "ends_turn own (\<lambda>_ u. u = v) (acts, w', t)"
    unfolding ends_def by (metis prod.collapse)
  then show ?case by (simp add: ends_turn_def)
next
  case (resume s g f late acts w' t)
  then have "ends_turn own (\<lambda>_ u. u = v) (acts, w', t)" unfolding ends_run_Waiting fst_conv by blast
  then show ?case by (simp add: ends_turn_def)
qed

end
