(* ===== verification/Metering_Flag.thy ===== *)
theory Metering_Flag
  imports Plc_Service Owned
begin

text \<open>
  The flag \<open>ln_metering\<close> by which the monitoring of nodes and the data transfer mean to keep meter readings
  back (monitor_node.rs, data_transfer.rs, concurrent_meter.rs). It is set and read by the one thread that
  serves the requests, which waits while it is set, so it is never found set.
\<close>

section \<open>Operations that never end in an error\<close>

definition sure :: "'a result \<Rightarrow> bool" where
  "sure r \<longleftrightarrow> (\<forall>e. r \<noteq> Err e)"

lemma sure_simps [simp]:
  "sure (Ok x)" "sure (Panic p)" "\<not> sure (Err e)" "sure (unwrap r)" "sure (unwrap_option y)"
  by (cases r; cases y; simp add: sure_def)+

lemma sure_andThen: "sure r \<Longrightarrow> (\<And>x. sure (k x)) \<Longrightarrow> sure (andThen r k)"
  by (cases r) (simp_all add: sure_def)

lemma sure_case [simp]:
  "(\<And>x y. sure (f x y)) \<Longrightarrow> sure (case p of (x, y) \<Rightarrow> f x y)"
  by (cases p) simp

lemma sure_parts [simp]:
  "sure (address_from_str decode v)" "sure (slice xs i j)" "sure (as_fn_num flag)" "sure (get_token m)"
  by (auto simp: address_from_str_def slice_def as_fn_num_def get_token_def intro!: sure_andThen
      split: option.split outcome.split)

lemma sure_requests [simp]:
  "sure (to_mqtt_req_info m)" "sure (node_address_field env master acq)" "sure (monitor_node_request_from env flag acq t d)"
  "sure (transfer_frame_request_from env t d)" "sure (fst (frame_new_request n a b))" "sure (req_info_new f mqtt)"
  by (auto simp: to_mqtt_req_info_def mqtt_req_info_new_def transfer_topic_def node_address_field_def
      monitor_node_request_from_def transfer_frame_request_from_def frame_new_request_def frame_new_def Let_def
      req_info_new_def frame_key_of_def frame_fn_num_def fn_num_def intro!: sure_andThen)

lemma sure_payload [simp]: "sure (mqtt_message_new t p)"
proof -
  have "sure (body_fields b)" for b by (cases b rule: body_fields.cases) simp_all
  then show ?thesis by (auto simp: mqtt_message_new_def mqtt_payload_to_json_def intro!: sure_andThen)
qed

lemma sure_reply [simp]:
  "(\<And>x. sure (into x)) \<Longrightarrow> sure (result_into_mqtt_message env into m r)" "sure (into_flat env mqtt v)"
  by (cases r) (simp_all add: error_into_mqtt_message_def new_with_req_info_status_reason_def into_flat_def
      new_with_req_info_body_def)

section \<open>The flag\<close>

abbreviation line_flag :: "line_state \<Rightarrow> bool" where
  "line_flag \<equiv> ln_metering"

lemma ends_give_sure: "sure r \<Longrightarrow> Q True v \<Longrightarrow> ends own Q v (give r)"
  by (cases r) (simp_all add: ends_def give_def sure_def)

text \<open>A sequence whose first part never ends in an error and keeps the flag.\<close>

lemma ends_sure_then:
  assumes "ends own (\<lambda>ok u. ok \<and> u = v) v p" and "\<And>x. ends own Q v (k x)"
  shows "ends own Q v (andDo p k)"
  by (rule ends_andDo [OF assms(1)]) (use assms(2) in auto)

lemma ends_give_then: "sure r \<Longrightarrow> (\<And>x. ends own Q v (k x)) \<Longrightarrow> ends own Q v (andDo (give r) k)"
  by (rule ends_sure_then) (auto intro: ends_give_sure)

lemma ends_send_then: "(\<And>x. ends own Q v (k x)) \<Longrightarrow> ends own Q v (andDo (send acts) k)"
  by (rule ends_sure_then) (auto intro: ended)

lemma ends_request_frame_then: "(\<And>x. ends own Q v (k x)) \<Longrightarrow> ends own Q v (andDo (request_frame a d) k)"
proof (rule ends_sure_then)
  have "sure (fst (frame_new_request n a d))" for n by simp
  then show "ends own (\<lambda>ok u. ok \<and> u = v) v (request_frame a d)"
    by (auto simp: ends_def request_frame_def counted_def with_statics_def sure_def split: prod.split outcome.split)
      (metis fst_conv)
qed

lemma ends_reply: "sure r \<Longrightarrow> Q True v \<Longrightarrow> ends own Q v (reply r)"
  unfolding reply_def by (rule ends_give_then) (auto intro: ended)

lemma ends_catch_then:
  assumes "keeps (\<lambda>s. own s = v) p" and "\<And>x. ends own Q v (k x)"
  shows "ends own Q v (andDo (catch p) k)"
  by (rule ends_sure_then [OF ends_catch]) (use assms in \<open>auto intro: ends_keeps\<close>)

text \<open>Whatever is done with the flag set clears it again.\<close>

lemma ends_with_metering:
  assumes "ends line_flag (\<lambda>ok u. ok \<and> u) True q"
  shows "ends line_flag (\<lambda>ok u. ok \<and> \<not> u) v (with_metering q)"
proof -
  have set_flag: "ends line_flag (\<lambda>ok u. ok \<and> u) v (change (\<lambda>s. s\<lparr>ln_metering := True\<rparr>))" for v
    by (auto intro: ended)
  have clear_flag: "ends line_flag (\<lambda>ok u. ok \<and> \<not> u) v (change (\<lambda>s. s\<lparr>ln_metering := False\<rparr>))" for v
    by (auto intro: ended)
  have last: "ends line_flag (\<lambda>ok u. ok \<and> \<not> u) v (give (Ok x))" if "\<not> v" for v x
    using that by (simp add: ends_def give_def)
  have "ends line_flag (\<lambda>ok u. ok \<and> \<not> u) v (andDo (change (\<lambda>s. s\<lparr>ln_metering := False\<rparr>)) (\<lambda>_. give (Ok x)))" for v x
    by (rule ends_andDo [OF clear_flag]) (auto intro: last)
  then have "ends line_flag (\<lambda>ok u. ok \<and> \<not> u) True
      (andDo q (\<lambda>result. andDo (change (\<lambda>s. s\<lparr>ln_metering := False\<rparr>)) (\<lambda>_. give (Ok result))))"
    by (intro ends_andDo [OF assms]) auto
  then show ?thesis
    unfolding with_metering_def by (intro ends_andDo [OF set_flag]) auto
qed

lemma keeps_flag_pause [kept]: "keeps (\<lambda>s. ln_metering s = v) (on_route_ctrl p)"
  unfolding on_route_ctrl_def by (rule route_ctrl.keeps_elsewhere) simp

lemma keeps_flag_waits [kept]:
  "keeps (\<lambda>s. ln_metering s = v) wait_for_response" "keeps (\<lambda>s. ln_metering s = v) wait_delay"
  "keeps (\<lambda>s. ln_metering s = v) wait_data"
proof -
  show wait: "keeps (\<lambda>s. ln_metering s = v) wait_for_response"
    unfolding wait_for_response_def by (auto intro!: kept)
  show "keeps (\<lambda>s. ln_metering s = v) wait_delay" "keeps (\<lambda>s. ln_metering s = v) wait_data"
    unfolding wait_delay_def wait_data_def by (auto intro!: kept wait split: monitor_node_result.split)
qed

lemma ends_monitor_messages:
  "ends line_flag (\<lambda>ok u. ok \<and> u) True (monitor_delay_message env master message)"
  "ends line_flag (\<lambda>ok u. ok \<and> u) True (monitor_data_message env master message)"
  unfolding monitor_delay_message_def monitor_data_message_def
  by (auto intro!: ends_give_then ends_request_frame_then ends_give_sure split: prod.split)

lemma ends_monitor:
  assumes "ends line_flag (\<lambda>ok u. ok \<and> u) True into" and "keeps (\<lambda>s. ln_metering s = True) wait"
  shows "ends line_flag (\<lambda>_ u. \<not> u) False (mqtt_get_monitor_node_info env into wait to_json message)"
proof -
  have "ends line_flag (\<lambda>_ u. u) True wait" using ends_keeps [OF assms(2)] by simp
  then have exchange: "ends line_flag (\<lambda>ok u. ok \<and> u) True (andDo into (\<lambda>m. andDo (send [ToUart m]) (\<lambda>_. catch wait)))"
    by (intro ends_sure_then ends_send_then ends_catch) (use assms(1) in simp_all)
  have answer: "ends line_flag (\<lambda>_ u. \<not> u) v (andDo (with_metering (andDo into (\<lambda>m. andDo (send [ToUart m]) (\<lambda>_. catch wait))))
      (\<lambda>result. reply (result_into_mqtt_message env (\<lambda>r. into_flat env mqtt (to_json r)) mqtt result)))" for v mqtt
    by (rule ends_andDo [OF ends_with_metering [OF exchange]]) (auto intro!: ends_reply)
  show ?thesis
    unfolding mqtt_get_monitor_node_info_def
    by (auto intro!: ends_give_then ends_catch_then kept answer ends_reply ends_give_sure split: outcome.split
        simp: error_into_mqtt_message_def new_with_req_info_status_reason_def)
qed

lemma ends_transfer: "ends line_flag (\<lambda>_ u. \<not> u) False (mqtt_data_transfer env master message)"
proof -
  have take: "ends line_flag (\<lambda>ok u. ok \<and> u) True (change (\<lambda>s. s\<lparr>ln_transfer_result := None\<rparr>))"
    "ends line_flag (\<lambda>ok u. ok \<and> u) True (wait_while c)" "ends line_flag (\<lambda>ok u. ok \<and> u) True (ask f)" for c and f :: "line_state \<Rightarrow> 'x"
    by (auto intro!: ended) (simp add: ends_def wait_while_def ends_run_Waiting)
  have exchange: "ends line_flag (\<lambda>ok u. ok \<and> u) True (andDo (send acts) (\<lambda>_.
       andDo (wait_while (\<lambda>s. ln_transfer_result s = None)) (\<lambda>_.
       andDo (ask ln_transfer_result) (\<lambda>r.
       andDo (change (\<lambda>s. s\<lparr>ln_transfer_result := None\<rparr>)) (\<lambda>_.
       andDo (give (unwrap_option r)) (\<lambda>result.
       andDo (give (to_mqtt_req_info message)) (\<lambda>mqtt.
       reply (result_into_mqtt_message env (\<lambda>t. into_flat env mqtt (data_json t)) mqtt result))))))))" for acts
    by (intro ends_send_then ends_sure_then ends_give_then ends_reply) (simp_all add: take)
  show ?thesis
    unfolding mqtt_data_transfer_def
    by (auto intro!: ends_give_then ends_request_frame_then split: prod.split)
      (rule ends_weaken [OF ends_with_metering [OF exchange]], simp)
qed

section \<open>Requests\<close>

definition service_flag :: "('db, 'date) module_service \<Rightarrow> bool" where
  "service_flag s = ln_metering (sv_line s)"

lemma service_flag_elsewhere [simp]:
  "service_flag (s\<lparr>sv_master_address := x1\<rparr>) = service_flag s" "service_flag (s\<lparr>sv_node_manage := x2\<rparr>) = service_flag s"
  "service_flag (s\<lparr>sv_meter_cache := x3\<rparr>) = service_flag s" "service_flag (s\<lparr>sv_esn := x4\<rparr>) = service_flag s"
  "service_flag (s\<lparr>sv_meter_state := x5\<rparr>) = service_flag s" "service_flag (s\<lparr>sv_identify_area := x6\<rparr>) = service_flag s"
  "service_flag (s\<lparr>sv_hplc_info := x7\<rparr>) = service_flag s" "service_flag (s\<lparr>sv_file_upgrade := x8\<rparr>) = service_flag s"
  "service_flag (s\<lparr>sv_MODULE_INFO := x9\<rparr>) = service_flag s" "service_flag (s\<lparr>sv_init_event := x10\<rparr>) = service_flag s"
  by (simp_all add: service_flag_def)

lemma keeps_flag_line:
  assumes "keeps (\<lambda>s. ln_metering s = v) p"
  shows "keeps (\<lambda>s. service_flag s = v) (on_line p)"
  unfolding on_line_def by (rule line.keeps_inside [OF assms]) (simp_all add: service_flag_def)

lemma keeps_flag_route [kept]: "keeps (\<lambda>s. service_flag s = v) (on_line (on_route_ctrl p))"
  by (rule keeps_flag_line) (rule kept)

lemma ends_line:
  assumes "ends line_flag Q v p"
  shows "ends service_flag Q v (on_line p)"
  unfolding on_line_def by (rule ends_zoom [OF assms]) (simp_all add: service_flag_def)

lemma ends_cached_readings:
  assumes "\<And>address. ends line_flag (\<lambda>_ u. \<not> u) False (p address)"
  shows "ends service_flag (\<lambda>_ u. \<not> u) False (then_cached_readings st p)"
proof -
  have meter: "ends service_flag (\<lambda>_ u. u = v) v (on_meter f)" for v f
    by (intro ends_keeps kept) simp
  have after: "ends service_flag (\<lambda>_ u. \<not> u) v (andDo (on_meter f) (\<lambda>_. give result))" if "\<not> v" for v f result
    by (rule ends_andDo [OF meter]) (use that in \<open>auto intro: ended\<close>)
  have "ends service_flag (\<lambda>_ u. \<not> u) False (andDo (catch (on_line (p address))) (\<lambda>result. andDo (on_meter f) (\<lambda>_. give result)))"
    for address f
    by (rule ends_andDo [where R = "\<lambda>_ u. \<not> u", OF ends_catch [OF ends_line [OF assms]]]) (simp_all add: after)
  then show ?thesis
    unfolding then_cached_readings_def by (intro ends_sure_then [OF ends_simple(2)]) simp_all
qed

lemma keeps_flag_requests:
  "keeps (\<lambda>s. ln_metering s = v) (mqtt_broadcast_cmd env m)" "keeps (\<lambda>s. ln_metering s = v) (mqtt_get_broadcast_delay env m)"
  "keeps (\<lambda>s. ln_metering s = v) (mqtt_active_slave_node_register env parse m)"
  unfolding mqtt_broadcast_cmd_def mqtt_get_broadcast_delay_def after_pause_def mqtt_active_slave_node_register_def
  by (auto intro!: kept split: outcome.split)

lemma ends_request: "ends service_flag (\<lambda>_ u. \<not> u) False (handle_request st now ty m)"
proof -
  have cached: "ends service_flag (\<lambda>_ u. \<not> u) False (completes (then_cached_readings st p))"
    if "\<And>address. ends line_flag (\<lambda>_ u. \<not> u) False (p address)" for p
    unfolding completes_def by (rule ends_andDo [OF ends_cached_readings [OF that]]) (auto intro: ended)
  consider "ty \<in> {T_MonitorNode, T_MonitorNodeDelay, T_DataTransfer}"
    | "keeps (\<lambda>s. service_flag s = False) (handle_request st now ty m)"
  proof (cases "ty \<in> {T_MonitorNode, T_MonitorNodeDelay, T_DataTransfer}")
    case False
    note keeps_on(2) [kept del]
    from False have "keeps (\<lambda>s. service_flag s = False) (handle_request st now ty m)"
      unfolding handle_request_def completes_def set_device_esn_def concurrent_request_def
        start_search_request_def start_upgrade_request_def Let_def mqtt_get_module_info_def mqtt_get_master_id_info_def mqtt_get_address_def
        mqtt_set_address_def mqtt_get_chip_info_def mqtt_get_node_line_info_def mqtt_get_id_info_def
        mqtt_get_slave_module_id_info_def mqtt_get_multiple_net_info_def mqtt_debug_frame_request_def mqtt_get_metering_state_def
        mqtt_identify_area_set_def mqtt_stop_slave_node_register_def mqtt_set_hplc_frequency_def mqtt_refuse_slave_report_def
        mqtt_get_hplc_freq_def mqtt_get_network_size_def mqtt_data_init_def mqtt_get_mode_info_def
      by (cases ty)
        (auto intro!: keeps_flag_line [where v = False, simplified] keeps_flag_requests [where v = False, simplified]
          keeps_flag_pause [where v = False, simplified] kept)
    then show ?thesis using that(2) by blast
  qed (use that(1) in blast)
  then show ?thesis
  proof cases
    case 1
    then show ?thesis
      by (auto simp: handle_request_def Let_def mqtt_get_monitor_node_delay_def mqtt_get_monitor_node_data_def
          intro!: cached ends_monitor ends_monitor_messages ends_transfer kept)
  next
    case 2
    from ends_keeps [OF this] show ?thesis by simp
  qed
qed

lemma ends_dispatch: "ends service_flag (\<lambda>_ u. u = False) False (dispatch_request st now matches filters m)"
  unfolding dispatch_request_def
  by (auto intro!: ends_sure_then ended ends_weaken [OF ends_request] split: option.split)

section \<open>The other threads\<close>

lemma flag_resume_timer [simp]: "ln_metering (line_update_resume_timer s) = ln_metering s"
  by (simp add: line_update_resume_timer_def)

lemma flag_answers [simp]:
  "ln_metering (snd (uart_route_delay_response m s)) = ln_metering s"
  "ln_metering (snd (uart_get_monitor_node_data env m s)) = ln_metering s"
  "ln_metering (snd (uart_broadcast_delay_response env m s)) = ln_metering s"
  "ln_metering (snd (uart_broadcast_cmd_response env m s)) = ln_metering s"
  "ln_metering (snd (uart_data_transfer_response env m s)) = ln_metering s"
  "ln_metering (uart_monitor_node_timeout s) = ln_metering s"
  "ln_metering (uart_data_transfer_timeout s) = ln_metering s"
  by (auto simp: uart_route_delay_response_def uart_get_monitor_node_data_def uart_broadcast_delay_response_def
      uart_broadcast_cmd_response_def uart_data_transfer_response_def uart_monitor_node_timeout_def
      uart_data_transfer_timeout_def transfer_notify_def uart_notify_monitor_node_dalay_def
      split: outcome.split prod.split option.split)

lemma flag_kept_by_answers:
  "keeps (\<lambda>s. service_flag s = v) (uart_msg_handler st now m)" "keeps (\<lambda>s. service_flag s = v) (handle_timeout st req)"
proof -
  note keeps_on(2) [kept del]
  have reports: "keeps (\<lambda>s. service_flag s = v) (uart_slave_report_handler st now m)"
    unfolding uart_slave_report_handler_def uart_route_data_read_handler_def uart_active_report_handler_def
      module_info_reported_def uart_slave_node_event_report_def init_update_address_def notify_event_def
    by (auto intro!: keeps_flag_line kept split: afn.split outcome.split active_report.split)
  have forward: "keeps (\<lambda>s. service_flag s = v) (uart_route_data_forward_handler st now m)"
    unfolding uart_route_data_forward_handler_def message_received_def by (auto intro!: keeps_flag_line kept)
  have mqtt: "keeps (\<lambda>s. service_flag s = v) (uart_mqtt_handler st now m)"
    unfolding uart_mqtt_handler_def uart_init_operation_handler_def uart_data_init_response_def uart_data_forward_handler_def
      uart_ctrl_cmd_handler_def uart_query_data_handler_def uart_route_set_handler_def uart_route_query_handler_def
      uart_route_ctrl_handler_def operate_metering_answered_def
      uart_file_transfer_handler_def uart_read_meter_handler_def uart_test_handler_def message_received_def
    by (auto intro!: keeps_flag_line forward kept split: afn.split query_data.split ctrl_cmd.split route_set.split route_query.split)
  have init: "keeps (\<lambda>s. service_flag s = v) (uart_init_handler st now m)"
    unfolding uart_init_handler_def init_query_data_def notify_result_def init_route_get_def operate_metering_answered_def
      message_received_def init_notify_def init_update_address_def notify_event_def
    by (auto intro!: keeps_flag_line forward kept split: afn.split outcome.split)
  show "keeps (\<lambda>s. service_flag s = v) (uart_msg_handler st now m)"
    unfolding uart_msg_handler_def by (simp add: reports mqtt init)
  have line: "keeps (\<lambda>s. service_flag s = v) (on_line (change uart_monitor_node_timeout))"
    "keeps (\<lambda>s. service_flag s = v) (on_line (change uart_data_transfer_timeout))"
    by (rule keeps_flag_line, rule keeps_change, simp)+
  have default: "keeps (\<lambda>s. service_flag s = v) (default_timeout_handler st req)"
    unfolding default_timeout_handler_def mqtt_timeout_cb_def notify_timeout_def notify_event_def
    by (auto intro!: kept split: option.split)
  have timeouts: "keeps (\<lambda>s. service_flag s = v) (handle_concurrent_read_meter_timeout st n req)"
    "keeps (\<lambda>s. service_flag s = v) (handle_route_set_timeout st n req)"
    "keeps (\<lambda>s. service_flag s = v) (handle_route_data_forward_timeout n)"
    "keeps (\<lambda>s. service_flag s = v) (handle_data_forward_timeout n)"
    "keeps (\<lambda>s. service_flag s = v) (handle_route_data_read_timeout n req)"
    "keeps (\<lambda>s. service_flag s = v) (handle_route_get_timeout st n req)"
    "keeps (\<lambda>s. service_flag s = v) (handle_file_transfer_timeout n)" for n
    unfolding handle_concurrent_read_meter_timeout_def handle_route_set_timeout_def
      handle_route_data_forward_timeout_def handle_data_forward_timeout_def handle_route_data_read_timeout_def
      handle_route_get_timeout_def handle_file_transfer_timeout_def
    by (auto intro!: default line kept split: option.split frame_key.split)
  show "keeps (\<lambda>s. service_flag s = v) (handle_timeout st req)"
    unfolding handle_timeout_def by (simp add: timeouts default split: frame_key.split afn.split)
qed

lemma flag_kept_by_threads:
  "keeps (\<lambda>s. service_flag s = v) (run_pool_task rounds st now task)"
  "keeps (\<lambda>s. service_flag s = v) (on_line (on_route_ctrl (resume_timer_callback n)))"
  unfolding run_pool_task_def by (auto intro!: kept split: pool_task.split)

section \<open>Property\<close>

text \<open>C18: No reading is ever kept back for a request that needs the line. When the thread of the requests comes to a
  reading, whatever it served before and whatever the other threads do meanwhile, the flag is clear, so the
  reading is handled as if there were no flag; the other threads, which send the next queued readings, never
  look at it and leave it alone.\<close>

theorem readings_never_kept_back:
  assumes "one_thread service_flag {p. \<exists>now m. p = dispatch_request st now matches filters m}
      (module_service_new d started, g0) (s, g) (Finished r)" and "\<not> panics r"
  shows "concurrent_request st now m (s, g) =
      on_meter (mqtt_concurrent_meter_reading (st_env st) (st_meter_reading st) (mo_millis now) False m (sv_master_address s)) (s, g)
    \<and> keeps (\<lambda>s. service_flag s = v) (uart_msg_handler st now um) \<and> keeps (\<lambda>s. service_flag s = v) (handle_timeout st req)"
proof -
  have requests: "ends service_flag (\<lambda>_ u. u = False) False p"
    if "p \<in> {p. \<exists>now m. p = dispatch_request st now matches filters m}" for p
    using that ends_dispatch by blast
  have "ends_run service_flag (\<lambda>_ u. u = False) (Finished r) (service_flag (fst (s, g)))"
    using one_thread_ends [OF assms(1) requests] by (simp add: service_flag_def module_service_new_def line_state_new_def)
  with assms(2) have "\<not> service_flag s" by (cases r) simp_all
  then have "concurrent_request st now m (s, g) =
      on_meter (mqtt_concurrent_meter_reading (st_env st) (st_meter_reading st) (mo_millis now) False m (sv_master_address s)) (s, g)"
    by (simp add: concurrent_request_def service_flag_def)
  then show ?thesis by (simp add: flag_kept_by_answers)
qed

theorem readings_never_kept_back_witness:
  "\<forall>now. \<exists>s g. one_thread service_flag {p. \<exists>now m. p = dispatch_request sample_setting now (\<lambda>_ _. False) [] m}
      (module_service_new () ''now'', \<lparr>SEQ = 5, TOKEN = 0\<rparr>) (s, g) (Finished (Ok None))
    \<and> concurrent_request sample_setting now serial_answer (s, g) =
      on_meter (mqtt_concurrent_meter_reading (st_env sample_setting) (st_meter_reading sample_setting) (mo_millis now) False serial_answer
        (sv_master_address s)) (s, g)"
proof
  fix now
  let ?w = "(module_service_new () ''now'' :: (unit, unit) module_service, \<lparr>SEQ = 5, TOKEN = 0\<rparr>)"
  let ?P = "{p. \<exists>now m. p = dispatch_request sample_setting now (\<lambda>_ _. False) [] m}"
  have turn: "dispatch_request sample_setting now (\<lambda>_ _. False) [] serial_answer ?w = ([], ?w, Finished (Ok None))"
    by (simp add: dispatch_request_def find_filter_def give_def)
  have run: "one_thread service_flag ?P ?w ?w (Finished (Ok None))"
    by (rule one_thread.take [where p = "dispatch_request sample_setting now (\<lambda>_ _. False) [] serial_answer"
          and r = "Ok None", OF one_thread.ready]) (use turn in auto)
  from readings_never_kept_back [OF run, of now serial_answer] run
  show "\<exists>s g. one_thread service_flag ?P ?w (s, g) (Finished (Ok None))
    \<and> concurrent_request sample_setting now serial_answer (s, g) =
      on_meter (mqtt_concurrent_meter_reading (st_env sample_setting) (st_meter_reading sample_setting) (mo_millis now) False
        serial_answer (sv_master_address s)) (s, g)"
    by (intro exI [of _ "fst ?w"] exI [of _ "snd ?w"] conjI) simp_all
qed

end
