(* ===== verification/Reading_Path.thy ===== *)
theory Reading_Path
  imports Metering_Flag Uart_Agent
begin

text \<open>
  The path of a meter reading through all parts of the service: the message of an application
  (\<open>dispatch_request\<close>, \<open>Concurrent_Meter\<close>), the frame to the module and its entry in the table of the serial
  agent (\<open>Uart_Agent\<close>), the bytes of the answer (\<open>Stream_Reader\<close>), the request they answer, and the report to
  the application (\<open>Uart_Dispatch\<close>). Each section is one stage; the property puts them together.
\<close>

section \<open>Topics\<close>

definition report_concurrent :: "string \<Rightarrow> string" where
  "report_concurrent app = APP_NAME @ ''/notify/spont/'' @ app @ ''/reportConcurrent''"

lemma reading_registered: "(''get'', ''concurrent'', T_ConcurrentMeter, ''concurrent_meter_schema.json'') \<in> set registrations"
  by (simp add: registrations_def concurrent_meter_topics_def)

lemma request_of_text:
  "request_of app ''get'' ''concurrent'' = mqtt_topic_to_string \<lparr>mt_app = app, mt_operator = GetOp,
     mt_info_type = Request, mt_info_target = APP_NAME, mt_info_object = ''concurrent''\<rparr>"
  by (simp add: request_of_def mqtt_topic_to_string_def join_with_Cons)

lemma reading_topics:
  assumes "CHR ''/'' \<notin> set app"
  shows "get_app (request_of app ''get'' ''concurrent'') = Ok app"
    and "transfer_topic (app @ ''/notify/spont/'' @ APP_NAME @ ''/reportConcurrent'') = Ok (report_concurrent app)"
    and "transfer_topic (request_of app ''get'' ''concurrent'') = Ok (APP_NAME @ ''/get/response/'' @ app @ ''/concurrent'')"
proof -
  have plain: "plain (''get'', ''concurrent'', T_ConcurrentMeter, ''concurrent_meter_schema.json'')"
    by (simp add: plain_def)
  show "get_app (request_of app ''get'' ''concurrent'') = Ok app"
    using plain_levels [OF plain assms] by (simp add: get_app_def)
  let ?t = "\<lparr>mt_app = app, mt_operator = NotifyOp, mt_info_type = Spont, mt_info_target = APP_NAME,
    mt_info_object = ''reportConcurrent''\<rparr>"
  have "service_topic ?t" using assms by (simp add: service_topic_def APP_NAME_def)
  then have "transfer_topic (mqtt_topic_to_string ?t) = Ok (mqtt_topic_to_string (reply_topic ?t))"
    by (intro transfer_topic_accepted topic_roundtrip)
  then show "transfer_topic (app @ ''/notify/spont/'' @ APP_NAME @ ''/reportConcurrent'') = Ok (report_concurrent app)"
    by (simp add: mqtt_topic_to_string_def join_with_Cons reply_topic_def report_concurrent_def)
  let ?r = "\<lparr>mt_app = app, mt_operator = GetOp, mt_info_type = Request, mt_info_target = APP_NAME,
    mt_info_object = ''concurrent''\<rparr>"
  have "service_topic ?r" using assms by (simp add: service_topic_def APP_NAME_def)
  then have "transfer_topic (mqtt_topic_to_string ?r) = Ok (mqtt_topic_to_string (reply_topic ?r))"
    by (intro transfer_topic_accepted topic_roundtrip)
  then show "transfer_topic (request_of app ''get'' ''concurrent'') = Ok (APP_NAME @ ''/get/response/'' @ app @ ''/concurrent'')"
    unfolding request_of_text by (simp add: mqtt_topic_to_string_def join_with_Cons reply_topic_def)
qed

section \<open>The request\<close>

text \<open>A message that asks for a reading the service can send: its address, protocol and data are texts of bytes.\<close>

definition readable :: "env \<Rightarrow> mqtt_message \<Rightarrow> string \<Rightarrow> sample_payload \<Rightarrow> address \<Rightarrow> u8 \<Rightarrow> u8 list \<Rightarrow> bool" where
  "readable env m token p meter protocol data \<longleftrightarrow>
     get_token m = Ok token \<and> message_sample_payload m = Ok p
     \<and> address_from_str (env_hex_decode env) (sp_acq_addr p) = Ok meter
     \<and> parse_u8 (sp_pro_type p) = Ok protocol \<and> env_hex_decode env (sp_data p) = Some data"

definition reading_fields :: "address \<Rightarrow> address \<Rightarrow> address_field" where
  "reading_fields master meter = \<lparr>src_address = master, relay_address = None, dst_address = meter\<rparr>"

definition reading_data :: "u8 \<Rightarrow> u8 list \<Rightarrow> app_data" where
  "reading_data protocol data =
     concurrent_read_meter_request_to_app_data (concurrent_read_meter_request_new protocol data)"

text \<open>What is kept with the request until it is answered.\<close>

definition reading_req_info :: "string \<Rightarrow> string \<Rightarrow> sample_payload \<Rightarrow> u8 \<Rightarrow> req_info" where
  "reading_req_info app token p seq =
     \<lparr>ri_mqtt_req_info = Some \<lparr>mri_topic = report_concurrent app, mri_token = token, mri_extra_data = Some (ExtraSample p)\<rparr>,
      ri_frame_key = FrameKey CocurrentReadMeter ACTIVE_READ_METER, ri_seq_num = seq, ri_origin_req_key = None\<rparr>"

lemma reading_request:
  assumes "readable env m token p meter protocol data" and "CHR ''/'' \<notin> set app"
    and "mm_topic m = request_of app ''get'' ''concurrent''"
    and f: "frame_new False seq (Some (reading_fields master meter)) (reading_data protocol data) = Ok f"
  shows "mqtt_meter_reading_handler env m master seq =
    Ok (ToConcurrent (uart_message_new (reading_req_info app token p seq) f), seq + 1)"
proof -
  have "frame_get_seq f = seq" "frame_key_of f = Ok (FrameKey CocurrentReadMeter ACTIVE_READ_METER)"
    using frame_new_sel [OF f]
    by (simp_all add: frame_key_of_def reading_data_def concurrent_read_meter_request_to_app_data_def)
  with assms reading_topics [OF assms(2)] show ?thesis
    by (simp add: mqtt_meter_reading_handler_def readable_def Let_def frame_new_request_def reading_fields_def
        reading_data_def req_info_new_with_mqtt_def mqtt_req_info_new_def req_info_new_def reading_req_info_def)
qed

text \<open>The reply that a request has been taken, and the report of a reading.\<close>

definition taken_reply :: "env \<Rightarrow> string \<Rightarrow> string \<Rightarrow> mqtt_message" where
  "taken_reply env app token =
     \<lparr>mm_topic = APP_NAME @ ''/get/response/'' @ app @ ''/concurrent'',
      mm_payload = Some (JObj [(''token'', JStr token), (''timestamp'', JStr (env_now env)), (''status'', JStr ''OK''),
        (''reason'', JStr ''OK'')])\<rparr>"

definition reading_report :: "env \<Rightarrow> string \<Rightarrow> string \<Rightarrow> sample_payload \<Rightarrow> u8 list \<Rightarrow> mqtt_message" where
  "reading_report env app token p bytes =
     \<lparr>mm_topic = report_concurrent app,
      mm_payload = Some (JObj [(''token'', JStr token), (''timestamp'', JStr (env_now env)), (''status'', JStr ''OK''),
        (''reason'', JStr ''OK''), (''taskID'', JStr (sp_task_id p)), (''acqAddr'', JStr (sp_acq_addr p)),
        (''proType'', JStr (sp_pro_type p)), (''data'', JStr (env_hex_encode env bytes))])\<rparr>"

lemma reading_accepted:
  assumes m: "readable env m token p meter protocol data" "CHR ''/'' \<notin> set app"
      "mm_topic m = request_of app ''get'' ''concurrent''"
    and f: "frame_new False (cm_seq s) (Some (reading_fields master meter)) (reading_data protocol data) = Ok f"
    and idle: "\<not> fst (meter_view s (sp_acq_addr p))"
    and room: "map_of (cm_cache s) (sp_acq_addr p) \<noteq> None \<or> concurrent_addr_num (cm_cache s) < mrc_concurrent_addr config"
  shows "\<exists>s'. mqtt_concurrent_meter_reading env config now False m master s =
      (Ok (), [ToConcurrent (uart_message_new (reading_req_info app token p (cm_seq s)) f), ToMqtt (taken_reply env app token)], s')
    \<and> cm_seq s' = cm_seq s + 1 \<and> fst (meter_view s' (sp_acq_addr p))"
proof -
  let ?a = "sp_acq_addr p"
  obtain c where c: "map_of (cm_cache (with_entry now ?a s)) ?a = Some c" "\<not> sc_is_waiting_response c"
    using idle by (cases "map_of (cm_cache s) ?a") (auto simp: with_entry_def update_conv' sample_cache_new_def views)
  have "mqtt_meter_reading_handler env m master (cm_seq (with_entry now ?a s)) =
      Ok (ToConcurrent (uart_message_new (reading_req_info app token p (cm_seq s)) f), cm_seq s + 1)"
    using reading_request [OF m f] by (simp add: with_entry_def)
  with c room have "\<exists>s'. handle_meter_reading env config now False m master ?a s =
      (Ok (), [ToConcurrent (uart_message_new (reading_req_info app token p (cm_seq s)) f)], s')
    \<and> cm_seq s' = cm_seq s + 1 \<and> fst (meter_view s' ?a)"
    by (auto simp: handle_meter_reading_def Let_def views update_conv' simp flip: with_entry_def)
  with m reading_topics [OF m(2)] show ?thesis
    by (auto simp: mqtt_concurrent_meter_reading_def readable_def mqtt_message_new_def mqtt_payload_to_json_def
        mqtt_payload_new_with_token_def taken_reply_def SUCCESS_def split: prod.splits)
qed

lemma reading_dispatched:
  assumes topics: "topic_wildcards matches" "valid_app app"
    and m: "readable (st_env st) m token p meter protocol data" "mm_topic m = request_of app ''get'' ''concurrent''"
    and f: "frame_new False (SEQ g) (Some (reading_fields (sv_master_address s) meter)) (reading_data protocol data) = Ok f"
    and idle: "\<not> fst (cache_view (sv_meter_cache s) (sp_acq_addr p))" "\<not> ln_metering (sv_line s)"
    and room: "map_of (sv_meter_cache s) (sp_acq_addr p) \<noteq> None
      \<or> concurrent_addr_num (sv_meter_cache s) < mrc_concurrent_addr (st_meter_reading st)"
  shows "\<exists>s'. dispatch_request st now matches (registered_filters parse_schema) m (s, g) =
      ([ToConcurrent (uart_message_new (reading_req_info app token p (SEQ g)) f), ToMqtt (taken_reply (st_env st) app token)],
       (s', g\<lparr>SEQ := SEQ g + 1\<rparr>), Finished (Ok None))
    \<and> fst (cache_view (sv_meter_cache s') (sp_acq_addr p))"
proof -
  let ?s = "\<lparr>cm_cache = sv_meter_cache s, cm_seq = SEQ g\<rparr>"
  have app: "CHR ''/'' \<notin> set app" using topics(2) by (simp add: valid_app_def)
  obtain s' where s': "mqtt_concurrent_meter_reading (st_env st) (st_meter_reading st) (mo_millis now) False m
        (sv_master_address s) ?s =
      (Ok (), [ToConcurrent (uart_message_new (reading_req_info app token p (SEQ g)) f), ToMqtt (taken_reply (st_env st) app token)], s')"
    and "cm_seq s' = SEQ g + 1" "fst (cache_view (cm_cache s') (sp_acq_addr p))"
    using reading_accepted [OF m(1) app m(2), of ?s "sv_master_address s" f "st_meter_reading st" "mo_millis now"] f idle(1) room
    by (auto simp: meter_view_def)
  then show ?thesis
    using requests_registered [OF topics reading_registered, of parse_schema] m(2) idle(2)
    by (simp add: dispatch_request_def handle_request_def completes_def concurrent_request_def on_meter_def
        catch_def andDo_def ask_def give_def)
qed

section \<open>The serial agent\<close>

text \<open>The request is taken by the thread of the concurrent requests, and its frame is written.\<close>

definition writes_reading :: "uart_message \<Rightarrow> agent \<Rightarrow> agent" where
  "writes_reading u a = concurrent_write True u (ag_next_timer a) (concurrent_recv u a)"

lemma reading_written:
  assumes "\<not> ag_poisoned a" and "ag_concurrent a = ConcurrentIdle" and "ag_concurrent_queue a = []" and "numbered u"
  shows "agent_step\<^sup>*\<^sup>* a (writes_reading u a)"
    and "ag_table (writes_reading u a) (frame_get_seq (um_frame u)) = Some (um_req_info u, ag_next_timer a)"
proof -
  let ?q = "a\<lparr>ag_concurrent_queue := ag_concurrent_queue a @ [u]\<rparr>"
  have queued: "agent_step a ?q" by (rule agent_step.send_concurrent [OF assms(4)])
  have "?q\<lparr>ag_concurrent_queue := []\<rparr> = a" using assms(3) by simp
  moreover have "agent_step ?q (concurrent_recv u (?q\<lparr>ag_concurrent_queue := []\<rparr>))"
    by (rule agent_step.concurrent_recv) (use assms in simp_all)
  ultimately have taken: "agent_step ?q (concurrent_recv u a)" by simp
  have written: "agent_step (concurrent_recv u a) (writes_reading u a)"
    unfolding writes_reading_def
    by (rule agent_step.concurrent_write) (use assms(1) in \<open>simp_all add: concurrent_recv_def Let_def\<close>)
  from queued taken written show "agent_step\<^sup>*\<^sup>* a (writes_reading u a)"
    by (meson converse_rtranclp_into_rtranclp rtranclp.rtrancl_refl)
  show "ag_table (writes_reading u a) (frame_get_seq (um_frame u)) = Some (um_req_info u, ag_next_timer a)"
    by (simp add: writes_reading_def concurrent_write_def Let_def)
qed

text \<open>As long as the request is in the table, its answer is handed over with it.\<close>

lemma answer_classified:
  assumes "ag_table a (frame_get_seq r) = Some (q, t)" and "\<not> is_slave_report r"
  shows "classify_response r a = Ok (a\<lparr>ag_table := (ag_table a)(frame_get_seq r := None),
    ag_timers := drop_guard t (ag_timers a), ag_log := ag_log a @ [Handled FromConcurrent q r]\<rparr>)"
  using assms by (simp add: classify_response_def)

section \<open>The answer\<close>

definition reading_answer :: "frame \<Rightarrow> u8 \<Rightarrow> u8 list \<Rightarrow> bool" where
  "reading_answer r protocol bytes \<longleftrightarrow>
     frame_ok r \<and> \<not> is_slave_report r \<and> bytes \<noteq> [] \<and> length bytes < 65536
     \<and> ud_app_data (fr_user_data r) = app_data_new CocurrentReadMeter ACTIVE_READ_METER
         (Some ([protocol] @ u16_to_le (of_nat (length bytes)) @ bytes))"

lemma reading_reported:
  assumes r: "reading_answer r protocol bytes" and hex: "env_hex_encode (st_env st) bytes \<noteq> []"
  shows "\<exists>acts w r'. uart_msg_handler st now (uart_message_new (reading_req_info app token p seq) r) (s, g) =
    (ToMqtt (reading_report (st_env st) app token p bytes) # acts, w, r')"
proof -
  let ?u = "uart_message_new (reading_req_info app token p seq) r"
  let ?d = "ud_app_data (fr_user_data r)"
  have "concurrent_read_meter_response_try_from ?d =
      Ok \<lparr>crr_protocol_type = protocol, crr_message_len = of_nat (length bytes), crr_message = bytes\<rparr>"
    using r concurrent_read.decode_Ok_iff [of ?d "\<lparr>crr_protocol_type = protocol, crr_message_len = of_nat (length bytes),
        crr_message = bytes\<rparr>"]
    by (simp add: reading_answer_def unat_of_nat_u16)
  moreover have "frame_is_deny r = Ok False"
    using r by (simp add: reading_answer_def frame_is_deny_def frame_afn_def)
  ultimately have "uart_response_handler (st_env st) concurrent_read_meter_response_try_from
      (sample_payload_from_response (st_env st)) (sample_payload_into_mqtt_message (st_env st)) ?u =
      Ok [ToMqtt (reading_report (st_env st) app token p bytes)]"
    using hex
    by (simp add: uart_response_handler_def uart_response_try_from_def uart_message_new_def reading_req_info_def
        sample_payload_from_response_def sample_payload_into_mqtt_message_def Let_def new_with_req_info_body_def
        mqtt_message_new_def mqtt_payload_to_json_def mqtt_payload_new_with_token_def sample_payload_to_json_def
        reading_report_def SUCCESS_def)
  then have "\<exists>acts s' r'. uart_meter_reading (st_env st) ?u master x =
      (r', ToMqtt (reading_report (st_env st) app token p bytes) # acts, s')" for master x
    by (auto simp: uart_meter_reading_def concurrent_acq_addr_def uart_message_new_def reading_req_info_def split: prod.split)
  then obtain acts s' r' where "uart_meter_reading (st_env st) ?u (sv_master_address s)
      \<lparr>cm_cache = sv_meter_cache s, cm_seq = SEQ g\<rparr> = (r', ToMqtt (reading_report (st_env st) app token p bytes) # acts, s')"
    by blast
  then show ?thesis
    using r
    by (simp add: reading_answer_def uart_msg_handler_def is_init_def uart_message_new_def reading_req_info_def
        uart_mqtt_handler_def uart_read_meter_handler_def only_fn_def message_received_def on_meter_def split_beta)
qed

section \<open>The timeout\<close>

definition timeout_report :: "env \<Rightarrow> string \<Rightarrow> string \<Rightarrow> sample_payload \<Rightarrow> mqtt_message" where
  "timeout_report env app token p =
     \<lparr>mm_topic = report_concurrent app,
      mm_payload = Some (JObj [(''token'', JStr token), (''timestamp'', JStr (env_now env)), (''status'', JStr ''FAILURE''),
        (''reason'', JStr ''request timeout''), (''taskID'', JStr (sp_task_id p)), (''acqAddr'', JStr (sp_acq_addr p)),
        (''proType'', JStr (sp_pro_type p)), (''data'', JStr (sp_data p))])\<rparr>"

lemma timed_out_reported:
  "\<exists>acts w' r. handle_timeout st (reading_req_info app token p seq) (s, g) =
      (ToMqtt (timeout_report (st_env st) app token p) # acts, w', r)
    \<and> (snd (cache_view (sv_meter_cache s) (sp_acq_addr p)) = []
        \<longrightarrow> acts = [] \<and> r = Finished (Ok ()) \<and> \<not> fst (cache_view (sv_meter_cache (fst w')) (sp_acq_addr p)))"
proof -
  let ?mqtt = "the (ri_mqtt_req_info (reading_req_info app token p seq))"
  let ?s = "\<lparr>cm_cache = sv_meter_cache s, cm_seq = SEQ g\<rparr>"
  obtain r acts s' where started: "handle_next_request (st_env st) (sp_acq_addr p) (sv_master_address s) ?s = (r, acts, s')"
    by (metis prod_cases3)
  have "snd (cache_view (sv_meter_cache s) (sp_acq_addr p)) = []
      \<longrightarrow> acts = [] \<and> r = Ok () \<and> \<not> fst (cache_view (cm_cache s') (sp_acq_addr p))"
    using started by (auto simp: handle_next_request_def cache_view_def update_conv' split: option.splits list.splits)
  moreover have "uart_meter_reading_timeout (st_env st) ?mqtt (sv_master_address s) ?s =
      (r, ToMqtt (timeout_report (st_env st) app token p) # acts, s')"
    using started
    by (simp add: uart_meter_reading_timeout_def reading_req_info_def mqtt_message_new_def mqtt_payload_to_json_def
        mqtt_payload_new_def sample_payload_to_json_def timeout_report_def)
  ultimately show ?thesis
    by (simp add: handle_timeout_def handle_concurrent_read_meter_timeout_def only_fn_def reading_req_info_def on_meter_def)
qed

section \<open>The frame of a request\<close>

lemma reading_frame:
  assumes "length data < 65000"
  obtains f where "frame_new False seq (Some (reading_fields master meter)) (reading_data protocol data) = Ok f"
    "frame_ok f" "frame_get_seq f = seq" "ud_app_data (fr_user_data f) = reading_data protocol data"
    "ud_address_field (fr_user_data f) = Some (reading_fields master meter)"
proof -
  let ?a = "Some (reading_fields master meter)" and ?d = "reading_data protocol data"
  obtain f where f: "frame_new False seq ?a ?d = Ok f" by (auto simp: frame_new_Ok)
  have "well_addressed ?a ?d"
    by (simp add: well_addressed_def get_comm_mark_def reading_fields_def reading_data_def
        concurrent_read_meter_request_to_app_data_def)
  moreover have "app_data_try_from (app_data_to_vec ?d) = Ok ?d"
    by (simp add: reading_data_def concurrent_read_meter_request_to_app_data_def)
  moreover have "frame_total_length ?a ?d < 65536"
    using assms
    by (simp add: frame_total_length_def frame_sizes INFO_FIELD_SIZE_def address_field_length_def reading_fields_def
        reading_data_def concurrent_read_meter_request_to_app_data_def concurrent_read_meter_request_new_def
        app_data_length_def data_length_def ADDR_LEN_def AFN_SIZE_def DATA_FLAG_SIZE_def app_data_new_def u16_to_le_def)
  ultimately have "frame_ok f" by (rule frame_new_frame_ok [OF f])
  then show thesis
    by (rule that [OF f]) (simp_all add: frame_new_sel [OF f] user_data_new_def)
qed

section \<open>Property\<close>

text \<open>C2: A meter reading comes back to the application that asked for it. The message selects the reading, and is
  answered with a reply and a request to the module, whose bytes are read as exactly the addresses, protocol and
  data of the message. The serial agent writes it and keeps it under its number. However the line cuts the
  answer of the module into reads, the answer is reassembled, is handed over with this request as long as the request has not
  timed out, and makes the service report the data to the application under its token, whatever state the
  services are in by then.\<close>

theorem reading_is_answered:
  assumes topics: "topic_wildcards matches" "valid_app app"
    and m: "readable (st_env st) m token p meter protocol data" "mm_topic m = request_of app ''get'' ''concurrent''"
      "length data < 65000"
    and idle: "\<not> fst (cache_view (sv_meter_cache s) (sp_acq_addr p))" "\<not> ln_metering (sv_line s)"
    and room: "map_of (sv_meter_cache s) (sp_acq_addr p) \<noteq> None
      \<or> concurrent_addr_num (sv_meter_cache s) < mrc_concurrent_addr (st_meter_reading st)"
    and agent: "\<not> ag_poisoned a" "ag_concurrent a = ConcurrentIdle" "ag_concurrent_queue a = []"
    and r: "reading_answer r protocol' bytes" "frame_get_seq r = SEQ g" "env_hex_encode (st_env st) bytes \<noteq> []"
    and pieces: "concat pieces = frame_to_bytes r" "[] \<notin> set pieces"
  shows "\<exists>u s'. dispatch_request st now matches (registered_filters parse_schema) m (s, g) =
        ([ToConcurrent u, ToMqtt (taken_reply (st_env st) app token)], (s', g\<lparr>SEQ := SEQ g + 1\<rparr>), Finished (Ok None))
    \<and> frame_try_from (frame_to_bytes (um_frame u)) = Ok (um_frame u)
    \<and> ud_address_field (fr_user_data (um_frame u)) = Some (reading_fields (sv_master_address s) meter)
    \<and> ud_app_data (fr_user_data (um_frame u)) = reading_data protocol data
    \<and> agent_step\<^sup>*\<^sup>* a (writes_reading u a)
    \<and> reader_run [] (map Bytes pieces) = ([r], Waiting [])
    \<and> (\<forall>a'. ag_table a' (SEQ g) = ag_table (writes_reading u a) (SEQ g) \<longrightarrow>
        (\<exists>a''. classify_response r a' = Ok a'' \<and> ag_log a'' = ag_log a' @ [Handled FromConcurrent (um_req_info u) r]))
    \<and> (\<forall>later w. \<exists>acts w' r'. uart_msg_handler st later (uart_message_new (um_req_info u) r) w =
        (ToMqtt (reading_report (st_env st) app token p bytes) # acts, w', r'))"
proof -
  let ?q = "reading_req_info app token p (SEQ g)"
  obtain f where f: "frame_new False (SEQ g) (Some (reading_fields (sv_master_address s) meter)) (reading_data protocol data) = Ok f"
    and ok: "frame_ok f" and parts: "frame_get_seq f = SEQ g" "ud_app_data (fr_user_data f) = reading_data protocol data"
      "ud_address_field (fr_user_data f) = Some (reading_fields (sv_master_address s) meter)"
    using reading_frame [OF m(3)] by blast
  let ?u = "uart_message_new ?q f"
  have num: "numbered ?u" by (simp add: numbered_def uart_message_new_def reading_req_info_def parts)
  note written = reading_written [OF agent num]
  have "reader_run [] (map Bytes pieces) = ([r], Waiting [])"
    using reader_reassembles [of "[r]" "[frame_to_bytes r]" "[]" pieces] r(1) pieces frame_ok_wire
    by (simp add: reading_answer_def)
  moreover have "frame_try_from (frame_to_bytes f) = Ok f"
    using frame_ok_wire [OF ok] by (simp add: wire_frame_def)
  moreover have "\<exists>a''. classify_response r a' = Ok a'' \<and> ag_log a'' = ag_log a' @ [Handled FromConcurrent ?q r]"
    if "ag_table a' (SEQ g) = ag_table (writes_reading ?u a) (SEQ g)" for a'
    using that written(2) answer_classified [of a' r ?q] r(1,2) parts by (simp add: uart_message_new_def reading_answer_def)
  moreover have "\<exists>acts w' r'. uart_msg_handler st later (uart_message_new ?q r) w =
      (ToMqtt (reading_report (st_env st) app token p bytes) # acts, w', r')" for later w
    using reading_reported [OF r(1,3)] by (cases w) blast
  ultimately show ?thesis
    using reading_dispatched [OF topics m(1,2) f idle room, of now parse_schema] written(1) parts
    by (intro exI [of _ ?u]) (auto simp: uart_message_new_def)
qed

text \<open>C3: A meter reading that is not answered is reported too. When the timer of the request is due, it is taken from
  the table and its handler reports the failure to the application under its token; where no other request
  waits for this meter, the meter is free again.\<close>

theorem reading_times_out:
  assumes agent: "\<not> ag_poisoned a" "ag_firing a = None" "ag_table a seq = None"
    and u: "um_req_info u = reading_req_info app token p seq" "frame_get_seq (um_frame u) = seq"
  shows "\<exists>a'. agent_step\<^sup>*\<^sup>* (writes_reading u a) a' \<and> ag_table a' seq = None \<and> \<not> ag_poisoned a'
    \<and> ag_log a' = ag_log (writes_reading u a) @ [TimedOut FromConcurrent (um_req_info u)]
    \<and> (\<forall>w. \<exists>acts w' r. handle_timeout st (um_req_info u) w = (ToMqtt (timeout_report (st_env st) app token p) # acts, w', r)
        \<and> (snd (cache_view (sv_meter_cache (fst w)) (sp_acq_addr p)) = []
            \<longrightarrow> acts = [] \<and> r = Finished (Ok ()) \<and> \<not> fst (cache_view (sv_meter_cache (fst w')) (sp_acq_addr p))))"
proof -
  let ?t = "ag_next_timer a"
  let ?b = "writes_reading u a"
  let ?f = "timer_fire ?t seq ?b"
  have "ag_table ?b seq = Some (um_req_info u, ?t)" "(?t, seq) \<in> set (ag_timers ?b)" "ag_firing ?b = None" "\<not> ag_poisoned ?b"
    using agent u(2) by (simp_all add: writes_reading_def concurrent_write_def concurrent_recv_def Let_def)
  moreover from this have "agent_step ?b ?f" by (intro agent_step.timer_fire)
  moreover have "agent_step ?f (timer_body seq ?f)"
    using calculation(4) by (intro agent_step.timer_body [where t = ?t]) (simp_all add: timer_fire_def)
  moreover have "ag_table (timer_body seq ?f) seq = None \<and> \<not> ag_poisoned (timer_body seq ?f)
      \<and> ag_log (timer_body seq ?f) = ag_log ?b @ [TimedOut FromConcurrent (um_req_info u)]"
    using calculation(1,4) by (simp add: timer_body_def timer_fire_def)
  moreover have "\<exists>acts w' r. handle_timeout st (um_req_info u) w = (ToMqtt (timeout_report (st_env st) app token p) # acts, w', r)
      \<and> (snd (cache_view (sv_meter_cache (fst w)) (sp_acq_addr p)) = []
          \<longrightarrow> acts = [] \<and> r = Finished (Ok ()) \<and> \<not> fst (cache_view (sv_meter_cache (fst w')) (sp_acq_addr p)))" for w
    using timed_out_reported [of st app token p seq "fst w" "snd w"] by (simp add: u(1))
  ultimately show ?thesis by (intro exI [of _ "timer_body seq ?f"]) (blast intro: converse_rtranclp_into_rtranclp)
qed

text \<open>A module that answers the reading of one meter with two bytes.\<close>

definition sample_answer :: "u8 \<Rightarrow> frame" where
  "sample_answer seq =
     (let u = \<lparr>ud_info_field = info_field_new UpType seq 0 1,
               ud_address_field = Some (reading_fields (Address 1 2 3 4 5 6) (Address 0 0 0 0 0 9)),
               ud_app_data = app_data_new CocurrentReadMeter ACTIVE_READ_METER (Some [2, 2, 0, 0x68, 0x16])\<rparr>;
          c = \<lparr>ctrl_dir = DirUp, ctrl_prm = Slave, ctrl_comm = Hplc\<rparr>
      in \<lparr>fr_header = header_new (of_nat (FRAME_SIZE + user_data_length u)), fr_ctrl_field = c, fr_user_data = u,
          fr_checksum = calc_checksum (ctrl_field_to_u8 c # user_data_to_vec u), fr_tail = TAIL\<rparr>)"

lemma sample_answer:
  "reading_answer (sample_answer seq) 2 [0x68, 0x16]" "frame_get_seq (sample_answer seq) = seq"
  using app_data_roundtrip [of "Some [2, 2, 0, 0x68, 0x16]" CocurrentReadMeter ACTIVE_READ_METER]
  by (simp_all add: reading_answer_def sample_answer_def Let_def frame_ok_def header_new_def frame_sizes user_data_length_def
      INFO_FIELD_SIZE_def address_field_length_def reading_fields_def app_data_length_def data_length_def ADDR_LEN_def
      AFN_SIZE_def DATA_FLAG_SIZE_def app_data_new_def get_info_field_type_def user_data_ok_def address_matches_def
      info_field_up_default_def is_slave_report_def frame_get_seq_def user_data_get_seq_def u16_to_le_def)

lemma sample_readable:
  "readable sample_env (reading_message ''11'') ''7'' (sample_reading ''11'') (Address 1 2 3 4 5 6) 2 [1, 2, 3, 4, 5, 6]"
proof -
  have "get_token (reading_message ''11'') = Ok ''7''" by (simp add: get_token_def reading_message_def)
  then show ?thesis
    by (simp add: readable_def reading_message_payload address_from_str_def sample_env_def sample_reading_def parse_u8_def
        parse_below_def Let_def)
qed

theorem reading_is_answered_witness:
  "\<forall>now. \<exists>u w. dispatch_request (sample_setting\<lparr>st_env := sample_env\<rparr>) now plus_matches (registered_filters (\<lambda>_. None))
        (reading_message ''11'') (module_service_new () ''now'', \<lparr>SEQ = 5, TOKEN = 0\<rparr>) =
      ([ToConcurrent u, ToMqtt (taken_reply sample_env ''app'' ''7'')], w, Finished (Ok None))
    \<and> agent_step\<^sup>*\<^sup>* agent_new (writes_reading u agent_new)
    \<and> reader_run [] (map Bytes [take 5 (frame_to_bytes (sample_answer 5)), drop 5 (frame_to_bytes (sample_answer 5))])
        = ([sample_answer 5], Waiting [])"
proof
  fix now
  let ?st = "sample_setting\<lparr>st_env := sample_env\<rparr>"
  let ?s = "module_service_new () ''now'' :: (unit, unit) module_service" and ?g = "\<lparr>SEQ = 5, TOKEN = 0\<rparr>"
  let ?pieces = "[take 5 (frame_to_bytes (sample_answer 5)), drop 5 (frame_to_bytes (sample_answer 5))]"
  have "length (frame_to_bytes (sample_answer 5)) > 5"
    using wire_frame_min [OF frame_ok_wire] sample_answer(1) [of 5] by (force simp: reading_answer_def)
  then have pieces: "concat ?pieces = frame_to_bytes (sample_answer 5)" "[] \<notin> set ?pieces" by auto
  note answered = reading_is_answered [where matches = plus_matches and app = "''app''" and st = ?st and
      m = "reading_message ''11''" and s = ?s and g = ?g and a = agent_new and r = "sample_answer 5" and pieces = ?pieces
      and parse_schema = "\<lambda>_. None" and now = now, OF _ _ _ _ _ _ _ _ _ _ _ sample_answer(1) _ _ pieces]
  show "\<exists>u w. dispatch_request ?st now plus_matches (registered_filters (\<lambda>_. None)) (reading_message ''11'') (?s, ?g) =
      ([ToConcurrent u, ToMqtt (taken_reply sample_env ''app'' ''7'')], w, Finished (Ok None))
    \<and> agent_step\<^sup>*\<^sup>* agent_new (writes_reading u agent_new)
    \<and> reader_run [] (map Bytes ?pieces) = ([sample_answer 5], Waiting [])"
    using answered [of "''7''" "sample_reading ''11''" "Address 1 2 3 4 5 6" 2 "[1, 2, 3, 4, 5, 6]"] sample_readable
    by (auto simp: topic_wildcards_def valid_app_def reading_message_def request_of_def APP_NAME_def module_service_new_def
        cache_view_def line_state_new_def concurrent_addr_num_def sample_setting_def sample_config_def agent_new_def
        sample_answer(2) sample_env_def)
qed

theorem reading_times_out_witness:
  "\<exists>(u :: uart_message) a'. frame_get_seq (um_frame u) = 5 \<and> agent_step\<^sup>*\<^sup>* agent_new a'
    \<and> ag_log a' = [Took FromConcurrent False (um_req_info u), TimedOut FromConcurrent (um_req_info u)]"
proof -
  let ?p = "sample_reading ''11''"
  obtain f where f: "frame_get_seq f = 5"
    by (rule reading_frame [of "[1, 2, 3]" 5 address_default "Address 1 2 3 4 5 6" 2]) auto
  let ?u = "uart_message_new (reading_req_info ''app'' ''7'' ?p 5) f"
  have u: "um_req_info ?u = reading_req_info ''app'' ''7'' ?p 5" "um_frame ?u = f" by (simp_all add: uart_message_new_def)
  have "numbered ?u" by (simp add: numbered_def u f) (simp add: reading_req_info_def)
  then have written: "agent_step\<^sup>*\<^sup>* agent_new (writes_reading ?u agent_new)"
    by (intro reading_written) (simp_all add: agent_new_def)
  obtain a' where run: "agent_step\<^sup>*\<^sup>* (writes_reading ?u agent_new) a'"
    and log: "ag_log a' = ag_log (writes_reading ?u agent_new) @ [TimedOut FromConcurrent (um_req_info ?u)]"
    using reading_times_out [of agent_new 5 ?u "''app''" "''7''" ?p sample_setting] by (auto simp: agent_new_def u f)
  have "agent_step\<^sup>*\<^sup>* agent_new a'" by (rule rtranclp_trans [OF written run])
  moreover have "ag_log a' = [Took FromConcurrent False (um_req_info ?u), TimedOut FromConcurrent (um_req_info ?u)]"
    using log by (simp add: writes_reading_def concurrent_write_def concurrent_recv_def agent_new_def drop_old_def Let_def)
  moreover have "frame_get_seq (um_frame ?u) = 5" using f u by simp
  ultimately show ?thesis by blast
qed

end
