(* ===== verification/Configuration.thy ===== *)
theory Configuration
  imports Service_Threads Concurrent_Meter
begin

text \<open>
  src/src/config.rs, the arguments of src/src/cli.rs that change it, and the settings of the serial port
  (\<^verbatim>\<open>open\<close> of src/src/serial_port.rs). The contents of a file are a parameter: \<open>None\<close> where it cannot be
  opened, and otherwise the value \<^verbatim>\<open>serde_json\<close> reads from it, where there is one.
\<close>

section \<open>Settings\<close>

record concurrent_config =
  cc_concurrency_limit :: nat
  cc_timeout :: u32

record meter_config =
  mc_init_timeout :: u32
  mc_uart_timeout :: u32
  mc_concurrent :: concurrent_config
  mc_meter_reading :: meter_reading_config
  mc_resume_interval :: u32

record plc_device_config =
  pc_port :: string

record mqtt_config =
  qc_username :: string
  qc_password :: string
  qc_service_ip :: string
  qc_service_port :: u16
  qc_client_id :: "string option"

record uart_config =
  uc_port :: string
  uc_baud_rate :: u32
  uc_word_length :: u8
  uc_parity :: string
  uc_stop_bit :: u8

record config =
  cf_meter_config :: meter_config
  cf_plc_device_config :: plc_device_config
  cf_mqtt_config :: mqtt_config
  cf_uart_config :: uart_config

section \<open>Reading the files\<close>

text \<open>\<^verbatim>\<open>usize\<close> is 64 bits wide; an object as the value of a field.\<close>

definition usize_field :: "json \<Rightarrow> string \<Rightarrow> nat result" where
  "usize_field v key = andThen (word_field v key :: 64 word result) (\<lambda>w. Ok (unat w))"

fun object_field :: "(json \<Rightarrow> 'a result) \<Rightarrow> json \<Rightarrow> string \<Rightarrow> 'a result" where
  "object_field f (JObj entries) key =
     (case map_of entries key of Some v \<Rightarrow> f v | None \<Rightarrow> Err InvalidJsonText)"
| "object_field f _ key = Err InvalidJsonText"

fun optional_string_field :: "json \<Rightarrow> string \<Rightarrow> string option result" where
  "optional_string_field (JObj entries) key =
     (case map_of entries key of
        None \<Rightarrow> Ok None
      | Some JNull \<Rightarrow> Ok None
      | Some (JStr s) \<Rightarrow> Ok (Some s)
      | _ \<Rightarrow> Err InvalidJsonText)"
| "optional_string_field _ key = Err InvalidJsonText"

definition concurrent_config_from_json :: "json \<Rightarrow> concurrent_config result" where
  "concurrent_config_from_json v =
     andThen (usize_field v ''concurrency_limit'') (\<lambda>limit.
     andThen (word_field v ''timeout'') (\<lambda>timeout.
     Ok \<lparr>cc_concurrency_limit = limit, cc_timeout = timeout\<rparr>))"

definition meter_reading_config_from_json :: "json \<Rightarrow> meter_reading_config result" where
  "meter_reading_config_from_json v =
     andThen (usize_field v ''cache_queue_size'') (\<lambda>queue_size.
     andThen (usize_field v ''concurrent_addr'') (\<lambda>addr.
     andThen (word_field v ''queue_aging_time'') (\<lambda>(aging :: u32).
     Ok \<lparr>mrc_cache_queue_size = queue_size, mrc_concurrent_addr = addr, mrc_queue_aging_time = uint aging\<rparr>)))"

definition meter_config_from_json :: "json \<Rightarrow> meter_config result" where
  "meter_config_from_json v =
     andThen (word_field v ''init_timeout'') (\<lambda>init.
     andThen (word_field v ''uart_timeout'') (\<lambda>uart.
     andThen (object_field concurrent_config_from_json v ''concurrent'') (\<lambda>concurrent.
     andThen (object_field meter_reading_config_from_json v ''meter_reading'') (\<lambda>meter_reading.
     andThen (word_field v ''resume_interval'') (\<lambda>resume.
     Ok \<lparr>mc_init_timeout = init, mc_uart_timeout = uart, mc_concurrent = concurrent,
         mc_meter_reading = meter_reading, mc_resume_interval = resume\<rparr>)))))"

definition plc_device_config_from_json :: "json \<Rightarrow> plc_device_config result" where
  "plc_device_config_from_json v = andThen (string_field v ''port'') (\<lambda>port. Ok \<lparr>pc_port = port\<rparr>)"

definition mqtt_config_from_json :: "json \<Rightarrow> mqtt_config result" where
  "mqtt_config_from_json v =
     andThen (string_field v ''Username'') (\<lambda>username.
     andThen (string_field v ''Password'') (\<lambda>password.
     andThen (string_field v ''ServiceIp'') (\<lambda>ip.
     andThen (word_field v ''ServicePort'') (\<lambda>port.
     andThen (optional_string_field v ''ClientId'') (\<lambda>client.
     Ok \<lparr>qc_username = username, qc_password = password, qc_service_ip = ip, qc_service_port = port,
         qc_client_id = client\<rparr>)))))"

definition uart_config_from_json :: "json \<Rightarrow> uart_config result" where
  "uart_config_from_json v =
     andThen (string_field v ''port'') (\<lambda>port.
     andThen (word_field v ''baudrate'') (\<lambda>baud_rate.
     andThen (word_field v ''wordlength'') (\<lambda>word_length.
     andThen (string_field v ''parity'') (\<lambda>parity.
     andThen (word_field v ''stopbit'') (\<lambda>stop_bit.
     Ok \<lparr>uc_port = port, uc_baud_rate = baud_rate, uc_word_length = word_length, uc_parity = parity,
         uc_stop_bit = stop_bit\<rparr>)))))"

type_synonym files = "string \<Rightarrow> json option option"

fun with_context :: "string \<Rightarrow> 'a result \<Rightarrow> 'a result" where
  "with_context c (Err e) = Err (Message c)"
| "with_context c r = r"

definition read_config :: "(json \<Rightarrow> 'a result) \<Rightarrow> files \<Rightarrow> string \<Rightarrow> 'a result" where
  "read_config from_json files path =
     (case files path of
        None \<Rightarrow> Err (Message (''Failed to open config file '' @ path))
      | Some content \<Rightarrow>
          with_context (''Failed to parse config file '' @ path)
            (case content of None \<Rightarrow> Err InvalidJsonText | Some v \<Rightarrow> from_json v))"

definition config_new :: "string \<Rightarrow> files \<Rightarrow> config result" where
  "config_new APP_PATH files =
     andThen (read_config meter_config_from_json files (APP_PATH @ ''/meter_config.json'')) (\<lambda>meter.
     andThen (read_config plc_device_config_from_json files (APP_PATH @ ''/plc_device.json'')) (\<lambda>plc.
     andThen (read_config mqtt_config_from_json files (APP_PATH @ ''/mqtt_server.json'')) (\<lambda>mqtt.
     andThen (read_config uart_config_from_json files (APP_PATH @ ''/com_setting.json'')) (\<lambda>uart.
     Ok \<lparr>cf_meter_config = meter, cf_plc_device_config = plc, cf_mqtt_config = mqtt, cf_uart_config = uart\<rparr>))))"

section \<open>Arguments\<close>

record concurrent_limit =
  cl_concurrency :: "nat option"
  cl_requests_per_second :: "string option"
  cl_timeout :: "u32 option"

record meter_reading_args =
  ma_queue_size :: "nat option"
  ma_max_addr_num :: "nat option"
  ma_aging_time :: "u32 option"

record args =
  ar_init_timeout :: "u32 option"
  ar_uart_timeout :: "u32 option"
  ar_file :: "string option"
  ar_concurrent_limit :: concurrent_limit
  ar_meter_reading :: meter_reading_args
  ar_resume :: "u32 option"

definition given :: "'a \<Rightarrow> 'a option \<Rightarrow> 'a" where
  "given x arg = (case arg of None \<Rightarrow> x | Some y \<Rightarrow> y)"

definition set_meter_config :: "meter_config \<Rightarrow> args \<Rightarrow> meter_config" where
  "set_meter_config c args =
     (let limit = ar_concurrent_limit args; reading = ar_meter_reading args; cc = mc_concurrent c; mr = mc_meter_reading c in
      \<lparr>mc_init_timeout = given (mc_init_timeout c) (ar_init_timeout args),
       mc_uart_timeout = given (mc_uart_timeout c) (ar_uart_timeout args),
       mc_concurrent =
         \<lparr>cc_concurrency_limit = given (cc_concurrency_limit cc) (cl_concurrency limit),
          cc_timeout = given (cc_timeout cc) (cl_timeout limit)\<rparr>,
       mc_meter_reading =
         \<lparr>mrc_cache_queue_size = given (mrc_cache_queue_size mr) (ma_queue_size reading),
          mrc_concurrent_addr = given (mrc_concurrent_addr mr) (ma_max_addr_num reading),
          mrc_queue_aging_time = given (mrc_queue_aging_time mr) (map_option uint (ma_aging_time reading))\<rparr>,
       mc_resume_interval = given (mc_resume_interval c) (ar_resume args)\<rparr>)"

section \<open>The serial port\<close>

datatype data_bits = FiveBits | SixBits | SevenBits | EightBits
datatype stop_bits = OneStopBit | TwoStopBits
datatype parity = NoParity | OddParity | EvenParity

record port_settings =
  ps_port :: string
  ps_baud_rate :: u32
  ps_data_bits :: data_bits
  ps_stop_bits :: stop_bits
  ps_parity :: parity

definition port_settings_of :: "uart_config \<Rightarrow> port_settings" where
  "port_settings_of c =
     \<lparr>ps_port = uc_port c, ps_baud_rate = uc_baud_rate c,
      ps_data_bits =
        (if uc_word_length c = 5 then FiveBits
         else if uc_word_length c = 6 then SixBits
         else if uc_word_length c = 7 then SevenBits
         else EightBits),
      ps_stop_bits = (if uc_stop_bit c = 2 then TwoStopBits else OneStopBit),
      ps_parity =
        (if uc_parity c = ''o'' \<or> uc_parity c = ''O'' then OddParity
         else if uc_parity c = ''e'' \<or> uc_parity c = ''E'' then EvenParity
         else NoParity)\<rparr>"

section \<open>What the service uses\<close>

text \<open>What \<^verbatim>\<open>PlcService::new\<close> and \<^verbatim>\<open>run\<close> hand on: the timeouts of the agent in milliseconds and seconds, that of the
  initialisation, the limits of meter reading and the interval after which metering is resumed.\<close>

definition used_settings :: "meter_config \<Rightarrow> u32 \<times> u32 \<times> u32 \<times> meter_reading_config \<times> u32" where
  "used_settings c =
     (mc_uart_timeout c, cc_timeout (mc_concurrent c), mc_init_timeout c, mc_meter_reading c, mc_resume_interval c)"

text \<open>The limit of concurrent requests, the request rate and the file for the node data are read and never used.\<close>

lemma unused_arguments:
  "used_settings (set_meter_config (c\<lparr>mc_concurrent := (mc_concurrent c)\<lparr>cc_concurrency_limit := n\<rparr>\<rparr>)
     (args\<lparr>ar_file := f, ar_concurrent_limit := (ar_concurrent_limit args)\<lparr>cl_concurrency := k, cl_requests_per_second := r\<rparr>\<rparr>))
   = used_settings (set_meter_config c args)"
  by (simp add: used_settings_def set_meter_config_def Let_def)

end
