(* ===== verification/Spec2Isabelle.thy ===== *)
theory Spec2Isabelle
  imports Message_Codecs Route_Get Stream_Reader Uart_Agent Concurrent_Meter Mqtt_Queue
    Route_Ctrl Module_Info File_Upgrade Node_File Hplc_Info Line_Services Identify_Area Reading_Path Configuration
begin

text \<open>
  A model of the service for PLC concentrator modules of this repository (src/src), with the theorems about it.

  The program. Applications on the device talk to the service over MQTT: they register meters, have meters
  read, pause the module, ask it about the network, upgrade it. The service talks to the module over a
  serial line, in frames with a checksum. These are its parts and what travels between them:

  \<^item> The client thread receives messages and queues them (mqtt_handler.rs), the request thread takes them
    from the queue by priority and calls the operation of the service registered for the topic.
  \<^item> A service (src/src/service) answers the message itself, or makes a frame and sends it to one of the two
    request threads of the serial agent (uart_agent.rs): one sends a request at a time and waits for its
    answer, the other keeps as many readings of meters under way as it is given.
  \<^item> The reading thread of the agent reassembles frames from the line (serial_port.rs), finds the request a
    frame answers, and calls the handler of answers (uart_handler.rs), which calls the service again. A
    timeout of a request is handled the same way.
  \<^item> The device thread powers the module, watches it and initialises it (plc_device.rs, plc_init.rs).

  The model is layered in the same way, each theory over those before it:

  \<^enum> The protocol. \<open>Prelude\<close> has words, byte lists and the type \<open>result\<close> of everything that can fail: \<open>Ok\<close>,
    \<open>Err\<close> for an error the caller sees and \<open>Panic\<close> for one that ends the thread (an index out of range, an
    \<^verbatim>\<open>unwrap\<close>, a loop that does not end). \<open>Errors\<close>: the error values.
    \<open>App_Data\<close>, \<open>Info_Field\<close>, \<open>User_Data\<close>, \<open>Frame_Codec\<close>: the parts of a frame (protocol/frame.rs,
    user_data.rs, info_field.rs, app_data/mod.rs) as records, with their constructors, encoders and decoders.
    \<open>Response_Codec\<close>, \<open>Message_Codecs\<close>, \<open>Active_Report\<close>, \<open>Query_Data\<close>, \<open>Route_Get\<close>: the messages of
    protocol/app_data, one record per type; a response decoder is an interpretation of one of the locales
    \<open>response_codec\<close>, \<open>total_codec\<close>, \<open>fixed_layout\<close> and \<open>counted_response\<close>, whose lemmas say that it
    accepts exactly the layout of its fields and never panics, where that is so.
  \<^enum> The line. \<open>Stream_Reader\<close>: the receive buffer and the loop that reads frames. \<open>Uart_Agent\<close>: the four
    threads of the agent as the step relation \<open>agent_step\<close> on \<open>agent\<close>, its timers and the poisoning of its
    lock included. Numbers of frames are bytes that wrap around, as is the counter of timeouts.
  \<^enum> MQTT. \<open>Mqtt_Messages\<close>: topics, JSON payloads and messages (mqtt_topic.rs, mqtt_message.rs).
    \<open>Requests\<close>: what travels between threads (request_info.rs, parse_response.rs). \<open>Mqtt_Queue\<close>: the
    comparison of messages, the binary heap of the standard library under it, the schema check and the
    receiving thread (mqtt_handler.rs, schema_check.rs).
  \<^enum> The services. \<open>Service_Threads\<close> has the programs they are written in: an operation sends messages,
    changes the state of its component and ends or waits on its condition variable, until another thread
    changes the state or the time is over. The components: \<open>Concurrent_Meter\<close>, \<open>Route_Ctrl\<close>,
    \<open>Module_Info\<close> (also meter_state.rs, master_address.rs, device_info.rs), \<open>Line_Services\<close> (broadcast.rs,
    control_cmd.rs, debug_method.rs, event_report.rs, route_data_request.rs, monitor_node.rs,
    data_transfer.rs), \<open>File_Upgrade\<close>, \<open>Node_Config\<close> and \<open>Node_Manage\<close>, \<open>Hplc_Info\<close>, \<open>Identify_Area\<close>:
    per component the record behind its lock and one definition per operation, named as in the source.
    \<open>Node_Storage\<close> relates the table of the meters to its database, \<open>Node_File\<close> has what the service never
    calls of it, the variant that is kept in a JSON file included.
  \<^enum> The whole. \<open>Services\<close> puts the components' states together, so that each operation is one of the whole.
    \<open>Uart_Dispatch\<close> (uart_handler.rs) and \<open>Mqtt_Dispatch\<close> (the topics and the request thread of
    mqtt_handler.rs) call them; \<open>Plc_Init\<close> and \<open>Plc_Device\<close> are the initialisation and the device thread;
    \<open>Configuration\<close> the settings (config.rs, cli.rs). \<open>Plc_Service\<close> is the start-up (lib.rs) and the set
    \<open>service_programs\<close> of everything that runs afterwards; \<open>Interleaving\<close> runs any number of programs on one
    state, taking turns at their waits.

  The lemmas. Of the protocol: round trips between records and bytes, exactness of the decoders, which input
  panics, and that a frame is rejected when one byte of it is changed. Of the line: any cutting of the
  stream gives back the frames; in all states of the agent each request taken ends exactly once, with the
  answer that carries its number; what a late timer does. Of the queue: the heap is correct for an ordered
  comparison (locale \<open>ordered_heap\<close>), and what it does with the comparison of the code. Of the services: the
  refinement of abstract specifications (one bounded queue per meter; the contracts of registering and
  deleting a chunk), the database that follows the table of the meters and restores it (and what a deletion leaves
  in it), the traces of the operations that wait, with the answers that arrive meanwhile, and the
  behaviour on errors and lost answers. Of the whole: \<open>Reading_Path\<close> follows a meter reading through all
  parts, from the message of an application to the report it gets, answered or not; \<open>Kept\<close> is a logic of
  invariants of programs (locale \<open>component\<close> carries one from a service to the whole), \<open>Owned\<close> one for a part of
  the state that only one thread changes; \<open>Interleaving\<close> turns both into facts about every reachable state.

  Parameters. What the third-party crates compute is an argument where it is used: the conversions of dates
  (chrono), hexadecimal texts, timestamps and the texts of library errors, the schema checker, the operations of
  the database, the order of a hash map, the contents of files, and what the device driver returns. Nothing is assumed
  of them except where a theorem says so, and then its witness gives an instance.

  Bounds. Where a loop of the code has no bound of its own, its model has one on its rounds, and reaching it is
  \<open>Panic NeverReturns\<close>. The pages of a query: \<open>PAGE_ROUNDS\<close> is 65536, enough for a total of 16 bits as long as
  no page is empty; the lemmas hold for every bound at least the number of pages. The rounds of a search are an
  argument, and the theorem holds for every bound at least two above the number of wake-ups. So are the rounds of the
  wait for the upgrade of the module itself: two are enough when the module reports its end, and none is when an
  answer comes late (theory \<open>File_Upgrade\<close>). Bounds of the
  code keep their values: 60 queries for the serial number, 3 for the own address, 40 polls of an upgrade, 200
  checks of the device.

  Not modelled. main.rs and logging; the \<^verbatim>\<open>Display\<close> implementations, which only logging uses; opening the
  serial port, the files, the database and the connection to the MQTT broker, and reconnecting; the parsing of
  the command line (clap); functions with a leading underscore, which are never called, outside node_config.rs;
  the unit tests. Of JSON, objects with a key twice, and structs given as an array of their fields, which serde also
  reads. Statements between two waits of a
  thread are one step: between them the code holds the lock of the component, except in the agent, whose
  steps are finer where the code takes its lock more than once. Memory and files are unlimited, sends on
  channels succeed.
\<close>

end
